(* ===== verification/Prelude.thy ===== *)
theory Prelude
  imports
    Main
    "HOL-Library.AList"
    "HOL-Library.List_Lexorder"
    "HOL-Library.Char_ord"
begin

text \<open>
  The vocabulary shared by every component of the inventory-service model: the collections of
  lemmas the component proofs simplify with, Go's built-in maps, PostgreSQL's and Go's 64-bit
  integers, and generic facts about association-list tables and sums over them.
\<close>

section \<open>Collections\<close>

named_theorems table_simps \<open>how a row write changes one table\<close>
named_theorems wp_intros \<open>one Hoare rule per combinator and per database call\<close>
named_theorems quiet_simps \<open>evaluation of a program without faults or interference\<close>

section \<open>64-bit integers\<close>

text \<open>
  Go's \<open>int64\<close> wraps around on overflow; PostgreSQL's \<open>BIGINT\<close> raises an error instead, so
  the two get different primitives over \<open>int\<close>.
\<close>

definition int64_range :: "int \<Rightarrow> bool" where
  "int64_range x \<longleftrightarrow> - (2 ^ 63) \<le> x \<and> x < 2 ^ 63"

definition wrap64 :: "int \<Rightarrow> int" where
  "wrap64 x = (x + 2 ^ 63) mod 2 ^ 64 - 2 ^ 63"

lemma wrap64_id: "int64_range x \<Longrightarrow> wrap64 x = x"
  by (simp add: int64_range_def wrap64_def)

lemma wrap64_range: "int64_range (wrap64 x)"
proof -
  have "0 \<le> (x + 2 ^ 63) mod 2 ^ 64" "(x + 2 ^ 63) mod 2 ^ 64 < (2 ^ 64 :: int)"
    by simp_all
  then show ?thesis
    by (simp add: int64_range_def wrap64_def)
qed

section \<open>Go maps\<close>

text \<open>
  Reading a missing key of a Go map yields the zero value of its value type: 0 for
  \<open>map[string]int64\<close>, the nil map for a map of maps, false for \<open>map[string]bool\<close>. Reading a nil
  map is the same as reading an empty one.
\<close>

definition mget :: "('k \<rightharpoonup> int) \<Rightarrow> 'k \<Rightarrow> int" where
  "mget m k = (case m k of None \<Rightarrow> 0 | Some v \<Rightarrow> v)"

definition mget_map :: "('k \<rightharpoonup> ('j \<rightharpoonup> 'v)) \<Rightarrow> 'k \<Rightarrow> ('j \<rightharpoonup> 'v)" where
  "mget_map m k = (case m k of None \<Rightarrow> Map.empty | Some v \<Rightarrow> v)"

definition mget_bool :: "('k \<rightharpoonup> bool) \<Rightarrow> 'k \<Rightarrow> bool" where
  "mget_bool m k = (case m k of None \<Rightarrow> False | Some v \<Rightarrow> v)"

lemma mget_simps [simp]:
  "mget Map.empty k = 0"
  "mget (m(k \<mapsto> v)) k = v"
  "k \<noteq> k' \<Longrightarrow> mget (m(k' \<mapsto> v)) k = mget m k"
  by (simp_all add: mget_def)

lemma mget_map_simps [simp]:
  "mget_map Map.empty k = Map.empty"
  "mget_map (m(k \<mapsto> v)) k = v"
  "k \<noteq> k' \<Longrightarrow> mget_map (m(k' \<mapsto> v)) k = mget_map m k"
  by (simp_all add: mget_map_def)

section \<open>Tables as association lists\<close>

text \<open>
  A table with a primary key is an association list from the key to the row. The writes of a
  transaction are replayed on it in order with \<open>AList.update\<close>.
\<close>

definition replay :: "('k \<times> 'r) list \<Rightarrow> ('k \<times> 'r) list \<Rightarrow> ('k \<times> 'r) list" where
  "replay us t = fold (\<lambda>(k, r). AList.update k r) us t"

lemma replay_Nil [simp]: "replay [] t = t"
  and replay_Cons [simp]: "replay ((k, r) # us) t = replay us (AList.update k r t)"
  and replay_append: "replay (us @ vs) t = replay vs (replay us t)"
  by (simp_all add: replay_def)

lemma map_of_replay: "map_of (replay us t) = map_of t ++ map_of (rev us)"
proof (induction us arbitrary: t)
  case Nil
  then show ?case by simp
next
  case (Cons u us)
  obtain k r where "u = (k, r)" by (cases u)
  with Cons show ?case
    by (simp add: AList.update_conv' map_add_upd_left fun_eq_iff map_add_def split: option.splits)
qed

lemma map_of_rev_distinct: "distinct (map fst us) \<Longrightarrow> map_of (rev us) = map_of us"
proof (rule ext)
  fix k
  assume d: "distinct (map fst us)"
  then have "\<And>v. map_of (rev us) k = Some v \<longleftrightarrow> map_of us k = Some v"
    by (simp add: map_of_eq_Some_iff rev_map [symmetric])
  then show "map_of (rev us) k = map_of us k"
    by (metis option.exhaust)
qed

lemma map_of_replay_distinct:
  "distinct (map fst us) \<Longrightarrow> map_of (replay us t) = map_of t ++ map_of us"
  by (simp add: map_of_replay map_of_rev_distinct)

end
