(* ===== verification/Go_Values.thy ===== *)
theory Go_Values
  imports Prelude
begin

text \<open>
  The parts of the Go language and standard library the service uses as plain values: the decimal
  rendering of integers (\<open>strconv.FormatInt(x, 10)\<close> and the verb \<open>%d\<close>) and error values with
  their wrapping, \<open>errors.Is\<close> and \<open>errors.As\<close>.
\<close>

section \<open>Decimal rendering\<close>

definition digit_char :: "nat \<Rightarrow> char" where
  "digit_char d = char_of (48 + d)"

fun format_nat :: "nat \<Rightarrow> string" where
  "format_nat n = (if n < 10 then [digit_char n] else format_nat (n div 10) @ [digit_char (n mod 10)])"

declare format_nat.simps [simp del]

definition FormatInt :: "int \<Rightarrow> string" where
  "FormatInt x = (if x < 0 then CHR ''-'' # format_nat (nat (- x)) else format_nat (nat x))"

definition is_digit :: "char \<Rightarrow> bool" where
  "is_digit c \<longleftrightarrow> 48 \<le> (of_char c :: nat) \<and> (of_char c :: nat) \<le> 57"

lemma of_char_digit_char: "d < 10 \<Longrightarrow> (of_char (digit_char d) :: nat) = 48 + d"
  unfolding digit_char_def by (subst of_char_of) simp

lemma digit_char_inj: "d < 10 \<Longrightarrow> e < 10 \<Longrightarrow> digit_char d = digit_char e \<Longrightarrow> d = e"
  by (metis add_left_cancel of_char_digit_char)

lemma is_digit_digit_char: "d < 10 \<Longrightarrow> is_digit (digit_char d)"
  by (simp add: is_digit_def of_char_digit_char)

lemma format_nat_digits: "\<forall>c \<in> set (format_nat n). is_digit c"
proof (induction n rule: format_nat.induct)
  case (1 n)
  then show ?case
    by (subst format_nat.simps) (auto simp: is_digit_digit_char)
qed

lemma format_nat_nonempty: "format_nat n \<noteq> []"
  by (subst format_nat.simps) simp

text \<open>The digits determine the number: evaluating them from the left is a left inverse.\<close>

definition digits_value :: "string \<Rightarrow> nat" where
  "digits_value s = foldl (\<lambda>acc c. 10 * acc + ((of_char c :: nat) - 48)) 0 s"

lemma digits_value_format_nat: "digits_value (format_nat n) = n"
proof (induction n rule: format_nat.induct)
  case (1 n)
  show ?case
  proof (cases "n < 10")
    case True
    then show ?thesis
      by (subst format_nat.simps) (simp add: digits_value_def of_char_digit_char)
  next
    case False
    with 1 have "digits_value (format_nat (n div 10)) = n div 10" by simp
    with False show ?thesis
      by (subst format_nat.simps) (simp add: digits_value_def of_char_digit_char)
  qed
qed

lemma format_nat_inject [simp]: "format_nat m = format_nat n \<longleftrightarrow> m = n"
  using digits_value_format_nat by metis

lemma is_digit_minus [simp]: "\<not> is_digit (CHR ''-'')"
  by (simp add: is_digit_def)

lemma FormatInt_inject [simp]: "FormatInt x = FormatInt y \<longleftrightarrow> x = y"
proof -
  have sign: "CHR ''-'' # s \<noteq> format_nat n" for s n
    using format_nat_digits [of n] by (metis is_digit_minus list.set_intros(1))
  show ?thesis
    using sign sign [symmetric] by (auto simp: FormatInt_def)
qed

lemma FormatInt_chars: "c \<in> set (FormatInt x) \<Longrightarrow> is_digit c \<or> c = CHR ''-''"
  using format_nat_digits by (auto simp: FormatInt_def split: if_splits)

lemma FormatInt_no_separator: "CHR '':'' \<notin> set (FormatInt x)" "CHR ''|'' \<notin> set (FormatInt x)"
  by (auto dest!: FormatInt_chars simp: is_digit_def)

section \<open>Errors\<close>

text \<open>
  The package-level sentinel errors of \<open>internal/core/domain\<close> and \<open>internal/logic/v1\<close>, the
  repository's private \<open>errOrderRefTaken\<close>, and the two foreign sentinels the code tests for,
  \<open>pgx.ErrNoRows\<close> and \<open>context.Canceled\<close>.
\<close>

datatype sentinel =
    ErrInvalidCommand
  | ErrCommandConflict
  | ErrInsufficientOnHand
  | ErrBalanceNotFound
  | ErrInsufficientStock
  | ErrUnknownSKU
  | ErrIdempotencyConflict
  | ErrInvalidTransition
  | ErrReservationNotFound
  | ErrConcurrencyConflict
  | ErrNonPositiveQuantity
  | errOrderRefTaken
  | ErrNoRows
  | Canceled

text \<open>\<open>domain.Shortage\<close>: a line that cannot be fulfilled and by how much.\<close>

record Shortage =
  sh_SKUID :: string
  sh_Requested :: int
  sh_ATP :: int

text \<open>
  An error value is a tree of wrappers. \<open>Wrapf pre e post\<close> is \<open>fmt.Errorf(pre + "%w" + post, e)\<close>
  and \<open>Wrap2 a b\<close> is \<open>fmt.Errorf("%w: %w", a, b)\<close>; \<open>PgError code\<close> is a \<open>*pgconn.PgError\<close> with
  its SQLSTATE; \<open>InsufficientStockError\<close> and \<open>UnknownSKUError\<close> are the two structured domain
  errors, whose \<open>Unwrap\<close> yields their sentinel.
\<close>

datatype goerr =
    Sentinel sentinel
  | ErrorsNew string
  | PgError string
  | InsufficientStockError "Shortage list"
  | UnknownSKUError "string list"
  | Wrapf string goerr string
  | Wrap2 goerr goerr

fun errors_Is :: "goerr \<Rightarrow> sentinel \<Rightarrow> bool" where
  "errors_Is (Sentinel s) t = (s = t)"
| "errors_Is (ErrorsNew msg) t = False"
| "errors_Is (PgError code) t = False"
| "errors_Is (InsufficientStockError shortages) t = (t = ErrInsufficientStock)"
| "errors_Is (UnknownSKUError ids) t = (t = ErrUnknownSKU)"
| "errors_Is (Wrapf pre e post) t = errors_Is e t"
| "errors_Is (Wrap2 a b) t = (errors_Is a t \<or> errors_Is b t)"

text \<open>\<open>errors.As(err, &pgErr)\<close>: the SQLSTATE of the first \<open>PgError\<close> in depth-first order.\<close>

fun errors_As_PgError :: "goerr \<Rightarrow> string option" where
  "errors_As_PgError (PgError code) = Some code"
| "errors_As_PgError (Wrapf pre e post) = errors_As_PgError e"
| "errors_As_PgError (Wrap2 a b) =
     (case errors_As_PgError a of None \<Rightarrow> errors_As_PgError b | Some code \<Rightarrow> Some code)"
| "errors_As_PgError _ = None"

abbreviation errorf_w :: "string \<Rightarrow> goerr \<Rightarrow> goerr" where
  "errorf_w pre e \<equiv> Wrapf pre e ''''"

end
