(* ===== verification/Sha256.thy ===== *)
theory Sha256
  imports Go_Values
begin

text \<open>
  The standard-library digest the canonical request hash is made with:
  \<open>hex.EncodeToString(sha256.Sum256(b))\<close> over the bytes of a string, computed as FIPS 180-4
  specifies it, on 32-bit unsigned integers with wrap-around addition. It is executable, so the hash of a
  concrete request can be evaluated, and its output is shown to be 64 lower-case hexadecimal
  digits, which is what the \<open>request_hash VARCHAR(128)\<close> column stores.
\<close>

unbundle bit_operations_syntax

text \<open>A \<open>uint32\<close> is an integer in \<open>[0, 2^32)\<close>; additions and left shifts are reduced mod \<open>2^32\<close>.\<close>

type_synonym u32 = int

definition trunc32 :: "int \<Rightarrow> u32" where
  "trunc32 x = x mod 2 ^ 32"

definition sha_K :: "u32 list" where
  "sha_K =
    [1116352408, 1899447441, 3049323471, 3921009573, 961987163, 1508970993,
     2453635748, 2870763221, 3624381080, 310598401, 607225278, 1426881987,
     1925078388, 2162078206, 2614888103, 3248222580, 3835390401, 4022224774,
     264347078, 604807628, 770255983, 1249150122, 1555081692, 1996064986,
     2554220882, 2821834349, 2952996808, 3210313671, 3336571891, 3584528711,
     113926993, 338241895, 666307205, 773529912, 1294757372, 1396182291,
     1695183700, 1986661051, 2177026350, 2456956037, 2730485921, 2820302411,
     3259730800, 3345764771, 3516065817, 3600352804, 4094571909, 275423344,
     430227734, 506948616, 659060556, 883997877, 958139571, 1322822218,
     1537002063, 1747873779, 1955562222, 2024104815, 2227730452, 2361852424,
     2428436474, 2756734187, 3204031479, 3329325298]"

definition rotr32 :: "nat \<Rightarrow> u32 \<Rightarrow> u32" where
  "rotr32 n x = (drop_bit n x OR trunc32 (push_bit (32 - n) x))"

definition small_sigma0 :: "u32 \<Rightarrow> u32" where
  "small_sigma0 x = (rotr32 7 x XOR rotr32 18 x XOR drop_bit 3 x)"

definition small_sigma1 :: "u32 \<Rightarrow> u32" where
  "small_sigma1 x = (rotr32 17 x XOR rotr32 19 x XOR drop_bit 10 x)"

definition big_sigma0 :: "u32 \<Rightarrow> u32" where
  "big_sigma0 x = (rotr32 2 x XOR rotr32 13 x XOR rotr32 22 x)"

definition big_sigma1 :: "u32 \<Rightarrow> u32" where
  "big_sigma1 x = (rotr32 6 x XOR rotr32 11 x XOR rotr32 25 x)"

record sha_state =
  sa :: u32  sb :: u32  sc :: u32  sd :: u32
  se :: u32  sf :: u32  sg :: u32  sh :: u32

definition sha_init :: sha_state where
  "sha_init = \<lparr>sa = 1779033703, sb = 3144134277, sc = 1013904242, sd = 2773480762,
     se = 1359893119, sf = 2600822924, sg = 528734635, sh = 1541459225\<rparr>"

text \<open>
  One round consumes the first word of a sixteen-word window of the message schedule; the window
  then slides by one, its new last word being the schedule's recurrence.
\<close>

definition sha_round :: "u32 \<Rightarrow> u32 \<Rightarrow> sha_state \<Rightarrow> sha_state" where
  "sha_round k w s =
     (let t1 = trunc32 (sh s + big_sigma1 (se s) + ((se s AND sf s) XOR (NOT (se s) AND sg s)) + k + w);
          t2 = trunc32 (big_sigma0 (sa s) + ((sa s AND sb s) XOR (sa s AND sc s) XOR (sb s AND sc s)))
      in \<lparr>sa = trunc32 (t1 + t2), sb = sa s, sc = sb s, sd = sc s,
          se = trunc32 (sd s + t1), sf = se s, sg = sf s, sh = sg s\<rparr>)"

definition sha_slide :: "u32 list \<Rightarrow> u32 list" where
  "sha_slide w = tl w @ [trunc32 (small_sigma1 (w ! 14) + w ! 9 + small_sigma0 (w ! 1) + w ! 0)]"

fun sha_rounds :: "u32 list \<Rightarrow> u32 list \<Rightarrow> sha_state \<Rightarrow> sha_state" where
  "sha_rounds [] w s = s"
| "sha_rounds (k # ks) w s = sha_rounds ks (sha_slide w) (sha_round k (hd w) s)"

definition sha_add :: "sha_state \<Rightarrow> sha_state \<Rightarrow> sha_state" where
  "sha_add s t =
     \<lparr>sa = trunc32 (sa s + sa t), sb = trunc32 (sb s + sb t), sc = trunc32 (sc s + sc t), sd = trunc32 (sd s + sd t),
      se = trunc32 (se s + se t), sf = trunc32 (sf s + sf t), sg = trunc32 (sg s + sg t), sh = trunc32 (sh s + sh t)\<rparr>"

definition sha_block :: "u32 list \<Rightarrow> sha_state \<Rightarrow> sha_state" where
  "sha_block w s = sha_add s (sha_rounds sha_K w s)"

fun be_words :: "int list \<Rightarrow> u32 list" where
  "be_words (a # b # c # d # rest) =
     (((a * 256 + b) * 256 + c) * 256 + d) # be_words rest"
| "be_words _ = []"

definition be_bytes64 :: "int \<Rightarrow> int list" where
  "be_bytes64 n =
     [n div 2 ^ 56 mod 256, n div 2 ^ 48 mod 256, n div 2 ^ 40 mod 256, n div 2 ^ 32 mod 256,
      n div 2 ^ 24 mod 256, n div 2 ^ 16 mod 256, n div 2 ^ 8 mod 256, n mod 256]"

definition sha_pad :: "int list \<Rightarrow> int list" where
  "sha_pad m =
     (let n = int (length m)
      in m @ [128] @ replicate (nat ((119 - n mod 64) mod 64)) 0 @ be_bytes64 (8 * n))"

fun sha_blocks :: "nat \<Rightarrow> u32 list \<Rightarrow> sha_state \<Rightarrow> sha_state" where
  "sha_blocks 0 ws s = s"
| "sha_blocks (Suc n) ws s = sha_blocks n (drop 16 ws) (sha_block (take 16 ws) s)"

definition Sum256 :: "string \<Rightarrow> sha_state" where
  "Sum256 msg =
     (let ws = be_words (sha_pad (map of_char msg))
      in sha_blocks (length ws div 16) ws sha_init)"

definition hex_digit :: "int \<Rightarrow> char" where
  "hex_digit d = ''0123456789abcdef'' ! nat (d mod 16)"

definition hex_word :: "u32 \<Rightarrow> string" where
  "hex_word x =
     map (\<lambda>d. hex_digit (x div d)) [2 ^ 28, 2 ^ 24, 2 ^ 20, 2 ^ 16, 2 ^ 12, 2 ^ 8, 2 ^ 4, 1]"

definition sha256_hex :: "string \<Rightarrow> string" where
  "sha256_hex msg =
     (let s = Sum256 msg
      in concat (map hex_word [sa s, sb s, sc s, sd s, se s, sf s, sg s, sh s]))"

lemma length_hex_word [simp]: "length (hex_word x) = 8"
  by (simp add: hex_word_def)

lemma hex_digit_charset: "hex_digit d \<in> set ''0123456789abcdef''"
  unfolding hex_digit_def by (rule nth_mem) (simp add: nat_less_iff)

lemma set_hex_word: "set (hex_word x) \<subseteq> set ''0123456789abcdef''"
  using hex_digit_charset by (auto simp only: hex_word_def set_map)

lemma length_sha256_hex [simp]: "length (sha256_hex msg) = 64"
  by (simp add: sha256_hex_def Let_def)

lemma set_sha256_hex: "set (sha256_hex msg) \<subseteq> set ''0123456789abcdef''"
  unfolding sha256_hex_def Let_def using set_hex_word by (simp del: list.set add: set_concat)

text \<open>Two FIPS 180-4 test vectors, of one and of two blocks.\<close>

lemma sha256_abc:
  "sha256_hex ''abc'' = ''ba7816bf8f01cfea414140de5dae2223b00361a396177a9cb410ff61f20015ad''"
  by code_simp

lemma sha256_two_blocks:
  "sha256_hex ''abcdbcdecdefdefgefghfghighijhijkijkljklmklmnlmnomnopnopq'' =
   ''248d6a61d20638b8e5c026930c3e6039a33ce45964ff2167f6ecedd419db06c1''"
  by code_simp

end
