(* ===== verification/Domain_Types.thy ===== *)
theory Domain_Types
  imports Sha256 "HOL-Library.Multiset"
begin

text \<open>
  \<open>internal/core/domain\<close>: the value types shared by the logic, repository and transport layers,
  the validation of stock commands, the aggregation of basket lines and the canonical request hash.
  An \<open>int64\<close> field is an \<open>int\<close>; Go additions on it go through \<open>wrap64\<close>.
\<close>

section \<open>Stock commands (inventory.go)\<close>

definition MovementReceive :: string where "MovementReceive = ''RECEIVE''"
definition MovementAdjust :: string where "MovementAdjust = ''ADJUST''"
definition MovementSetSafetyStock :: string where "MovementSetSafetyStock = ''SET_SAFETY_STOCK''"
definition MovementReserve :: string where "MovementReserve = ''RESERVE''"
definition MovementRelease :: string where "MovementRelease = ''RELEASE''"
definition MovementSaleCommitted :: string where "MovementSaleCommitted = ''SALE_COMMITTED''"
definition MovementReturn :: string where "MovementReturn = ''RETURN''"

lemmas movement_type_defs =
  MovementReceive_def MovementAdjust_def MovementSetSafetyStock_def MovementReserve_def
  MovementRelease_def MovementSaleCommitted_def MovementReturn_def

record StockCommand =
  cmd_CommandID :: string
  cmd_SKUID :: string
  cmd_WarehouseID :: int
  cmd_Quantity :: int
  cmd_Reason :: string
  cmd_Actor :: string

text \<open>\<open>len\<close> of a Go string counts bytes, as \<open>length\<close> of a HOL string does.\<close>

definition Validate :: "StockCommand \<Rightarrow> goerr option" where
  "Validate c =
     (if cmd_CommandID c = '''' then Some (ErrorsNew ''command_id must not be empty'')
      else if length (cmd_CommandID c) > 255 then
        Some (ErrorsNew (''command_id must be <= 255 chars, got '' @ FormatInt (int (length (cmd_CommandID c)))))
      else if cmd_SKUID c = '''' then Some (ErrorsNew ''sku_id must not be empty'')
      else if length (cmd_SKUID c) > 64 then
        Some (ErrorsNew (''sku_id must be <= 64 chars, got '' @ FormatInt (int (length (cmd_SKUID c)))))
      else if cmd_WarehouseID c \<le> 0 then
        Some (ErrorsNew (''warehouse_id must be > 0, got '' @ FormatInt (cmd_WarehouseID c)))
      else if length (cmd_Actor c) > 64 then
        Some (ErrorsNew (''actor must be <= 64 chars, got '' @ FormatInt (int (length (cmd_Actor c)))))
      else None)"

section \<open>Reservations (reservation.go)\<close>

definition ReservationReserved :: string where "ReservationReserved = ''reserved''"
definition ReservationCommitted :: string where "ReservationCommitted = ''committed''"
definition ReservationReleased :: string where "ReservationReleased = ''released''"
definition ReservationExpired :: string where "ReservationExpired = ''expired''"

lemmas reservation_status_defs =
  ReservationReserved_def ReservationCommitted_def ReservationReleased_def ReservationExpired_def

record Line =
  ln_SKUID :: string
  ln_Quantity :: int

record ReservationRequest =
  rq_ID :: string
  rq_OrderID :: string
  rq_Items :: "Line list"
  rq_DestinationRegion :: string
  rq_ExpiresAt :: string

record Allocation =
  al_SKUID :: string
  al_WarehouseID :: int
  al_Quantity :: int

record ReservationResult =
  rr_ID :: string
  rr_Status :: string
  rr_Allocations :: "Allocation list"
  rr_Replayed :: bool

record Reservation =
  rv_ID :: string
  rv_OrderID :: string
  rv_Status :: string
  rv_Allocations :: "Allocation list"
  rv_CreatedAt :: string
  rv_UpdatedAt :: string
  rv_ExpiresAt :: string

section \<open>AggregateLines\<close>

text \<open>
  The loop keeps the output slice and an index from SKU to position; a repeated SKU adds its
  quantity in place, \<open>out[i].Quantity += it.Quantity\<close> wrapping as Go's \<open>int64\<close> does.
\<close>

fun aggregate_loop :: "Line list \<Rightarrow> Line list \<Rightarrow> (string \<rightharpoonup> nat) \<Rightarrow> Line list" where
  "aggregate_loop [] out index = out"
| "aggregate_loop (it # items) out index =
     (case index (ln_SKUID it) of
        Some i \<Rightarrow>
          aggregate_loop items
            (out[i := (out ! i)\<lparr>ln_Quantity := wrap64 (ln_Quantity (out ! i) + ln_Quantity it)\<rparr>]) index
      | None \<Rightarrow> aggregate_loop items (out @ [it]) (index(ln_SKUID it \<mapsto> length out)))"

definition AggregateLines :: "Line list \<Rightarrow> Line list" where
  "AggregateLines items = aggregate_loop items [] Map.empty"

section \<open>CanonicalHash\<close>

text \<open>
  The bytes written to the builder: \<open>sku:qty|\<close> for every line in ascending SKU order (Go compares
  strings bytewise, as the lexicographic order on \<open>string\<close> does), then \<open>dest:\<close> and the region.
  \<open>sort.Slice\<close> is not stable, but its callers pass aggregated lines, whose SKUs are distinct.
\<close>

definition encode_line :: "Line \<Rightarrow> string" where
  "encode_line l = ln_SKUID l @ '':'' @ FormatInt (ln_Quantity l) @ ''|''"

definition canonical_bytes :: "Line list \<Rightarrow> string \<Rightarrow> string" where
  "canonical_bytes items region =
     concat (map encode_line (sort_key ln_SKUID items)) @ ''dest:'' @ region"

definition CanonicalHash :: "Line list \<Rightarrow> string \<Rightarrow> string" where
  "CanonicalHash items region = sha256_hex (canonical_bytes items region)"


section \<open>Facts about aggregation\<close>

text \<open>
  The loop without its index: a line whose SKU was already seen is added into the line that holds
  it, any other is appended. \<open>index_ok\<close> relates Go's index map to the output slice.
\<close>

definition aggregate_step :: "Line list \<Rightarrow> Line \<Rightarrow> Line list" where
  "aggregate_step out it =
     (if ln_SKUID it \<in> ln_SKUID ` set out
      then map (\<lambda>l. if ln_SKUID l = ln_SKUID it
                    then l\<lparr>ln_Quantity := wrap64 (ln_Quantity l + ln_Quantity it)\<rparr> else l) out
      else out @ [it])"

definition index_ok :: "Line list \<Rightarrow> (string \<rightharpoonup> nat) \<Rightarrow> bool" where
  "index_ok out index \<longleftrightarrow>
     distinct (map ln_SKUID out) \<and>
     (\<forall>s i. index s = Some i \<longleftrightarrow> i < length out \<and> ln_SKUID (out ! i) = s)"

lemma index_ok_Nil: "index_ok [] Map.empty"
  by (simp add: index_ok_def)

lemma index_ok_None:
  assumes "index_ok out index" "index s = None"
  shows "s \<notin> ln_SKUID ` set out"
proof
  assume "s \<in> ln_SKUID ` set out"
  then obtain i where "i < length out" "ln_SKUID (out ! i) = s"
    by (auto simp: in_set_conv_nth)
  with assms(1) have "index s = Some i"
    by (simp add: index_ok_def)
  with assms(2) show False by simp
qed

lemma index_ok_snoc:
  assumes "index_ok out index" "index (ln_SKUID it) = None"
  shows "index_ok (out @ [it]) (index(ln_SKUID it \<mapsto> length out))"
proof -
  have fresh: "ln_SKUID it \<notin> ln_SKUID ` set out" by (rule index_ok_None [OF assms])
  then have "\<forall>i < length out. ln_SKUID (out ! i) \<noteq> ln_SKUID it"
    by (metis image_eqI nth_mem)
  with fresh assms show ?thesis
    by (auto simp: index_ok_def nth_append less_Suc_eq)
qed

lemma map_update_at:
  assumes "distinct (map f xs)" "i < length xs"
  shows "map (\<lambda>x. if f x = f (xs ! i) then g x else x) xs = xs[i := g (xs ! i)]"
  using assms by (intro nth_equalityI) (auto simp: nth_list_update distinct_conv_nth)

lemma aggregate_loop_step:
  "index_ok out index \<Longrightarrow> aggregate_loop items out index = foldl aggregate_step out items"
proof (induction items arbitrary: out index)
  case Nil
  then show ?case by simp
next
  case (Cons it items)
  show ?case
  proof (cases "index (ln_SKUID it)")
    case None
    with Cons.prems have "ln_SKUID it \<notin> ln_SKUID ` set out" by (rule index_ok_None)
    then have "aggregate_step out it = out @ [it]" by (simp add: aggregate_step_def)
    moreover have "aggregate_loop (it # items) out index =
        aggregate_loop items (out @ [it]) (index(ln_SKUID it \<mapsto> length out))"
      by (simp add: None)
    ultimately show ?thesis
      using Cons.IH [OF index_ok_snoc [OF Cons.prems None]] by (simp only: foldl_Cons)
  next
    case (Some i)
    let ?g = "\<lambda>l. l\<lparr>ln_Quantity := wrap64 (ln_Quantity l + ln_Quantity it)\<rparr>"
    from Some Cons.prems have i: "i < length out" "ln_SKUID (out ! i) = ln_SKUID it"
      and d: "distinct (map ln_SKUID out)"
      by (auto simp: index_ok_def)
    have "ln_SKUID it \<in> ln_SKUID ` set out"
      using i by (metis image_eqI nth_mem)
    then have step: "aggregate_step out it = out[i := ?g (out ! i)]"
      using i(2) map_update_at [OF d i(1), of ?g] by (simp add: aggregate_step_def)
    have same: "map ln_SKUID (out[i := ?g (out ! i)]) = map ln_SKUID out"
      using i by (simp add: map_update list_update_same_conv)
    have "j < length out \<Longrightarrow> ln_SKUID (out[i := ?g (out ! i)] ! j) = ln_SKUID (out ! j)" for j
      by (cases "j = i") simp_all
    with same Cons.prems have "index_ok (out[i := ?g (out ! i)]) index"
      by (simp add: index_ok_def cong: conj_cong)
    with Some step Cons.IH show ?thesis by simp
  qed
qed

lemma AggregateLines_foldl: "AggregateLines items = foldl aggregate_step [] items"
  by (simp add: AggregateLines_def aggregate_loop_step index_ok_Nil)

lemma AggregateLines_Nil [simp]: "AggregateLines [] = []"
  and AggregateLines_snoc:
    "AggregateLines (items @ [it]) = aggregate_step (AggregateLines items) it"
  by (simp_all add: AggregateLines_foldl)

lemma aggregate_step_SKUIDs:
  "map ln_SKUID (aggregate_step out it) =
     (if ln_SKUID it \<in> ln_SKUID ` set out then map ln_SKUID out
      else map ln_SKUID out @ [ln_SKUID it])"
  by (auto simp: aggregate_step_def)

text \<open>The SKUs in first-seen order: \<open>remdups\<close> keeps last occurrences, so it works on the reverse.\<close>

definition first_seen :: "'a list \<Rightarrow> 'a list" where
  "first_seen xs = rev (remdups (rev xs))"

lemma AggregateLines_SKUIDs:
  "map ln_SKUID (AggregateLines items) = first_seen (map ln_SKUID items)"
proof (induction items rule: rev_induct)
  case Nil
  then show ?case by (simp add: first_seen_def)
next
  case (snoc it items)
  have "ln_SKUID ` set (AggregateLines items) = ln_SKUID ` set items"
    using arg_cong [OF snoc, of set] by (simp add: first_seen_def)
  with snoc show ?case
    by (simp add: AggregateLines_snoc aggregate_step_SKUIDs first_seen_def)
qed

lemma distinct_AggregateLines: "distinct (map ln_SKUID (AggregateLines items))"
  by (simp add: AggregateLines_SKUIDs first_seen_def)

lemma set_AggregateLines_SKUIDs: "ln_SKUID ` set (AggregateLines items) = ln_SKUID ` set items"
  using arg_cong [OF AggregateLines_SKUIDs, of set items] by (simp add: first_seen_def)

text \<open>The total demand per SKU, as an unbounded integer.\<close>

definition demand :: "Line list \<Rightarrow> string \<Rightarrow> int" where
  "demand items s = (\<Sum>it \<leftarrow> items. if ln_SKUID it = s then ln_Quantity it else 0)"

lemma wrap64_add_left: "wrap64 (wrap64 x + y) = wrap64 (x + y)"
  unfolding wrap64_def by (simp add: mod_simps algebra_simps)

lemma demand_absent: "s \<notin> ln_SKUID ` set items \<Longrightarrow> demand items s = 0"
  by (induction items) (auto simp: demand_def)

lemma AggregateLines_demand:
  assumes "\<forall>it \<in> set items. int64_range (ln_Quantity it)"
  shows "\<forall>l \<in> set (AggregateLines items). ln_Quantity l = wrap64 (demand items (ln_SKUID l))"
  using assms
proof (induction items rule: rev_induct)
  case Nil
  then show ?case by simp
next
  case (snoc it items)
  then have IH: "\<forall>l \<in> set (AggregateLines items). ln_Quantity l = wrap64 (demand items (ln_SKUID l))"
    by simp
  have dem: "demand (items @ [it]) s =
      demand items s + (if ln_SKUID it = s then ln_Quantity it else 0)" for s
    by (simp add: demand_def)
  show ?case
  proof (cases "ln_SKUID it \<in> ln_SKUID ` set (AggregateLines items)")
    case True
    with IH show ?thesis
      by (auto simp: AggregateLines_snoc aggregate_step_def dem wrap64_add_left)
  next
    case False
    then have "demand items (ln_SKUID it) = 0"
      by (simp add: demand_absent set_AggregateLines_SKUIDs)
    with False IH snoc.prems show ?thesis
      by (auto simp: AggregateLines_snoc aggregate_step_def dem wrap64_id)
  qed
qed

lemma AggregateLines_distinct_id: "distinct (map ln_SKUID items) \<Longrightarrow> AggregateLines items = items"
proof (induction items rule: rev_induct)
  case Nil
  then show ?case by simp
next
  case (snoc it items)
  then show ?case by (auto simp: AggregateLines_snoc aggregate_step_def)
qed

end
