(* ===== verification/Canonical_Hash.thy ===== *)
theory Canonical_Hash
  imports Domain_Types
begin

text \<open>
  What the canonical request hash identifies. The hashed bytes do not depend on the order of the
  lines, and for SKUs without the separators \<open>:\<close> and \<open>|\<close> and a region without \<open>|\<close> they
  determine the lines and the region: two different requests are hashed from different bytes.
\<close>

section \<open>Order-insensitivity\<close>

lemma sort_key_distinct_unique:
  assumes "mset xs = mset ys" "distinct (map f xs)"
  shows "sort_key f xs = sort_key f ys"
proof (rule sort_key_inj_key_eq)
  show "mset xs = mset (sort_key f ys)" using assms(1) by simp
  show "inj_on f (set xs)" using assms(2) by (simp add: distinct_map)
  show "sorted (map f (sort_key f ys))" by simp
qed

lemma canonical_bytes_perm:
  "mset xs = mset ys \<Longrightarrow> distinct (map ln_SKUID xs) \<Longrightarrow> canonical_bytes xs r = canonical_bytes ys r"
  by (simp add: canonical_bytes_def sort_key_distinct_unique)

lemma demand_perm: "mset xs = mset ys \<Longrightarrow> demand xs s = demand ys s"
  by (simp add: demand_def mset_map flip: sum_mset_sum_list)

lemma set_AggregateLines:
  assumes "\<forall>it \<in> set items. int64_range (ln_Quantity it)"
  shows "set (AggregateLines items) =
    (\<lambda>s. \<lparr>ln_SKUID = s, ln_Quantity = wrap64 (demand items s)\<rparr>) ` ln_SKUID ` set items"
    (is "_ = ?f ` _")
proof -
  have "\<forall>l \<in> set (AggregateLines items). l = ?f (ln_SKUID l)"
    using AggregateLines_demand [OF assms] by simp
  then have "set (AggregateLines items) = ?f ` ln_SKUID ` set (AggregateLines items)"
    by (metis (no_types, lifting) image_cong image_ident image_image)
  then show ?thesis by (simp add: set_AggregateLines_SKUIDs)
qed

lemma AggregateLines_perm:
  assumes "mset xs = mset ys" "\<forall>it \<in> set xs. int64_range (ln_Quantity it)"
  shows "mset (AggregateLines xs) = mset (AggregateLines ys)"
proof -
  have set_eq: "set xs = set ys" using assms(1) by (rule mset_eq_setD)
  then have "set (AggregateLines xs) = set (AggregateLines ys)"
    using assms by (simp add: set_AggregateLines demand_perm [OF assms(1)])
  moreover have "distinct (AggregateLines zs)" for zs
    using distinct_AggregateLines [of zs] by (simp add: distinct_map)
  ultimately show ?thesis by (simp add: set_eq_iff_mset_eq_distinct)
qed

section \<open>Injectivity\<close>

definition sku_separator_free :: "string \<Rightarrow> bool" where
  "sku_separator_free s \<longleftrightarrow> CHR '':'' \<notin> set s \<and> CHR ''|'' \<notin> set s"

abbreviation encode_lines :: "Line list \<Rightarrow> string" where
  "encode_lines ls \<equiv> concat (map encode_line ls)"

text \<open>The number of \<open>|\<close> separators is the number of lines.\<close>

lemma count_bar_encode_lines:
  "\<forall>l \<in> set ls. sku_separator_free (ln_SKUID l) \<Longrightarrow> count_list (encode_lines ls) (CHR ''|'') = length ls"
  by (induction ls)
    (auto simp: encode_line_def sku_separator_free_def FormatInt_no_separator)

lemma append_separator_inject:
  "c \<notin> set xs \<Longrightarrow> c \<notin> set ys \<Longrightarrow> xs @ c # us = ys @ c # vs \<longleftrightarrow> xs = ys \<and> us = vs"
  by (auto simp: append_eq_append_conv2 append_eq_Cons_conv Cons_eq_append_conv)

lemma encode_lines_Cons:
  "encode_lines (l # ls) @ us =
     ln_SKUID l @ CHR '':'' # (FormatInt (ln_Quantity l) @ CHR ''|'' # (encode_lines ls @ us))"
  by (simp add: encode_line_def [of l])

lemma encode_lines_inject:
  assumes "\<forall>l \<in> set xs. sku_separator_free (ln_SKUID l)"
    and "\<forall>l \<in> set ys. sku_separator_free (ln_SKUID l)"
    and "length xs = length ys"
    and "encode_lines xs @ us = encode_lines ys @ vs"
  shows "xs = ys \<and> us = vs"
  using assms(3,1,2,4)
proof (induction xs ys rule: list_induct2)
  case Nil
  then show ?case by simp
next
  case (Cons x xs y ys)
  from Cons.prems have sep: "sku_separator_free (ln_SKUID x)" "sku_separator_free (ln_SKUID y)"
    by simp_all
  from Cons.prems(3) have
    "ln_SKUID x @ CHR '':'' # (FormatInt (ln_Quantity x) @ CHR ''|'' # (encode_lines xs @ us)) =
     ln_SKUID y @ CHR '':'' # (FormatInt (ln_Quantity y) @ CHR ''|'' # (encode_lines ys @ vs))"
    by (simp only: encode_lines_Cons)
  with sep have "ln_SKUID x = ln_SKUID y" "ln_Quantity x = ln_Quantity y"
    and "encode_lines xs @ us = encode_lines ys @ vs"
    by (simp_all add: append_separator_inject sku_separator_free_def FormatInt_no_separator)
  with Cons show ?case by simp
qed

lemma canonical_bytes_inject:
  assumes "\<forall>l \<in> set xs. sku_separator_free (ln_SKUID l)" "CHR ''|'' \<notin> set r"
    and "\<forall>l \<in> set ys. sku_separator_free (ln_SKUID l)" "CHR ''|'' \<notin> set s"
    and eq: "canonical_bytes xs r = canonical_bytes ys s"
  shows "mset xs = mset ys \<and> r = s"
proof -
  let ?x = "sort_key ln_SKUID xs" and ?y = "sort_key ln_SKUID ys"
  have "count_list (canonical_bytes zs t) (CHR ''|'') = length zs"
    if "\<forall>l \<in> set zs. sku_separator_free (ln_SKUID l)" "CHR ''|'' \<notin> set t" for zs t
    using that count_bar_encode_lines [of "sort_key ln_SKUID zs"]
    by (simp add: canonical_bytes_def)
  with assms have len: "length ?x = length ?y" by (metis length_sort)
  have "?x = ?y \<and> ''dest:'' @ r = ''dest:'' @ s"
    using eq assms(1,3) len
    by (intro encode_lines_inject) (simp_all add: canonical_bytes_def)
  then show ?thesis by (metis mset_sort same_append_eq)
qed

end
