(* ===== verification/Pg_Schema.thy ===== *)
theory Pg_Schema
  imports Domain_Types
begin

text \<open>
  The database of \<open>db/migrations/sql\<close>: one association list per table, keyed by its primary key,
  the constraints of the schema as PostgreSQL checks them, and one function per kind of row
  operation the repositories' SQL uses. A statement returns either the SQLSTATE it fails with or its
  result together with the rows it writes and the row locks it takes; \<open>Pg_Session\<close> runs statements
  inside transactions.

  Three conventions of the server are made explicit. \<open>BIGINT\<close> arithmetic fails with 22003 instead
  of wrapping. \<open>VARCHAR(n)\<close> counts characters, not bytes, and rejects longer values with 22001
  unless their excess is only blanks, which the server cuts off: \<open>varchar_assign\<close>. The free texts of a
  movement row are stored that way. The key columns, which are reservation ids, order references, hashes, SKUs
  and command ids, cut nothing here: no text in them can be too long, as the transport admits only the ids of
  \<open>validate.go\<close> and \<open>StockCommand.Validate\<close> bounds the bytes of its own. What is the server's configuration and not this repository's code, the collation text is ordered by and
  the parser of \<open>timestamptz\<close> input, is a field of the server record: \<open>strxfrm\<close> gives the sort key
  of a text value, ties broken bytewise as in deterministic collations, and \<open>timestamptz_in\<close> parses a
  timestamp or fails with 22007.
\<close>

section \<open>Rows and tables\<close>

record warehouse_row =
  wh_code :: string
  wh_name :: string
  wh_status :: string

record balance_row =
  on_hand :: int
  reserved :: int
  safety_stock :: int
  version :: int
  bal_updated_at :: int

record reservation_row =
  external_reference :: string
  request_hash :: string
  res_status :: string
  expires_at :: "int option"
  res_created_at :: int
  res_updated_at :: int

record line_row =
  line_warehouse :: int
  line_quantity :: int

record movement_row =
  mv_id :: int
  mv_command_id :: string
  mv_sku_id :: string
  mv_warehouse_id :: int
  mv_type :: string
  mv_on_hand_delta :: int
  mv_reserved_delta :: int
  mv_reference_type :: "string option"
  mv_reference_id :: "string option"
  mv_reason :: "string option"
  mv_actor :: "string option"
  mv_created_at :: int

type_synonym balance_key = "string \<times> int"
type_synonym line_key = "string \<times> string"

record pg_server =
  strxfrm :: "string \<Rightarrow> string"
  timestamptz_in :: "string \<Rightarrow> int option"

record db =
  server :: pg_server
  warehouses :: "(int \<times> warehouse_row) list"
  balances :: "(balance_key \<times> balance_row) list"
  reservations :: "(string \<times> reservation_row) list"
  reservation_lines :: "(line_key \<times> line_row) list"
  movements :: "movement_row list"

text \<open>The state right after the migrations: the default warehouse and nothing else.\<close>

definition migrated :: "pg_server \<Rightarrow> db" where
  "migrated sv =
     \<lparr>server = sv,
      warehouses = [(1, \<lparr>wh_code = ''WH-DEFAULT'', wh_name = ''Default warehouse'', wh_status = ''active''\<rparr>)],
      balances = [], reservations = [], reservation_lines = [], movements = []\<rparr>"

section \<open>Row writes\<close>

text \<open>
  The writes of a transaction are row images; an update writes the whole new row. The movement
  ledger is only ever appended to.
\<close>

datatype pg_write =
    WBalance balance_key balance_row
  | WReservation string reservation_row
  | WLine line_key line_row
  | WMovement movement_row

fun apply_write :: "pg_write \<Rightarrow> db \<Rightarrow> db" where
  "apply_write (WBalance k r) d = d\<lparr>balances := AList.update k r (balances d)\<rparr>"
| "apply_write (WReservation i r) d = d\<lparr>reservations := AList.update i r (reservations d)\<rparr>"
| "apply_write (WLine k r) d = d\<lparr>reservation_lines := AList.update k r (reservation_lines d)\<rparr>"
| "apply_write (WMovement m) d = d\<lparr>movements := movements d @ [m]\<rparr>"

definition apply_writes :: "pg_write list \<Rightarrow> db \<Rightarrow> db" where
  "apply_writes ws d = fold apply_write ws d"

section \<open>Constraints\<close>

definition char_length :: "string \<Rightarrow> nat" where
  "char_length s = length (filter (\<lambda>c. \<not> (128 \<le> (of_char c :: int) \<and> (of_char c :: int) < 192)) s)"

definition varchar :: "nat \<Rightarrow> string \<Rightarrow> bool" where
  "varchar n s \<longleftrightarrow> char_length s \<le> n"

text \<open>
  Assigning a text to a \<open>VARCHAR(n)\<close> column: one that is too long is cut when its excess is only blanks
  (then its last bytes are those blanks), and refused with 22001 otherwise.
\<close>

definition varchar_assign :: "nat \<Rightarrow> string \<Rightarrow> string option" where
  "varchar_assign n s =
     (let k = length s - (char_length s - n)
      in if varchar n s then Some s
         else if list_all (\<lambda>c. c = CHR '' '') (drop k s) then Some (take k s)
         else None)"

definition varchar_assign_null :: "nat \<Rightarrow> string option \<Rightarrow> string option option" where
  "varchar_assign_null n s =
     (case s of None \<Rightarrow> Some None | Some t \<Rightarrow> map_option Some (varchar_assign n t))"

lemma varchar_assign_fits [simp]: "varchar n s \<Longrightarrow> varchar_assign n s = Some s"
  by (simp add: varchar_assign_def)

definition balance_range :: "balance_row \<Rightarrow> bool" where
  "balance_range r \<longleftrightarrow>
     int64_range (on_hand r) \<and> int64_range (reserved r) \<and>
     int64_range (safety_stock r) \<and> int64_range (version r)"

definition balance_check :: "balance_row \<Rightarrow> bool" where
  "balance_check r \<longleftrightarrow>
     0 \<le> on_hand r \<and> 0 \<le> reserved r \<and> 0 \<le> safety_stock r \<and> reserved r \<le> on_hand r"

definition reservation_statuses :: "string list" where
  "reservation_statuses =
     [ReservationReserved, ReservationCommitted, ReservationReleased, ReservationExpired]"

definition movement_types :: "string list" where
  "movement_types =
     [MovementReceive, MovementAdjust, MovementSetSafetyStock, MovementReserve,
      MovementRelease, MovementSaleCommitted, MovementReturn]"

definition has_warehouse :: "db \<Rightarrow> int \<Rightarrow> bool" where
  "has_warehouse d w \<longleftrightarrow> map_of (warehouses d) w \<noteq> None"

definition has_command :: "db \<Rightarrow> string \<Rightarrow> bool" where
  "has_command d c \<longleftrightarrow> c \<in> mv_command_id ` set (movements d)"

text \<open>The reservations whose current row carries the order reference (at most one by its UNIQUE).\<close>

definition ref_ids :: "db \<Rightarrow> string \<Rightarrow> string list" where
  "ref_ids d ref =
     filter (\<lambda>i. map_option external_reference (map_of (reservations d) i) = Some ref)
       (map fst (reservations d))"

section \<open>Statements\<close>

text \<open>A statement's outcome: an SQLSTATE, or its result, the rows written and the locks taken.\<close>

datatype pg_lock =
    LockBalance balance_key
  | LockReservation string
  | LockOrderRef string
  | LockLine line_key
  | LockCommand string

type_synonym 'a outcome = "string + ('a \<times> pg_write list \<times> pg_lock list)"

definition store_balance :: "balance_key \<Rightarrow> balance_row \<Rightarrow> nat outcome" where
  "store_balance k r =
     (if \<not> balance_range r then Inl ''22003''
      else if \<not> balance_check r then Inl ''23514''
      else Inr (1, [WBalance k r], []))"

text \<open>\<open>UPDATE inventory_balances SET ... WHERE sku_id = $1 AND warehouse_id = $2\<close>.\<close>

definition update_balance :: "(balance_row \<Rightarrow> balance_row) \<Rightarrow> balance_key \<Rightarrow> db \<Rightarrow> nat outcome" where
  "update_balance f k d =
     (case map_of (balances d) k of None \<Rightarrow> Inr (0, [], []) | Some r \<Rightarrow> store_balance k (f r))"

text \<open>
  \<open>INSERT INTO inventory_movements\<close>; the flag is \<open>ON CONFLICT (command_id) DO NOTHING\<close>. CHECKs
  come before the unique index, foreign keys after it.
\<close>

definition stored_movement :: "movement_row \<Rightarrow> movement_row option" where
  "stored_movement m =
     (if \<not> varchar 255 (mv_command_id m) \<or> \<not> varchar 64 (mv_sku_id m) \<or> \<not> varchar 32 (mv_type m) then None
      else
        (case (varchar_assign_null 32 (mv_reference_type m), varchar_assign_null 255 (mv_reference_id m),
               varchar_assign_null 64 (mv_reason m), varchar_assign_null 64 (mv_actor m)) of
           (Some rty, Some rid, Some reason, Some actor) \<Rightarrow>
             Some (m\<lparr>mv_reference_type := rty, mv_reference_id := rid, mv_reason := reason, mv_actor := actor\<rparr>)
         | _ \<Rightarrow> None))"

definition insert_movement :: "bool \<Rightarrow> movement_row \<Rightarrow> db \<Rightarrow> nat outcome" where
  "insert_movement on_conflict_do_nothing m d =
     (case stored_movement m of
        None \<Rightarrow> Inl ''22001''
      | Some stored \<Rightarrow>
          (if mv_type m \<notin> set movement_types then Inl ''23514''
           else if has_command d (mv_command_id m) then
             (if on_conflict_do_nothing then Inr (0, [], []) else Inl ''23505'')
           else if \<not> has_warehouse d (mv_warehouse_id m) then Inl ''23503''
           else Inr (1, [WMovement stored], [])))"

text \<open>The columns a stored row takes over as they are, and rows that are stored unchanged.\<close>

lemma stored_movement_kept:
  assumes "stored_movement m = Some m'"
  shows "mv_id m' = mv_id m" "mv_command_id m' = mv_command_id m" "mv_sku_id m' = mv_sku_id m"
    "mv_warehouse_id m' = mv_warehouse_id m" "mv_type m' = mv_type m" "mv_on_hand_delta m' = mv_on_hand_delta m"
    "mv_reserved_delta m' = mv_reserved_delta m" "mv_created_at m' = mv_created_at m"
    "varchar_assign_null 64 (mv_reason m) = Some (mv_reason m')"
    "varchar_assign_null 64 (mv_actor m) = Some (mv_actor m')"
  using assms by (auto simp: stored_movement_def split: if_splits option.splits)

definition varchar_null :: "nat \<Rightarrow> string option \<Rightarrow> bool" where
  "varchar_null n s = (case s of None \<Rightarrow> True | Some t \<Rightarrow> varchar n t)"

definition movement_fits :: "movement_row \<Rightarrow> bool" where
  "movement_fits m \<longleftrightarrow>
     varchar 255 (mv_command_id m) \<and> varchar 64 (mv_sku_id m) \<and> varchar 32 (mv_type m) \<and>
     varchar_null 32 (mv_reference_type m) \<and> varchar_null 255 (mv_reference_id m) \<and>
     varchar_null 64 (mv_reason m) \<and> varchar_null 64 (mv_actor m)"

lemma varchar_null_fits [simp]: "varchar_null n s \<Longrightarrow> varchar_assign_null n s = Some s"
  by (cases s) (simp_all add: varchar_null_def varchar_assign_null_def)

lemma movement_fits_stored [simp]: "movement_fits m \<Longrightarrow> stored_movement m = Some m"
  by (simp add: movement_fits_def stored_movement_def)

text \<open>\<open>INSERT INTO inventory_reservation_lines\<close>.\<close>

definition insert_line :: "string \<Rightarrow> string \<Rightarrow> int \<Rightarrow> int \<Rightarrow> db \<Rightarrow> nat outcome" where
  "insert_line rid sku wh q d =
     (if \<not> varchar 255 rid \<or> \<not> varchar 64 sku then Inl ''22001''
      else if q \<le> 0 then Inl ''23514''
      else if map_of (reservation_lines d) (rid, sku) \<noteq> None then Inl ''23505''
      else if map_of (reservations d) rid = None \<or> \<not> has_warehouse d wh then Inl ''23503''
      else Inr (1, [WLine (rid, sku) \<lparr>line_warehouse = wh, line_quantity = q\<rparr>], []))"

section \<open>How a write changes each table\<close>

fun write_balances :: "pg_write list \<Rightarrow> (balance_key \<times> balance_row) list" where
  "write_balances [] = []"
| "write_balances (WBalance k r # ws) = (k, r) # write_balances ws"
| "write_balances (_ # ws) = write_balances ws"

fun write_reservations :: "pg_write list \<Rightarrow> (string \<times> reservation_row) list" where
  "write_reservations [] = []"
| "write_reservations (WReservation i r # ws) = (i, r) # write_reservations ws"
| "write_reservations (_ # ws) = write_reservations ws"

fun write_lines :: "pg_write list \<Rightarrow> (line_key \<times> line_row) list" where
  "write_lines [] = []"
| "write_lines (WLine k r # ws) = (k, r) # write_lines ws"
| "write_lines (_ # ws) = write_lines ws"

fun write_movements :: "pg_write list \<Rightarrow> movement_row list" where
  "write_movements [] = []"
| "write_movements (WMovement m # ws) = m # write_movements ws"
| "write_movements (_ # ws) = write_movements ws"

lemma apply_writes_Nil [simp]: "apply_writes [] d = d"
  and apply_writes_append: "apply_writes (ws @ vs) d = apply_writes vs (apply_writes ws d)"
  by (simp_all add: apply_writes_def)

lemma apply_writes_Cons: "apply_writes (w # ws) d = apply_writes ws (apply_write w d)"
  by (simp add: apply_writes_def)

lemma apply_writes_tables [table_simps]:
  "server (apply_writes ws d) = server d"
  "warehouses (apply_writes ws d) = warehouses d"
  "balances (apply_writes ws d) = replay (write_balances ws) (balances d)"
  "reservations (apply_writes ws d) = replay (write_reservations ws) (reservations d)"
  "reservation_lines (apply_writes ws d) = replay (write_lines ws) (reservation_lines d)"
  "movements (apply_writes ws d) = movements d @ write_movements ws"
proof (induction ws arbitrary: d)
  case (Cons w ws)
  case 1 from Cons.IH(1) show ?case by (cases w) (simp_all add: apply_writes_Cons)
  case 2 from Cons.IH(2) show ?case by (cases w) (simp_all add: apply_writes_Cons)
  case 3 from Cons.IH(3) show ?case by (cases w) (simp_all add: apply_writes_Cons)
  case 4 from Cons.IH(4) show ?case by (cases w) (simp_all add: apply_writes_Cons)
  case 5 from Cons.IH(5) show ?case by (cases w) (simp_all add: apply_writes_Cons)
  case 6 from Cons.IH(6) show ?case by (cases w) (simp_all add: apply_writes_Cons)
qed simp_all

lemma write_append [simp]:
  "write_balances (ws @ vs) = write_balances ws @ write_balances vs"
  "write_reservations (ws @ vs) = write_reservations ws @ write_reservations vs"
  "write_lines (ws @ vs) = write_lines ws @ write_lines vs"
  "write_movements (ws @ vs) = write_movements ws @ write_movements vs"
proof (induction ws)
  case (Cons w ws)
  case 1 from Cons.IH(1) show ?case by (cases w) simp_all
  case 2 from Cons.IH(2) show ?case by (cases w) simp_all
  case 3 from Cons.IH(3) show ?case by (cases w) simp_all
  case 4 from Cons.IH(4) show ?case by (cases w) simp_all
qed simp_all

end
