(* ===== verification/Telemetry.thy ===== *)
theory Telemetry
  imports Go_Values
begin

text \<open>
  The records the service emits besides its results: spans, metric counters and log lines. They
  are what \<open>obsx\<close>, the OpenTelemetry SDK and \<open>slogx\<close> receive; the model keeps them as a trace in
  the order of the calls.
\<close>

type_synonym attrs = "(string \<times> string) list"

datatype telemetry =
    SpanStart string attrs
  | SpanAttribute string string
  | SpanError string string
  | SpanEnd
  | CounterAdd string attrs
  | LogDebug string attrs
  | LogEvent string string attrs
  | LogError string attrs goerr

end
