(* ===== verification/Pg_Session.thy ===== *)
theory Pg_Session
  imports Pg_Schema Telemetry
begin

text \<open>
  One client of the database: the connection pool and the single transaction a repository method
  opens, at PostgreSQL's default isolation level READ COMMITTED.

  A transaction keeps its writes as a redo log; a statement sees the committed state with that log
  applied, and committing applies it. Every database call first consumes one event of the world's
  script. An event is what the rest of the system does at that moment: an arbitrary change of the
  committed state by other transactions, which takes place only if it respects the row and key
  locks this transaction holds (otherwise those transactions are still waiting), the time that
  passes, and a fault: the call fails with an error (lost connection, deadlock, lock timeout,
  cancellation), or a commit takes effect but its acknowledgement is lost. An empty script is a quiet
  world. Each statement is evaluated at one instant, after any wait for locks.
\<close>

section \<open>The world\<close>

datatype fault =
    NoFault
  | Fault goerr
  | LostAck goerr

record event =
  ev_others :: "db \<Rightarrow> db"
  ev_elapsed :: nat
  ev_fault :: fault

record tx =
  tx_now :: int
  tx_writes :: "pg_write list"
  tx_locks :: "pg_lock list"
  tx_aborted :: bool

record world =
  w_db :: db
  w_tx :: "tx option"
  w_locked :: "pg_lock list"
  w_seq :: int
  w_now :: int
  w_script :: "event list"
  w_trace :: "telemetry list"

type_synonym 'a prog = "world \<Rightarrow> (goerr + 'a) \<times> world"

section \<open>Sequencing, as Go's error returns do it\<close>

definition return :: "'a \<Rightarrow> 'a prog" where
  "return x = (\<lambda>w. (Inr x, w))"

definition fail :: "goerr \<Rightarrow> 'a prog" where
  "fail e = (\<lambda>w. (Inl e, w))"

text \<open>\<open>x, err := m(); if err != nil { return err }; f(x)\<close>\<close>

definition bindE :: "'a prog \<Rightarrow> ('a \<Rightarrow> 'b prog) \<Rightarrow> 'b prog" where
  "bindE m f = (\<lambda>w. case m w of (Inl e, w') \<Rightarrow> (Inl e, w') | (Inr x, w') \<Rightarrow> f x w')"

text \<open>\<open>x, err := m(); if err != nil { return h(err) }; f(x)\<close> with \<open>h\<close> itself a program.\<close>

definition try_bind :: "'a prog \<Rightarrow> (goerr \<Rightarrow> 'b prog) \<Rightarrow> ('a \<Rightarrow> 'b prog) \<Rightarrow> 'b prog" where
  "try_bind m h f = (\<lambda>w. case m w of (Inl e, w') \<Rightarrow> h e w' | (Inr x, w') \<Rightarrow> f x w')"

definition map_error :: "(goerr \<Rightarrow> goerr) \<Rightarrow> 'a prog \<Rightarrow> 'a prog" where
  "map_error h m = (\<lambda>w. case m w of (Inl e, w') \<Rightarrow> (Inl (h e), w') | (Inr x, w') \<Rightarrow> (Inr x, w'))"

fun for_each :: "('a \<Rightarrow> unit prog) \<Rightarrow> 'a list \<Rightarrow> unit prog" where
  "for_each f [] = return ()"
| "for_each f (x # xs) = bindE (f x) (\<lambda>_. for_each f xs)"

definition of_sum :: "goerr + 'a \<Rightarrow> 'a prog" where
  "of_sum r = (\<lambda>w. (r, w))"

section \<open>Locks and interference\<close>

fun write_locks :: "pg_write \<Rightarrow> pg_lock list" where
  "write_locks (WBalance k r) = [LockBalance k]"
| "write_locks (WReservation i r) = [LockReservation i, LockOrderRef (external_reference r)]"
| "write_locks (WLine k r) = [LockLine k]"
| "write_locks (WMovement m) = [LockCommand (mv_command_id m)]"

definition tx_held :: "tx \<Rightarrow> pg_lock list" where
  "tx_held t = tx_locks t @ concat (map write_locks (tx_writes t))"

text \<open>
  The locks a write takes when it runs, on top of those its statement names: that of its row, and for a new
  header that of its order reference too. \<open>w_locked\<close> records the locks of this client's transactions in the
  order in which they were taken, for reasoning about that order; no call reads it.
\<close>

fun locks_taken :: "db \<Rightarrow> pg_write \<Rightarrow> pg_lock list" where
  "locks_taken d (WBalance k r) = [LockBalance k]"
| "locks_taken d (WReservation i r) =
     LockReservation i #
       (if map_option external_reference (map_of (reservations d) i) = Some (external_reference r) then []
        else [LockOrderRef (external_reference r)])"
| "locks_taken d (WLine k r) = [LockLine k]"
| "locks_taken d (WMovement m) = [LockCommand (mv_command_id m)]"

definition held :: "world \<Rightarrow> pg_lock list" where
  "held w = (case w_tx w of None \<Rightarrow> [] | Some t \<Rightarrow> tx_held t)"

fun lock_kept :: "db \<Rightarrow> db \<Rightarrow> pg_lock \<Rightarrow> bool" where
  "lock_kept d d' (LockBalance k) = (map_of (balances d') k = map_of (balances d) k)"
| "lock_kept d d' (LockReservation i) = (map_of (reservations d') i = map_of (reservations d) i)"
| "lock_kept d d' (LockOrderRef ref) = (set (ref_ids d' ref) = set (ref_ids d ref))"
| "lock_kept d d' (LockLine k) = (map_of (reservation_lines d') k = map_of (reservation_lines d) k)"
| "lock_kept d d' (LockCommand c) = (has_command d' c = has_command d c)"

definition locks_kept :: "pg_lock list \<Rightarrow> db \<Rightarrow> db \<Rightarrow> bool" where
  "locks_kept ls d d' = list_all (lock_kept d d') ls"

definition interfere :: "pg_lock list \<Rightarrow> (db \<Rightarrow> db) \<Rightarrow> db \<Rightarrow> db" where
  "interfere ls f d = (if locks_kept ls d (f d) then f d else d)"

definition next_event :: "world \<Rightarrow> fault \<times> world" where
  "next_event w =
     (case w_script w of
        [] \<Rightarrow> (NoFault, w)
      | e # es \<Rightarrow>
          (ev_fault e,
           w\<lparr>w_db := interfere (held w) (ev_others e) (w_db w),
             w_now := w_now w + int (ev_elapsed e),
             w_script := es\<rparr>))"

section \<open>Database calls\<close>

definition tx_view :: "db \<Rightarrow> tx \<Rightarrow> db" where
  "tx_view d t = apply_writes (tx_writes t) d"

definition abort_tx :: "world \<Rightarrow> world" where
  "abort_tx w = w\<lparr>w_tx := map_option (\<lambda>t. t\<lparr>tx_aborted := True\<rparr>) (w_tx w)\<rparr>"

definition pool_begin :: "unit prog" where
  "pool_begin w =
     (case next_event w of
        (NoFault, w1) \<Rightarrow>
          (Inr (), w1\<lparr>w_tx := Some \<lparr>tx_now = w_now w1, tx_writes = [], tx_locks = [], tx_aborted = False\<rparr>\<rparr>)
      | (Fault e, w1) \<Rightarrow> (Inl e, w1)
      | (LostAck e, w1) \<Rightarrow> (Inl e, w1))"

definition tx_rollback :: "world \<Rightarrow> world" where
  "tx_rollback w = w\<lparr>w_tx := None\<rparr>"

definition err_tx_closed :: goerr where
  "err_tx_closed = ErrorsNew ''tx is closed''"

text \<open>
  A statement inside the transaction. A failed statement aborts the transaction, after which every
  further statement fails with 25P02 until it is rolled back.
\<close>

definition tx_stmt :: "(db \<Rightarrow> int \<Rightarrow> 'a outcome) \<Rightarrow> 'a prog" where
  "tx_stmt f w =
     (case next_event w of (fault, w1) \<Rightarrow>
       (case w_tx w1 of
          None \<Rightarrow> (Inl err_tx_closed, w1)
        | Some t \<Rightarrow>
            (if tx_aborted t then (Inl (PgError ''25P02''), w1)
             else
               (case fault of
                  Fault e \<Rightarrow> (Inl e, abort_tx w1)
                | LostAck e \<Rightarrow> (Inl e, abort_tx w1)
                | NoFault \<Rightarrow>
                    (case f (tx_view (w_db w1) t) (tx_now t) of
                       Inl code \<Rightarrow> (Inl (PgError code), abort_tx w1)
                     | Inr (x, ws, ls) \<Rightarrow>
                         (Inr x,
                          w1\<lparr>w_tx := Some (t\<lparr>tx_writes := tx_writes t @ ws, tx_locks := tx_locks t @ ls\<rparr>),
                              w_locked :=
                                w_locked w1 @ ls @ concat (map (locks_taken (tx_view (w_db w1) t)) ws)\<rparr>))))))"

text \<open>\<open>nextval\<close> of the movement id sequence: taken even when the row is not inserted, never rolled back.\<close>

definition tx_nextval :: "(int \<Rightarrow> 'a prog) \<Rightarrow> 'a prog" where
  "tx_nextval f w = f (w_seq w) (w\<lparr>w_seq := w_seq w + 1\<rparr>)"

text \<open>A read inside the transaction: no writes, no locks.\<close>

definition tx_query :: "(db \<Rightarrow> 'a) \<Rightarrow> 'a prog" where
  "tx_query f = tx_stmt (\<lambda>d now. Inr (f d, [], []))"

text \<open>A read outside any transaction.\<close>

definition pool_query :: "(db \<Rightarrow> 'a) \<Rightarrow> 'a prog" where
  "pool_query f w =
     (case next_event w of
        (NoFault, w1) \<Rightarrow> (Inr (f (w_db w1)), w1)
      | (Fault e, w1) \<Rightarrow> (Inl e, w1)
      | (LostAck e, w1) \<Rightarrow> (Inl e, w1))"

definition tx_commit :: "unit prog" where
  "tx_commit w =
     (case next_event w of (fault, w1) \<Rightarrow>
       (case w_tx w1 of
          None \<Rightarrow> (Inl err_tx_closed, w1)
        | Some t \<Rightarrow>
            (if tx_aborted t
             then (Inl (ErrorsNew ''commit unexpectedly resulted in rollback''), tx_rollback w1)
             else
               (case fault of
                  NoFault \<Rightarrow> (Inr (), tx_rollback (w1\<lparr>w_db := tx_view (w_db w1) t\<rparr>))
                | Fault e \<Rightarrow> (Inl e, tx_rollback w1)
                | LostAck e \<Rightarrow> (Inl e, tx_rollback (w1\<lparr>w_db := tx_view (w_db w1) t\<rparr>))))))"

text \<open>\<open>defer tx.Rollback(ctx)\<close>: whatever the body returns, the transaction is closed.\<close>

definition defer_rollback :: "'a prog \<Rightarrow> 'a prog" where
  "defer_rollback m w = (case m w of (r, w') \<Rightarrow> (r, tx_rollback w'))"

text \<open>An explicit \<open>tx.Rollback(ctx)\<close> whose error is discarded.\<close>

definition rollback_now :: "unit prog" where
  "rollback_now w = (Inr (), tx_rollback w)"

section \<open>Quiet worlds\<close>

text \<open>With an empty script a call does exactly what its SQL says.\<close>

definition quiet :: "world \<Rightarrow> bool" where
  "quiet w \<longleftrightarrow> w_script w = [] \<and> w_tx w = None"

lemma next_event_quiet [quiet_simps]: "w_script w = [] \<Longrightarrow> next_event w = (NoFault, w)"
  by (simp add: next_event_def)

lemma pool_begin_quiet [quiet_simps]:
  "w_script w = [] \<Longrightarrow>
   pool_begin w =
     (Inr (), w\<lparr>w_tx := Some \<lparr>tx_now = w_now w, tx_writes = [], tx_locks = [], tx_aborted = False\<rparr>\<rparr>)"
  by (simp add: pool_begin_def quiet_simps)

lemma pool_query_quiet [quiet_simps]: "w_script w = [] \<Longrightarrow> pool_query f w = (Inr (f (w_db w)), w)"
  by (simp add: pool_query_def quiet_simps)

lemma tx_stmt_quiet [quiet_simps]:
  "w_script w = [] \<Longrightarrow> w_tx w = Some t \<Longrightarrow> \<not> tx_aborted t \<Longrightarrow>
   tx_stmt f w =
     (case f (tx_view (w_db w) t) (tx_now t) of
        Inl code \<Rightarrow> (Inl (PgError code), abort_tx w)
      | Inr (x, ws, ls) \<Rightarrow>
          (Inr x, w\<lparr>w_tx := Some (t\<lparr>tx_writes := tx_writes t @ ws, tx_locks := tx_locks t @ ls\<rparr>),
                    w_locked := w_locked w @ ls @ concat (map (locks_taken (tx_view (w_db w) t)) ws)\<rparr>))"
  by (simp add: tx_stmt_def quiet_simps)

lemma tx_query_quiet [quiet_simps]:
  "w_script w = [] \<Longrightarrow> w_tx w = Some t \<Longrightarrow> \<not> tx_aborted t \<Longrightarrow>
   tx_query f w = (Inr (f (tx_view (w_db w) t)), w)"
  by (simp add: tx_query_def quiet_simps)

lemma tx_commit_quiet [quiet_simps]:
  "w_script w = [] \<Longrightarrow> w_tx w = Some t \<Longrightarrow> \<not> tx_aborted t \<Longrightarrow>
   tx_commit w = (Inr (), w\<lparr>w_db := tx_view (w_db w) t, w_tx := None\<rparr>)"
  by (simp add: tx_commit_def tx_rollback_def quiet_simps)

lemmas prog_defs = return_def fail_def bindE_def try_bind_def map_error_def of_sum_def
  defer_rollback_def rollback_now_def tx_rollback_def tx_nextval_def

end
