(* ===== verification/Rely_Guarantee.thy ===== *)
theory Rely_Guarantee
  imports Pg_Session
begin

text \<open>
  Reasoning about one transaction among others. A Hoare triple over worlds has a postcondition for
  the returned value and one for the returned error. The rules of the database calls are proved
  once, in the locale \<open>rely_guarantee\<close>, for any invariant and any guarantee relation of the
  committed state: other transactions keep the invariant and change the state only as the relation
  allows and as this transaction's locks permit; what this transaction asserts between two
  statements has to be stable under that, and its commit has to keep the invariant and the
  guarantee in turn.
\<close>

section \<open>Triples\<close>

definition triple ::
  "(world \<Rightarrow> bool) \<Rightarrow> 'a prog \<Rightarrow> ('a \<Rightarrow> world \<Rightarrow> bool) \<Rightarrow> (goerr \<Rightarrow> world \<Rightarrow> bool) \<Rightarrow> bool" where
  "triple P m Q E \<longleftrightarrow>
     (\<forall>w. P w \<longrightarrow> (case m w of (Inl e, w') \<Rightarrow> E e w' | (Inr x, w') \<Rightarrow> Q x w'))"

lemma tripleI:
  assumes "\<And>w e w'. P w \<Longrightarrow> m w = (Inl e, w') \<Longrightarrow> E e w'"
    and "\<And>w x w'. P w \<Longrightarrow> m w = (Inr x, w') \<Longrightarrow> Q x w'"
  shows "triple P m Q E"
  using assms by (auto simp: triple_def split: prod.splits sum.splits)

lemma triple_Inr: "triple P m Q E \<Longrightarrow> P w \<Longrightarrow> m w = (Inr x, w') \<Longrightarrow> Q x w'"
  and triple_Inl: "triple P m Q E \<Longrightarrow> P w \<Longrightarrow> m w = (Inl e, w') \<Longrightarrow> E e w'"
  by (fastforce simp: triple_def)+

lemma triple_snd: "triple P m (\<lambda>_. R) (\<lambda>_. R) \<Longrightarrow> P w \<Longrightarrow> R (snd (m w))"
  by (cases "m w"; cases "fst (m w)") (auto dest: triple_Inl triple_Inr)

lemma triple_return: "(\<And>w. P w \<Longrightarrow> Q x w) \<Longrightarrow> triple P (return x) Q E"
  by (simp add: triple_def return_def)

lemma triple_fail: "(\<And>w. P w \<Longrightarrow> E e w) \<Longrightarrow> triple P (fail e) Q E"
  by (simp add: triple_def fail_def)

lemma triple_bindE:
  "triple P m R E \<Longrightarrow> (\<And>x. triple (R x) (f x) Q E) \<Longrightarrow> triple P (bindE m f) Q E"
  unfolding triple_def bindE_def by (fastforce split: prod.splits sum.splits)

lemma triple_try_bind:
  "triple P m R F \<Longrightarrow> (\<And>x. triple (R x) (f x) Q E) \<Longrightarrow> (\<And>e. triple (F e) (h e) Q E) \<Longrightarrow>
   triple P (try_bind m h f) Q E"
  unfolding triple_def try_bind_def by (fastforce split: prod.splits sum.splits)

lemma triple_map_error:
  "triple P m Q (\<lambda>e. E (h e)) \<Longrightarrow> triple P (map_error h m) Q E"
  unfolding triple_def map_error_def by (fastforce split: prod.splits sum.splits)

lemma triple_weaken:
  "triple P' m Q' E' \<Longrightarrow> (\<And>w. P w \<Longrightarrow> P' w) \<Longrightarrow> (\<And>x w. Q' x w \<Longrightarrow> Q x w) \<Longrightarrow>
   (\<And>e w. E' e w \<Longrightarrow> E e w) \<Longrightarrow> triple P m Q E"
  unfolding triple_def by (fastforce split: prod.splits sum.splits)

lemma triple_pre: "triple P' m Q E \<Longrightarrow> (\<And>w. P w \<Longrightarrow> P' w) \<Longrightarrow> triple P m Q E"
  by (rule triple_weaken)

lemma triple_assume: "(\<And>w. P w \<Longrightarrow> C) \<Longrightarrow> (C \<Longrightarrow> triple P m Q E) \<Longrightarrow> triple P m Q E"
  by (cases "\<exists>w. P w") (auto simp: triple_def)

lemma triple_for_each_from:
  assumes "\<And>ys x zs. xs = ys @ x # zs \<Longrightarrow> triple (I ys) (f x) (\<lambda>_. I (ys @ [x])) E"
  shows "xs = ys @ zs \<Longrightarrow> triple (I ys) (for_each f zs) (\<lambda>_. I xs) E"
proof (induction zs arbitrary: ys)
  case Nil
  then show ?case by (simp add: triple_return)
next
  case (Cons z zs)
  from Cons.prems have "triple (I ys) (f z) (\<lambda>_. I (ys @ [z])) E" by (rule assms)
  moreover have "triple (I (ys @ [z])) (for_each f zs) (\<lambda>_. I xs) E"
    by (rule Cons.IH) (simp add: Cons.prems)
  ultimately show ?case by (simp add: triple_bindE)
qed

lemma triple_for_each:
  assumes "\<And>ys x zs. xs = ys @ x # zs \<Longrightarrow> triple (I ys) (f x) (\<lambda>_. I (ys @ [x])) E"
  shows "triple (I []) (for_each f xs) (\<lambda>_. I xs) E"
  by (rule triple_for_each_from) (use assms in simp_all)

lemma triple_defer_rollback:
  "triple P m (\<lambda>x w. Q x (tx_rollback w)) (\<lambda>e w. E e (tx_rollback w)) \<Longrightarrow>
   triple P (defer_rollback m) Q E"
  unfolding triple_def defer_rollback_def by (fastforce split: prod.splits sum.splits)

lemma triple_nextval:
  "(\<And>w s. P w \<Longrightarrow> P (w\<lparr>w_seq := s\<rparr>)) \<Longrightarrow> (\<And>n. triple P (f n) Q E) \<Longrightarrow> triple P (tx_nextval f) Q E"
  by (simp add: triple_def tx_nextval_def)

section \<open>Assertions about a transaction and its surroundings\<close>

definition others_ok :: "(db \<Rightarrow> bool) \<Rightarrow> (db \<Rightarrow> db \<Rightarrow> bool) \<Rightarrow> (db \<Rightarrow> db) \<Rightarrow> bool" where
  "others_ok ok guar f \<longleftrightarrow> (\<forall>d. ok d \<longrightarrow> ok (f d) \<and> guar d (f d))"

text \<open>
  What the driver reports for a failing call is never the value \<open>pgx.ErrNoRows\<close>, which stands for an
  empty result, nor the repository's own private sentinel.
\<close>

definition driver_error :: "goerr \<Rightarrow> bool" where
  "driver_error e \<longleftrightarrow> \<not> errors_Is e ErrNoRows \<and> \<not> errors_Is e errOrderRefTaken"

fun fault_ok :: "fault \<Rightarrow> bool" where
  "fault_ok NoFault = True"
| "fault_ok (Fault e) = driver_error e"
| "fault_ok (LostAck e) = driver_error e"

definition script_ok :: "(db \<Rightarrow> bool) \<Rightarrow> (db \<Rightarrow> db \<Rightarrow> bool) \<Rightarrow> event list \<Rightarrow> bool" where
  "script_ok ok guar es = list_all (\<lambda>e. others_ok ok guar (ev_others e) \<and> fault_ok (ev_fault e)) es"

text \<open>The committed state satisfies the invariant and evolved from \<open>d0\<close> as guaranteed.\<close>

definition base :: "(db \<Rightarrow> bool) \<Rightarrow> (db \<Rightarrow> db \<Rightarrow> bool) \<Rightarrow> db \<Rightarrow> world \<Rightarrow> bool" where
  "base ok guar d0 w \<longleftrightarrow>
     ok (w_db w) \<and> guar d0 (w_db w) \<and> script_ok ok guar (w_script w)"

definition idle :: "(db \<Rightarrow> bool) \<Rightarrow> (db \<Rightarrow> db \<Rightarrow> bool) \<Rightarrow> db \<Rightarrow> world \<Rightarrow> bool" where
  "idle ok guar d0 w \<longleftrightarrow> base ok guar d0 w \<and> w_tx w = None"

definition in_tx ::
  "(db \<Rightarrow> bool) \<Rightarrow> (db \<Rightarrow> db \<Rightarrow> bool) \<Rightarrow> db \<Rightarrow> (db \<Rightarrow> tx \<Rightarrow> bool) \<Rightarrow> world \<Rightarrow> bool" where
  "in_tx ok guar d0 A w \<longleftrightarrow>
     base ok guar d0 w \<and> (\<exists>t. w_tx w = Some t \<and> \<not> tx_aborted t \<and> A (w_db w) t)"

definition stable :: "(db \<Rightarrow> bool) \<Rightarrow> (db \<Rightarrow> db \<Rightarrow> bool) \<Rightarrow> (db \<Rightarrow> tx \<Rightarrow> bool) \<Rightarrow> bool" where
  "stable ok guar A \<longleftrightarrow>
     (\<forall>d d' t. A d t \<and> ok d \<and> ok d' \<and> guar d d' \<and> locks_kept (tx_held t) d d' \<longrightarrow> A d' t)"

lemma stableI:
  "(\<And>d d' t. A d t \<Longrightarrow> ok d \<Longrightarrow> ok d' \<Longrightarrow> guar d d' \<Longrightarrow> locks_kept (tx_held t) d d' \<Longrightarrow> A d' t) \<Longrightarrow>
   stable ok guar A"
  unfolding stable_def by blast

lemma base_rollback [simp]: "base ok guar d0 (tx_rollback w) = base ok guar d0 w"
  by (simp add: base_def tx_rollback_def)

lemma idle_rollback [simp]: "idle ok guar d0 (tx_rollback w) = base ok guar d0 w"
  by (simp add: idle_def base_def tx_rollback_def)

lemma in_tx_base: "in_tx ok guar d0 A w \<Longrightarrow> base ok guar d0 w"
  by (simp add: in_tx_def)

lemma idle_base: "idle ok guar d0 w \<Longrightarrow> base ok guar d0 w"
  by (simp add: idle_def)

lemma in_tx_seq [simp]: "in_tx ok guar d0 A (w\<lparr>w_seq := s\<rparr>) = in_tx ok guar d0 A w"
  by (simp add: in_tx_def base_def)

lemma base_abort [simp]: "base ok guar d0 (abort_tx w) = base ok guar d0 w"
  by (simp add: base_def abort_tx_def)

lemma in_tx_mono:
  "in_tx ok guar d0 A w \<Longrightarrow> (\<And>d t. ok d \<Longrightarrow> A d t \<Longrightarrow> B d t) \<Longrightarrow> in_tx ok guar d0 B w"
  unfolding in_tx_def base_def by blast

section \<open>The rules of the database calls\<close>

locale rely_guarantee =
  fixes ok :: "db \<Rightarrow> bool"
    and guar :: "db \<Rightarrow> db \<Rightarrow> bool"
  assumes guar_refl: "ok d \<Longrightarrow> guar d d"
    and guar_trans: "guar a b \<Longrightarrow> guar b c \<Longrightarrow> guar a c"
begin

lemma next_event_step:
  assumes "base ok guar d0 w" "next_event w = (fault, w1)"
  shows "base ok guar d0 w1" "w_tx w1 = w_tx w" "guar (w_db w) (w_db w1)"
    "locks_kept (held w) (w_db w) (w_db w1)" "fault_ok fault"
proof -
  have refl_kept: "locks_kept ls d d" for ls d
    unfolding locks_kept_def list_all_iff by (metis (full_types) lock_kept.simps pg_lock.exhaust)
  have "base ok guar d0 w1 \<and> w_tx w1 = w_tx w \<and> guar (w_db w) (w_db w1) \<and>
      locks_kept (held w) (w_db w) (w_db w1) \<and> fault_ok fault"
  proof (cases "w_script w")
    case Nil
    with assms show ?thesis
      by (auto simp: next_event_def base_def guar_refl refl_kept)
  next
    case (Cons e es)
    with assms have h: "others_ok ok guar (ev_others e)" "ok (w_db w)" "guar d0 (w_db w)"
      by (simp_all add: base_def script_ok_def)
    then have "ok (ev_others e (w_db w))" "guar (w_db w) (ev_others e (w_db w))"
      by (simp_all add: others_ok_def)
    with Cons assms h show ?thesis
      by (auto simp: next_event_def base_def script_ok_def interfere_def refl_kept guar_refl
          intro: guar_trans)
  qed
  then show "base ok guar d0 w1" "w_tx w1 = w_tx w" "guar (w_db w) (w_db w1)"
    "locks_kept (held w) (w_db w) (w_db w1)" "fault_ok fault" by blast+
qed

lemma next_event_in_tx:
  assumes "in_tx ok guar d0 A w" "stable ok guar A" "next_event w = (fault, w1)"
  shows "in_tx ok guar d0 A w1"
proof -
  from assms(1) obtain t where t: "base ok guar d0 w" "w_tx w = Some t" "\<not> tx_aborted t" "A (w_db w) t"
    by (auto simp: in_tx_def)
  note step = next_event_step [OF t(1) assms(3)]
  have "A (w_db w1) t"
    using assms(2) t step unfolding stable_def base_def held_def by (metis option.simps(5))
  with t step show ?thesis by (simp add: in_tx_def)
qed

lemma begin_rule:
  "triple (idle ok guar d0) pool_begin
     (\<lambda>_. in_tx ok guar d0 (\<lambda>d t. tx_writes t = [] \<and> tx_locks t = []))
     (\<lambda>_. idle ok guar d0)"
proof (rule tripleI)
  fix w e w'
  assume P: "idle ok guar d0 w" and run: "pool_begin w = (Inl e, w')"
  obtain fault w1 where ev: "next_event w = (fault, w1)" by fastforce
  from next_event_step [OF idle_base [OF P] ev] P ev run show "idle ok guar d0 w'"
    by (cases fault) (auto simp: pool_begin_def idle_def)
next
  fix w x w'
  assume P: "idle ok guar d0 w" and run: "pool_begin w = (Inr x, w')"
  obtain fault w1 where ev: "next_event w = (fault, w1)" by fastforce
  from next_event_step(1) [OF idle_base [OF P] ev] ev run
  show "in_tx ok guar d0 (\<lambda>d t. tx_writes t = [] \<and> tx_locks t = []) w'"
    by (cases fault) (auto simp: pool_begin_def in_tx_def base_def)
qed

lemma stmt_rule_strong:
  assumes st: "stable ok guar A"
    and eff: "\<And>d t x ws ls. ok d \<Longrightarrow> A d t \<Longrightarrow> f (tx_view d t) (tx_now t) = Inr (x, ws, ls) \<Longrightarrow>
      B x d (t\<lparr>tx_writes := tx_writes t @ ws, tx_locks := tx_locks t @ ls\<rparr>)"
  shows "triple (in_tx ok guar d0 A) (tx_stmt f) (\<lambda>x. in_tx ok guar d0 (B x))
    (\<lambda>e w. base ok guar d0 w \<and> driver_error e)"
proof (rule tripleI)
  fix w e w'
  assume P: "in_tx ok guar d0 A w" and run: "tx_stmt f w = (Inl e, w')"
  obtain fault w1 where ev: "next_event w = (fault, w1)" by fastforce
  from next_event_in_tx [OF P st ev] obtain t
    where t: "base ok guar d0 w1" "w_tx w1 = Some t" "\<not> tx_aborted t"
    by (auto simp: in_tx_def)
  have "fault_ok fault" by (rule next_event_step(5) [OF in_tx_base [OF P] ev])
  with run ev t have "w' = abort_tx w1 \<and> driver_error e"
    by (auto simp: tx_stmt_def driver_error_def split: fault.splits sum.splits)
  with t show "base ok guar d0 w' \<and> driver_error e" by simp
next
  fix w x w'
  assume P: "in_tx ok guar d0 A w" and run: "tx_stmt f w = (Inr x, w')"
  obtain fault w1 where ev: "next_event w = (fault, w1)" by fastforce
  from next_event_in_tx [OF P st ev] obtain t
    where t: "base ok guar d0 w1" "w_tx w1 = Some t" "\<not> tx_aborted t" "A (w_db w1) t"
    by (auto simp: in_tx_def)
  from run ev t obtain ws ls ks where "f (tx_view (w_db w1) t) (tx_now t) = Inr (x, ws, ls)"
    and w': "w' = w1\<lparr>w_tx := Some (t\<lparr>tx_writes := tx_writes t @ ws, tx_locks := tx_locks t @ ls\<rparr>), w_locked := ks\<rparr>"
    by (auto simp: tx_stmt_def split: fault.splits sum.splits)
  with t eff have "B x (w_db w1) (t\<lparr>tx_writes := tx_writes t @ ws, tx_locks := tx_locks t @ ls\<rparr>)"
    by (auto simp: base_def)
  with t w' show "in_tx ok guar d0 (B x) w'"
    by (simp add: in_tx_def base_def)
qed

lemma stmt_rule:
  assumes "stable ok guar A"
    and "\<And>d t x ws ls. ok d \<Longrightarrow> A d t \<Longrightarrow> f (tx_view d t) (tx_now t) = Inr (x, ws, ls) \<Longrightarrow>
      B x d (t\<lparr>tx_writes := tx_writes t @ ws, tx_locks := tx_locks t @ ls\<rparr>)"
  shows "triple (in_tx ok guar d0 A) (tx_stmt f) (\<lambda>x. in_tx ok guar d0 (B x)) (\<lambda>_. base ok guar d0)"
proof (rule triple_weaken)
  show "triple (in_tx ok guar d0 A) (tx_stmt f) (\<lambda>x. in_tx ok guar d0 (B x))
      (\<lambda>e w. base ok guar d0 w \<and> driver_error e)"
    by (rule stmt_rule_strong) (fact assms)+
qed simp_all

lemma query_rule:
  assumes "stable ok guar A"
    and "\<And>d t. ok d \<Longrightarrow> A d t \<Longrightarrow> B (f (tx_view d t)) d t"
  shows "triple (in_tx ok guar d0 A) (tx_query f) (\<lambda>x. in_tx ok guar d0 (B x)) (\<lambda>_. base ok guar d0)"
  unfolding tx_query_def using assms by (intro stmt_rule) auto

text \<open>A read outside a transaction sees one committed state; what the guarantee keeps stays known.\<close>

lemma pool_query_rule:
  assumes R: "\<And>d d'. R d \<Longrightarrow> guar d d' \<Longrightarrow> R d'"
  shows "triple (\<lambda>w. idle ok guar d0 w \<and> R (w_db w)) (pool_query f)
     (\<lambda>x w. idle ok guar d0 w \<and> R (w_db w) \<and> x = f (w_db w)) (\<lambda>_. idle ok guar d0)"
proof (rule tripleI)
  fix w e w'
  assume P: "idle ok guar d0 w \<and> R (w_db w)" and run: "pool_query f w = (Inl e, w')"
  obtain fault w1 where ev: "next_event w = (fault, w1)" by fastforce
  from P have "idle ok guar d0 w" ..
  from next_event_step [OF idle_base [OF this] ev] P ev run show "idle ok guar d0 w'"
    by (cases fault) (auto simp: pool_query_def idle_def)
next
  fix w x w'
  assume P: "idle ok guar d0 w \<and> R (w_db w)" and run: "pool_query f w = (Inr x, w')"
  obtain fault w1 where ev: "next_event w = (fault, w1)" by fastforce
  from P have "idle ok guar d0 w" ..
  note step = next_event_step [OF idle_base [OF this] ev]
  from P R step(3) have "R (w_db w1)" by blast
  with step P ev run show "idle ok guar d0 w' \<and> R (w_db w') \<and> x = f (w_db w')"
    by (cases fault) (auto simp: pool_query_def idle_def)
qed

text \<open>
  A commit: what held of the committed state and the log just before it is turned into a fact about
  the state after it; whether the acknowledgement arrives or not, the surroundings stay sound.
\<close>

lemma commit_rule:
  assumes st: "stable ok guar A"
    and eff: "\<And>d t. ok d \<Longrightarrow> A d t \<Longrightarrow>
      ok (apply_writes (tx_writes t) d) \<and> guar d (apply_writes (tx_writes t) d) \<and>
      C (apply_writes (tx_writes t) d)"
  shows "triple (in_tx ok guar d0 A) tx_commit (\<lambda>_ w. idle ok guar d0 w \<and> C (w_db w))
           (\<lambda>_. idle ok guar d0)"
proof -
  have step: "\<exists>t. w_tx w1 = Some t \<and> \<not> tx_aborted t \<and> base ok guar d0 w1 \<and>
      base ok guar d0 (w1\<lparr>w_db := tx_view (w_db w1) t\<rparr>) \<and> C (tx_view (w_db w1) t)"
    if P: "in_tx ok guar d0 A w" and ev: "next_event w = (fault, w1)" for w fault w1
  proof -
    from next_event_in_tx [OF P st ev] obtain t
      where t: "base ok guar d0 w1" "w_tx w1 = Some t" "\<not> tx_aborted t" "A (w_db w1) t"
      by (auto simp: in_tx_def)
    with eff [of "w_db w1" t] show ?thesis
      by (auto simp: base_def tx_view_def intro: guar_trans)
  qed
  show ?thesis
  proof (rule tripleI)
    fix w e w'
    assume P: "in_tx ok guar d0 A w" and run: "tx_commit w = (Inl e, w')"
    obtain fault w1 where ev: "next_event w = (fault, w1)" by fastforce
    from step [OF P ev] run ev show "idle ok guar d0 w'"
      by (cases fault) (auto simp: tx_commit_def)
  next
    fix w x w'
    assume P: "in_tx ok guar d0 A w" and run: "tx_commit w = (Inr x, w')"
    obtain fault w1 where ev: "next_event w = (fault, w1)" by fastforce
    from step [OF P ev] run ev show "idle ok guar d0 w' \<and> C (w_db w')"
      by (cases fault) (auto simp: tx_commit_def tx_rollback_def idle_def base_def)
  qed
qed

end

end
