(* ===== verification/Go_Time.thy ===== *)
theory Go_Time
  imports Go_Values
begin

text \<open>
  \<open>t.UTC().Format(time.RFC3339)\<close> for the timestamps the repositories read. A database timestamp is
  a number of microseconds since the Unix epoch; the layout prints whole seconds, in UTC, with the
  suffix \<open>Z\<close>.
\<close>

section \<open>The proleptic Gregorian calendar\<close>

definition days_from_civil :: "int \<Rightarrow> int \<Rightarrow> int \<Rightarrow> int" where
  "days_from_civil y m d =
     (let y' = (if m \<le> 2 then y - 1 else y);
          era = y' div 400;
          yoe = y' - era * 400;
          doy = (153 * (if m > 2 then m - 3 else m + 9) + 2) div 5 + d - 1;
          doe = yoe * 365 + yoe div 4 - yoe div 100 + doy
      in era * 146097 + doe - 719468)"

definition civil_from_days :: "int \<Rightarrow> int \<times> int \<times> int" where
  "civil_from_days z =
     (let z' = z + 719468;
          era = z' div 146097;
          doe = z' mod 146097;
          yoe = (doe - doe div 1460 + doe div 36524 - doe div 146096) div 365;
          doy = doe - (365 * yoe + yoe div 4 - yoe div 100);
          mp = (5 * doy + 2) div 153;
          d = doy - (153 * mp + 2) div 5 + 1;
          m = (if mp < 10 then mp + 3 else mp - 9);
          y = yoe + era * 400
      in (if m \<le> 2 then y + 1 else y, m, d))"

section \<open>The RFC 3339 layout\<close>

definition pad2 :: "int \<Rightarrow> string" where
  "pad2 x = (if x < 10 then ''0'' @ FormatInt x else FormatInt x)"

definition pad_year :: "int \<Rightarrow> string" where
  "pad_year y =
     (let s = format_nat (nat \<bar>y\<bar>)
      in (if y < 0 then ''-'' else '''') @ replicate (4 - length s) (CHR ''0'') @ s)"

definition FormatRFC3339 :: "int \<Rightarrow> string" where
  "FormatRFC3339 micros =
     (let secs = micros div 1000000;
          days = secs div 86400;
          rest = secs mod 86400;
          (y, m, d) = civil_from_days days
      in pad_year y @ ''-'' @ pad2 m @ ''-'' @ pad2 d @ ''T'' @
         pad2 (rest div 3600) @ '':'' @ pad2 (rest mod 3600 div 60) @ '':'' @ pad2 (rest mod 60) @ ''Z'')"

lemma FormatRFC3339_examples:
  "FormatRFC3339 0 = ''1970-01-01T00:00:00Z''"
  "FormatRFC3339 951782400999999 = ''2000-02-29T00:00:00Z''"
  by code_simp+

end
