(* ===== verification/Reservation_Repo.thy ===== *)
theory Reservation_Repo
  imports Pg_Session Go_Time "HOL-Library.Product_Lexorder"
begin

text \<open>
  \<open>internal/core/repository/reservations.go\<close>: \<open>Reserve\<close>, \<open>Release\<close>, \<open>Commit\<close> and
  \<open>GetReservation\<close> with the helpers they are composed of. An SQL text of the source is one
  statement function here, run by \<open>tx_stmt\<close>, \<open>tx_query\<close> or \<open>pool_query\<close>. A failure met while rows
  are iterated or scanned is the failure of the query that produced them.
\<close>

section \<open>SQL\<close>

text \<open>\<open>INSERT INTO inventory_reservations ... ON CONFLICT (id) DO NOTHING\<close>.\<close>

definition insert_reservation ::
  "string \<Rightarrow> string \<Rightarrow> string \<Rightarrow> string \<Rightarrow> db \<Rightarrow> int \<Rightarrow> nat outcome" where
  "insert_reservation rid ref hash expires d now =
     (if \<not> varchar 255 rid \<or> \<not> varchar 255 ref \<or> \<not> varchar 128 hash then Inl ''22001''
      else if expires \<noteq> '''' \<and> timestamptz_in (server d) expires = None then Inl ''22007''
      else if map_of (reservations d) rid \<noteq> None then Inr (0, [], [])
      else if ref_ids d ref \<noteq> [] then Inl ''23505''
      else
        Inr (1,
          [WReservation rid
             \<lparr>external_reference = ref, request_hash = hash, res_status = ReservationReserved,
              expires_at = (if expires = '''' then None else timestamptz_in (server d) expires),
              res_created_at = now, res_updated_at = now\<rparr>], []))"

definition select_header :: "string \<Rightarrow> db \<Rightarrow> reservation_row option" where
  "select_header rid d = map_of (reservations d) rid"

definition line_allocation :: "line_key \<times> line_row \<Rightarrow> Allocation" where
  "line_allocation kl =
     \<lparr>al_SKUID = snd (fst kl), al_WarehouseID = line_warehouse (snd kl),
      al_Quantity = line_quantity (snd kl)\<rparr>"

text \<open>The global balance-lock order, \<open>ORDER BY warehouse_id, sku_id\<close>.\<close>

definition lock_order :: "pg_server \<Rightarrow> Allocation \<Rightarrow> int \<times> string \<times> string" where
  "lock_order sv a = (al_WarehouseID a, strxfrm sv (al_SKUID a), al_SKUID a)"

definition lines_of :: "string \<Rightarrow> db \<Rightarrow> Allocation list" where
  "lines_of rid d = map line_allocation (filter (\<lambda>kl. fst (fst kl) = rid) (reservation_lines d))"

definition select_lines :: "string \<Rightarrow> db \<Rightarrow> Allocation list" where
  "select_lines rid d = sort_key (lock_order (server d)) (lines_of rid d)"

definition is_active :: "db \<Rightarrow> int \<Rightarrow> bool" where
  "is_active d w = (case map_of (warehouses d) w of None \<Rightarrow> False | Some r \<Rightarrow> wh_status r = ''active'')"

definition select_active_ids :: "db \<Rightarrow> int list" where
  "select_active_ids d = sort (map fst (filter (\<lambda>(i, r). wh_status r = ''active'') (warehouses d)))"

text \<open>\<open>GREATEST(0, on_hand - reserved - safety_stock)\<close>.\<close>

definition row_atp :: "balance_row \<Rightarrow> int" where
  "row_atp r = max 0 (on_hand r - reserved r - safety_stock r)"

definition select_atp_rows :: "string list \<Rightarrow> db \<Rightarrow> (int \<times> string \<times> int) list" where
  "select_atp_rows skus d =
     map (\<lambda>((s, w), r). (w, s, row_atp r))
       (filter (\<lambda>((s, w), r). s \<in> set skus \<and> is_active d w) (balances d))"

text \<open>\<open>SELECT ... WHERE warehouse_id = $1 AND sku_id = ANY($2) ORDER BY ... FOR UPDATE\<close>.\<close>

definition lock_rows :: "int \<Rightarrow> string list \<Rightarrow> db \<Rightarrow> (balance_key \<times> balance_row) list" where
  "lock_rows wh skus d =
     sort_key (\<lambda>((s, w), r). (w, strxfrm (server d) s, s))
       (filter (\<lambda>((s, w), r). w = wh \<and> s \<in> set skus) (balances d))"

definition lock_balances :: "int \<Rightarrow> string list \<Rightarrow> db \<Rightarrow> int \<Rightarrow> (string \<times> int) list outcome" where
  "lock_balances wh skus d now =
     (let rows = lock_rows wh skus d
      in Inr (map (\<lambda>((s, w), r). (s, row_atp r)) rows, [], map (\<lambda>(k, r). LockBalance k) rows))"

definition select_tracked :: "string list \<Rightarrow> db \<Rightarrow> string list" where
  "select_tracked skus d = remdups (filter (\<lambda>s. s \<in> set skus) (map (fst \<circ> fst) (balances d)))"

text \<open>\<open>SELECT status FROM inventory_reservations WHERE id = $1 FOR UPDATE\<close>: a missing row locks nothing.\<close>

definition select_status_for_update :: "string \<Rightarrow> db \<Rightarrow> int \<Rightarrow> string option outcome" where
  "select_status_for_update rid d now =
     (case map_of (reservations d) rid of
        None \<Rightarrow> Inr (None, [], [])
      | Some r \<Rightarrow> Inr (Some (res_status r), [], [LockReservation rid]))"

definition update_status :: "string \<Rightarrow> string \<Rightarrow> db \<Rightarrow> int \<Rightarrow> nat outcome" where
  "update_status rid target d now =
     (case map_of (reservations d) rid of
        None \<Rightarrow> Inr (0, [], [])
      | Some r \<Rightarrow>
          (if target \<notin> set reservation_statuses then Inl ''23514''
           else Inr (1, [WReservation rid (r\<lparr>res_status := target, res_updated_at := now\<rparr>)], [])))"

section \<open>Shared helpers\<close>

definition translateConcurrency :: "goerr \<Rightarrow> goerr" where
  "translateConcurrency err =
     (case errors_As_PgError err of
        Some code \<Rightarrow>
          (if code = ''40001'' \<or> code = ''40P01'' \<or> code = ''55P03''
           then Wrapf '''' (Sentinel ErrConcurrencyConflict) ('': '' @ code) else err)
      | None \<Rightarrow> err)"

text \<open>The \<open>querier\<close> interface: a transaction or the pool.\<close>

datatype querier = QTx | QPool

definition query :: "querier \<Rightarrow> (db \<Rightarrow> 'a) \<Rightarrow> 'a prog" where
  "query q f = (case q of QTx \<Rightarrow> tx_query f | QPool \<Rightarrow> pool_query f)"

text \<open>\<open>QueryRow(...).Scan(...)\<close>: no row is \<open>pgx.ErrNoRows\<close>.\<close>

definition scan_row :: "'a option prog \<Rightarrow> 'a prog" where
  "scan_row m =
     bindE m (\<lambda>r. case r of None \<Rightarrow> fail (Sentinel ErrNoRows) | Some x \<Rightarrow> return x)"

definition skuIDsOf :: "Line list \<Rightarrow> string list" where
  "skuIDsOf items = map ln_SKUID items"

fun fulfillsLines :: "(string \<rightharpoonup> int) \<Rightarrow> Line list \<Rightarrow> bool" where
  "fulfillsLines atp [] = True"
| "fulfillsLines atp (it # items) =
     (if mget atp (ln_SKUID it) < ln_Quantity it then False else fulfillsLines atp items)"

fun shortagesAgainst :: "(string \<rightharpoonup> int) \<Rightarrow> Line list \<Rightarrow> Shortage list" where
  "shortagesAgainst base [] = []"
| "shortagesAgainst base (it # items) =
     (let atp = mget base (ln_SKUID it)
      in if atp < ln_Quantity it
         then \<lparr>sh_SKUID = ln_SKUID it, sh_Requested = ln_Quantity it, sh_ATP = atp\<rparr>
                # shortagesAgainst base items
         else shortagesAgainst base items)"

definition loadReservationLines :: "querier \<Rightarrow> string \<Rightarrow> Allocation list prog" where
  "loadReservationLines q rid =
     map_error (\<lambda>err. errorf_w (''load reservation lines '' @ rid @ '': '') (translateConcurrency err))
       (query q (select_lines rid))"

section \<open>Reserve\<close>

definition claimReservation :: "ReservationRequest \<Rightarrow> string \<Rightarrow> bool prog" where
  "claimReservation req hash =
     try_bind
       (tx_stmt (insert_reservation (rq_ID req) (rq_OrderID req) hash (rq_ExpiresAt req)))
       (\<lambda>err.
          if errors_As_PgError err = Some ''23505''
          then fail (errorf_w (''claim reservation '' @ rq_ID req @ '': '') (Sentinel errOrderRefTaken))
          else fail (errorf_w (''claim reservation '' @ rq_ID req @ '': '') (translateConcurrency err)))
       (\<lambda>rows. return (rows = 1))"

definition replayReservation ::
  "querier \<Rightarrow> string \<Rightarrow> string \<Rightarrow> string \<Rightarrow> ReservationResult prog" where
  "replayReservation q rid orderID hash =
     bindE
       (map_error (\<lambda>err. errorf_w (''load claimed reservation '' @ rid @ '': '') (translateConcurrency err))
          (scan_row (query q (select_header rid))))
       (\<lambda>row.
          if request_hash row \<noteq> hash \<or> external_reference row \<noteq> orderID
          then fail (errorf_w (''reservation '' @ rid @ '': '') (Sentinel ErrIdempotencyConflict))
          else
            bindE (loadReservationLines q rid) (\<lambda>allocations.
              return \<lparr>rr_ID = rid, rr_Status = res_status row, rr_Allocations = allocations,
                      rr_Replayed = True\<rparr>))"

text \<open>The loop filling \<open>byWarehouse\<close> from the scanned rows.\<close>

fun fill_by_warehouse ::
  "(int \<times> string \<times> int) list \<Rightarrow> (int \<rightharpoonup> (string \<rightharpoonup> int)) \<Rightarrow> (int \<rightharpoonup> (string \<rightharpoonup> int))" where
  "fill_by_warehouse [] m = m"
| "fill_by_warehouse ((wh, sku, atp) # rows) m =
     fill_by_warehouse rows (m(wh \<mapsto> (mget_map m wh)(sku \<mapsto> atp)))"

fun fill_atp :: "(string \<times> int) list \<Rightarrow> (string \<rightharpoonup> int) \<Rightarrow> (string \<rightharpoonup> int)" where
  "fill_atp [] m = m"
| "fill_atp ((sku, n) # rows) m = fill_atp rows (m(sku \<mapsto> n))"

fun fill_tracked :: "string list \<Rightarrow> (string \<rightharpoonup> bool) \<Rightarrow> (string \<rightharpoonup> bool)" where
  "fill_tracked [] m = m"
| "fill_tracked (sku # rows) m = fill_tracked rows (m(sku \<mapsto> True))"

definition activeATPSnapshot :: "Line list \<Rightarrow> ((int \<rightharpoonup> (string \<rightharpoonup> int)) \<times> int list) prog" where
  "activeATPSnapshot items =
     bindE
       (map_error (\<lambda>err. errorf_w ''active warehouse ids: '' (translateConcurrency err))
          (tx_query select_active_ids))
       (\<lambda>activeIDs.
     bindE
       (map_error (\<lambda>err. errorf_w ''warehouse atp snapshot: '' (translateConcurrency err))
          (tx_query (select_atp_rows (skuIDsOf items))))
       (\<lambda>rows. return (fill_by_warehouse rows Map.empty, activeIDs)))"

definition lockWarehouseATP :: "int \<Rightarrow> Line list \<Rightarrow> (string \<rightharpoonup> int) prog" where
  "lockWarehouseATP warehouseID items =
     bindE
       (map_error
          (\<lambda>err. errorf_w (''lock balances wh='' @ FormatInt warehouseID @ '': '') (translateConcurrency err))
          (tx_stmt (lock_balances warehouseID (skuIDsOf items))))
       (\<lambda>rows. return (fill_atp rows Map.empty))"

definition classifyReservationFailure :: "Line list \<Rightarrow> Shortage list \<Rightarrow> 'a prog" where
  "classifyReservationFailure items short =
     (let ids = map ln_SKUID items
      in try_bind (tx_query (select_tracked ids))
           (\<lambda>err. fail (errorf_w ''classify reservation failure: '' err))
           (\<lambda>rows.
              let tracked = fill_tracked rows Map.empty;
                  unknown = filter (\<lambda>i. \<not> mget_bool tracked i) ids
              in if length unknown > 0 then fail (UnknownSKUError unknown)
                 else fail (InsufficientStockError short)))"

text \<open>The first warehouse of the ascending list that fulfills every line.\<close>

fun choose_warehouse ::
  "int list \<Rightarrow> (int \<rightharpoonup> (string \<rightharpoonup> int)) \<Rightarrow> Line list \<Rightarrow> int option" where
  "choose_warehouse [] byWarehouse items = None"
| "choose_warehouse (wh # ids) byWarehouse items =
     (if fulfillsLines (mget_map byWarehouse wh) items then Some wh
      else choose_warehouse ids byWarehouse items)"

definition allocateReservation :: "Line list \<Rightarrow> Allocation list prog" where
  "allocateReservation items =
     bindE (activeATPSnapshot items) (\<lambda>(byWarehouse, activeIDs).
       case choose_warehouse activeIDs byWarehouse items of
         None \<Rightarrow>
           (let base = (case activeIDs of [] \<Rightarrow> Map.empty | wh # _ \<Rightarrow> mget_map byWarehouse wh)
            in classifyReservationFailure items (shortagesAgainst base items))
       | Some chosen \<Rightarrow>
           bindE (lockWarehouseATP chosen items) (\<lambda>locked.
             let short = shortagesAgainst locked items
             in if length short > 0 then classifyReservationFailure items short
                else
                  return (map (\<lambda>it. \<lparr>al_SKUID = ln_SKUID it, al_WarehouseID = chosen,
                                     al_Quantity = ln_Quantity it\<rparr>) items)))"

definition insertReservationMovement ::
  "string \<Rightarrow> Allocation \<Rightarrow> string \<Rightarrow> int \<Rightarrow> int \<Rightarrow> string \<Rightarrow> string \<Rightarrow> unit prog" where
  "insertReservationMovement commandID a movementType onHandDelta reservedDelta reservationID reason =
     map_error
       (\<lambda>err. errorf_w (''insert '' @ movementType @ '' movement '' @ commandID @ '': '')
                (translateConcurrency err))
       (bindE
          (tx_nextval (\<lambda>n. tx_stmt (\<lambda>d now.
             insert_movement False
               \<lparr>mv_id = n, mv_command_id = commandID, mv_sku_id = al_SKUID a,
                mv_warehouse_id = al_WarehouseID a, mv_type = movementType,
                mv_on_hand_delta = onHandDelta, mv_reserved_delta = reservedDelta,
                mv_reference_type = Some ''reservation'', mv_reference_id = Some reservationID,
                mv_reason = (if reason = '''' then None else Some reason), mv_actor = None,
                mv_created_at = now\<rparr> d)))
          (\<lambda>_. return ()))"

definition bump_reserved :: "int \<Rightarrow> int \<Rightarrow> balance_row \<Rightarrow> balance_row" where
  "bump_reserved q now r =
     r\<lparr>reserved := reserved r + q, version := version r + 1, bal_updated_at := now\<rparr>"

definition applyReserve :: "string \<Rightarrow> Allocation list \<Rightarrow> unit prog" where
  "applyReserve reservationID allocations =
     for_each (\<lambda>a.
       bindE
         (map_error (\<lambda>err. errorf_w (''reserve balance '' @ al_SKUID a @ '': '') (translateConcurrency err))
            (tx_stmt (\<lambda>d now.
               update_balance (bump_reserved (al_Quantity a) now) (al_SKUID a, al_WarehouseID a) d)))
         (\<lambda>_.
       bindE
         (map_error
            (\<lambda>err. errorf_w (''insert reservation line '' @ al_SKUID a @ '': '') (translateConcurrency err))
            (tx_stmt (\<lambda>d now.
               insert_line reservationID (al_SKUID a) (al_WarehouseID a) (al_Quantity a) d)))
         (\<lambda>_.
       insertReservationMovement (''res:'' @ reservationID @ '':'' @ al_SKUID a)
         a MovementReserve 0 (al_Quantity a) reservationID '''')))
       allocations"

definition Reserve :: "ReservationRequest \<Rightarrow> ReservationResult prog" where
  "Reserve req =
     (let hash = CanonicalHash (rq_Items req) (rq_DestinationRegion req)
      in bindE (map_error (errorf_w ''begin reserve: '') pool_begin) (\<lambda>_.
         defer_rollback (
           try_bind (claimReservation req hash)
             (\<lambda>err.
                if \<not> errors_Is err errOrderRefTaken then fail err
                else
                  bindE rollback_now (\<lambda>_.
                  try_bind (replayReservation QPool (rq_ID req) (rq_OrderID req) hash)
                    (\<lambda>rerr.
                       if errors_Is rerr ErrNoRows
                       then fail (errorf_w (''order '' @ rq_OrderID req @
                              '' already reserved under another reservation id: '')
                              (Sentinel ErrIdempotencyConflict))
                       else fail rerr)
                    return))
             (\<lambda>claimed.
                if \<not> claimed then replayReservation QTx (rq_ID req) (rq_OrderID req) hash
                else
                  bindE (allocateReservation (rq_Items req)) (\<lambda>allocations.
                  bindE (applyReserve (rq_ID req) allocations) (\<lambda>_.
                  bindE
                    (map_error
                       (\<lambda>err. errorf_w (''commit reserve '' @ rq_ID req @ '': '') (translateConcurrency err))
                       tx_commit)
                    (\<lambda>_. return
                       \<lparr>rr_ID = rq_ID req, rr_Status = ReservationReserved,
                        rr_Allocations = allocations, rr_Replayed = False\<rparr>)))))))"

section \<open>Release and Commit\<close>

text \<open>
  \<open>transition\<close>: a missing row leaves \<open>status\<close> empty; \<open>decide\<close> returns an error, the status to
  answer without any change, or the empty string to proceed.
\<close>

definition transition ::
  "string \<Rightarrow> string \<Rightarrow> (string \<Rightarrow> goerr + string) \<Rightarrow> (Allocation \<Rightarrow> unit prog) \<Rightarrow> string prog" where
  "transition rid targetStatus decide applyLine =
     bindE (map_error (errorf_w ''begin transition: '') pool_begin) (\<lambda>_.
     defer_rollback (
       bindE
         (try_bind (scan_row (tx_stmt (select_status_for_update rid)))
            (\<lambda>err.
               if \<not> errors_Is err ErrNoRows
               then fail (errorf_w (''lock reservation '' @ rid @ '': '') (translateConcurrency err))
               else return '''')
            return)
         (\<lambda>status.
            case decide status of
              Inl err \<Rightarrow> fail err
            | Inr done \<Rightarrow>
                (if done \<noteq> '''' then return done
                 else
                   bindE (loadReservationLines QTx rid) (\<lambda>lines.
                   bindE (for_each applyLine lines) (\<lambda>_.
                   bindE
                     (map_error
                        (\<lambda>err. errorf_w (''set reservation '' @ rid @ '' status: '') (translateConcurrency err))
                        (tx_stmt (update_status rid targetStatus)))
                     (\<lambda>_.
                   bindE
                     (map_error
                        (\<lambda>err. errorf_w (''commit transition '' @ rid @ '': '') (translateConcurrency err))
                        tx_commit)
                     (\<lambda>_. return targetStatus))))))))"

definition rows_updated_error :: "string \<Rightarrow> Allocation \<Rightarrow> nat \<Rightarrow> goerr" where
  "rows_updated_error op a n =
     ErrorsNew (op @ '' balance '' @ al_SKUID a @ ''/'' @ FormatInt (al_WarehouseID a) @ '': '' @
       FormatInt (int n) @ '' rows updated, want 1'')"

definition decide_release :: "string \<Rightarrow> string \<Rightarrow> goerr + string" where
  "decide_release rid status =
     (if status = '''' then Inr ReservationReleased
      else if status = ReservationReleased then Inr ReservationReleased
      else if status = ReservationCommitted \<or> status = ReservationExpired then
        Inl (errorf_w (''release '' @ rid @ '' from '' @ status @ '': '') (Sentinel ErrInvalidTransition))
      else Inr '''')"

definition release_line :: "string \<Rightarrow> string \<Rightarrow> Allocation \<Rightarrow> unit prog" where
  "release_line rid reason a =
     bindE
       (map_error (\<lambda>err. errorf_w (''release balance '' @ al_SKUID a @ '': '') (translateConcurrency err))
          (tx_stmt (\<lambda>d now.
             update_balance
               (\<lambda>r. r\<lparr>reserved := reserved r - al_Quantity a, version := version r + 1,
                      bal_updated_at := now\<rparr>)
               (al_SKUID a, al_WarehouseID a) d)))
       (\<lambda>rows.
          if rows \<noteq> 1 then fail (rows_updated_error ''release'' a rows)
          else
            insertReservationMovement (''rel:'' @ rid @ '':'' @ al_SKUID a)
              a MovementRelease 0 (- al_Quantity a) rid reason)"

definition Release :: "string \<Rightarrow> string \<Rightarrow> string prog" where
  "Release rid reason =
     transition rid ReservationReleased (decide_release rid) (release_line rid reason)"

definition decide_commit :: "string \<Rightarrow> string \<Rightarrow> goerr + string" where
  "decide_commit rid status =
     (if status = '''' then
        Inl (errorf_w (''commit '' @ rid @ '': '') (Sentinel ErrReservationNotFound))
      else if status = ReservationCommitted then Inr ReservationCommitted
      else if status = ReservationReleased \<or> status = ReservationExpired then
        Inl (errorf_w (''commit '' @ rid @ '' from '' @ status @ '': '') (Sentinel ErrInvalidTransition))
      else Inr '''')"

definition commit_line :: "string \<Rightarrow> Allocation \<Rightarrow> unit prog" where
  "commit_line rid a =
     bindE
       (map_error (\<lambda>err. errorf_w (''commit balance '' @ al_SKUID a @ '': '') (translateConcurrency err))
          (tx_stmt (\<lambda>d now.
             update_balance
               (\<lambda>r. r\<lparr>on_hand := on_hand r - al_Quantity a, reserved := reserved r - al_Quantity a,
                      version := version r + 1, bal_updated_at := now\<rparr>)
               (al_SKUID a, al_WarehouseID a) d)))
       (\<lambda>rows.
          if rows \<noteq> 1 then fail (rows_updated_error ''commit'' a rows)
          else
            insertReservationMovement (''cmt:'' @ rid @ '':'' @ al_SKUID a)
              a MovementSaleCommitted (- al_Quantity a) (- al_Quantity a) rid '''')"

definition Commit :: "string \<Rightarrow> string prog" where
  "Commit rid = transition rid ReservationCommitted (decide_commit rid) (commit_line rid)"

section \<open>GetReservation\<close>

definition GetReservation :: "string \<Rightarrow> Reservation prog" where
  "GetReservation rid =
     try_bind (scan_row (pool_query (select_header rid)))
       (\<lambda>err.
          if errors_Is err ErrNoRows
          then fail (errorf_w (''reservation '' @ rid @ '': '') (Sentinel ErrReservationNotFound))
          else fail (errorf_w (''load reservation '' @ rid @ '': '') err))
       (\<lambda>row.
          bindE (loadReservationLines QPool rid) (\<lambda>allocations.
            return
              \<lparr>rv_ID = rid, rv_OrderID = external_reference row, rv_Status = res_status row,
               rv_Allocations = allocations,
               rv_CreatedAt = FormatRFC3339 (res_created_at row),
               rv_UpdatedAt = FormatRFC3339 (res_updated_at row),
               rv_ExpiresAt = (case expires_at row of None \<Rightarrow> '''' | Some t \<Rightarrow> FormatRFC3339 t)\<rparr>))"

end
