(* ===== verification/Inventory_Invariant.thy ===== *)
theory Inventory_Invariant
  imports Rely_Guarantee Reservation_Repo
begin

text \<open>
  What is true of the committed state at any time, and how it may change. \<open>schema_ok\<close> is what the
  constraints of the migrations enforce. \<open>db_inv\<close> adds the two equations no constraint can express:
  the reserved quantity of a balance is the quantity of the open reservations holding it, and it is
  the sum of the ledger's reserved deltas. \<open>db_guar\<close> is the evolution the service promises: the
  ledger is append-only, the on-hand quantity and the ledger move together, a reservation's identity
  and lines never change and its status changes only from \<open>reserved\<close>.
\<close>

section \<open>Observables\<close>

definition on_hand_of :: "db \<Rightarrow> balance_key \<Rightarrow> int" where
  "on_hand_of d k = (case map_of (balances d) k of None \<Rightarrow> 0 | Some r \<Rightarrow> on_hand r)"

definition reserved_of :: "db \<Rightarrow> balance_key \<Rightarrow> int" where
  "reserved_of d k = (case map_of (balances d) k of None \<Rightarrow> 0 | Some r \<Rightarrow> reserved r)"

definition status_of :: "db \<Rightarrow> string \<Rightarrow> string option" where
  "status_of d i = map_option res_status (map_of (reservations d) i)"

definition line_held :: "db \<Rightarrow> balance_key \<Rightarrow> line_key \<times> line_row \<Rightarrow> int" where
  "line_held d k kl =
     (if status_of d (fst (fst kl)) = Some ReservationReserved \<and>
         (snd (fst kl), line_warehouse (snd kl)) = k
      then line_quantity (snd kl) else 0)"

definition held_qty :: "db \<Rightarrow> balance_key \<Rightarrow> int" where
  "held_qty d k = sum_list (map (line_held d k) (reservation_lines d))"

definition mv_key :: "movement_row \<Rightarrow> balance_key" where
  "mv_key m = (mv_sku_id m, mv_warehouse_id m)"

definition moved_on_hand :: "db \<Rightarrow> balance_key \<Rightarrow> int" where
  "moved_on_hand d k = (\<Sum>m \<leftarrow> movements d. if mv_key m = k then mv_on_hand_delta m else 0)"

definition moved_reserved :: "db \<Rightarrow> balance_key \<Rightarrow> int" where
  "moved_reserved d k = (\<Sum>m \<leftarrow> movements d. if mv_key m = k then mv_reserved_delta m else 0)"

lemmas observable_defs = on_hand_of_def reserved_of_def

section \<open>The invariant and the guarantee\<close>

definition balances_ok :: "db \<Rightarrow> bool" where
  "balances_ok d \<longleftrightarrow>
     distinct (map fst (balances d)) \<and>
     (\<forall>k r. map_of (balances d) k = Some r \<longrightarrow>
        balance_range r \<and> balance_check r \<and> has_warehouse d (snd k))"

definition reservations_ok :: "db \<Rightarrow> bool" where
  "reservations_ok d \<longleftrightarrow>
     distinct (map fst (reservations d)) \<and>
     (\<forall>i r. map_of (reservations d) i = Some r \<longrightarrow> res_status r \<in> set reservation_statuses) \<and>
     (\<forall>i j r s. map_of (reservations d) i = Some r \<longrightarrow> map_of (reservations d) j = Some s \<longrightarrow>
        external_reference r = external_reference s \<longrightarrow> i = j)"

definition lines_ok :: "db \<Rightarrow> bool" where
  "lines_ok d \<longleftrightarrow>
     distinct (map fst (reservation_lines d)) \<and>
     (\<forall>k l. map_of (reservation_lines d) k = Some l \<longrightarrow>
        0 < line_quantity l \<and> map_of (reservations d) (fst k) \<noteq> None \<and>
        has_warehouse d (line_warehouse l))"

definition movements_ok :: "db \<Rightarrow> bool" where
  "movements_ok d \<longleftrightarrow>
     distinct (map mv_command_id (movements d)) \<and>
     (\<forall>m \<in> set (movements d). mv_type m \<in> set movement_types \<and> has_warehouse d (mv_warehouse_id m))"

definition schema_ok :: "db \<Rightarrow> bool" where
  "schema_ok d \<longleftrightarrow>
     distinct (map fst (warehouses d)) \<and> balances_ok d \<and> reservations_ok d \<and> lines_ok d \<and> movements_ok d"

definition db_inv :: "db \<Rightarrow> bool" where
  "db_inv d \<longleftrightarrow>
     schema_ok d \<and>
     (\<forall>k. reserved_of d k = held_qty d k) \<and>
     (\<forall>k. reserved_of d k = moved_reserved d k)"

definition header_kept :: "reservation_row \<Rightarrow> reservation_row \<Rightarrow> bool" where
  "header_kept r r' \<longleftrightarrow>
     external_reference r' = external_reference r \<and> request_hash r' = request_hash r \<and>
     expires_at r' = expires_at r \<and> res_created_at r' = res_created_at r \<and>
     (res_status r \<noteq> ReservationReserved \<longrightarrow> r' = r)"

definition db_guar :: "db \<Rightarrow> db \<Rightarrow> bool" where
  "db_guar d d' \<longleftrightarrow>
     server d' = server d \<and>
     (\<forall>w. has_warehouse d w \<longrightarrow> has_warehouse d' w) \<and>
     (\<forall>k. map_of (balances d) k \<noteq> None \<longrightarrow> map_of (balances d') k \<noteq> None) \<and>
     (\<forall>i r. map_of (reservations d) i = Some r \<longrightarrow>
        (\<exists>r'. map_of (reservations d') i = Some r' \<and> header_kept r r') \<and>
        lines_of i d' = lines_of i d) \<and>
     (\<exists>ms. movements d' = movements d @ ms) \<and>
     (\<forall>k. on_hand_of d' k - moved_on_hand d' k = on_hand_of d k - moved_on_hand d k)"

lemma header_kept_refl: "header_kept r r"
  by (simp add: header_kept_def)

lemma header_kept_trans: "header_kept r s \<Longrightarrow> header_kept s u \<Longrightarrow> header_kept r u"
  by (auto simp: header_kept_def)

lemma db_guar_refl: "db_guar d d"
  by (auto simp: db_guar_def header_kept_refl)

lemma db_guar_trans:
  assumes ab: "db_guar a b" and bc: "db_guar b c"
  shows "db_guar a c"
proof -
  have "(\<exists>t. map_of (reservations c) i = Some t \<and> header_kept r t) \<and> lines_of i c = lines_of i a"
    if "map_of (reservations a) i = Some r" for i r
    using that ab bc unfolding db_guar_def by (metis header_kept_trans)
  moreover have "\<exists>ms. movements c = movements a @ ms"
    using ab bc unfolding db_guar_def by (metis append_assoc)
  ultimately show ?thesis
    using ab bc unfolding db_guar_def by simp
qed

interpretation rg: rely_guarantee db_inv db_guar
  by unfold_locales (auto intro: db_guar_refl db_guar_trans)

section \<open>Consequences of the invariant\<close>

lemma balances_okD:
  "balances_ok d \<Longrightarrow> map_of (balances d) k = Some r \<Longrightarrow>
   balance_range r \<and> balance_check r \<and> has_warehouse d (snd k)"
  unfolding balances_ok_def by blast

lemma lines_okD:
  "lines_ok d \<Longrightarrow> map_of (reservation_lines d) k = Some l \<Longrightarrow>
   0 < line_quantity l \<and> map_of (reservations d) (fst k) \<noteq> None \<and> has_warehouse d (line_warehouse l)"
  unfolding lines_ok_def by blast

lemma reservations_ok_refD:
  assumes "reservations_ok d" "map_of (reservations d) i = Some r" "map_of (reservations d) j = Some s"
    and "external_reference r = external_reference s"
  shows "i = j"
proof -
  from assms(1) have "\<forall>i j r s. map_of (reservations d) i = Some r \<longrightarrow> map_of (reservations d) j = Some s \<longrightarrow>
      external_reference r = external_reference s \<longrightarrow> i = j"
    unfolding reservations_ok_def by (elim conjE)
  from this [rule_format, OF assms(2-4)] show ?thesis .
qed

lemma db_invD:
  assumes "db_inv d"
  shows "balances_ok d" "reservations_ok d" "lines_ok d" "movements_ok d"
    "reserved_of d k = held_qty d k" "reserved_of d k = moved_reserved d k"
    "distinct (map fst (warehouses d))"
  using assms unfolding db_inv_def schema_ok_def by blast+

lemma inv_balance_bounds:
  assumes "db_inv d"
  shows "0 \<le> reserved_of d k \<and> reserved_of d k \<le> on_hand_of d k"
proof (cases "map_of (balances d) k")
  case None
  then show ?thesis by (simp add: observable_defs)
next
  case (Some r)
  with assms have "balance_check r" by (blast dest: db_invD(1) balances_okD)
  with Some show ?thesis by (simp add: observable_defs balance_check_def)
qed

lemma in_ref_ids:
  "i \<in> set (ref_ids d ref) \<longleftrightarrow>
     (\<exists>r. map_of (reservations d) i = Some r \<and> external_reference r = ref)"
  by (auto simp: ref_ids_def dest: map_of_SomeD intro!: rev_image_eqI)

lemma ref_ids_empty_iff:
  "ref_ids d ref = [] \<longleftrightarrow>
     (\<forall>i r. map_of (reservations d) i = Some r \<longrightarrow> external_reference r \<noteq> ref)"
proof -
  have "ref_ids d ref = [] \<longleftrightarrow> (\<forall>i. i \<notin> set (ref_ids d ref))" by (cases "ref_ids d ref") auto
  then show ?thesis by (simp add: in_ref_ids)
qed

lemma lines_of_unknown:
  assumes "lines_ok d" "map_of (reservations d) i = None"
  shows "filter (\<lambda>kl. fst (fst kl) = i) (reservation_lines d) = []"
  using assms by (fastforce simp: lines_ok_def filter_empty_conv)

section \<open>Moving stock and ledger together\<close>

text \<open>
  The part every repository transaction shares. Its redo log moves the quantities of some balance
  rows by the deltas \<open>dh\<close> (on hand) and \<open>dr\<close> (reserved), and appends ledger rows that record the
  same deltas. \<open>bs\<close> lists the balances already written and \<open>as\<close> the ledger rows already appended;
  at commit the two lists agree.
\<close>

definition akey :: "Allocation \<Rightarrow> balance_key" where
  "akey a = (al_SKUID a, al_WarehouseID a)"

definition balance_moved ::
  "(Allocation \<Rightarrow> int) \<Rightarrow> (Allocation \<Rightarrow> int) \<Rightarrow> db \<Rightarrow> balance_key \<times> balance_row \<Rightarrow> Allocation \<Rightarrow> bool" where
  "balance_moved dh dr d kr a \<longleftrightarrow>
     fst kr = akey a \<and>
     on_hand (snd kr) = on_hand_of d (akey a) + dh a \<and>
     reserved (snd kr) = reserved_of d (akey a) + dr a \<and>
     balance_range (snd kr) \<and> balance_check (snd kr) \<and> has_warehouse d (al_WarehouseID a)"

definition ledger_moved ::
  "(Allocation \<Rightarrow> int) \<Rightarrow> (Allocation \<Rightarrow> int) \<Rightarrow> db \<Rightarrow> movement_row \<Rightarrow> Allocation \<Rightarrow> bool" where
  "ledger_moved dh dr d m a \<longleftrightarrow>
     mv_key m = akey a \<and> mv_on_hand_delta m = dh a \<and> mv_reserved_delta m = dr a \<and>
     mv_type m \<in> set movement_types \<and> \<not> has_command d (mv_command_id m) \<and>
     has_warehouse d (mv_warehouse_id m)"

definition stock_moved ::
  "(Allocation \<Rightarrow> int) \<Rightarrow> (Allocation \<Rightarrow> int) \<Rightarrow> db \<Rightarrow> pg_write list \<Rightarrow>
   Allocation list \<Rightarrow> Allocation list \<Rightarrow> bool" where
  "stock_moved dh dr d ws bs as \<longleftrightarrow>
     distinct (map akey bs) \<and> list_all2 (balance_moved dh dr d) (write_balances ws) bs \<and>
     distinct (map mv_command_id (write_movements ws)) \<and>
     list_all2 (ledger_moved dh dr d) (write_movements ws) as"

definition sum_at :: "(Allocation \<Rightarrow> int) \<Rightarrow> Allocation list \<Rightarrow> balance_key \<Rightarrow> int" where
  "sum_at f as k = (\<Sum>a \<leftarrow> as. if akey a = k then f a else 0)"

lemma sum_at_simps [simp]:
  "sum_at f [] k = 0"
  "sum_at f (a # as) k = (if akey a = k then f a else 0) + sum_at f as k"
  "sum_at f (as @ bs) k = sum_at f as k + sum_at f bs k"
  by (simp_all add: sum_at_def)

lemma sum_at_absent: "k \<notin> akey ` set as \<Longrightarrow> sum_at f as k = 0"
  by (induction as) auto

lemma sum_at_mset: "mset as = mset bs \<Longrightarrow> sum_at f as k = sum_at f bs k"
  unfolding sum_at_def sum_mset_sum_list [symmetric] mset_map by simp

lemma sum_at_uminus: "sum_at (\<lambda>a. - f a) as k = - sum_at f as k"
  by (induction as) auto

lemma sum_at_zero [simp]: "sum_at (\<lambda>a. 0) as k = 0"
  by (induction as) auto

lemma balance_moved_keys:
  "list_all2 (balance_moved dh dr d) us bs \<Longrightarrow> map fst us = map akey bs"
  by (induction rule: list_all2_induct) (auto simp: balance_moved_def)

lemma moved_lookup:
  assumes "list_all2 (balance_moved dh dr d) us bs" "distinct (map akey bs)"
  shows "(case map_of us k of None \<Rightarrow> on_hand_of d k | Some r \<Rightarrow> on_hand r) = on_hand_of d k + sum_at dh bs k"
    and "(case map_of us k of None \<Rightarrow> reserved_of d k | Some r \<Rightarrow> reserved r) = reserved_of d k + sum_at dr bs k"
  using assms
  by (induction rule: list_all2_induct) (auto simp: balance_moved_def sum_at_absent)

lemma stock_moved_quantities:
  assumes "stock_moved dh dr d ws bs as"
  shows "on_hand_of (apply_writes ws d) k = on_hand_of d k + sum_at dh bs k"
    and "reserved_of (apply_writes ws d) k = reserved_of d k + sum_at dr bs k"
proof -
  from assms have moved: "list_all2 (balance_moved dh dr d) (write_balances ws) bs"
    and dist: "distinct (map akey bs)" by (simp_all add: stock_moved_def)
  from dist have "distinct (map fst (write_balances ws))"
    by (simp only: balance_moved_keys [OF moved])
  then have lookup: "map_of (balances (apply_writes ws d)) k =
      (case map_of (write_balances ws) k of None \<Rightarrow> map_of (balances d) k | Some r \<Rightarrow> Some r)"
    by (simp add: table_simps map_of_replay_distinct map_add_def)
  show "on_hand_of (apply_writes ws d) k = on_hand_of d k + sum_at dh bs k"
    unfolding moved_lookup(1) [OF moved dist, symmetric]
    by (simp add: on_hand_of_def lookup split: option.split)
  show "reserved_of (apply_writes ws d) k = reserved_of d k + sum_at dr bs k"
    unfolding moved_lookup(2) [OF moved dist, symmetric]
    by (simp add: reserved_of_def lookup split: option.split)
qed

lemma stock_moved_ledger:
  assumes "stock_moved dh dr d ws bs as"
  shows "moved_on_hand (apply_writes ws d) k = moved_on_hand d k + sum_at dh as k"
    and "moved_reserved (apply_writes ws d) k = moved_reserved d k + sum_at dr as k"
proof -
  have "list_all2 (ledger_moved dh dr d) ms as \<Longrightarrow>
      (\<Sum>m \<leftarrow> ms. if mv_key m = k then mv_on_hand_delta m else 0) = sum_at dh as k \<and>
      (\<Sum>m \<leftarrow> ms. if mv_key m = k then mv_reserved_delta m else 0) = sum_at dr as k" for ms
    by (induction rule: list_all2_induct) (auto simp: ledger_moved_def)
  with assms show "moved_on_hand (apply_writes ws d) k = moved_on_hand d k + sum_at dh as k"
    and "moved_reserved (apply_writes ws d) k = moved_reserved d k + sum_at dr as k"
    by (simp_all add: moved_on_hand_def moved_reserved_def stock_moved_def table_simps)
qed

lemma distinct_replay_keys: "distinct (map fst t) \<Longrightarrow> distinct (map fst (replay us t))"
  by (induction us arbitrary: t) (auto simp: AList.distinct_update)

lemma has_warehouse_apply [simp]: "has_warehouse (apply_writes ws d) w = has_warehouse d w"
  by (simp add: has_warehouse_def table_simps)

lemma has_command_apply:
  "has_command (apply_writes ws d) c \<longleftrightarrow>
     has_command d c \<or> c \<in> mv_command_id ` set (write_movements ws)"
  by (auto simp: has_command_def table_simps)

lemma list_all2_in_first: "list_all2 P xs ys \<Longrightarrow> x \<in> set xs \<Longrightarrow> \<exists>y \<in> set ys. P x y"
  by (metis in_set_conv_nth list_all2_conv_all_nth)

lemma map_of_replay_cases:
  "map_of (replay us t) k = Some r \<Longrightarrow> (k, r) \<in> set us \<or> map_of t k = Some r"
  by (auto simp: map_of_replay map_add_def split: option.splits dest: map_of_SomeD)

lemma stock_moved_balances_ok:
  assumes sm: "stock_moved dh dr d ws bs as" and ok: "balances_ok d"
  shows "balances_ok (apply_writes ws d)"
proof -
  from sm have moved: "list_all2 (balance_moved dh dr d) (write_balances ws) bs"
    by (simp add: stock_moved_def)
  have "balance_range r \<and> balance_check r \<and> has_warehouse d (snd k)"
    if "map_of (replay (write_balances ws) (balances d)) k = Some r" for k r
  proof -
    from map_of_replay_cases [OF that] show ?thesis
    proof
      assume "(k, r) \<in> set (write_balances ws)"
      from list_all2_in_first [OF moved this] obtain a where "balance_moved dh dr d (k, r) a" by blast
      then show ?thesis by (simp add: balance_moved_def akey_def)
    qed (rule balances_okD [OF ok])
  qed
  moreover have "distinct (map fst (replay (write_balances ws) (balances d)))"
    using ok by (simp add: distinct_replay_keys balances_ok_def)
  ultimately show ?thesis unfolding balances_ok_def has_warehouse_apply table_simps by blast
qed

lemma stock_moved_movements_ok:
  assumes sm: "stock_moved dh dr d ws bs as" and ok: "movements_ok d"
  shows "movements_ok (apply_writes ws d)"
proof -
  have new: "mv_type m \<in> set movement_types \<and> has_warehouse d (mv_warehouse_id m) \<and>
      mv_command_id m \<notin> mv_command_id ` set (movements d)" if "m \<in> set (write_movements ws)" for m
  proof -
    from sm have "list_all2 (ledger_moved dh dr d) (write_movements ws) as"
      by (simp add: stock_moved_def)
    from list_all2_in_first [OF this that] obtain a where "ledger_moved dh dr d m a" by blast
    then show ?thesis by (simp add: ledger_moved_def has_command_def)
  qed
  have "distinct (map mv_command_id (write_movements ws))"
    using sm unfolding stock_moved_def by blast
  moreover have "distinct (map mv_command_id (movements d))"
    using ok unfolding movements_ok_def by blast
  moreover have "set (map mv_command_id (movements d)) \<inter> set (map mv_command_id (write_movements ws)) = {}"
  proof -
    have "c \<notin> mv_command_id ` set (movements d)" if "c \<in> mv_command_id ` set (write_movements ws)" for c
      using that new by (elim imageE) simp
    then show ?thesis unfolding set_map disjoint_iff by metis
  qed
  ultimately have "distinct (map mv_command_id (movements d @ write_movements ws))"
    unfolding map_append distinct_append by blast
  moreover have "\<forall>m \<in> set (movements d @ write_movements ws).
      mv_type m \<in> set movement_types \<and> has_warehouse d (mv_warehouse_id m)"
    using new ok unfolding set_append movements_ok_def by blast
  ultimately show ?thesis
    unfolding movements_ok_def has_warehouse_apply table_simps by blast
qed

lemma keys_kept: "map_of t k \<noteq> None \<Longrightarrow> map_of (replay us t) k \<noteq> None"
  by (auto simp: map_of_replay map_add_def split: option.splits)

section \<open>What the locks of a transaction preserve\<close>

lemma held_locks:
  "WBalance k r \<in> set (tx_writes t) \<Longrightarrow> LockBalance k \<in> set (tx_held t)"
  "WMovement m \<in> set (tx_writes t) \<Longrightarrow> LockCommand (mv_command_id m) \<in> set (tx_held t)"
  "WReservation i v \<in> set (tx_writes t) \<Longrightarrow> LockReservation i \<in> set (tx_held t)"
  "WReservation i v \<in> set (tx_writes t) \<Longrightarrow> LockOrderRef (external_reference v) \<in> set (tx_held t)"
  "l \<in> set (tx_locks t) \<Longrightarrow> l \<in> set (tx_held t)"
  by (force simp: tx_held_def)+

lemma in_projections:
  "(k, r) \<in> set (write_balances ws) \<longleftrightarrow> WBalance k r \<in> set ws"
  "(i, v) \<in> set (write_reservations ws) \<longleftrightarrow> WReservation i v \<in> set ws"
  "m \<in> set (write_movements ws) \<longleftrightarrow> WMovement m \<in> set ws"
proof -
  show "(k, r) \<in> set (write_balances ws) \<longleftrightarrow> WBalance k r \<in> set ws"
    by (induction ws rule: write_balances.induct) auto
  show "(i, v) \<in> set (write_reservations ws) \<longleftrightarrow> WReservation i v \<in> set ws"
    by (induction ws rule: write_reservations.induct) auto
  show "m \<in> set (write_movements ws) \<longleftrightarrow> WMovement m \<in> set ws"
    by (induction ws rule: write_movements.induct) auto
qed

lemma locks_keptD: "locks_kept ls d d' \<Longrightarrow> l \<in> set ls \<Longrightarrow> lock_kept d d' l"
  by (simp add: locks_kept_def list_all_iff)

lemma db_guarD:
  assumes "db_guar d d'"
  shows "server d' = server d" "has_warehouse d w \<Longrightarrow> has_warehouse d' w"
    "map_of (balances d) k \<noteq> None \<Longrightarrow> map_of (balances d') k \<noteq> None"
    "map_of (reservations d) i = Some r \<Longrightarrow>
       \<exists>r'. map_of (reservations d') i = Some r' \<and> header_kept r r'"
    "map_of (reservations d) i = Some r \<Longrightarrow> lines_of i d' = lines_of i d"
    "\<exists>ms. movements d' = movements d @ ms"
  using assms unfolding db_guar_def by blast+

lemma stock_moved_stable:
  assumes sm: "stock_moved dh dr d (tx_writes t) bs as"
    and g: "db_guar d d'" and lk: "locks_kept (tx_held t) d d'"
  shows "stock_moved dh dr d' (tx_writes t) bs as"
proof -
  have bal: "balance_moved dh dr d' kr a"
    if "balance_moved dh dr d kr a" "kr \<in> set (write_balances (tx_writes t))" for kr a
  proof -
    have "WBalance (akey a) (snd kr) \<in> set (tx_writes t)"
      using that by (metis balance_moved_def in_projections(1) prod.collapse)
    from locks_keptD [OF lk held_locks(1) [OF this]]
    have "on_hand_of d' (akey a) = on_hand_of d (akey a)" "reserved_of d' (akey a) = reserved_of d (akey a)"
      by (simp_all add: observable_defs)
    with that(1) db_guarD(2) [OF g] show ?thesis by (simp add: balance_moved_def)
  qed
  have led: "ledger_moved dh dr d' m a"
    if "ledger_moved dh dr d m a" "m \<in> set (write_movements (tx_writes t))" for m a
  proof -
    have "has_command d' (mv_command_id m) = has_command d (mv_command_id m)"
      using locks_keptD [OF lk held_locks(2)] that(2) by (simp add: in_projections)
    with that(1) db_guarD(2) [OF g] show ?thesis by (simp add: ledger_moved_def)
  qed
  have "list_all2 (balance_moved dh dr d') (write_balances (tx_writes t)) bs"
    by (rule list.rel_mono_strong [of "balance_moved dh dr d"]) (use sm bal in \<open>simp_all add: stock_moved_def\<close>)
  moreover have "list_all2 (ledger_moved dh dr d') (write_movements (tx_writes t)) as"
    by (rule list.rel_mono_strong [of "ledger_moved dh dr d"]) (use sm led in \<open>simp_all add: stock_moved_def\<close>)
  ultimately show ?thesis using sm by (simp add: stock_moved_def)
qed

section \<open>Committing\<close>

lemma update_fresh: "map_of t k = None \<Longrightarrow> AList.update k v t = t @ [(k, v)]"
  by (induction t) auto

lemma replay_fresh:
  "distinct (map fst us) \<Longrightarrow> \<forall>u \<in> set us. map_of t (fst u) = None \<Longrightarrow> replay us t = t @ us"
proof (induction us arbitrary: t)
  case (Cons u us)
  obtain k v where u: "u = (k, v)" by (cases u)
  with Cons.prems have "replay (u # us) t = replay us (t @ [(k, v)])" by (simp add: update_fresh)
  also have "\<dots> = (t @ [(k, v)]) @ us"
    using Cons.prems u by (intro Cons.IH) (auto simp: map_add_def split: option.splits)
  finally show ?case using u by simp
qed simp

text \<open>
  The shared conclusion of every commit: if the log moves stock and ledger together and the lines
  held by open reservations change by the same amount, the equations of the invariant carry over.
\<close>

lemma commit_db_inv:
  assumes d: "db_inv d" and sm: "stock_moved dh dr d ws as as"
    and ok: "reservations_ok (apply_writes ws d)" "lines_ok (apply_writes ws d)"
    and held: "\<And>k. held_qty (apply_writes ws d) k = held_qty d k + sum_at dr as k"
  shows "db_inv (apply_writes ws d)"
  unfolding db_inv_def schema_ok_def
  using db_invD(7) [OF d] ok held stock_moved_balances_ok [OF sm db_invD(1) [OF d]]
    stock_moved_movements_ok [OF sm db_invD(4) [OF d]]
  by (simp add: table_simps(2) stock_moved_quantities [OF sm] stock_moved_ledger [OF sm]
      db_invD(5) [OF d] db_invD(6) [OF d, symmetric])

lemma commit_db_guar:
  assumes sm: "stock_moved dh dr d ws as as"
    and kept: "\<And>i r. map_of (reservations d) i = Some r \<Longrightarrow>
      (\<exists>r'. map_of (reservations (apply_writes ws d)) i = Some r' \<and> header_kept r r') \<and>
      lines_of i (apply_writes ws d) = lines_of i d"
  shows "db_guar d (apply_writes ws d)"
  unfolding db_guar_def
  using kept keys_kept [of "balances d"]
  by (simp add: table_simps(1,3,6) stock_moved_quantities [OF sm] stock_moved_ledger [OF sm])

end
