(* ===== verification/Allocation_Choice.thy ===== *)
theory Allocation_Choice
  imports Inventory_Invariant
begin

text \<open>
  The pure part of \<open>allocateReservation\<close>: what the Go maps built from the scanned rows contain,
  which warehouse the scan over the active ids picks, and when the shortage list is empty.
\<close>

section \<open>Available to promise\<close>

text \<open>A SKU without a balance row in the warehouse counts as 0, as a missing Go map key does.\<close>

definition atp_at :: "db \<Rightarrow> int \<Rightarrow> string \<Rightarrow> int" where
  "atp_at d w s = (case map_of (balances d) (s, w) of None \<Rightarrow> 0 | Some r \<Rightarrow> row_atp r)"

lemma row_atp_nonneg: "0 \<le> row_atp r"
  by (simp add: row_atp_def)

lemma atp_at_nonneg: "0 \<le> atp_at d w s"
  by (simp add: atp_at_def row_atp_nonneg split: option.split)

section \<open>The maps filled from rows\<close>

lemma map_add_single: "m ++ [k \<mapsto> v] = m(k \<mapsto> v)"
  by (simp add: map_add_upd)

lemma fill_atp_map: "fill_atp rows m = m ++ map_of (rev rows)"
  by (induction rows m rule: fill_atp.induct)
    (simp_all add: map_add_assoc map_add_single del: fun_upd_apply)

lemma fill_tracked_map: "fill_tracked rows m s = (if s \<in> set rows then Some True else m s)"
proof (induction rows m rule: fill_tracked.induct)
  case (2 sku rows m)
  show ?case unfolding fill_tracked.simps 2 by simp
qed simp

lemma mget_map_upd: "mget_map (m(w \<mapsto> v)) w' = (if w' = w then v else mget_map m w')"
  by (simp add: mget_map_def)

lemma fill_by_warehouse_map:
  "mget_map (fill_by_warehouse rows m) w =
     mget_map m w ++ map_of (rev (map snd (filter (\<lambda>row. fst row = w) rows)))"
proof (induction rows m rule: fill_by_warehouse.induct)
  case (2 wh sku atp rows m)
  then show ?case
    by (cases "wh = w") (simp_all add: mget_map_upd map_add_assoc map_add_single del: fun_upd_apply)
qed simp

text \<open>The rows of a scan with distinct keys are the graph of the map they fill.\<close>

lemma map_of_rows:
  assumes "distinct (map fst rows)" "\<And>k v. (k, v) \<in> set rows \<longleftrightarrow> f k = Some v"
  shows "map_of (rev rows) = f"
proof (rule ext)
  fix k
  have "map_of (rev rows) k = Some v \<longleftrightarrow> f k = Some v" for v
    using assms by (simp add: map_of_rev_distinct map_of_eq_Some_iff)
  then show "map_of (rev rows) k = f k" by (metis option.exhaust)
qed

lemma in_table: "distinct (map fst t) \<Longrightarrow> (k, r) \<in> set t \<longleftrightarrow> map_of t k = Some r"
  by (simp add: map_of_eq_Some_iff)

lemma distinct_selected:
  assumes "distinct (map fst t)" "inj_on g (fst ` {kr \<in> set t. P kr})"
  shows "distinct (map (g \<circ> fst) (filter P t))"
proof -
  have "distinct (map fst (filter P t))" using assms(1) by (simp add: distinct_map_filter)
  with assms(2) have "distinct (map g (map fst (filter P t)))" by (subst distinct_map) simp
  then show ?thesis by simp
qed

definition atp_map :: "db \<Rightarrow> int \<Rightarrow> string list \<Rightarrow> (string \<rightharpoonup> int)" where
  "atp_map d w skus s =
     (if s \<in> set skus then map_option row_atp (map_of (balances d) (s, w)) else None)"

lemma mget_atp_map: "mget (atp_map d w skus) s = (if s \<in> set skus then atp_at d w s else 0)"
  by (simp add: mget_def atp_map_def atp_at_def split: option.split)

lemma locked_rows_map:
  assumes "distinct (map fst (balances d))"
  shows "fill_atp (map (\<lambda>((s, w), r). (s, row_atp r)) (lock_rows wh skus d)) Map.empty =
     atp_map d wh skus"
proof -
  let ?key = "\<lambda>((s, w), r). (w, strxfrm (server d) s, s)"
  let ?P = "\<lambda>((s, w), r). w = wh \<and> s \<in> set skus"
  let ?rows = "map (\<lambda>((s, w), r). (s, row_atp r)) (lock_rows wh skus d)"
  have "distinct (map (fst \<circ> fst) (filter ?P (balances d)))"
    by (rule distinct_selected [OF assms]) (auto simp: inj_on_def)
  then have "distinct (map (fst \<circ> fst) (lock_rows wh skus d))"
    unfolding lock_rows_def distinct_map by simp
  moreover have "map fst ?rows = map (fst \<circ> fst) (lock_rows wh skus d)"
    by (auto simp: case_prod_beta)
  ultimately have "distinct (map fst ?rows)" by (simp only:)
  moreover have "(s, n) \<in> set ?rows \<longleftrightarrow> atp_map d wh skus s = Some n" for s n
    using in_table [OF assms, of "(s, wh)"]
    by (auto simp: lock_rows_def atp_map_def image_iff)
  ultimately show ?thesis by (simp add: fill_atp_map map_of_rows)
qed

lemma snapshot_map:
  assumes "distinct (map fst (balances d))" "is_active d w"
  shows "mget_map (fill_by_warehouse (select_atp_rows skus d) Map.empty) w = atp_map d w skus"
proof -
  let ?P = "\<lambda>((s, w'), r). s \<in> set skus \<and> is_active d w'"
  let ?rows = "map snd (filter (\<lambda>row. fst row = w) (select_atp_rows skus d))"
  let ?Q = "\<lambda>kr. ?P kr \<and> snd (fst kr) = w"
  have rows: "?rows = map (\<lambda>((s, w'), r). (s, row_atp r)) (filter ?Q (balances d))"
  proof -
    have "map snd (filter (\<lambda>row. fst row = w) (map (\<lambda>((s, w'), r). (w', s, row_atp r)) (filter ?P t))) =
        map (\<lambda>((s, w'), r). (s, row_atp r)) (filter ?Q t)" for t :: "(balance_key \<times> balance_row) list"
      by (induction t) auto
    then show ?thesis by (simp only: select_atp_rows_def)
  qed
  have "distinct (map (fst \<circ> fst) (filter ?Q (balances d)))"
    by (rule distinct_selected [OF assms(1)]) (auto simp: inj_on_def)
  moreover have "map fst ?rows = map (fst \<circ> fst) (filter ?Q (balances d))"
    unfolding rows by (auto simp: case_prod_beta)
  ultimately have "distinct (map fst ?rows)" by (simp only:)
  moreover have "(s, n) \<in> set ?rows \<longleftrightarrow> atp_map d w skus s = Some n" for s n
    using in_table [OF assms(1), of "(s, w)"] assms(2)
    unfolding rows by (auto simp: atp_map_def image_iff)
  ultimately have "map_of (rev ?rows) = atp_map d w skus" by (rule map_of_rows)
  then show ?thesis by (simp add: fill_by_warehouse_map)
qed

section \<open>Fulfilment\<close>

lemma fulfillsLines_iff: "fulfillsLines atp items \<longleftrightarrow> (\<forall>it \<in> set items. ln_Quantity it \<le> mget atp (ln_SKUID it))"
  by (induction atp items rule: fulfillsLines.induct) auto

lemma shortagesAgainst_filter:
  "shortagesAgainst b items =
     map (\<lambda>it. \<lparr>sh_SKUID = ln_SKUID it, sh_Requested = ln_Quantity it, sh_ATP = mget b (ln_SKUID it)\<rparr>)
       (filter (\<lambda>it. mget b (ln_SKUID it) < ln_Quantity it) items)"
  by (induction b items rule: shortagesAgainst.induct) (auto simp: Let_def)

lemma no_shortage_iff: "shortagesAgainst b items = [] \<longleftrightarrow> fulfillsLines b items"
  by (auto simp: shortagesAgainst_filter fulfillsLines_iff filter_empty_conv)

text \<open>A warehouse can serve a basket alone if every line is covered by what it can promise.\<close>

definition serves :: "db \<Rightarrow> Line list \<Rightarrow> int \<Rightarrow> bool" where
  "serves d items w \<longleftrightarrow> (\<forall>it \<in> set items. ln_Quantity it \<le> atp_at d w (ln_SKUID it))"

lemma fulfillsLines_atp_map: "fulfillsLines (atp_map d w (skuIDsOf items)) items \<longleftrightarrow> serves d items w"
  by (auto simp: fulfillsLines_iff serves_def mget_atp_map skuIDsOf_def)

lemma choose_warehouse_find:
  "choose_warehouse ids byw items = find (\<lambda>w. fulfillsLines (mget_map byw w) items) ids"
  by (induction ids byw items rule: choose_warehouse.induct) auto

lemma in_select_active_ids:
  assumes "distinct (map fst (warehouses d))"
  shows "w \<in> set (select_active_ids d) \<longleftrightarrow> is_active d w"
proof -
  have "w \<in> set (select_active_ids d) \<longleftrightarrow> (\<exists>r. (w, r) \<in> set (warehouses d) \<and> wh_status r = ''active'')"
    by (force simp: select_active_ids_def)
  also have "\<dots> \<longleftrightarrow> is_active d w"
    unfolding in_table [OF assms] is_active_def by (cases "map_of (warehouses d) w") simp_all
  finally show ?thesis .
qed

end
