(* ===== verification/Reservation_Safety.thy ===== *)
theory Reservation_Safety
  imports Allocation_Choice
begin

text \<open>
  Whatever the other clients do within the guarantee, and wherever a call fails, \<open>Reserve\<close>,
  \<open>Release\<close> and \<open>Commit\<close> keep the invariant of the committed state and stay within the guarantee
  themselves. Each proof follows the transaction from call to call with an assertion about its redo
  log that the row and key locks it holds make stable.
\<close>

section \<open>Steps shared by the three operations\<close>

lemma stock_moved_view:
  assumes sm: "stock_moved dh dr d ws bs as" and fresh: "akey a \<notin> akey ` set bs"
  shows "map_of (balances (apply_writes ws d)) (akey a) = map_of (balances d) (akey a)"
proof -
  have "set (map fst (write_balances ws)) = akey ` set bs"
    using sm balance_moved_keys [of dh dr d] by (metis list.set_map stock_moved_def)
  with fresh have "map_of (rev (write_balances ws)) (akey a) = None"
    by (simp add: map_of_eq_None_iff)
  then show ?thesis by (simp add: table_simps map_of_replay map_add_def)
qed

lemma stock_moved_store:
  assumes sm: "stock_moved dh dr d ws bs as" and fresh: "akey a \<notin> akey ` set bs"
    and wh: "has_warehouse d (al_WarehouseID a)"
    and st: "store_balance (akey a) r = Inr (n, ws', ls)"
    and r: "on_hand r = on_hand_of d (akey a) + dh a" "reserved r = reserved_of d (akey a) + dr a"
  shows "n = 1" "ws' = [WBalance (akey a) r]" "stock_moved dh dr d (ws @ ws') (bs @ [a]) as"
proof -
  from st have st': "n = 1" "ws' = [WBalance (akey a) r]" "balance_range r" "balance_check r"
    by (auto simp: store_balance_def split: if_splits)
  then show "n = 1" "ws' = [WBalance (akey a) r]" by simp_all
  from st' r wh have "balance_moved dh dr d (akey a, r) a" by (simp add: balance_moved_def)
  with sm fresh st'(2) show "stock_moved dh dr d (ws @ ws') (bs @ [a]) as"
    by (simp add: stock_moved_def list_all2_appendI)
qed

lemma stock_moved_update:
  assumes sm: "stock_moved dh dr d ws bs as" and fresh: "akey a \<notin> akey ` set bs"
    and ok: "balances_ok d" and row: "map_of (balances d) (akey a) = Some r"
    and upd: "update_balance f (akey a) (apply_writes ws d) = Inr (n, ws', ls)"
    and f: "on_hand (f r) = on_hand r + dh a" "reserved (f r) = reserved r + dr a"
  shows "n = 1" "ws' = [WBalance (akey a) (f r)]" "stock_moved dh dr d (ws @ ws') (bs @ [a]) as"
proof -
  from upd row have st: "store_balance (akey a) (f r) = Inr (n, ws', ls)"
    by (simp add: update_balance_def stock_moved_view [OF sm fresh])
  have wh: "has_warehouse d (al_WarehouseID a)"
    using balances_okD [OF ok row] by (simp add: akey_def)
  have "on_hand (f r) = on_hand_of d (akey a) + dh a" "reserved (f r) = reserved_of d (akey a) + dr a"
    using f row by (simp_all add: observable_defs)
  from stock_moved_store [where dh = dh and dr = dr, OF sm fresh wh st this]
  show "n = 1" "ws' = [WBalance (akey a) (f r)]" "stock_moved dh dr d (ws @ ws') (bs @ [a]) as"
    by simp_all
qed

lemma stock_moved_insert:
  assumes sm: "stock_moved dh dr d ws bs as"
    and ins: "insert_movement c m (apply_writes ws d) = Inr (n, ws', ls)" and n: "n = 1 \<or> \<not> c"
    and m: "mv_key m = akey a" "mv_on_hand_delta m = dh a" "mv_reserved_delta m = dr a"
  shows "n = 1" "\<exists>m'. ws' = [WMovement m'] \<and> stored_movement m = Some m'"
    "stock_moved dh dr d (ws @ ws') bs (as @ [a])"
proof -
  from ins n obtain m' where st: "n = 1" "ws' = [WMovement m']" "stored_movement m = Some m'" "mv_type m \<in> set movement_types"
    "\<not> has_command (apply_writes ws d) (mv_command_id m)" "has_warehouse d (mv_warehouse_id m)"
    by (auto simp: insert_movement_def split: if_splits option.splits)
  then show "n = 1" "\<exists>m'. ws' = [WMovement m'] \<and> stored_movement m = Some m'" by simp_all
  note kept = stored_movement_kept [OF st(3)]
  from st(5) have new: "\<not> has_command d (mv_command_id m)"
    "mv_command_id m \<notin> mv_command_id ` set (write_movements ws)"
    unfolding has_command_apply by blast+
  with st m have "ledger_moved dh dr d m' a" by (simp add: ledger_moved_def kept mv_key_def)
  with sm st(2) new(2) kept(2) show "stock_moved dh dr d (ws @ ws') bs (as @ [a])"
    by (simp add: stock_moved_def list_all2_appendI)
qed

lemma tx_held_mono:
  "set (tx_held t) \<subseteq> set (tx_held (t\<lparr>tx_writes := tx_writes t @ ws, tx_locks := tx_locks t @ ls\<rparr>))"
  by (auto simp: tx_held_def)

section \<open>The assertion about a reservation being placed\<close>

definition line_write :: "string \<Rightarrow> Allocation \<Rightarrow> line_key \<times> line_row" where
  "line_write rid a =
     ((rid, al_SKUID a), \<lparr>line_warehouse = al_WarehouseID a, line_quantity = al_Quantity a\<rparr>)"

definition claimed_header :: "string \<Rightarrow> string \<Rightarrow> reservation_row \<Rightarrow> bool" where
  "claimed_header ref hash hdr \<longleftrightarrow>
     external_reference hdr = ref \<and> request_hash hdr = hash \<and> res_status hdr = ReservationReserved"

text \<open>The log holds the claim, the lines of \<open>ls\<close>, the balances of \<open>bs\<close> and the ledger rows of \<open>as\<close>.\<close>

definition reserving ::
  "string \<Rightarrow> string \<Rightarrow> string \<Rightarrow> db \<Rightarrow> pg_write list \<Rightarrow>
   Allocation list \<Rightarrow> Allocation list \<Rightarrow> Allocation list \<Rightarrow> bool" where
  "reserving rid ref hash d ws bs ls as \<longleftrightarrow>
     map_of (reservations d) rid = None \<and> ref_ids d ref = [] \<and>
     (\<exists>hdr. write_reservations ws = [(rid, hdr)] \<and> claimed_header ref hash hdr) \<and>
     write_lines ws = map (line_write rid) ls \<and> distinct (map al_SKUID ls) \<and>
     (\<forall>a \<in> set ls. 0 < al_Quantity a \<and> has_warehouse d (al_WarehouseID a)) \<and>
     stock_moved (\<lambda>a. 0) al_Quantity d ws bs as \<and>
     (\<forall>kr \<in> set (write_balances ws). safety_stock (snd kr) \<le> on_hand (snd kr) - reserved (snd kr))"

text \<open>What the locked read promised: every line fits the locked balance row.\<close>

definition covered :: "db \<Rightarrow> pg_lock list \<Rightarrow> Allocation list \<Rightarrow> bool" where
  "covered d ls as \<longleftrightarrow>
     (\<forall>a \<in> set as. 0 < al_Quantity a \<longrightarrow>
        (\<exists>r. map_of (balances d) (akey a) = Some r \<and> al_Quantity a \<le> row_atp r \<and>
             LockBalance (akey a) \<in> set ls))"

lemma covered_stable: "covered d ls as \<Longrightarrow> locks_kept ls d d' \<Longrightarrow> covered d' ls as"
  unfolding covered_def by (metis lock_kept.simps(1) locks_keptD)

lemma covered_mono: "covered d ls as \<Longrightarrow> set ls \<subseteq> set ls' \<Longrightarrow> covered d ls' as"
  unfolding covered_def by blast

lemma reserving_stable:
  assumes r: "reserving rid ref hash d (tx_writes t) bs ls as"
    and g: "db_guar d d'" and lk: "locks_kept (tx_held t) d d'"
  shows "reserving rid ref hash d' (tx_writes t) bs ls as"
proof -
  from r obtain hdr where hdr: "write_reservations (tx_writes t) = [(rid, hdr)]" "claimed_header ref hash hdr"
    by (auto simp: reserving_def)
  then have w: "WReservation rid hdr \<in> set (tx_writes t)"
    by (metis in_projections(2) list.set_intros(1))
  note r' = r [unfolded reserving_def]
  have "map_of (reservations d') rid = None"
    using r' locks_keptD [OF lk held_locks(3) [OF w]] by simp
  moreover have "ref_ids d' ref = []"
  proof -
    have "ref_ids d ref = []" using r' by blast
    then show ?thesis
      using locks_keptD [OF lk held_locks(4) [OF w]] hdr(2) by (simp add: claimed_header_def)
  qed
  moreover have "stock_moved (\<lambda>a. 0) al_Quantity d' (tx_writes t) bs as"
  proof (rule stock_moved_stable [OF _ g lk])
    show "stock_moved (\<lambda>a. 0) al_Quantity d (tx_writes t) bs as" using r' by blast
  qed
  moreover have "\<forall>a \<in> set ls. 0 < al_Quantity a \<and> has_warehouse d' (al_WarehouseID a)"
    using r' db_guarD(2) [OF g] by blast
  ultimately show ?thesis
    using r' unfolding reserving_def by (elim conjE, intro conjI)
qed

section \<open>Committing a reservation\<close>

lemma lines_of_append:
  "reservation_lines d' = reservation_lines d @ map (line_write rid) as \<Longrightarrow>
   lines_of i d' = lines_of i d @ (if i = rid then as else [])"
proof -
  assume l: "reservation_lines d' = reservation_lines d @ map (line_write rid) as"
  have "line_allocation (line_write rid a) = a" for a
    by (simp add: line_allocation_def line_write_def)
  then have "map line_allocation (filter (\<lambda>kl. fst (fst kl) = i) (map (line_write rid) as)) =
      (if i = rid then as else [])"
    by (induction as) (auto simp: line_write_def)
  with l show ?thesis by (simp add: lines_of_def)
qed

lemma held_qty_append:
  assumes l: "reservation_lines d' = reservation_lines d @ map (line_write rid) as"
    and st: "\<And>i. i \<noteq> rid \<Longrightarrow> status_of d' i = status_of d i"
    and new: "status_of d' rid = Some ReservationReserved"
    and old: "filter (\<lambda>kl. fst (fst kl) = rid) (reservation_lines d) = []"
  shows "held_qty d' k = held_qty d k + sum_at al_Quantity as k"
proof -
  have "map (line_held d' k) (reservation_lines d) = map (line_held d k) (reservation_lines d)"
    using old st by (intro map_cong) (auto simp: line_held_def filter_empty_conv)
  moreover have "sum_list (map (line_held d' k) (map (line_write rid) as)) = sum_at al_Quantity as k"
    using new by (induction as) (simp_all add: line_held_def line_write_def akey_def)
  ultimately show ?thesis unfolding held_qty_def l map_append sum_list_append by (simp only:)
qed

lemma reserving_commit:
  assumes d: "db_inv d" and r: "reserving rid ref hash d ws as as as"
  shows "db_inv (apply_writes ws d)" "db_guar d (apply_writes ws d)"
    "\<exists>hdr. map_of (reservations (apply_writes ws d)) rid = Some hdr \<and> claimed_header ref hash hdr"
    "lines_of rid (apply_writes ws d) = as"
proof -
  let ?d' = "apply_writes ws d"
  note ok = db_invD [OF d]
  from r have fresh: "map_of (reservations d) rid = None" "ref_ids d ref = []"
    and lines: "write_lines ws = map (line_write rid) as" "distinct (map al_SKUID as)"
      "\<forall>a \<in> set as. 0 < al_Quantity a \<and> has_warehouse d (al_WarehouseID a)"
    and sm: "stock_moved (\<lambda>a. 0) al_Quantity d ws as as"
    unfolding reserving_def by blast+
  from r obtain hdr where hdr: "write_reservations ws = [(rid, hdr)]" "claimed_header ref hash hdr"
    unfolding reserving_def by blast
  have hs: "reservations ?d' = reservations d @ [(rid, hdr)]"
    by (simp add: table_simps hdr(1) update_fresh fresh(1))
  have look: "map_of (reservations ?d') i = (if i = rid then Some hdr else map_of (reservations d) i)" for i
    using fresh(1) by (auto simp: hs map_add_def split: option.split)
  have no_lines: "filter (\<lambda>kl. fst (fst kl) = rid) (reservation_lines d) = []"
    by (rule lines_of_unknown [OF ok(3) fresh(1)])
  have line_fresh: "map_of (reservation_lines d) (rid, s) = None" for s
    using lines_okD [OF ok(3), of "(rid, s)"] fresh(1) by (cases "map_of (reservation_lines d) (rid, s)") auto
  have keys: "map fst (map (line_write rid) as) = map (\<lambda>s. (rid, s)) (map al_SKUID as)"
    by (simp add: line_write_def)
  have "distinct (map fst (map (line_write rid) as))"
    unfolding keys using lines(2) by (simp add: distinct_map inj_on_def)
  then have ls: "reservation_lines ?d' = reservation_lines d @ map (line_write rid) as"
    unfolding table_simps lines(1) by (rule replay_fresh) (auto simp: line_write_def line_fresh)
  have hq: "held_qty ?d' k = held_qty d k + sum_at al_Quantity as k" for k
    using hdr(2) by (intro held_qty_append [OF ls _ _ no_lines]) (simp_all add: status_of_def look claimed_header_def)
  have rok: "reservations_ok ?d'"
  proof -
    have "external_reference v \<noteq> ref" if "map_of (reservations d) i = Some v" for i v
      using fresh(2) that unfolding ref_ids_empty_iff by blast
    then have uniq: "i = j" if "map_of (reservations ?d') i = Some v" "map_of (reservations ?d') j = Some u"
        "external_reference v = external_reference u" for i j v u
      using that ok(2) hdr(2) unfolding look claimed_header_def reservations_ok_def
      by (metis option.inject)
    have "rid \<notin> fst ` set (reservations d)" using fresh(1) by (simp add: map_of_eq_None_iff)
    then have "distinct (map fst (reservations ?d'))" using ok(2) by (simp add: hs reservations_ok_def)
    moreover have "res_status v \<in> set reservation_statuses" if "map_of (reservations ?d') i = Some v" for i v
      using that ok(2) hdr(2) unfolding look reservations_ok_def
      by (auto simp: claimed_header_def reservation_statuses_def split: if_splits)
    ultimately show ?thesis unfolding reservations_ok_def using uniq by blast
  qed
  have lok: "lines_ok ?d'"
  proof -
    have "rid' = rid \<and> 0 < line_quantity l \<and> has_warehouse d (line_warehouse l)"
      if "((rid', s), l) \<in> set (map (line_write rid) as)" for rid' s l
      using that lines(3) by (auto simp: line_write_def)
    moreover have "map_of (reservation_lines ?d') key = Some l \<Longrightarrow>
        (key, l) \<in> set (map (line_write rid) as) \<or> map_of (reservation_lines d) key = Some l" for key l
      unfolding table_simps lines(1) by (rule map_of_replay_cases)
    ultimately have "0 < line_quantity l \<and> map_of (reservations ?d') (fst key) \<noteq> None \<and>
        has_warehouse ?d' (line_warehouse l)" if "map_of (reservation_lines ?d') key = Some l" for key l
      using that lines_okD [OF ok(3), of key l] unfolding look has_warehouse_apply by (cases key) fastforce
    moreover have "distinct (map fst (reservation_lines ?d'))"
      unfolding table_simps using ok(3) by (simp add: distinct_replay_keys lines_ok_def)
    ultimately show ?thesis unfolding lines_ok_def by blast
  qed
  show "db_inv ?d'" by (rule commit_db_inv [OF d sm rok lok hq])
  show "db_guar d ?d'"
  proof (rule commit_db_guar [OF sm])
    fix i v
    assume "map_of (reservations d) i = Some v"
    with fresh(1) show "(\<exists>r'. map_of (reservations ?d') i = Some r' \<and> header_kept v r') \<and>
        lines_of i ?d' = lines_of i d"
      by (auto simp: look header_kept_refl lines_of_append [OF ls])
  qed
  show "\<exists>hdr. map_of (reservations ?d') rid = Some hdr \<and> claimed_header ref hash hdr"
    using hdr(2) by (simp add: look)
  have "lines_of rid d = []" using no_lines by (simp add: lines_of_def)
  then show "lines_of rid ?d' = as" by (simp add: lines_of_append [OF ls])
qed

section \<open>Reading a placed reservation\<close>

definition matches :: "string \<Rightarrow> string \<Rightarrow> string \<Rightarrow> db \<Rightarrow> bool" where
  "matches rid ref hash d \<longleftrightarrow>
     (\<exists>hdr. map_of (reservations d) rid = Some hdr \<and>
        external_reference hdr = ref \<and> request_hash hdr = hash)"

lemma matches_guar:
  assumes "matches rid ref hash d" "db_guar d d'"
  shows "matches rid ref hash d'"
proof -
  from assms(1) obtain hdr where hdr: "map_of (reservations d) rid = Some hdr"
    "external_reference hdr = ref" "request_hash hdr = hash" by (auto simp: matches_def)
  with db_guarD(4) [OF assms(2) hdr(1)] show ?thesis by (auto simp: matches_def header_kept_def)
qed

lemma select_lines_guar:
  "map_of (reservations d) rid = Some hdr \<Longrightarrow> db_guar d d' \<Longrightarrow>
   select_lines rid d' = select_lines rid d"
  by (simp add: select_lines_def db_guarD(1,5))

text \<open>
  Both kinds of \<open>querier\<close>: inside a transaction that has written nothing, or outside any. Either
  way a query reads one committed state.
\<close>

definition reading :: "db \<Rightarrow> querier \<Rightarrow> (db \<Rightarrow> bool) \<Rightarrow> world \<Rightarrow> bool" where
  "reading d0 q R w =
     (case q of
        QTx \<Rightarrow> in_tx db_inv db_guar d0 (\<lambda>d t. tx_writes t = [] \<and> R d) w
      | QPool \<Rightarrow> idle db_inv db_guar d0 w \<and> R (w_db w))"

definition after_error :: "db \<Rightarrow> querier \<Rightarrow> world \<Rightarrow> bool" where
  "after_error d0 q w =
     (case q of QTx \<Rightarrow> base db_inv db_guar d0 w | QPool \<Rightarrow> idle db_inv db_guar d0 w)"

lemma reading_error: "reading d0 q R w \<Longrightarrow> after_error d0 q w"
  by (cases q) (simp_all add: reading_def after_error_def in_tx_base)

lemma reading_mono: "reading d0 q R w \<Longrightarrow> (\<And>d. db_inv d \<Longrightarrow> R d \<Longrightarrow> S d) \<Longrightarrow> reading d0 q S w"
  by (cases q) (auto simp: reading_def idle_def base_def elim: in_tx_mono)

lemma query_reading:
  assumes R: "\<And>d d'. R d \<Longrightarrow> db_guar d d' \<Longrightarrow> R d'"
  shows "triple (reading d0 q R) (query q f) (\<lambda>x. reading d0 q (\<lambda>d. R d \<and> x = f d))
     (\<lambda>_. after_error d0 q)"
proof (cases q)
  case QTx
  have "stable db_inv db_guar (\<lambda>d t. tx_writes t = [] \<and> R d)"
    using R by (intro stableI) blast
  from rg.query_rule [OF this, where f = f] show ?thesis
    unfolding QTx reading_def after_error_def query_def querier.case
    by (auto simp: tx_view_def)
next
  case QPool
  from rg.pool_query_rule [of R, where f = f] R show ?thesis
    unfolding QPool reading_def after_error_def query_def querier.case by blast
qed

lemma scan_row_rule:
  assumes "triple P m (\<lambda>r w. case r of None \<Rightarrow> E (Sentinel ErrNoRows) w | Some x \<Rightarrow> Q x w) E"
  shows "triple P (scan_row m) Q E"
  unfolding scan_row_def
proof (rule triple_bindE [OF assms])
  fix r
  show "triple (\<lambda>w. case r of None \<Rightarrow> E (Sentinel ErrNoRows) w | Some x \<Rightarrow> Q x w)
      (case r of None \<Rightarrow> fail (Sentinel ErrNoRows) | Some x \<Rightarrow> return x) Q E"
    by (cases r) (simp_all add: triple_return triple_fail)
qed

definition replay_ok :: "string \<Rightarrow> string \<Rightarrow> string \<Rightarrow> ReservationResult \<Rightarrow> db \<Rightarrow> bool" where
  "replay_ok rid ref hash res d \<longleftrightarrow>
     rr_ID res = rid \<and> rr_Replayed res \<and> matches rid ref hash d \<and>
     rr_Allocations res = select_lines rid d"

lemma loadReservationLines_rule:
  assumes "\<And>d d'. R d \<Longrightarrow> db_guar d d' \<Longrightarrow> R d'"
  shows "triple (reading d0 q R) (loadReservationLines q rid)
     (\<lambda>as. reading d0 q (\<lambda>d. R d \<and> as = select_lines rid d)) (\<lambda>_. after_error d0 q)"
  unfolding loadReservationLines_def using assms by (intro triple_map_error query_reading)

lemma replayReservation_rule:
  "triple (reading d0 q (\<lambda>d. True)) (replayReservation q rid ref hash)
     (\<lambda>res. reading d0 q (replay_ok rid ref hash res)) (\<lambda>_. after_error d0 q)"
  unfolding replayReservation_def
proof (rule triple_bindE, rule triple_map_error, rule scan_row_rule)
  let ?Q = "\<lambda>row. reading d0 q (\<lambda>d. map_of (reservations d) rid = Some row)"
  show "triple (reading d0 q (\<lambda>d. True)) (query q (select_header rid))
     (\<lambda>r w. case r of None \<Rightarrow> after_error d0 q w | Some row \<Rightarrow> ?Q row w) (\<lambda>_. after_error d0 q)"
    by (rule triple_weaken [OF query_reading])
       (auto simp: select_header_def elim: reading_mono split: option.split intro: reading_error)
  fix row
  show "triple (?Q row)
     (if request_hash row \<noteq> hash \<or> external_reference row \<noteq> ref
      then fail (errorf_w (''reservation '' @ rid @ '': '') (Sentinel ErrIdempotencyConflict))
      else bindE (loadReservationLines q rid)
        (\<lambda>allocations. return \<lparr>rr_ID = rid, rr_Status = res_status row,
           rr_Allocations = allocations, rr_Replayed = True\<rparr>))
     (\<lambda>res. reading d0 q (replay_ok rid ref hash res)) (\<lambda>_. after_error d0 q)"
  proof (cases "request_hash row \<noteq> hash \<or> external_reference row \<noteq> ref")
    case True
    then show ?thesis by (simp add: triple_fail reading_error)
  next
    case False
    have "triple (?Q row) (loadReservationLines q rid)
        (\<lambda>as. reading d0 q (\<lambda>d. matches rid ref hash d \<and> as = select_lines rid d)) (\<lambda>_. after_error d0 q)"
      by (rule triple_pre [OF loadReservationLines_rule [OF matches_guar]])
         (use False in \<open>auto simp: matches_def elim: reading_mono\<close>)
    then have "triple (?Q row) (bindE (loadReservationLines q rid)
        (\<lambda>allocations. return \<lparr>rr_ID = rid, rr_Status = res_status row,
           rr_Allocations = allocations, rr_Replayed = True\<rparr>))
       (\<lambda>res. reading d0 q (replay_ok rid ref hash res)) (\<lambda>_. after_error d0 q)"
      by (rule triple_bindE) (auto intro!: triple_return simp: replay_ok_def elim: reading_mono)
    with False show ?thesis by simp
  qed
qed

section \<open>Allocation\<close>

definition allocations_at :: "int \<Rightarrow> Line list \<Rightarrow> Allocation list" where
  "allocations_at wh items =
     map (\<lambda>it. \<lparr>al_SKUID = ln_SKUID it, al_WarehouseID = wh, al_Quantity = ln_Quantity it\<rparr>) items"

definition single_warehouse :: "Line list \<Rightarrow> Allocation list \<Rightarrow> bool" where
  "single_warehouse items as \<longleftrightarrow>
     (\<exists>wh. as = allocations_at wh items)"

text \<open>The claim is in the log; \<open>C\<close> is a condition on the allocations \<open>as\<close> the locks keep.\<close>

definition placing :: "string \<Rightarrow> string \<Rightarrow> string \<Rightarrow> bool \<Rightarrow> Allocation list \<Rightarrow> Allocation list \<Rightarrow>
    Allocation list \<Rightarrow> Allocation list \<Rightarrow> db \<Rightarrow> tx \<Rightarrow> bool" where
  "placing rid ref hash C as bs ls ms d t \<longleftrightarrow>
     reserving rid ref hash d (tx_writes t) bs ls ms \<and> (C \<longrightarrow> covered d (tx_held t) as)"

lemma placing_stable: "stable db_inv db_guar (placing rid ref hash C as bs ls ms)"
  unfolding placing_def by (intro stableI) (blast intro: reserving_stable covered_stable)

lemma placing_start: "reserving rid ref hash d (tx_writes t) bs ls ms \<Longrightarrow> placing rid ref hash False as bs ls ms d t"
  by (simp add: placing_def)

lemma triple_fails: "(\<And>w. P w \<Longrightarrow> B w) \<Longrightarrow> triple P (fail e) Q (\<lambda>_. B)"
  by (rule triple_fail)

lemma classify_rule:
  assumes "stable db_inv db_guar A"
  shows "triple (in_tx db_inv db_guar d0 A) (classifyReservationFailure items short) Q
     (\<lambda>_. base db_inv db_guar d0)"
  unfolding classifyReservationFailure_def Let_def
proof (rule triple_try_bind)
  show "triple (in_tx db_inv db_guar d0 A) (tx_query (select_tracked (map ln_SKUID items)))
      (\<lambda>_. in_tx db_inv db_guar d0 A) (\<lambda>_. base db_inv db_guar d0)"
    by (rule rg.query_rule [OF assms])
qed (auto intro: triple_fail in_tx_base)

lemma snapshot_rule:
  assumes "stable db_inv db_guar A"
  shows "triple (in_tx db_inv db_guar d0 A) (activeATPSnapshot items)
     (\<lambda>_. in_tx db_inv db_guar d0 A) (\<lambda>_. base db_inv db_guar d0)"
proof -
  have q: "triple (in_tx db_inv db_guar d0 A) (tx_query f) (\<lambda>_. in_tx db_inv db_guar d0 A)
      (\<lambda>_. base db_inv db_guar d0)" for f :: "db \<Rightarrow> 'a"
    by (rule rg.query_rule [OF assms])
  show ?thesis
    unfolding activeATPSnapshot_def
    by (intro triple_bindE triple_map_error triple_return) (rule q triple_map_error | assumption)+
qed

lemma reserving_balances:
  "reserving rid ref hash d ws [] ls ms \<Longrightarrow> balances (apply_writes ws d) = balances d"
  by (simp add: reserving_def stock_moved_def table_simps)

lemma lock_balances_step:
  assumes d: "db_inv d" and A: "placing rid ref hash False [] [] [] [] d t"
    and run: "lock_balances wh (skuIDsOf items) (tx_view d t) now = Inr (rows, ws, ls)"
  shows "fill_atp rows Map.empty = atp_map d wh (skuIDsOf items)"
    and "placing rid ref hash (serves d items wh) (allocations_at wh items) [] [] [] d
      (t\<lparr>tx_writes := tx_writes t @ ws, tx_locks := tx_locks t @ ls\<rparr>)"
proof -
  let ?t = "t\<lparr>tx_writes := tx_writes t @ ws, tx_locks := tx_locks t @ ls\<rparr>"
  let ?v = "tx_view d t"
  have v: "balances ?v = balances d"
    using A by (simp add: tx_view_def placing_def reserving_balances)
  from d have dist: "distinct (map fst (balances d))" using db_invD(1) [OF d] by (simp add: balances_ok_def)
  from run have ws: "ws = []" and ls: "ls = map fst (map (\<lambda>(k, r). (LockBalance k, r)) (lock_rows wh (skuIDsOf items) ?v))"
    and rows: "rows = map (\<lambda>((s, w), r). (s, row_atp r)) (lock_rows wh (skuIDsOf items) ?v)"
    by (auto simp: lock_balances_def Let_def case_prod_beta)
  show "fill_atp rows Map.empty = atp_map d wh (skuIDsOf items)"
    using locked_rows_map [of ?v] dist unfolding rows by (simp add: v atp_map_def fun_eq_iff)
  have "covered d (tx_held ?t) (allocations_at wh items)" if "serves d items wh"
    unfolding covered_def
  proof (intro ballI impI)
    fix a
    assume "a \<in> set (allocations_at wh items)" "0 < al_Quantity a"
    then obtain it where it: "it \<in> set items" "0 < ln_Quantity it" and a:
      "a = \<lparr>al_SKUID = ln_SKUID it, al_WarehouseID = wh, al_Quantity = ln_Quantity it\<rparr>"
      by (auto simp: allocations_at_def)
    with that have "ln_Quantity it \<le> atp_at d wh (ln_SKUID it)" by (simp add: serves_def)
    with it obtain r where r: "map_of (balances d) (ln_SKUID it, wh) = Some r" "ln_Quantity it \<le> row_atp r"
      by (auto simp: atp_at_def split: option.splits)
    have "((ln_SKUID it, wh), r) \<in> set (lock_rows wh (skuIDsOf items) ?v)"
      using r(1) it(1) by (auto simp: lock_rows_def v skuIDsOf_def dest: map_of_SomeD)
    then have "LockBalance (ln_SKUID it, wh) \<in> set ls"
      unfolding ls by force
    then have "LockBalance (akey a) \<in> set (tx_held ?t)" by (simp add: tx_held_def akey_def a)
    with r show "\<exists>r. map_of (balances d) (akey a) = Some r \<and> al_Quantity a \<le> row_atp r \<and>
        LockBalance (akey a) \<in> set (tx_held ?t)" by (auto simp: akey_def a)
  qed
  with A ws show "placing rid ref hash (serves d items wh) (allocations_at wh items) [] [] [] d ?t"
    by (simp add: placing_def)
qed

lemma lock_rule:
  "triple (in_tx db_inv db_guar d0 (placing rid ref hash False [] [] [] []))
     (lockWarehouseATP wh items)
     (\<lambda>m. in_tx db_inv db_guar d0
        (placing rid ref hash (fulfillsLines m items) (allocations_at wh items) [] [] []))
     (\<lambda>_. base db_inv db_guar d0)"
  unfolding lockWarehouseATP_def
proof (rule triple_bindE, rule triple_map_error, rule rg.stmt_rule [OF placing_stable])
  fix d and t :: tx and rows ws ls
  assume d: "db_inv d" and A: "placing rid ref hash False [] [] [] [] d t"
    and run: "lock_balances wh (skuIDsOf items) (tx_view d t) (tx_now t) = Inr (rows, ws, ls)"
  from lock_balances_step [OF d A run]
  show "placing rid ref hash (fulfillsLines (fill_atp rows Map.empty) items) (allocations_at wh items) [] [] [] d
      (t\<lparr>tx_writes := tx_writes t @ ws, tx_locks := tx_locks t @ ls\<rparr>)"
    by (simp add: fulfillsLines_atp_map)
qed (rule triple_return)

lemma placing_weaken:
  "in_tx db_inv db_guar d0 (placing rid ref hash C as bs ls ms) w \<Longrightarrow> (C' \<Longrightarrow> C) \<Longrightarrow>
   in_tx db_inv db_guar d0 (placing rid ref hash C' as bs ls ms) w"
  by (erule in_tx_mono) (auto simp: placing_def)

lemma allocate_rule:
  "triple (in_tx db_inv db_guar d0 (placing rid ref hash False [] [] [] []))
     (allocateReservation items)
     (\<lambda>as w. single_warehouse items as \<and>
        in_tx db_inv db_guar d0 (placing rid ref hash True as [] [] []) w)
     (\<lambda>_. base db_inv db_guar d0)"
  unfolding allocateReservation_def allocations_at_def [symmetric]
proof (rule triple_bindE [OF snapshot_rule [OF placing_stable]], clarify)
  let ?Q = "\<lambda>as w. single_warehouse items as \<and>
        in_tx db_inv db_guar d0 (placing rid ref hash True as [] [] []) w"
  fix byW ids
  show "triple (in_tx db_inv db_guar d0 (placing rid ref hash False [] [] [] []))
     (case choose_warehouse ids byW items of
        None \<Rightarrow> let b = case ids of [] \<Rightarrow> Map.empty | wh # _ \<Rightarrow> mget_map byW wh
          in classifyReservationFailure items (shortagesAgainst b items)
      | Some chosen \<Rightarrow> bindE (lockWarehouseATP chosen items)
          (\<lambda>locked. let short = shortagesAgainst locked items
             in if length short > 0 then classifyReservationFailure items short
                else return (allocations_at chosen items)))
     ?Q (\<lambda>_. base db_inv db_guar d0)"
  proof (cases "choose_warehouse ids byW items")
    case None
    then show ?thesis by (simp add: Let_def classify_rule [OF placing_stable])
  next
    case (Some chosen)
    let ?as = "allocations_at chosen items"
    have "triple (in_tx db_inv db_guar d0 (placing rid ref hash (fulfillsLines m items) ?as [] [] []))
       (if length (shortagesAgainst m items) > 0
        then classifyReservationFailure items (shortagesAgainst m items) else return ?as)
       ?Q (\<lambda>_. base db_inv db_guar d0)" for m
    proof (cases "fulfillsLines m items")
      case True
      then show ?thesis
        by (auto simp: no_shortage_iff [symmetric] single_warehouse_def intro!: triple_return
            elim: placing_weaken)
    next
      case False
      then have "length (shortagesAgainst m items) > 0" by (simp add: no_shortage_iff [symmetric])
      then show ?thesis by (simp add: classify_rule [OF placing_stable])
    qed
    with Some show ?thesis by (simp add: Let_def triple_bindE [OF lock_rule])
  qed
qed

section \<open>Applying the allocation\<close>

text \<open>
  One line: the balance is written only if the line is new and its quantity positive; the insert of
  the reservation line checks both.
\<close>

definition half_placed :: "string \<Rightarrow> string \<Rightarrow> string \<Rightarrow> Allocation list \<Rightarrow> Allocation list \<Rightarrow>
    Allocation \<Rightarrow> db \<Rightarrow> tx \<Rightarrow> bool" where
  "half_placed rid ref hash as ys a d t \<longleftrightarrow>
     (if al_SKUID a \<notin> al_SKUID ` set ys \<and> 0 < al_Quantity a
      then placing rid ref hash True as (ys @ [a]) ys ys d t
      else write_lines (tx_writes t) = map (line_write rid) ys)"

lemma half_placed_stable: "stable db_inv db_guar (half_placed rid ref hash as ys a)"
proof (cases "al_SKUID a \<notin> al_SKUID ` set ys \<and> 0 < al_Quantity a")
  case True
  then have "half_placed rid ref hash as ys a = placing rid ref hash True as (ys @ [a]) ys ys"
    by (simp add: half_placed_def fun_eq_iff)
  then show ?thesis by (simp add: placing_stable)
next
  case False
  then show ?thesis by (intro stableI) (auto simp: half_placed_def split: if_splits)
qed

lemma covered_more:
  "covered d (tx_held t) as \<Longrightarrow>
   covered d (tx_held (t\<lparr>tx_writes := tx_writes t @ ws, tx_locks := tx_locks t @ ls\<rparr>)) as"
  using covered_mono tx_held_mono by blast

lemma reserve_balance_step:
  assumes d: "db_inv d" and A: "placing rid ref hash True as ys ys ys d t" and a: "a \<in> set as"
    and run: "update_balance (bump_reserved (al_Quantity a) now) (akey a) (tx_view d t) = Inr (n, ws, ls)"
  shows "half_placed rid ref hash as ys a d (t\<lparr>tx_writes := tx_writes t @ ws, tx_locks := tx_locks t @ ls\<rparr>)"
proof (cases "al_SKUID a \<notin> al_SKUID ` set ys \<and> 0 < al_Quantity a")
  case False
  have "write_lines ws = []"
    using run by (auto simp: update_balance_def store_balance_def split: option.splits if_splits)
  with A False show ?thesis by (auto simp: half_placed_def placing_def reserving_def)
next
  case True
  let ?t = "t\<lparr>tx_writes := tx_writes t @ ws, tx_locks := tx_locks t @ ls\<rparr>"
  from A have res: "reserving rid ref hash d (tx_writes t) ys ys ys" and cov: "covered d (tx_held t) as"
    by (simp_all add: placing_def)
  then have sm: "stock_moved (\<lambda>a. 0) al_Quantity d (tx_writes t) ys ys" by (simp add: reserving_def)
  from True have fresh: "akey a \<notin> akey ` set ys" by (auto simp: akey_def)
  from cov a True obtain r where r: "map_of (balances d) (akey a) = Some r" "al_Quantity a \<le> row_atp r"
    unfolding covered_def by blast
  let ?r = "bump_reserved (al_Quantity a) now r"
  have "on_hand ?r = on_hand r + 0" "reserved ?r = reserved r + al_Quantity a"
    by (simp_all add: bump_reserved_def)
  from stock_moved_update [where dh = "\<lambda>a. 0", OF sm fresh db_invD(1) [OF d] r(1) run [unfolded tx_view_def] this]
  have ws: "ws = [WBalance (akey a) ?r]"
    and moved: "stock_moved (\<lambda>a. 0) al_Quantity d (tx_writes t @ ws) (ys @ [a]) ys" by simp_all
  have "safety_stock ?r \<le> on_hand ?r - reserved ?r"
    using r(2) True by (auto simp: bump_reserved_def row_atp_def max_def split: if_splits)
  with res moved ws have "reserving rid ref hash d (tx_writes t @ ws) (ys @ [a]) ys ys"
    by (simp add: reserving_def)
  with True covered_more [OF cov] show ?thesis by (simp add: half_placed_def placing_def)
qed

lemma reserve_line_step:
  assumes A: "half_placed rid ref hash as ys a d t"
    and run: "insert_line rid (al_SKUID a) (al_WarehouseID a) (al_Quantity a) (tx_view d t) = Inr (n, ws, ls)"
  shows "placing rid ref hash True as (ys @ [a]) (ys @ [a]) ys d
     (t\<lparr>tx_writes := tx_writes t @ ws, tx_locks := tx_locks t @ ls\<rparr>)"
proof -
  from run have q: "0 < al_Quantity a" and ws: "ws = [WLine (rid, al_SKUID a)
        \<lparr>line_warehouse = al_WarehouseID a, line_quantity = al_Quantity a\<rparr>]"
    and new: "map_of (reservation_lines (tx_view d t)) (rid, al_SKUID a) = None"
    and wh: "has_warehouse d (al_WarehouseID a)"
    by (auto simp: insert_line_def tx_view_def split: if_splits)
  have "write_lines (tx_writes t) = map (line_write rid) ys"
    using A by (auto simp: half_placed_def placing_def reserving_def split: if_splits)
  then have "map_of (rev (map (line_write rid) ys)) (rid, al_SKUID a) = None"
    using new by (auto simp: tx_view_def table_simps map_of_replay map_add_None)
  then have fresh: "al_SKUID a \<notin> al_SKUID ` set ys"
    by (force simp: map_of_eq_None_iff line_write_def)
  with A q have "placing rid ref hash True as (ys @ [a]) ys ys d t" by (simp add: half_placed_def)
  with ws q wh fresh show ?thesis
    by (simp add: placing_def reserving_def line_write_def covered_more stock_moved_def)
qed

lemma reserve_movement_step:
  assumes A: "placing rid ref hash True as (ys @ [a]) (ys @ [a]) ys d t"
    and run: "insert_movement False m (tx_view d t) = Inr (n, ws, ls)"
    and m: "mv_key m = akey a" "mv_on_hand_delta m = 0" "mv_reserved_delta m = al_Quantity a"
  shows "placing rid ref hash True as (ys @ [a]) (ys @ [a]) (ys @ [a]) d
     (t\<lparr>tx_writes := tx_writes t @ ws, tx_locks := tx_locks t @ ls\<rparr>)"
proof -
  from A have res: "reserving rid ref hash d (tx_writes t) (ys @ [a]) (ys @ [a]) ys"
    and cov: "covered d (tx_held t) as" by (simp_all add: placing_def)
  then have "stock_moved (\<lambda>a. 0) al_Quantity d (tx_writes t) (ys @ [a]) ys" by (simp add: reserving_def)
  from stock_moved_insert [where dh = "\<lambda>a. 0", OF this run [unfolded tx_view_def] _ m]
  obtain m' where "ws = [WMovement m']" "stock_moved (\<lambda>a. 0) al_Quantity d (tx_writes t @ ws) (ys @ [a]) (ys @ [a])"
    by auto
  with res covered_more [OF cov] show ?thesis by (simp add: placing_def reserving_def)
qed

lemma insertReservationMovement_rule:
  assumes st: "stable db_inv db_guar A"
    and eff: "\<And>d t m n ws ls. db_inv d \<Longrightarrow> A d t \<Longrightarrow>
      insert_movement False m (tx_view d t) = Inr (n, ws, ls) \<Longrightarrow>
      mv_command_id m = cid \<Longrightarrow> mv_key m = akey a \<Longrightarrow> mv_on_hand_delta m = dh \<Longrightarrow>
      mv_reserved_delta m = dr \<Longrightarrow>
      B d (t\<lparr>tx_writes := tx_writes t @ ws, tx_locks := tx_locks t @ ls\<rparr>)"
  shows "triple (in_tx db_inv db_guar d0 A) (insertReservationMovement cid a mt dh dr rid reason)
     (\<lambda>_. in_tx db_inv db_guar d0 B) (\<lambda>_. base db_inv db_guar d0)"
  unfolding insertReservationMovement_def
proof (rule triple_map_error, rule triple_bindE)
  show "triple (in_tx db_inv db_guar d0 A)
     (tx_nextval (\<lambda>n. tx_stmt (\<lambda>d now. insert_movement False
        \<lparr>mv_id = n, mv_command_id = cid, mv_sku_id = al_SKUID a, mv_warehouse_id = al_WarehouseID a,
         mv_type = mt, mv_on_hand_delta = dh, mv_reserved_delta = dr,
         mv_reference_type = Some ''reservation'', mv_reference_id = Some rid,
         mv_reason = if reason = '''' then None else Some reason, mv_actor = None,
         mv_created_at = now\<rparr> d)))
     (\<lambda>_. in_tx db_inv db_guar d0 B) (\<lambda>_. base db_inv db_guar d0)"
    by (rule triple_nextval, simp, rule rg.stmt_rule [OF st], erule (2) eff)
       (simp_all add: mv_key_def akey_def)
qed (rule triple_return)

lemma applyReserve_rule:
  "triple (in_tx db_inv db_guar d0 (placing rid ref hash True as [] [] []))
     (applyReserve rid as)
     (\<lambda>_. in_tx db_inv db_guar d0 (placing rid ref hash True as as as as)) (\<lambda>_. base db_inv db_guar d0)"
  unfolding applyReserve_def
proof (rule triple_for_each [where I = "\<lambda>ys. in_tx db_inv db_guar d0 (placing rid ref hash True as ys ys ys)"])
  fix ys a zs
  assume as: "as = ys @ a # zs"
  let ?line = "\<lambda>_ :: nat. bindE (map_error
        (\<lambda>err. errorf_w (''insert reservation line '' @ al_SKUID a @ '': '') (translateConcurrency err))
        (tx_stmt (\<lambda>d now. insert_line rid (al_SKUID a) (al_WarehouseID a) (al_Quantity a) d)))
     (\<lambda>_. insertReservationMovement (''res:'' @ rid @ '':'' @ al_SKUID a)
        a MovementReserve 0 (al_Quantity a) rid '''')"
  have balance: "triple (in_tx db_inv db_guar d0 (placing rid ref hash True as ys ys ys))
       (tx_stmt (\<lambda>d now. update_balance (bump_reserved (al_Quantity a) now) (al_SKUID a, al_WarehouseID a) d))
       (\<lambda>_. in_tx db_inv db_guar d0 (half_placed rid ref hash as ys a)) (\<lambda>_. base db_inv db_guar d0)"
    by (rule rg.stmt_rule [OF placing_stable], rule reserve_balance_step, assumption+)
       (simp_all add: akey_def as)
  have "triple (in_tx db_inv db_guar d0 (half_placed rid ref hash as ys a)) (?line n)
      (\<lambda>_. in_tx db_inv db_guar d0 (placing rid ref hash True as (ys @ [a]) (ys @ [a]) (ys @ [a])))
      (\<lambda>_. base db_inv db_guar d0)" for n
    by (rule triple_bindE, rule triple_map_error, rule rg.stmt_rule [OF half_placed_stable],
        erule (1) reserve_line_step, rule insertReservationMovement_rule [OF placing_stable],
        erule (1) reserve_movement_step)
  then show "triple (in_tx db_inv db_guar d0 (placing rid ref hash True as ys ys ys))
    (bindE (map_error (\<lambda>err. errorf_w (''reserve balance '' @ al_SKUID a @ '': '') (translateConcurrency err))
       (tx_stmt (\<lambda>d now. update_balance (bump_reserved (al_Quantity a) now) (al_SKUID a, al_WarehouseID a) d)))
     ?line)
    (\<lambda>_. in_tx db_inv db_guar d0 (placing rid ref hash True as (ys @ [a]) (ys @ [a]) (ys @ [a])))
    (\<lambda>_. base db_inv db_guar d0)"
    by (rule triple_bindE [OF triple_map_error [OF balance]])
qed

section \<open>Reserve\<close>

text \<open>
  What a successful answer says about the committed state at that moment: a fresh reservation stands
  with the lines answered, all in one warehouse, and the safety stock of every balance it holds is
  still covered; a replayed one matches the request and its lines are the stored ones.
\<close>

definition reserve_answer :: "ReservationRequest \<Rightarrow> ReservationResult \<Rightarrow> db \<Rightarrow> bool" where
  "reserve_answer req res d \<longleftrightarrow>
     (let hash = CanonicalHash (rq_Items req) (rq_DestinationRegion req)
      in rr_ID res = rq_ID req \<and> matches (rq_ID req) (rq_OrderID req) hash d \<and>
         (if rr_Replayed res then rr_Allocations res = select_lines (rq_ID req) d
          else
            rr_Status res = ReservationReserved \<and> status_of d (rq_ID req) = Some ReservationReserved \<and>
            lines_of (rq_ID req) d = rr_Allocations res \<and>
            single_warehouse (rq_Items req) (rr_Allocations res) \<and>
            (\<forall>a \<in> set (rr_Allocations res). 0 < al_Quantity a \<and>
               (\<exists>r. map_of (balances d) (akey a) = Some r \<and> safety_stock r \<le> on_hand r - reserved r))))"

lemma replay_answer:
  "replay_ok (rq_ID req) (rq_OrderID req) (CanonicalHash (rq_Items req) (rq_DestinationRegion req)) res d \<Longrightarrow>
   reserve_answer req res d"
  by (simp add: replay_ok_def reserve_answer_def Let_def)

lemma list_all2_ex_left: "list_all2 P xs ys \<Longrightarrow> y \<in> set ys \<Longrightarrow> \<exists>x \<in> set xs. P x y"
  by (metis in_set_conv_nth list_all2_conv_all_nth)

lemma reserving_safety:
  assumes r: "reserving rid ref hash d ws as as as" and a: "a \<in> set as"
  shows "\<exists>r. map_of (balances (apply_writes ws d)) (akey a) = Some r \<and>
    safety_stock r \<le> on_hand r - reserved r"
proof -
  from r have sm: "list_all2 (balance_moved (\<lambda>a. 0) al_Quantity d) (write_balances ws) as"
    and dist: "distinct (map akey as)"
    and safe: "\<forall>kr \<in> set (write_balances ws). safety_stock (snd kr) \<le> on_hand (snd kr) - reserved (snd kr)"
    by (simp_all add: reserving_def stock_moved_def)
  from list_all2_ex_left [OF sm a] obtain b where b: "(akey a, b) \<in> set (write_balances ws)"
    by (metis balance_moved_def prod.collapse)
  have "distinct (map fst (write_balances ws))"
    using dist by (simp only: balance_moved_keys [OF sm])
  with b have "map_of (balances (apply_writes ws d)) (akey a) = Some b"
    by (simp add: table_simps map_of_replay_distinct map_add_def map_of_eq_Some_iff)
  with safe b show ?thesis by force
qed

lemma claim_rule:
  "triple (in_tx db_inv db_guar d0 (\<lambda>d t. tx_writes t = [] \<and> tx_locks t = []))
     (claimReservation req hash)
     (\<lambda>claimed. in_tx db_inv db_guar d0
        (if claimed then placing (rq_ID req) (rq_OrderID req) hash False [] [] [] []
         else (\<lambda>d t. tx_writes t = [])))
     (\<lambda>_. base db_inv db_guar d0)"
  unfolding claimReservation_def
proof (rule triple_try_bind)
  let ?B = "\<lambda>n :: nat. if n = 1 then placing (rq_ID req) (rq_OrderID req) hash False [] [] [] []
         else (\<lambda>d t. tx_writes t = [])"
  have st: "stable db_inv db_guar (\<lambda>d t. tx_writes t = [] \<and> tx_locks t = [])"
    by (intro stableI)
  show "triple (in_tx db_inv db_guar d0 (\<lambda>d t. tx_writes t = [] \<and> tx_locks t = []))
      (tx_stmt (insert_reservation (rq_ID req) (rq_OrderID req) hash (rq_ExpiresAt req)))
      (\<lambda>n. in_tx db_inv db_guar d0 (?B n)) (\<lambda>_. base db_inv db_guar d0)"
    by (rule rg.stmt_rule [OF st])
       (auto simp: insert_reservation_def placing_def reserving_def stock_moved_def claimed_header_def
          tx_view_def split: if_splits)
  show "triple (in_tx db_inv db_guar d0 (?B n)) (return (n = 1))
     (\<lambda>claimed. in_tx db_inv db_guar d0
        (if claimed then placing (rq_ID req) (rq_OrderID req) hash False [] [] [] []
         else (\<lambda>d t. tx_writes t = [])))
     (\<lambda>_. base db_inv db_guar d0)" for n
    by (cases "n = 1") (auto intro: triple_return)
qed (auto intro: triple_fail)

lemma commit_reserve_rule:
  "triple (in_tx db_inv db_guar d0 (placing (rq_ID req) (rq_OrderID req)
       (CanonicalHash (rq_Items req) (rq_DestinationRegion req)) True as as as as))
     tx_commit
     (\<lambda>_ w. idle db_inv db_guar d0 w \<and>
        (single_warehouse (rq_Items req) as \<longrightarrow> reserve_answer req
          \<lparr>rr_ID = rq_ID req, rr_Status = ReservationReserved, rr_Allocations = as, rr_Replayed = False\<rparr>
          (w_db w)))
     (\<lambda>_. idle db_inv db_guar d0)"
proof (rule rg.commit_rule [OF placing_stable])
  let ?hash = "CanonicalHash (rq_Items req) (rq_DestinationRegion req)"
  fix d and t :: tx
  assume d: "db_inv d" and A: "placing (rq_ID req) (rq_OrderID req) ?hash True as as as as d t"
  then have r: "reserving (rq_ID req) (rq_OrderID req) ?hash d (tx_writes t) as as as"
    by (simp add: placing_def)
  note c = reserving_commit [OF d r]
  from c(3) obtain hdr where "map_of (reservations (apply_writes (tx_writes t) d)) (rq_ID req) = Some hdr"
    "claimed_header (rq_OrderID req) ?hash hdr" by blast
  moreover have "\<forall>a \<in> set as. 0 < al_Quantity a" using r by (simp add: reserving_def)
  ultimately show "db_inv (apply_writes (tx_writes t) d) \<and> db_guar d (apply_writes (tx_writes t) d) \<and>
     (single_warehouse (rq_Items req) as \<longrightarrow> reserve_answer req
        \<lparr>rr_ID = rq_ID req, rr_Status = ReservationReserved, rr_Allocations = as, rr_Replayed = False\<rparr>
        (apply_writes (tx_writes t) d))"
    using c reserving_safety [OF r]
    by (auto simp: reserve_answer_def matches_def status_of_def claimed_header_def)
qed

lemma idle_intro: "in_tx db_inv db_guar d0 A w \<Longrightarrow> idle db_inv db_guar d0 (tx_rollback w)"
  by (simp add: in_tx_base)

lemma Reserve_rule:
  "triple (idle db_inv db_guar d0) (Reserve req)
     (\<lambda>res w. idle db_inv db_guar d0 w \<and> reserve_answer req res (w_db w))
     (\<lambda>_. idle db_inv db_guar d0)"
  unfolding Reserve_def Let_def
proof (rule triple_bindE [OF triple_map_error [OF rg.begin_rule]], rule triple_defer_rollback)
  let ?rid = "rq_ID req" and ?ref = "rq_OrderID req"
  let ?hash = "CanonicalHash (rq_Items req) (rq_DestinationRegion req)"
  let ?Q = "\<lambda>res w. idle db_inv db_guar d0 (tx_rollback w) \<and> reserve_answer req res (w_db (tx_rollback w))"
  let ?E = "\<lambda>(_ :: goerr) w. idle db_inv db_guar d0 (tx_rollback w)"
  have rb: "w_db (tx_rollback w) = w_db w" for w by (simp add: tx_rollback_def)
  have replay_tx: "triple (in_tx db_inv db_guar d0 (\<lambda>d t. tx_writes t = []))
      (replayReservation QTx ?rid ?ref ?hash) ?Q ?E"
    by (rule triple_weaken [OF replayReservation_rule [of d0 QTx]])
       (auto simp: reading_def after_error_def in_tx_def base_def rb intro: replay_answer)
  have replay_pool: "triple (idle db_inv db_guar d0) (replayReservation QPool ?rid ?ref ?hash) ?Q ?E"
    by (rule triple_weaken [OF replayReservation_rule [of d0 QPool]])
       (auto simp: reading_def after_error_def rb intro: replay_answer idle_base)
  have alloc: "triple (in_tx db_inv db_guar d0 (placing ?rid ?ref ?hash False [] [] [] []))
      (allocateReservation (rq_Items req))
      (\<lambda>as w. single_warehouse (rq_Items req) as \<and>
         in_tx db_inv db_guar d0 (placing ?rid ?ref ?hash True as [] [] []) w) ?E"
    by (rule triple_weaken [OF allocate_rule]) auto
  have claimed: "triple (in_tx db_inv db_guar d0 (placing ?rid ?ref ?hash False [] [] [] []))
     (bindE (allocateReservation (rq_Items req)) (\<lambda>allocations.
      bindE (applyReserve ?rid allocations) (\<lambda>_.
      bindE (map_error (\<lambda>err. errorf_w (''commit reserve '' @ ?rid @ '': '') (translateConcurrency err)) tx_commit)
       (\<lambda>_. return \<lparr>rr_ID = ?rid, rr_Status = ReservationReserved,
            rr_Allocations = allocations, rr_Replayed = False\<rparr>)))) ?Q ?E"
  proof (rule triple_bindE [OF alloc])
    fix as
    show "triple (\<lambda>w. single_warehouse (rq_Items req) as \<and>
          in_tx db_inv db_guar d0 (placing ?rid ?ref ?hash True as [] [] []) w)
       (bindE (applyReserve ?rid as) (\<lambda>_.
        bindE (map_error (\<lambda>err. errorf_w (''commit reserve '' @ ?rid @ '': '') (translateConcurrency err)) tx_commit)
         (\<lambda>_. return \<lparr>rr_ID = ?rid, rr_Status = ReservationReserved,
              rr_Allocations = as, rr_Replayed = False\<rparr>))) ?Q ?E"
    proof (rule triple_assume [where C = "single_warehouse (rq_Items req) as"], simp)
      assume sw: "single_warehouse (rq_Items req) as"
      have commit: "triple (in_tx db_inv db_guar d0 (placing ?rid ?ref ?hash True as as as as)) tx_commit
         (\<lambda>_ w. idle db_inv db_guar d0 w \<and> reserve_answer req
            \<lparr>rr_ID = ?rid, rr_Status = ReservationReserved, rr_Allocations = as, rr_Replayed = False\<rparr> (w_db w)) ?E"
        by (rule triple_weaken [OF commit_reserve_rule]) (use sw in \<open>auto intro: idle_base\<close>)
      have apply_as: "triple (\<lambda>w. single_warehouse (rq_Items req) as \<and>
          in_tx db_inv db_guar d0 (placing ?rid ?ref ?hash True as [] [] []) w) (applyReserve ?rid as)
          (\<lambda>_. in_tx db_inv db_guar d0 (placing ?rid ?ref ?hash True as as as as)) ?E"
        by (rule triple_weaken [OF applyReserve_rule]) auto
      show ?thesis
        by (rule triple_bindE [OF apply_as], rule triple_bindE [OF triple_map_error [OF commit]],
            rule triple_return) (auto simp: rb intro: idle_base)
    qed
  qed
  show "triple (in_tx db_inv db_guar d0 (\<lambda>d t. tx_writes t = [] \<and> tx_locks t = []))
     (try_bind (claimReservation req ?hash)
       (\<lambda>err. if \<not> errors_Is err errOrderRefTaken then fail err
          else bindE rollback_now (\<lambda>_. try_bind (replayReservation QPool ?rid ?ref ?hash)
             (\<lambda>rerr. if errors_Is rerr ErrNoRows
                then fail (errorf_w (''order '' @ ?ref @ '' already reserved under another reservation id: '')
                   (Sentinel ErrIdempotencyConflict))
                else fail rerr) return))
       (\<lambda>claimed. if \<not> claimed then replayReservation QTx ?rid ?ref ?hash
          else bindE (allocateReservation (rq_Items req)) (\<lambda>allocations.
      bindE (applyReserve ?rid allocations) (\<lambda>_.
      bindE (map_error (\<lambda>err. errorf_w (''commit reserve '' @ ?rid @ '': '') (translateConcurrency err)) tx_commit)
       (\<lambda>_. return \<lparr>rr_ID = ?rid, rr_Status = ReservationReserved,
            rr_Allocations = allocations, rr_Replayed = False\<rparr>))))) ?Q ?E"
  proof (rule triple_try_bind [OF claim_rule])
    fix err
    have "triple (base db_inv db_guar d0) rollback_now (\<lambda>_. idle db_inv db_guar d0) ?E"
      by (auto simp: triple_def rollback_now_def)
    moreover have "triple (?E err') (if errors_Is rerr ErrNoRows then fail e1 else fail e2) ?Q ?E" for err' rerr e1 e2
      by (auto intro: triple_fail)
    ultimately show "triple (base db_inv db_guar d0)
       (if \<not> errors_Is err errOrderRefTaken then fail err
        else bindE rollback_now (\<lambda>_. try_bind (replayReservation QPool ?rid ?ref ?hash)
             (\<lambda>rerr. if errors_Is rerr ErrNoRows
                then fail (errorf_w (''order '' @ ?ref @ '' already reserved under another reservation id: '')
                   (Sentinel ErrIdempotencyConflict))
                else fail rerr) return)) ?Q ?E"
      by (auto intro!: triple_fail triple_bindE triple_try_bind [OF replay_pool] triple_return)
  next
    fix c
    show "triple (in_tx db_inv db_guar d0 (if c then placing ?rid ?ref ?hash False [] [] [] []
         else (\<lambda>d t. tx_writes t = [])))
      (if \<not> c then replayReservation QTx ?rid ?ref ?hash
          else bindE (allocateReservation (rq_Items req)) (\<lambda>allocations.
      bindE (applyReserve ?rid allocations) (\<lambda>_.
      bindE (map_error (\<lambda>err. errorf_w (''commit reserve '' @ ?rid @ '': '') (translateConcurrency err)) tx_commit)
       (\<lambda>_. return \<lparr>rr_ID = ?rid, rr_Status = ReservationReserved,
            rr_Allocations = allocations, rr_Replayed = False\<rparr>)))) ?Q ?E"
      using claimed replay_tx by (cases c) simp_all
  qed
qed

end
