(* ===== verification/Transition_Safety.thy ===== *)
theory Transition_Safety
  imports Reservation_Safety
begin

text \<open>
  The same for \<open>transition\<close>, and with it for \<open>Release\<close> and \<open>Commit\<close>: the header lock taken by the
  first statement keeps the reservation open and its lines in place until the status is flipped in
  the same transaction that gives the stock back or takes it out.
\<close>

section \<open>The assertion about a reservation being closed\<close>

definition header_writes :: "string \<Rightarrow> string option \<Rightarrow> reservation_row \<Rightarrow> (string \<times> reservation_row) list \<Rightarrow> bool" where
  "header_writes rid tgt row ws \<longleftrightarrow>
     (case tgt of None \<Rightarrow> ws = []
      | Some s \<Rightarrow> (\<exists>u. ws = [(rid, row\<lparr>res_status := s, res_updated_at := u\<rparr>)]))"

definition closing ::
  "string \<Rightarrow> (Allocation \<Rightarrow> int) \<Rightarrow> (Allocation \<Rightarrow> int) \<Rightarrow> Allocation list \<Rightarrow> string option \<Rightarrow>
   Allocation list \<Rightarrow> Allocation list \<Rightarrow> db \<Rightarrow> tx \<Rightarrow> bool" where
  "closing rid dh dr lines tgt bs as d t \<longleftrightarrow>
     (\<exists>row. map_of (reservations d) rid = Some row \<and> res_status row = ReservationReserved \<and>
        header_writes rid tgt row (write_reservations (tx_writes t))) \<and>
     LockReservation rid \<in> set (tx_locks t) \<and> lines = select_lines rid d \<and>
     write_lines (tx_writes t) = [] \<and> stock_moved dh dr d (tx_writes t) bs as"

lemma closing_stable: "stable db_inv db_guar (closing rid dh dr lines tgt bs as)"
proof (rule stableI)
  fix d d' t
  assume c: "closing rid dh dr lines tgt bs as d t" and g: "db_guar d d'" and lk: "locks_kept (tx_held t) d d'"
  from c have "LockReservation rid \<in> set (tx_locks t)" by (simp add: closing_def)
  from locks_keptD [OF lk held_locks(5) [OF this]]
  have hdr: "map_of (reservations d') rid = map_of (reservations d) rid" by simp
  from c obtain row where "map_of (reservations d) rid = Some row" by (auto simp: closing_def)
  from select_lines_guar [OF this g] have "select_lines rid d' = select_lines rid d" .
  moreover have "stock_moved dh dr d' (tx_writes t) bs as"
  proof (rule stock_moved_stable [OF _ g lk])
    show "stock_moved dh dr d (tx_writes t) bs as" using c by (simp add: closing_def)
  qed
  ultimately show "closing rid dh dr lines tgt bs as d' t"
    using c by (simp add: closing_def hdr)
qed

section \<open>Committing a transition\<close>

lemma mset_select_lines: "mset (select_lines rid d) = mset (lines_of rid d)"
  by (simp add: select_lines_def)

lemma held_qty_close:
  assumes lines: "reservation_lines d' = reservation_lines d"
    and st: "\<And>i. i \<noteq> rid \<Longrightarrow> status_of d' i = status_of d i"
    and old: "status_of d rid = Some ReservationReserved" and new: "status_of d' rid \<noteq> Some ReservationReserved"
  shows "held_qty d k = held_qty d' k + sum_at al_Quantity (lines_of rid d) k"
proof -
  have "sum_list (map (line_held d k) xs) = sum_list (map (line_held d' k) xs) +
      sum_at al_Quantity (map line_allocation (filter (\<lambda>kl. fst (fst kl) = rid) xs)) k" for xs
  proof (induction xs)
    case (Cons kl xs)
    then show ?case
      using st [of "fst (fst kl)"] old new
      by (auto simp: line_held_def line_allocation_def akey_def)
  qed simp
  then show ?thesis by (simp add: held_qty_def lines_of_def lines)
qed

lemma closing_commit:
  assumes d: "db_inv d" and c: "closing rid dh dr lines (Some tgt) lines lines d t"
    and dr: "dr = (\<lambda>a. - al_Quantity a)"
    and tgt: "tgt \<in> set reservation_statuses" "tgt \<noteq> ReservationReserved"
  shows "db_inv (apply_writes (tx_writes t) d)" "db_guar d (apply_writes (tx_writes t) d)"
    "status_of (apply_writes (tx_writes t) d) rid = Some tgt"
proof -
  let ?ws = "tx_writes t"
  let ?d' = "apply_writes ?ws d"
  note ok = db_invD [OF d]
  from c obtain row u where row: "map_of (reservations d) rid = Some row" "res_status row = ReservationReserved"
    and hw: "write_reservations ?ws = [(rid, row\<lparr>res_status := tgt, res_updated_at := u\<rparr>)]"
    by (auto simp: closing_def header_writes_def)
  let ?row = "row\<lparr>res_status := tgt, res_updated_at := u\<rparr>"
  from c have sm: "stock_moved dh dr d ?ws lines lines" and nl: "write_lines ?ws = []"
    and sel: "lines = select_lines rid d"
    unfolding closing_def by blast+
  have look: "map_of (reservations ?d') i = (if i = rid then Some ?row else map_of (reservations d) i)" for i
    by (simp add: table_simps hw AList.update_conv')
  have ls: "reservation_lines ?d' = reservation_lines d" by (simp add: table_simps nl)
  show st: "status_of ?d' rid = Some tgt" by (simp add: status_of_def look)
  have "held_qty d k = held_qty ?d' k + sum_at al_Quantity (lines_of rid d) k" for k
    using row st tgt(2) by (intro held_qty_close [OF ls]) (simp_all add: status_of_def look)
  then have hq: "held_qty ?d' k = held_qty d k + sum_at dr lines k" for k
    unfolding dr sum_at_uminus sel using sum_at_mset [OF mset_select_lines] by simp
  have rok: "reservations_ok ?d'"
  proof -
    have "external_reference ?row = external_reference row" by simp
    then have "i = j" if "map_of (reservations ?d') i = Some v" "map_of (reservations ?d') j = Some w"
        "external_reference v = external_reference w" for i j v w
      using that ok(2) row unfolding look reservations_ok_def by (metis option.inject)
    moreover have "distinct (map fst (reservations ?d'))"
      unfolding table_simps using ok(2) by (simp add: distinct_replay_keys reservations_ok_def)
    moreover have "res_status v \<in> set reservation_statuses" if "map_of (reservations ?d') i = Some v" for i v
      using that ok(2) tgt(1) unfolding look reservations_ok_def by (auto split: if_splits)
    ultimately show ?thesis unfolding reservations_ok_def by blast
  qed
  have lok: "lines_ok ?d'"
    using ok(3) row(1) unfolding lines_ok_def ls has_warehouse_apply look by (metis option.distinct(1))
  show "db_inv ?d'" by (rule commit_db_inv [OF d sm rok lok hq])
  show "db_guar d ?d'"
  proof (rule commit_db_guar [OF sm])
    fix i v
    assume v: "map_of (reservations d) i = Some v"
    have "header_kept row ?row" using row(2) by (simp add: header_kept_def)
    with v row(1) show "(\<exists>r'. map_of (reservations ?d') i = Some r' \<and> header_kept v r') \<and>
        lines_of i ?d' = lines_of i d"
      by (auto simp: look header_kept_refl lines_of_def ls)
  qed
qed

section \<open>One line of a transition\<close>

lemma distinct_line_keys:
  assumes "lines_ok d"
  shows "distinct (map akey (lines_of rid d))"
proof -
  have "distinct (map (snd \<circ> fst) (filter (\<lambda>kl. fst (fst kl) = rid) (reservation_lines d)))"
    using assms by (intro distinct_selected) (auto simp: lines_ok_def inj_on_def)
  moreover have "map fst (map akey (lines_of rid d)) =
      map (snd \<circ> fst) (filter (\<lambda>kl. fst (fst kl) = rid) (reservation_lines d))"
    by (simp add: lines_of_def akey_def line_allocation_def)
  ultimately have "distinct (map fst (map akey (lines_of rid d)))" by (simp only:)
  then show ?thesis unfolding distinct_map [of fst] by blast
qed

lemma distinct_select_keys: "lines_ok d \<Longrightarrow> distinct (map akey (select_lines rid d))"
  using distinct_line_keys [of d rid]
    mset_eq_imp_distinct_iff [of "map akey (select_lines rid d)" "map akey (lines_of rid d)"]
  by (simp add: mset_select_lines)

lemma apply_line_rule:
  assumes lines: "lines = ys @ a # zs"
    and f: "\<And>now r. on_hand (f now r) = on_hand r + dh a \<and> reserved (f now r) = reserved r + dr a"
  shows "triple (in_tx db_inv db_guar d0 (closing rid dh dr lines None ys ys))
    (bindE (map_error h (tx_stmt (\<lambda>d now. update_balance (f now) (al_SKUID a, al_WarehouseID a) d)))
       (\<lambda>rows. if rows \<noteq> 1 then fail (err rows)
          else insertReservationMovement cid a mt (dh a) (dr a) rid reason))
    (\<lambda>_. in_tx db_inv db_guar d0 (closing rid dh dr lines None (ys @ [a]) (ys @ [a])))
    (\<lambda>_. base db_inv db_guar d0)"
proof (rule triple_bindE, rule triple_map_error)
  let ?B = "\<lambda>n. if n = 1 then closing rid dh dr lines None (ys @ [a]) ys else closing rid dh dr lines None ys ys"
  show "triple (in_tx db_inv db_guar d0 (closing rid dh dr lines None ys ys))
      (tx_stmt (\<lambda>d now. update_balance (f now) (al_SKUID a, al_WarehouseID a) d))
      (\<lambda>n. in_tx db_inv db_guar d0 (?B n)) (\<lambda>_. base db_inv db_guar d0)"
  proof (rule rg.stmt_rule [OF closing_stable])
    fix d and t :: tx and n ws ls
    assume d: "db_inv d" and A: "closing rid dh dr lines None ys ys d t"
      and run: "update_balance (f (tx_now t)) (al_SKUID a, al_WarehouseID a) (tx_view d t) = Inr (n, ws, ls)"
    from A have sm: "stock_moved dh dr d (tx_writes t) ys ys" and sel: "lines = select_lines rid d"
      by (simp_all add: closing_def)
    have "distinct (map akey lines)" unfolding sel by (rule distinct_select_keys [OF db_invD(3) [OF d]])
    then have fresh: "akey a \<notin> akey ` set ys" by (simp add: lines)
    have run': "update_balance (f (tx_now t)) (akey a) (apply_writes (tx_writes t) d) = Inr (n, ws, ls)"
      using run by (simp add: akey_def tx_view_def)
    show "?B n d (t\<lparr>tx_writes := tx_writes t @ ws, tx_locks := tx_locks t @ ls\<rparr>)"
    proof (cases "map_of (balances d) (akey a)")
      case None
      then have "n = 0" "ws = []" "ls = []"
        using run' stock_moved_view [OF sm fresh] by (simp_all add: update_balance_def)
      with A show ?thesis by simp
    next
      case (Some r)
      from stock_moved_update [OF sm fresh db_invD(1) [OF d] Some run'] f
      have "n = 1" "ws = [WBalance (akey a) (f (tx_now t) r)]"
        "stock_moved dh dr d (tx_writes t @ ws) (ys @ [a]) ys" by simp_all
      with A show ?thesis by (auto simp: closing_def)
    qed
  qed
next
  fix n :: nat
  have ins: "triple (in_tx db_inv db_guar d0 (closing rid dh dr lines None (ys @ [a]) ys))
      (insertReservationMovement cid a mt (dh a) (dr a) rid reason)
      (\<lambda>_. in_tx db_inv db_guar d0 (closing rid dh dr lines None (ys @ [a]) (ys @ [a])))
      (\<lambda>_. base db_inv db_guar d0)"
  proof (rule insertReservationMovement_rule [OF closing_stable])
    fix d m n ws ls and t :: tx
    assume A: "closing rid dh dr lines None (ys @ [a]) ys d t"
      and run: "insert_movement False m (tx_view d t) = Inr (n, ws, ls)"
      and m: "mv_key m = akey a" "mv_on_hand_delta m = dh a" "mv_reserved_delta m = dr a"
    from A have sm: "stock_moved dh dr d (tx_writes t) (ys @ [a]) ys" by (simp add: closing_def)
    from stock_moved_insert [OF sm run [unfolded tx_view_def] _ m]
    obtain m' where "ws = [WMovement m']" "stock_moved dh dr d (tx_writes t @ ws) (ys @ [a]) (ys @ [a])" by auto
    with A show "closing rid dh dr lines None (ys @ [a]) (ys @ [a]) d
        (t\<lparr>tx_writes := tx_writes t @ ws, tx_locks := tx_locks t @ ls\<rparr>)"
      by (auto simp: closing_def)
  qed
  show "triple (in_tx db_inv db_guar d0
        (if n = 1 then closing rid dh dr lines None (ys @ [a]) ys else closing rid dh dr lines None ys ys))
      (if n \<noteq> 1 then fail (err n) else insertReservationMovement cid a mt (dh a) (dr a) rid reason)
      (\<lambda>_. in_tx db_inv db_guar d0 (closing rid dh dr lines None (ys @ [a]) (ys @ [a])))
      (\<lambda>_. base db_inv db_guar d0)"
    using ins by (cases "n = 1") (auto intro: triple_fail in_tx_base)
qed

section \<open>transition\<close>

lemma status_known: "reservations_ok d \<Longrightarrow> map_of (reservations d) rid = Some r \<Longrightarrow> res_status r \<in> set reservation_statuses"
  unfolding reservations_ok_def by blast

lemma statuses_nonempty: "s \<in> set reservation_statuses \<Longrightarrow> s \<noteq> ''''"
  by (auto simp: reservation_statuses_def reservation_status_defs)

text \<open>The header read: its row is locked if it exists.\<close>

definition header_read :: "string \<Rightarrow> db \<Rightarrow> string \<Rightarrow> db \<Rightarrow> tx \<Rightarrow> bool" where
  "header_read rid d0 status d t \<longleftrightarrow>
     tx_writes t = [] \<and>
     (if status = '''' then status_of d0 rid = None
      else status_of d rid = Some status \<and> status \<in> set reservation_statuses \<and>
        LockReservation rid \<in> set (tx_locks t))"

lemma header_read_stable: "stable db_inv db_guar (header_read rid d0 status)"
proof (rule stableI)
  fix d d' t
  assume h: "header_read rid d0 status d t" and lk: "locks_kept (tx_held t) d d'"
  have "status_of d' rid = status_of d rid" if "LockReservation rid \<in> set (tx_locks t)"
    using locks_keptD [OF lk held_locks(5) [OF that]] by (simp add: status_of_def)
  with h show "header_read rid d0 status d' t" by (simp add: header_read_def split: if_splits)
qed

lemma unknown_before: "db_guar d0 d \<Longrightarrow> map_of (reservations d) rid = None \<Longrightarrow> status_of d0 rid = None"
  using db_guarD(4) [of d0 d rid] by (cases "map_of (reservations d0) rid") (auto simp: status_of_def)

lemma lock_header_rule:
  "triple (in_tx db_inv db_guar d0 (\<lambda>d t. tx_writes t = [] \<and> tx_locks t = []))
     (try_bind (scan_row (tx_stmt (select_status_for_update rid)))
        (\<lambda>err. if \<not> errors_Is err ErrNoRows then fail (g err) else return '''') return)
     (\<lambda>status. in_tx db_inv db_guar d0 (header_read rid d0 status))
     (\<lambda>_. base db_inv db_guar d0)"
proof (rule triple_try_bind [OF scan_row_rule])
  let ?none = "in_tx db_inv db_guar d0 (\<lambda>d t. tx_writes t = [] \<and> map_of (reservations d) rid = None)"
  let ?B = "\<lambda>r d t. tx_writes t = [] \<and> (case r of None \<Rightarrow> map_of (reservations d) rid = None
        | Some s \<Rightarrow> header_read rid d0 s d t)"
  let ?E = "\<lambda>e w. base db_inv db_guar d0 w \<and> (errors_Is e ErrNoRows \<longrightarrow> ?none w)"
  have st: "stable db_inv db_guar (\<lambda>d t. tx_writes t = [] \<and> tx_locks t = [])" by (intro stableI)
  have stmt: "triple (in_tx db_inv db_guar d0 (\<lambda>d t. tx_writes t = [] \<and> tx_locks t = []))
     (tx_stmt (select_status_for_update rid)) (\<lambda>r. in_tx db_inv db_guar d0 (?B r))
     (\<lambda>e w. base db_inv db_guar d0 w \<and> driver_error e)"
  proof (rule rg.stmt_rule_strong [OF st])
    fix d and t :: tx and r ws ls
    assume d: "db_inv d" and A: "tx_writes t = [] \<and> tx_locks t = []"
      and run: "select_status_for_update rid (tx_view d t) (tx_now t) = Inr (r, ws, ls)"
    then show "?B r d (t\<lparr>tx_writes := tx_writes t @ ws, tx_locks := tx_locks t @ ls\<rparr>)"
      using status_known [OF db_invD(2) [OF d], of rid] statuses_nonempty
      by (auto simp: select_status_for_update_def tx_view_def header_read_def status_of_def
          split: option.splits)
  qed
  show "triple (in_tx db_inv db_guar d0 (\<lambda>d t. tx_writes t = [] \<and> tx_locks t = []))
     (tx_stmt (select_status_for_update rid))
     (\<lambda>r w. case r of None \<Rightarrow> ?E (Sentinel ErrNoRows) w
        | Some s \<Rightarrow> in_tx db_inv db_guar d0 (header_read rid d0 s) w) ?E"
    by (rule triple_weaken [OF stmt])
       (auto simp: driver_error_def in_tx_base elim: in_tx_mono split: option.splits)
  show "triple (in_tx db_inv db_guar d0 (header_read rid d0 s)) (return s)
      (\<lambda>status. in_tx db_inv db_guar d0 (header_read rid d0 status)) (\<lambda>_. base db_inv db_guar d0)" for s
    by (rule triple_return)
  have none: "in_tx db_inv db_guar d0 (header_read rid d0 '''') w" if "?none w" for w
  proof -
    from that have g: "db_guar d0 (w_db w)" by (simp add: in_tx_def base_def)
    from that obtain t where t: "w_tx w = Some t" "\<not> tx_aborted t" "tx_writes t = []"
      "map_of (reservations (w_db w)) rid = None" "base db_inv db_guar d0 w" by (auto simp: in_tx_def)
    with unknown_before [OF g] show ?thesis by (simp add: in_tx_def header_read_def)
  qed
  show "triple (?E err) (if \<not> errors_Is err ErrNoRows then fail (g err) else return '''')
      (\<lambda>status. in_tx db_inv db_guar d0 (header_read rid d0 status)) (\<lambda>_. base db_inv db_guar d0)" for err
    using none by (auto intro!: triple_fail triple_return)
qed

lemma update_status_step:
  assumes d: "db_inv d" and A: "closing rid dh dr lines None bs as d t"
    and tgt: "tgt \<in> set reservation_statuses"
    and run: "update_status rid tgt (tx_view d t) (tx_now t) = Inr (n, ws, ls)"
  shows "closing rid dh dr lines (Some tgt) bs as d
    (t\<lparr>tx_writes := tx_writes t @ ws, tx_locks := tx_locks t @ ls\<rparr>)"
proof -
  from A obtain row where row: "map_of (reservations d) rid = Some row" "res_status row = ReservationReserved"
    and no: "write_reservations (tx_writes t) = []" by (auto simp: closing_def header_writes_def)
  with run tgt have "ws = [WReservation rid (row\<lparr>res_status := tgt, res_updated_at := tx_now t\<rparr>)]"
    by (simp add: update_status_def tx_view_def table_simps)
  with A row no show ?thesis
    by (auto simp: closing_def header_writes_def stock_moved_def)
qed

text \<open>The answer of a transition: its target, which the reservation has unless it was never seen.\<close>

definition transition_answer :: "bool \<Rightarrow> string \<Rightarrow> string \<Rightarrow> db \<Rightarrow> string \<Rightarrow> db \<Rightarrow> bool" where
  "transition_answer noop rid tgt d0 s d \<longleftrightarrow>
     s = tgt \<and> (status_of d rid = Some tgt \<or> (noop \<and> status_of d0 rid = None))"

lemma transition_rule:
  assumes tgt: "tgt \<in> set reservation_statuses" "tgt \<noteq> ReservationReserved"
    and dr: "dr = (\<lambda>a. - al_Quantity a)"
    and missing: "\<And>s. decide '''' = Inr s \<Longrightarrow> s = tgt"
    and decided: "\<And>st s. st \<in> set reservation_statuses \<Longrightarrow> decide st = Inr s \<Longrightarrow>
      (if s = '''' then st = ReservationReserved else s = tgt \<and> st = tgt)"
    and line: "\<And>lines ys a zs. lines = ys @ a # zs \<Longrightarrow>
      triple (in_tx db_inv db_guar d0 (closing rid dh dr lines None ys ys)) (applyLine a)
        (\<lambda>_. in_tx db_inv db_guar d0 (closing rid dh dr lines None (ys @ [a]) (ys @ [a])))
        (\<lambda>_. base db_inv db_guar d0)"
  shows "triple (idle db_inv db_guar d0) (transition rid tgt decide applyLine)
    (\<lambda>s w. idle db_inv db_guar d0 w \<and> transition_answer (decide '''' = Inr tgt) rid tgt d0 s (w_db w))
    (\<lambda>_. idle db_inv db_guar d0)"
  unfolding transition_def
proof (rule triple_bindE [OF triple_map_error [OF rg.begin_rule]], rule triple_defer_rollback)
  let ?Q = "\<lambda>s w. idle db_inv db_guar d0 (tx_rollback w) \<and>
    transition_answer (decide '''' = Inr tgt) rid tgt d0 s (w_db (tx_rollback w))"
  let ?E = "\<lambda>(_ :: goerr) w. idle db_inv db_guar d0 (tx_rollback w)"
  let ?body = "bindE (loadReservationLines QTx rid) (\<lambda>lines.
      bindE (for_each applyLine lines) (\<lambda>_.
      bindE (map_error (\<lambda>err. errorf_w (''set reservation '' @ rid @ '' status: '') (translateConcurrency err))
         (tx_stmt (update_status rid tgt))) (\<lambda>_.
      bindE (map_error (\<lambda>err. errorf_w (''commit transition '' @ rid @ '': '') (translateConcurrency err))
         tx_commit) (\<lambda>_. return tgt))))"
  have rb: "w_db (tx_rollback w) = w_db w" for w by (simp add: tx_rollback_def)
  let ?open = "header_read rid d0 ReservationReserved"
  have load: "triple (in_tx db_inv db_guar d0 ?open) (loadReservationLines QTx rid)
      (\<lambda>lines. in_tx db_inv db_guar d0 (closing rid dh dr lines None [] [])) ?E"
  proof -
    have "triple (in_tx db_inv db_guar d0 ?open) (tx_query (select_lines rid))
        (\<lambda>lines. in_tx db_inv db_guar d0 (closing rid dh dr lines None [] [])) (\<lambda>_. base db_inv db_guar d0)"
      by (rule rg.query_rule [OF header_read_stable])
         (auto simp: header_read_def closing_def header_writes_def stock_moved_def tx_view_def
            status_of_def reservation_status_defs)
    then show ?thesis
      unfolding loadReservationLines_def query_def querier.case
      by (intro triple_map_error) simp
  qed
  have apply_lines: "triple (in_tx db_inv db_guar d0 (closing rid dh dr lines None [] []))
      (for_each applyLine lines)
      (\<lambda>_. in_tx db_inv db_guar d0 (closing rid dh dr lines None lines lines)) ?E" for lines
    using triple_for_each [where I = "\<lambda>ys. in_tx db_inv db_guar d0 (closing rid dh dr lines None ys ys)", OF line]
    by simp
  have flip: "triple (in_tx db_inv db_guar d0 (closing rid dh dr lines None lines lines))
      (tx_stmt (update_status rid tgt))
      (\<lambda>_. in_tx db_inv db_guar d0 (closing rid dh dr lines (Some tgt) lines lines)) ?E" for lines
  proof -
    have "triple (in_tx db_inv db_guar d0 (closing rid dh dr lines None lines lines))
      (tx_stmt (update_status rid tgt))
      (\<lambda>_. in_tx db_inv db_guar d0 (closing rid dh dr lines (Some tgt) lines lines)) (\<lambda>_. base db_inv db_guar d0)"
      by (rule rg.stmt_rule [OF closing_stable]) (rule update_status_step [OF _ _ tgt(1)])
    then show ?thesis by simp
  qed
  have commit: "triple (in_tx db_inv db_guar d0 (closing rid dh dr lines (Some tgt) lines lines)) tx_commit
      (\<lambda>_ w. idle db_inv db_guar d0 w \<and> status_of (w_db w) rid = Some tgt) ?E" for lines
  proof -
    have "triple (in_tx db_inv db_guar d0 (closing rid dh dr lines (Some tgt) lines lines)) tx_commit
      (\<lambda>_ w. idle db_inv db_guar d0 w \<and> status_of (w_db w) rid = Some tgt) (\<lambda>_. idle db_inv db_guar d0)"
      by (rule rg.commit_rule [OF closing_stable]) (use closing_commit [OF _ _ dr tgt] in blast)
    then show ?thesis by (rule triple_weaken) (auto intro: idle_base)
  qed
  have body: "triple (in_tx db_inv db_guar d0 ?open) ?body ?Q ?E"
    by (rule triple_bindE [OF load], rule triple_bindE [OF apply_lines],
        rule triple_bindE [OF triple_map_error [OF flip]],
        rule triple_bindE [OF triple_map_error [OF commit]], rule triple_return)
       (auto simp: rb transition_answer_def intro: idle_base)
  have answered: "in_tx db_inv db_guar d0 (header_read rid d0 status) w \<Longrightarrow> decide status = Inr s \<Longrightarrow>
      s \<noteq> '''' \<Longrightarrow> ?Q s w" for status s w
    using missing decided [of status s]
    by (auto simp: in_tx_def header_read_def transition_answer_def rb split: if_splits)
  have opened: "status = ReservationReserved"
    if "in_tx db_inv db_guar d0 (header_read rid d0 status) w" "decide status = Inr ''''" for status w
  proof (cases "status = ''''")
    case True
    with missing that(2) statuses_nonempty [OF tgt(1)] show ?thesis by fastforce
  next
    case False
    with that(1) have "status \<in> set reservation_statuses" by (auto simp: in_tx_def header_read_def)
    from decided [OF this that(2)] show ?thesis by simp
  qed
  show "triple (in_tx db_inv db_guar d0 (\<lambda>d t. tx_writes t = [] \<and> tx_locks t = []))
     (bindE (try_bind (scan_row (tx_stmt (select_status_for_update rid)))
        (\<lambda>err. if \<not> errors_Is err ErrNoRows
           then fail (errorf_w (''lock reservation '' @ rid @ '': '') (translateConcurrency err))
           else return '''') return)
      (\<lambda>status. case decide status of Inl err \<Rightarrow> fail err
         | Inr done \<Rightarrow> if done \<noteq> '''' then return done else ?body)) ?Q ?E"
  proof (rule triple_bindE)
    show "triple (in_tx db_inv db_guar d0 (\<lambda>d t. tx_writes t = [] \<and> tx_locks t = []))
       (try_bind (scan_row (tx_stmt (select_status_for_update rid)))
        (\<lambda>err. if \<not> errors_Is err ErrNoRows
           then fail (errorf_w (''lock reservation '' @ rid @ '': '') (translateConcurrency err))
           else return '''') return)
       (\<lambda>status. in_tx db_inv db_guar d0 (header_read rid d0 status)) ?E"
      using lock_header_rule by simp
    fix status
    show "triple (in_tx db_inv db_guar d0 (header_read rid d0 status))
      (case decide status of Inl err \<Rightarrow> fail err
         | Inr done \<Rightarrow> if done \<noteq> '''' then return done else ?body) ?Q ?E"
    proof (cases "decide status")
      case (Inl err)
      then show ?thesis by (auto intro!: triple_fail simp: in_tx_base)
    next
      case (Inr s)
      show ?thesis
      proof (cases "s = ''''")
        case True
        show ?thesis
          by (rule triple_assume [where C = "status = ReservationReserved"])
             (use opened Inr True body in auto)
      next
        case False
        with answered Inr show ?thesis by (auto intro!: triple_return)
      qed
    qed
  qed
qed

section \<open>Release and Commit\<close>

lemma Release_rule:
  "triple (idle db_inv db_guar d0) (Release rid reason)
    (\<lambda>s w. idle db_inv db_guar d0 w \<and> transition_answer True rid ReservationReleased d0 s (w_db w))
    (\<lambda>_. idle db_inv db_guar d0)"
proof -
  have noop: "(decide_release rid [] = Inr ReservationReleased) = True" by (simp add: decide_release_def)
  show ?thesis
  unfolding Release_def noop [symmetric]
proof (rule transition_rule [where dh = "\<lambda>a. 0" and dr = "\<lambda>a. - al_Quantity a"])
  fix lines ys zs :: "Allocation list" and a
  assume "lines = ys @ a # zs"
  from apply_line_rule [where dh = "\<lambda>a. 0" and dr = "\<lambda>a. - al_Quantity a", OF this]
  show "triple (in_tx db_inv db_guar d0 (closing rid (\<lambda>a. 0) (\<lambda>a. - al_Quantity a) lines None ys ys))
      (release_line rid reason a)
      (\<lambda>_. in_tx db_inv db_guar d0 (closing rid (\<lambda>a. 0) (\<lambda>a. - al_Quantity a) lines None (ys @ [a]) (ys @ [a])))
      (\<lambda>_. base db_inv db_guar d0)"
    unfolding release_line_def by simp
qed (auto simp: decide_release_def reservation_statuses_def reservation_status_defs split: if_splits)
qed

lemma Commit_rule:
  "triple (idle db_inv db_guar d0) (Commit rid)
    (\<lambda>s w. idle db_inv db_guar d0 w \<and> transition_answer False rid ReservationCommitted d0 s (w_db w))
    (\<lambda>_. idle db_inv db_guar d0)"
proof -
  have noop: "(decide_commit rid [] = Inr ReservationCommitted) = False" by (simp add: decide_commit_def)
  show ?thesis
  unfolding Commit_def noop [symmetric]
proof (rule transition_rule [where dh = "\<lambda>a. - al_Quantity a" and dr = "\<lambda>a. - al_Quantity a"])
  fix lines ys zs :: "Allocation list" and a
  assume "lines = ys @ a # zs"
  from apply_line_rule [where dh = "\<lambda>a. - al_Quantity a" and dr = "\<lambda>a. - al_Quantity a", OF this]
  show "triple (in_tx db_inv db_guar d0 (closing rid (\<lambda>a. - al_Quantity a) (\<lambda>a. - al_Quantity a) lines None ys ys))
      (commit_line rid a)
      (\<lambda>_. in_tx db_inv db_guar d0
        (closing rid (\<lambda>a. - al_Quantity a) (\<lambda>a. - al_Quantity a) lines None (ys @ [a]) (ys @ [a])))
      (\<lambda>_. base db_inv db_guar d0)"
    unfolding commit_line_def by simp
qed (auto simp: decide_commit_def reservation_statuses_def reservation_status_defs split: if_splits)
qed

end
