(* ===== verification/Stock_Repo.thy ===== *)
theory Stock_Repo
  imports Pg_Session
begin

text \<open>
  \<open>internal/core/repository/stock_commands.go\<close>: the idempotent admin commands. Each runs one
  transaction that first claims the command id with its movement row and then changes the balance.
\<close>

section \<open>SQL\<close>

text \<open>
  \<open>INSERT INTO inventory_balances ... ON CONFLICT (sku_id, warehouse_id) DO UPDATE\<close>: the CHECKs of
  the proposed row come first, then the conflict is looked for.
\<close>

definition upsert_on_hand :: "string \<Rightarrow> int \<Rightarrow> int \<Rightarrow> db \<Rightarrow> int \<Rightarrow> nat outcome" where
  "upsert_on_hand sku wh q d now =
     (if \<not> varchar 64 sku then Inl ''22001''
      else if q < 0 then Inl ''23514''
      else
        (case map_of (balances d) (sku, wh) of
           Some r \<Rightarrow>
             store_balance (sku, wh)
               (r\<lparr>on_hand := on_hand r + q, version := version r + 1, bal_updated_at := now\<rparr>)
         | None \<Rightarrow>
             (if \<not> has_warehouse d wh then Inl ''23503''
              else store_balance (sku, wh)
                \<lparr>on_hand = q, reserved = 0, safety_stock = 0, version = 1, bal_updated_at = now\<rparr>)))"

definition add_on_hand :: "int \<Rightarrow> int \<Rightarrow> balance_row \<Rightarrow> balance_row" where
  "add_on_hand q now r =
     r\<lparr>on_hand := on_hand r + q, version := version r + 1, bal_updated_at := now\<rparr>"

definition put_safety_stock :: "int \<Rightarrow> int \<Rightarrow> balance_row \<Rightarrow> balance_row" where
  "put_safety_stock q now r =
     r\<lparr>safety_stock := q, version := version r + 1, bal_updated_at := now\<rparr>"

text \<open>The stored movement of a command id (\<open>command_id\<close> is UNIQUE).\<close>

definition select_movement :: "string \<Rightarrow> db \<Rightarrow> movement_row option" where
  "select_movement c d = find (\<lambda>m. mv_command_id m = c) (movements d)"

definition coalesce :: "string option \<Rightarrow> string" where
  "coalesce s = (case s of None \<Rightarrow> '''' | Some t \<Rightarrow> t)"

section \<open>The claim\<close>

definition claimCommand :: "StockCommand \<Rightarrow> string \<Rightarrow> int \<Rightarrow> int \<Rightarrow> bool prog" where
  "claimCommand cmd movementType onHandDelta reservedDelta =
     bindE
       (map_error (errorf_w (''claim command '' @ cmd_CommandID cmd @ '': ''))
          (tx_nextval (\<lambda>n. tx_stmt (\<lambda>d now.
             insert_movement True
               \<lparr>mv_id = n, mv_command_id = cmd_CommandID cmd, mv_sku_id = cmd_SKUID cmd,
                mv_warehouse_id = cmd_WarehouseID cmd, mv_type = movementType,
                mv_on_hand_delta = onHandDelta, mv_reserved_delta = reservedDelta,
                mv_reference_type = Some ''admin'', mv_reference_id = None,
                mv_reason = Some (cmd_Reason cmd), mv_actor = Some (cmd_Actor cmd),
                mv_created_at = now\<rparr> d))))
       (\<lambda>rows.
          if rows = 1 then return True
          else
            bindE
              (map_error (errorf_w (''load claimed command '' @ cmd_CommandID cmd @ '': ''))
                 (bindE (tx_query (select_movement (cmd_CommandID cmd)))
                    (\<lambda>r. case r of None \<Rightarrow> fail (Sentinel ErrNoRows) | Some m \<Rightarrow> return m)))
              (\<lambda>m.
                 if mv_sku_id m \<noteq> cmd_SKUID cmd \<or> mv_warehouse_id m \<noteq> cmd_WarehouseID cmd \<or>
                    mv_type m \<noteq> movementType \<or> mv_on_hand_delta m \<noteq> onHandDelta \<or>
                    mv_reserved_delta m \<noteq> reservedDelta \<or> coalesce (mv_actor m) \<noteq> cmd_Actor cmd \<or>
                    coalesce (mv_reason m) \<noteq> cmd_Reason cmd
                 then fail (errorf_w (''command '' @ cmd_CommandID cmd @ '': '') (Sentinel ErrCommandConflict))
                 else return False))"

definition run_command ::
  "StockCommand \<Rightarrow> string \<Rightarrow> int \<Rightarrow> int \<Rightarrow> unit prog \<Rightarrow> bool prog" where
  "run_command cmd movementType onHandDelta reservedDelta apply_change =
     bindE (map_error (errorf_w ''begin: '') pool_begin) (\<lambda>_.
     defer_rollback (
       bindE (claimCommand cmd movementType onHandDelta reservedDelta) (\<lambda>claimed.
         if \<not> claimed then return False
         else
           bindE apply_change (\<lambda>_.
           bindE (map_error (errorf_w (''commit '' @ cmd_CommandID cmd @ '': '')) tx_commit)
             (\<lambda>_. return True)))))"

definition checkViolation :: "goerr \<Rightarrow> goerr" where
  "checkViolation err =
     (if errors_As_PgError err = Some ''23514'' then Sentinel ErrInsufficientOnHand else err)"

section \<open>The commands\<close>

definition receive_change :: "StockCommand \<Rightarrow> unit prog" where
  "receive_change cmd =
     bindE
       (map_error (errorf_w ''receive stock: '')
          (tx_stmt (upsert_on_hand (cmd_SKUID cmd) (cmd_WarehouseID cmd) (cmd_Quantity cmd))))
       (\<lambda>_. return ())"

definition ReceiveStock :: "StockCommand \<Rightarrow> bool prog" where
  "ReceiveStock cmd =
     (case Validate cmd of
        Some err \<Rightarrow> fail err
      | None \<Rightarrow>
          (if cmd_Quantity cmd \<le> 0
           then fail (ErrorsNew (''receive quantity must be > 0, got '' @ FormatInt (cmd_Quantity cmd)))
           else run_command cmd MovementReceive (cmd_Quantity cmd) 0 (receive_change cmd)))"

definition not_found_error :: "string \<Rightarrow> StockCommand \<Rightarrow> goerr" where
  "not_found_error op cmd =
     errorf_w (op @ '': sku '' @ cmd_SKUID cmd @ '' in warehouse '' @
       FormatInt (cmd_WarehouseID cmd) @ '': '') (Sentinel ErrBalanceNotFound)"

definition adjust_change :: "StockCommand \<Rightarrow> unit prog" where
  "adjust_change cmd =
     bindE
       (map_error (\<lambda>err. errorf_w ''adjust on_hand: '' (checkViolation err))
          (tx_stmt (\<lambda>d now.
             update_balance (add_on_hand (cmd_Quantity cmd) now) (cmd_SKUID cmd, cmd_WarehouseID cmd) d)))
       (\<lambda>rows.
          if rows = 0 then fail (not_found_error ''adjust on_hand'' cmd) else return ())"

definition AdjustOnHand :: "StockCommand \<Rightarrow> bool prog" where
  "AdjustOnHand cmd =
     (case Validate cmd of
        Some err \<Rightarrow> fail err
      | None \<Rightarrow>
          (if cmd_Quantity cmd = 0 then fail (ErrorsNew ''adjust delta must be non-zero'')
           else run_command cmd MovementAdjust (cmd_Quantity cmd) 0 (adjust_change cmd)))"

definition safety_change :: "StockCommand \<Rightarrow> unit prog" where
  "safety_change cmd =
     bindE
       (map_error (errorf_w ''set safety stock: '')
          (tx_stmt (\<lambda>d now.
             update_balance (put_safety_stock (cmd_Quantity cmd) now) (cmd_SKUID cmd, cmd_WarehouseID cmd) d)))
       (\<lambda>rows.
          if rows = 0 then fail (not_found_error ''set safety stock'' cmd) else return ())"

definition SetSafetyStock :: "StockCommand \<Rightarrow> bool prog" where
  "SetSafetyStock cmd =
     (case Validate cmd of
        Some err \<Rightarrow> fail err
      | None \<Rightarrow>
          (if cmd_Quantity cmd < 0
           then fail (ErrorsNew (''safety stock must be >= 0, got '' @ FormatInt (cmd_Quantity cmd)))
           else run_command cmd MovementSetSafetyStock 0 0 (safety_change cmd)))"

end
