(* ===== verification/Stock_Safety.thy ===== *)
theory Stock_Safety
  imports Reservation_Safety Stock_Repo
begin

text \<open>
  The admin stock commands among concurrent clients and faults: each keeps the invariant and the
  guarantee, and whether it answers that it applied its change or that it was a replay, the ledger
  then holds the command's row.
\<close>

definition command_line :: "StockCommand \<Rightarrow> Allocation" where
  "command_line cmd =
     \<lparr>al_SKUID = cmd_SKUID cmd, al_WarehouseID = cmd_WarehouseID cmd, al_Quantity = cmd_Quantity cmd\<rparr>"

lemma akey_command_line [simp]: "akey (command_line cmd) = (cmd_SKUID cmd, cmd_WarehouseID cmd)"
  and command_line_warehouse [simp]: "al_WarehouseID (command_line cmd) = cmd_WarehouseID cmd"
  by (simp_all add: akey_def command_line_def)

text \<open>
  The ledger row of a command, in the fields a replay is compared on. \<open>Validate\<close> does not bound the
  reason: a command that is applied leaves what its column makes of the text, and a replay has found exactly
  the text that was sent.
\<close>

definition ledger_reason :: "bool \<Rightarrow> string \<Rightarrow> string option" where
  "ledger_reason applied reason = (if applied then varchar_assign 64 reason else Some reason)"

lemma ledger_reason_fits: "varchar 64 reason \<Longrightarrow> ledger_reason applied reason = Some reason"
  by (simp add: ledger_reason_def)

definition records :: "bool \<Rightarrow> StockCommand \<Rightarrow> string \<Rightarrow> int \<Rightarrow> movement_row \<Rightarrow> bool" where
  "records applied cmd ty dh m \<longleftrightarrow>
     mv_command_id m = cmd_CommandID cmd \<and> mv_sku_id m = cmd_SKUID cmd \<and>
     mv_warehouse_id m = cmd_WarehouseID cmd \<and> mv_type m = ty \<and>
     mv_on_hand_delta m = dh \<and> mv_reserved_delta m = 0 \<and>
     coalesce (mv_actor m) = cmd_Actor cmd \<and>
     ledger_reason applied (cmd_Reason cmd) = Some (coalesce (mv_reason m))"

definition recorded :: "bool \<Rightarrow> StockCommand \<Rightarrow> string \<Rightarrow> int \<Rightarrow> db \<Rightarrow> bool" where
  "recorded applied cmd ty dh d \<longleftrightarrow> (\<exists>m \<in> set (movements d). records applied cmd ty dh m)"

lemma recorded_guar: "recorded b cmd ty dh d \<Longrightarrow> db_guar d d' \<Longrightarrow> recorded b cmd ty dh d'"
  using db_guarD(6) [of d d'] by (auto simp: recorded_def)

definition commanding ::
  "StockCommand \<Rightarrow> string \<Rightarrow> int \<Rightarrow> Allocation list \<Rightarrow> db \<Rightarrow> tx \<Rightarrow> bool" where
  "commanding cmd ty dh bs d t \<longleftrightarrow>
     write_reservations (tx_writes t) = [] \<and> write_lines (tx_writes t) = [] \<and>
     (\<exists>m \<in> set (write_movements (tx_writes t)). records True cmd ty dh m) \<and>
     stock_moved (\<lambda>a. dh) (\<lambda>a. 0) d (tx_writes t) bs [command_line cmd]"

lemma commanding_stable: "stable db_inv db_guar (commanding cmd ty dh bs)"
  unfolding commanding_def by (intro stableI) (blast intro: stock_moved_stable)

lemma commanding_commit:
  assumes d: "db_inv d" and c: "commanding cmd ty dh [command_line cmd] d t"
  shows "db_inv (apply_writes (tx_writes t) d)" "db_guar d (apply_writes (tx_writes t) d)"
    "recorded True cmd ty dh (apply_writes (tx_writes t) d)"
proof -
  let ?d' = "apply_writes (tx_writes t) d"
  note ok = db_invD [OF d]
  from c have sm: "stock_moved (\<lambda>a. dh) (\<lambda>a. 0) d (tx_writes t) [command_line cmd] [command_line cmd]"
    and no: "write_reservations (tx_writes t) = []" "write_lines (tx_writes t) = []"
    and m: "\<exists>m \<in> set (write_movements (tx_writes t)). records True cmd ty dh m"
    unfolding commanding_def by blast+
  have rs: "reservations ?d' = reservations d" and ls: "reservation_lines ?d' = reservation_lines d"
    by (simp_all add: table_simps no)
  have rok: "reservations_ok ?d'" using ok(2) unfolding reservations_ok_def rs .
  have lok: "lines_ok ?d'" using ok(3) unfolding lines_ok_def rs ls has_warehouse_apply .
  have "line_held ?d' k = line_held d k" for k
    by (simp add: line_held_def fun_eq_iff status_of_def rs)
  then have "held_qty ?d' k = held_qty d k + sum_at (\<lambda>a. 0) [command_line cmd] k" for k
    by (simp add: held_qty_def ls)
  then show "db_inv ?d'" by (rule commit_db_inv [OF d sm rok lok])
  show "db_guar d ?d'"
    by (rule commit_db_guar [OF sm]) (simp add: rs ls lines_of_def header_kept_refl)
  show "recorded True cmd ty dh ?d'" using m by (auto simp: recorded_def table_simps)
qed

lemma select_movement_SomeD:
  "select_movement c d = Some m \<Longrightarrow> m \<in> set (movements d) \<and> mv_command_id m = c"
  by (auto simp: select_movement_def find_Some_iff)

lemma Validate_bounds:
  assumes "Validate cmd = None"
  shows "varchar 255 (cmd_CommandID cmd)" "varchar 64 (cmd_SKUID cmd)" "varchar 64 (cmd_Actor cmd)"
proof -
  have "varchar k s" if "length s \<le> k" for k s
    using that unfolding varchar_def char_length_def using length_filter_le le_trans by blast
  then show "varchar 255 (cmd_CommandID cmd)" "varchar 64 (cmd_SKUID cmd)" "varchar 64 (cmd_Actor cmd)"
    using assms by (auto simp: Validate_def split: if_splits)
qed

text \<open>The row an insertion stores for a command it claims.\<close>

lemma claimed_records:
  assumes "varchar 64 (cmd_Actor cmd)"
    and "stored_movement \<lparr>mv_id = i, mv_command_id = cmd_CommandID cmd, mv_sku_id = cmd_SKUID cmd,
         mv_warehouse_id = cmd_WarehouseID cmd, mv_type = ty, mv_on_hand_delta = dh,
         mv_reserved_delta = 0, mv_reference_type = Some ''admin'', mv_reference_id = None,
         mv_reason = Some (cmd_Reason cmd), mv_actor = Some (cmd_Actor cmd), mv_created_at = now\<rparr> = Some m"
  shows "records True cmd ty dh m"
proof -
  note kept = stored_movement_kept [OF assms(2), simplified movement_row.simps]
  from kept(10) assms(1) have "mv_actor m = Some (cmd_Actor cmd)" by (simp add: varchar_assign_null_def)
  moreover from kept(9) obtain reason where "varchar_assign 64 (cmd_Reason cmd) = Some reason" "mv_reason m = Some reason"
    by (cases "varchar_assign 64 (cmd_Reason cmd)") (auto simp: varchar_assign_null_def dest: sym)
  ultimately show ?thesis using kept(2-7) by (simp add: records_def ledger_reason_def coalesce_def)
qed

lemma found_recorded:
  assumes "m \<in> set (movements d)" "mv_command_id m = cmd_CommandID cmd"
    and "mv_sku_id m = cmd_SKUID cmd" "mv_warehouse_id m = cmd_WarehouseID cmd" "mv_type m = ty" "mv_on_hand_delta m = dh"
      "mv_reserved_delta m = 0" "coalesce (mv_actor m) = cmd_Actor cmd" "coalesce (mv_reason m) = cmd_Reason cmd"
  shows "recorded False cmd ty dh d"
  unfolding recorded_def records_def ledger_reason_def using assms by auto

lemma claimCommand_rule:
  assumes actor: "varchar 64 (cmd_Actor cmd)"
  shows "triple (in_tx db_inv db_guar d0 (\<lambda>d t. tx_writes t = [] \<and> tx_locks t = []))
     (claimCommand cmd ty dh 0)
     (\<lambda>claimed. in_tx db_inv db_guar d0
        (if claimed then commanding cmd ty dh [] else (\<lambda>d t. recorded False cmd ty dh d)))
     (\<lambda>_. base db_inv db_guar d0)"
  unfolding claimCommand_def
proof (rule triple_bindE, rule triple_map_error)
  let ?empty = "in_tx db_inv db_guar d0 (\<lambda>d t. tx_writes t = [])"
  let ?B = "\<lambda>n :: nat. if n = 1 then commanding cmd ty dh [] else (\<lambda>d t. tx_writes t = [])"
  have st: "stable db_inv db_guar (\<lambda>d t. tx_writes t = [] \<and> tx_locks t = [])"
    and st': "stable db_inv db_guar (\<lambda>d t. tx_writes t = [])" by (intro stableI; simp)+
  show "triple (in_tx db_inv db_guar d0 (\<lambda>d t. tx_writes t = [] \<and> tx_locks t = []))
     (tx_nextval (\<lambda>n. tx_stmt (\<lambda>d now. insert_movement True
        \<lparr>mv_id = n, mv_command_id = cmd_CommandID cmd, mv_sku_id = cmd_SKUID cmd,
         mv_warehouse_id = cmd_WarehouseID cmd, mv_type = ty, mv_on_hand_delta = dh,
         mv_reserved_delta = 0, mv_reference_type = Some ''admin'', mv_reference_id = None,
         mv_reason = Some (cmd_Reason cmd), mv_actor = Some (cmd_Actor cmd), mv_created_at = now\<rparr> d)))
     (\<lambda>n. in_tx db_inv db_guar d0 (?B n)) (\<lambda>_. base db_inv db_guar d0)"
  proof (rule triple_nextval, simp, rule rg.stmt_rule [OF st])
    fix d and t :: tx and x :: nat and i ws ls
    let ?m = "\<lparr>mv_id = i, mv_command_id = cmd_CommandID cmd, mv_sku_id = cmd_SKUID cmd,
         mv_warehouse_id = cmd_WarehouseID cmd, mv_type = ty, mv_on_hand_delta = dh,
         mv_reserved_delta = 0, mv_reference_type = Some ''admin'', mv_reference_id = None,
         mv_reason = Some (cmd_Reason cmd), mv_actor = Some (cmd_Actor cmd), mv_created_at = tx_now t\<rparr>"
    let ?t = "t\<lparr>tx_writes := tx_writes t @ ws, tx_locks := tx_locks t @ ls\<rparr>"
    assume A: "tx_writes t = [] \<and> tx_locks t = []"
      and run: "insert_movement True ?m (tx_view d t) = Inr (x, ws, ls)"
    show "?B x d ?t"
    proof (cases "x = 1")
      case True
      have "stock_moved (\<lambda>a. dh) (\<lambda>a. 0) d [] [] []" by (simp add: stock_moved_def)
      from stock_moved_insert [OF this _ _ _ _ _, of True ?m x ws ls "command_line cmd"] run A True
      obtain m' where "ws = [WMovement m']" "stored_movement ?m = Some m'"
        and "stock_moved (\<lambda>a. dh) (\<lambda>a. 0) d ws [] [command_line cmd]"
        by (auto simp: tx_view_def mv_key_def)
      with A True claimed_records [OF actor] show ?thesis by (simp add: commanding_def)
    next
      case False
      with run A show ?thesis by (auto simp: insert_movement_def split: if_splits option.splits)
    qed
  qed
  fix n :: nat
  let ?load = "bindE (map_error (errorf_w (''load claimed command '' @ cmd_CommandID cmd @ '': ''))
       (bindE (tx_query (select_movement (cmd_CommandID cmd)))
          (\<lambda>r. case r of None \<Rightarrow> fail (Sentinel ErrNoRows) | Some m \<Rightarrow> return m)))
     (\<lambda>m. if mv_sku_id m \<noteq> cmd_SKUID cmd \<or> mv_warehouse_id m \<noteq> cmd_WarehouseID cmd \<or>
             mv_type m \<noteq> ty \<or> mv_on_hand_delta m \<noteq> dh \<or> mv_reserved_delta m \<noteq> 0 \<or>
             coalesce (mv_actor m) \<noteq> cmd_Actor cmd \<or> coalesce (mv_reason m) \<noteq> cmd_Reason cmd
          then fail (errorf_w (''command '' @ cmd_CommandID cmd @ '': '') (Sentinel ErrCommandConflict))
          else return False)"
  let ?Q = "\<lambda>claimed. in_tx db_inv db_guar d0
        (if claimed then commanding cmd ty dh [] else (\<lambda>d t. recorded False cmd ty dh d))"
  let ?found = "\<lambda>m. in_tx db_inv db_guar d0 (\<lambda>d t. m \<in> set (movements d) \<and> mv_command_id m = cmd_CommandID cmd)"
  have q: "triple ?empty (tx_query (select_movement (cmd_CommandID cmd)))
      (\<lambda>r. in_tx db_inv db_guar d0 (\<lambda>d t. r = select_movement (cmd_CommandID cmd) d)) (\<lambda>_. base db_inv db_guar d0)"
    by (rule rg.query_rule [OF st']) (simp add: tx_view_def)
  have sel: "triple (in_tx db_inv db_guar d0 (\<lambda>d t. r = select_movement (cmd_CommandID cmd) d))
      (case r of None \<Rightarrow> fail (Sentinel ErrNoRows) | Some m \<Rightarrow> return m) ?found (\<lambda>_. base db_inv db_guar d0)" for r
    by (cases r) (auto intro!: triple_fail triple_return in_tx_base elim!: in_tx_mono
        dest: select_movement_SomeD [OF sym])
  have load: "triple ?empty ?load ?Q (\<lambda>_. base db_inv db_guar d0)"
    by (rule triple_bindE, rule triple_map_error, rule triple_bindE [OF q], rule sel)
       (auto intro!: triple_fail triple_return in_tx_base elim!: in_tx_mono found_recorded)
  show "triple (in_tx db_inv db_guar d0 (?B n)) (if n = 1 then return True else ?load) ?Q
      (\<lambda>_. base db_inv db_guar d0)"
    using load by (cases "n = 1") (auto intro!: triple_return)
qed

section \<open>The balance changes\<close>

abbreviation change_ok :: "StockCommand \<Rightarrow> string \<Rightarrow> int \<Rightarrow> unit prog \<Rightarrow> bool" where
  "change_ok cmd ty dh change \<equiv>
     (\<forall>d0. triple (in_tx db_inv db_guar d0 (commanding cmd ty dh [])) change
        (\<lambda>_. in_tx db_inv db_guar d0 (commanding cmd ty dh [command_line cmd]))
        (\<lambda>_. base db_inv db_guar d0))"

lemma commanding_moved:
  assumes "commanding cmd ty dh [] d t"
    and "stock_moved (\<lambda>a. dh) (\<lambda>a. 0) d (tx_writes t @ [WBalance k r]) [command_line cmd] [command_line cmd]"
  shows "commanding cmd ty dh [command_line cmd] d
    (t\<lparr>tx_writes := tx_writes t @ [WBalance k r], tx_locks := tx_locks t @ ls\<rparr>)"
  using assms by (simp add: commanding_def)

lemma commanding_update:
  assumes d: "db_inv d" and A: "commanding cmd ty dh [] d t"
    and run: "update_balance f (cmd_SKUID cmd, cmd_WarehouseID cmd) (tx_view d t) = Inr (n, ws, ls)"
    and f: "\<And>r. on_hand (f r) = on_hand r + dh \<and> reserved (f r) = reserved r"
  shows "(if n = 0 then commanding cmd ty dh [] else commanding cmd ty dh [command_line cmd]) d
    (t\<lparr>tx_writes := tx_writes t @ ws, tx_locks := tx_locks t @ ls\<rparr>)"
proof -
  from A have sm: "stock_moved (\<lambda>a. dh) (\<lambda>a. 0) d (tx_writes t) [] [command_line cmd]"
    by (simp add: commanding_def)
  have fresh: "akey (command_line cmd) \<notin> akey ` set []" by simp
  have run': "update_balance f (akey (command_line cmd)) (apply_writes (tx_writes t) d) = Inr (n, ws, ls)"
    using run by (simp add: tx_view_def)
  show ?thesis
  proof (cases "map_of (balances d) (akey (command_line cmd))")
    case None
    then have "n = 0" "ws = []" "ls = []"
      using run' stock_moved_view [OF sm fresh] by (simp_all add: update_balance_def)
    with A show ?thesis by simp
  next
    case (Some r)
    from stock_moved_update [OF sm fresh db_invD(1) [OF d] Some run'] f
    have "n = 1" "ws = [WBalance (akey (command_line cmd)) (f r)]"
      "stock_moved (\<lambda>a. dh) (\<lambda>a. 0) d (tx_writes t @ ws) [command_line cmd] [command_line cmd]"
      by simp_all
    with commanding_moved [OF A] show ?thesis by simp
  qed
qed

lemma update_change_ok:
  assumes f: "\<And>now r. on_hand (f now r) = on_hand r + dh \<and> reserved (f now r) = reserved r"
  shows "change_ok cmd ty dh
    (bindE (map_error h (tx_stmt (\<lambda>d now. update_balance (f now) (cmd_SKUID cmd, cmd_WarehouseID cmd) d)))
       (\<lambda>rows. if rows = 0 then fail e else return ()))"
proof (intro allI, rule triple_bindE, rule triple_map_error)
  fix d0
  let ?B = "\<lambda>n :: nat. if n = 0 then commanding cmd ty dh [] else commanding cmd ty dh [command_line cmd]"
  show "triple (in_tx db_inv db_guar d0 (commanding cmd ty dh []))
      (tx_stmt (\<lambda>d now. update_balance (f now) (cmd_SKUID cmd, cmd_WarehouseID cmd) d))
      (\<lambda>n. in_tx db_inv db_guar d0 (?B n)) (\<lambda>_. base db_inv db_guar d0)"
    by (rule rg.stmt_rule [OF commanding_stable]) (erule (2) commanding_update, rule f)
  show "triple (in_tx db_inv db_guar d0 (?B n)) (if n = 0 then fail e else return ())
      (\<lambda>_. in_tx db_inv db_guar d0 (commanding cmd ty dh [command_line cmd]))
      (\<lambda>_. base db_inv db_guar d0)" for n :: nat
    by (cases "n = 0") (auto intro: triple_fail triple_return in_tx_base)
qed

lemma adjust_change_ok: "change_ok cmd ty (cmd_Quantity cmd) (adjust_change cmd)"
  unfolding adjust_change_def by (rule update_change_ok) (simp add: add_on_hand_def)

lemma safety_change_ok: "change_ok cmd ty 0 (safety_change cmd)"
  unfolding safety_change_def by (rule update_change_ok) (simp add: put_safety_stock_def)

lemma receive_change_ok: "change_ok cmd ty (cmd_Quantity cmd) (receive_change cmd)"
  unfolding receive_change_def
proof (intro allI, rule triple_bindE, rule triple_map_error)
  fix d0
  let ?a = "command_line cmd"
  show "triple (in_tx db_inv db_guar d0 (commanding cmd ty (cmd_Quantity cmd) []))
      (tx_stmt (upsert_on_hand (cmd_SKUID cmd) (cmd_WarehouseID cmd) (cmd_Quantity cmd)))
      (\<lambda>_. in_tx db_inv db_guar d0 (commanding cmd ty (cmd_Quantity cmd) [?a])) (\<lambda>_. base db_inv db_guar d0)"
  proof (rule rg.stmt_rule [OF commanding_stable])
    fix d and t :: tx and n ws ls
    assume d: "db_inv d" and A: "commanding cmd ty (cmd_Quantity cmd) [] d t"
      and run: "upsert_on_hand (cmd_SKUID cmd) (cmd_WarehouseID cmd) (cmd_Quantity cmd) (tx_view d t) (tx_now t) =
        Inr (n, ws, ls)"
    from A have sm: "stock_moved (\<lambda>a. cmd_Quantity cmd) (\<lambda>a. 0) d (tx_writes t) [] [?a]"
      by (simp add: commanding_def)
    have fresh: "akey ?a \<notin> akey ` set []" by simp
    have view: "map_of (balances (tx_view d t)) (cmd_SKUID cmd, cmd_WarehouseID cmd) =
        map_of (balances d) (cmd_SKUID cmd, cmd_WarehouseID cmd)"
      using stock_moved_view [OF sm fresh] by (simp add: tx_view_def)
    have "\<exists>r. store_balance (akey ?a) r = Inr (n, ws, ls) \<and> has_warehouse d (al_WarehouseID ?a) \<and>
        on_hand r = on_hand_of d (akey ?a) + cmd_Quantity cmd \<and> reserved r = reserved_of d (akey ?a) + 0"
    proof (cases "map_of (balances d) (cmd_SKUID cmd, cmd_WarehouseID cmd)")
      case None
      with run view show ?thesis
        by (auto simp: upsert_on_hand_def observable_defs tx_view_def split: if_splits)
    next
      case (Some r)
      with run view balances_okD [OF db_invD(1) [OF d] Some] show ?thesis
        by (auto simp: upsert_on_hand_def observable_defs split: if_splits)
    qed
    then obtain r where st: "store_balance (akey ?a) r = Inr (n, ws, ls)" "has_warehouse d (al_WarehouseID ?a)"
      and r: "on_hand r = on_hand_of d (akey ?a) + cmd_Quantity cmd" "reserved r = reserved_of d (akey ?a) + 0"
      by blast
    from stock_moved_store [where dh = "\<lambda>a. cmd_Quantity cmd" and dr = "\<lambda>a. 0", OF sm fresh st(2,1) r]
    show "commanding cmd ty (cmd_Quantity cmd) [?a] d
        (t\<lparr>tx_writes := tx_writes t @ ws, tx_locks := tx_locks t @ ls\<rparr>)"
      using commanding_moved [OF A] by simp
  qed
qed (rule triple_return)

section \<open>The commands\<close>

lemma run_command_rule:
  assumes "change_ok cmd ty dh change" "varchar 64 (cmd_Actor cmd)"
  shows "triple (idle db_inv db_guar d0) (run_command cmd ty dh 0 change)
    (\<lambda>b w. idle db_inv db_guar d0 w \<and> recorded b cmd ty dh (w_db w)) (\<lambda>_. idle db_inv db_guar d0)"
  unfolding run_command_def
proof (rule triple_bindE [OF triple_map_error [OF rg.begin_rule]], rule triple_defer_rollback)
  let ?Q = "\<lambda>b w. idle db_inv db_guar d0 (tx_rollback w) \<and> recorded b cmd ty dh (w_db (tx_rollback w))"
  let ?E = "\<lambda>(_ :: goerr) w. idle db_inv db_guar d0 (tx_rollback w)"
  have rb: "w_db (tx_rollback w) = w_db w" for w by (simp add: tx_rollback_def)
  let ?apply = "bindE change (\<lambda>_. bindE (map_error (errorf_w (''commit '' @ cmd_CommandID cmd @ '': '')) tx_commit)
      (\<lambda>_. return True))"
  have change: "triple (in_tx db_inv db_guar d0 (commanding cmd ty dh [])) change
        (\<lambda>_. in_tx db_inv db_guar d0 (commanding cmd ty dh [command_line cmd])) ?E"
    using assms(1) by simp
  have "triple (in_tx db_inv db_guar d0 (commanding cmd ty dh [command_line cmd])) tx_commit
      (\<lambda>_ w. idle db_inv db_guar d0 w \<and> recorded True cmd ty dh (w_db w)) (\<lambda>_. idle db_inv db_guar d0)"
    by (rule rg.commit_rule [OF commanding_stable]) (use commanding_commit in blast)
  then have commit: "triple (in_tx db_inv db_guar d0 (commanding cmd ty dh [command_line cmd])) tx_commit
      (\<lambda>_ w. idle db_inv db_guar d0 w \<and> recorded True cmd ty dh (w_db w)) ?E"
    by (rule triple_weaken) (auto intro: idle_base)
  have apply_rule: "triple (in_tx db_inv db_guar d0 (commanding cmd ty dh [])) ?apply ?Q ?E"
    by (rule triple_bindE [OF change], rule triple_bindE [OF triple_map_error [OF commit]], rule triple_return)
       (auto simp: rb intro: idle_base)
  have claim: "triple (in_tx db_inv db_guar d0 (\<lambda>d t. tx_writes t = [] \<and> tx_locks t = []))
     (claimCommand cmd ty dh 0)
     (\<lambda>claimed. in_tx db_inv db_guar d0
        (if claimed then commanding cmd ty dh [] else (\<lambda>d t. recorded False cmd ty dh d))) ?E"
    using claimCommand_rule [OF assms(2)] by simp
  have replay: "in_tx db_inv db_guar d0 (\<lambda>d t. recorded False cmd ty dh d) w \<Longrightarrow> ?Q False w" for w
    by (auto simp: in_tx_def rb)
  show "triple (in_tx db_inv db_guar d0 (\<lambda>d t. tx_writes t = [] \<and> tx_locks t = []))
     (bindE (claimCommand cmd ty dh 0) (\<lambda>claimed. if \<not> claimed then return False else ?apply)) ?Q ?E"
  proof (rule triple_bindE [OF claim])
    fix c
    show "triple (in_tx db_inv db_guar d0
        (if c then commanding cmd ty dh [] else (\<lambda>d t. recorded False cmd ty dh d)))
      (if \<not> c then return False else ?apply) ?Q ?E"
      using apply_rule replay by (cases c) (auto intro!: triple_return)
  qed
qed

lemma ReceiveStock_rule:
  "triple (idle db_inv db_guar d0) (ReceiveStock cmd)
    (\<lambda>b w. idle db_inv db_guar d0 w \<and> recorded b cmd MovementReceive (cmd_Quantity cmd) (w_db w))
    (\<lambda>_. idle db_inv db_guar d0)"
  unfolding ReceiveStock_def
  by (auto intro!: triple_fail Validate_bounds(3) run_command_rule receive_change_ok split: option.split)

lemma AdjustOnHand_rule:
  "triple (idle db_inv db_guar d0) (AdjustOnHand cmd)
    (\<lambda>b w. idle db_inv db_guar d0 w \<and> recorded b cmd MovementAdjust (cmd_Quantity cmd) (w_db w))
    (\<lambda>_. idle db_inv db_guar d0)"
  unfolding AdjustOnHand_def
  by (auto intro!: triple_fail Validate_bounds(3) run_command_rule adjust_change_ok split: option.split)

lemma SetSafetyStock_rule:
  "triple (idle db_inv db_guar d0) (SetSafetyStock cmd)
    (\<lambda>b w. idle db_inv db_guar d0 w \<and> recorded b cmd MovementSetSafetyStock 0 (w_db w))
    (\<lambda>_. idle db_inv db_guar d0)"
  unfolding SetSafetyStock_def
  by (auto intro!: triple_fail Validate_bounds(3) run_command_rule safety_change_ok split: option.split)

end
