(* ===== verification/Service_System.thy ===== *)
theory Service_System
  imports Transition_Safety Stock_Safety
begin

text \<open>
  The database under any number of concurrent clients. \<open>service_step\<close> is one call of a repository
  command, run among interference that itself consists of service steps, with any faults the driver
  can report. The interference is thus made of whole calls, nested to any depth. Two calls that overlap without
  nesting, each reading before the other commits, are not such a step; the proof rules are more general than
  the relation, since all they ask of the interference at any moment is that it keeps the invariant, gives
  the guarantee and leaves locked rows alone, which is what they show of the commit of each command. The invariant and the guarantee of \<open>Inventory_Invariant\<close> then
  hold of every state the service can reach from the migrated database.
\<close>

section \<open>Calls\<close>

datatype call =
    CallReserve ReservationRequest
  | CallRelease string string
  | CallCommit string
  | CallGet string
  | CallReceive StockCommand
  | CallAdjust StockCommand
  | CallSafety StockCommand

definition discard :: "'a prog \<Rightarrow> unit prog" where
  "discard m = bindE m (\<lambda>_. return ())"

fun run_call :: "call \<Rightarrow> unit prog" where
  "run_call (CallReserve req) = discard (Reserve req)"
| "run_call (CallRelease rid reason) = discard (Release rid reason)"
| "run_call (CallCommit rid) = discard (Commit rid)"
| "run_call (CallGet rid) = discard (GetReservation rid)"
| "run_call (CallReceive cmd) = discard (ReceiveStock cmd)"
| "run_call (CallAdjust cmd) = discard (AdjustOnHand cmd)"
| "run_call (CallSafety cmd) = discard (SetSafetyStock cmd)"

lemma triple_discard:
  "triple P m Q (\<lambda>_. R) \<Longrightarrow> (\<And>x w. Q x w \<Longrightarrow> R w) \<Longrightarrow> triple P (discard m) (\<lambda>_. R) (\<lambda>_. R)"
  unfolding discard_def by (rule triple_bindE) (auto intro: triple_return)

lemma GetReservation_rule:
  "triple (idle db_inv db_guar d0) (GetReservation rid) (\<lambda>_. idle db_inv db_guar d0)
     (\<lambda>_. idle db_inv db_guar d0)"
proof -
  have q: "triple (idle db_inv db_guar d0) (pool_query f) (\<lambda>_. idle db_inv db_guar d0)
      (\<lambda>_. idle db_inv db_guar d0)" for f :: "db \<Rightarrow> 'a"
    by (rule triple_weaken [OF rg.pool_query_rule [of "\<lambda>_. True"]]) simp_all
  have "triple (idle db_inv db_guar d0) (scan_row (pool_query (select_header rid)))
      (\<lambda>_. idle db_inv db_guar d0) (\<lambda>_. idle db_inv db_guar d0)"
    by (rule scan_row_rule, rule triple_weaken [OF q]) (auto split: option.split)
  then show ?thesis
    unfolding GetReservation_def loadReservationLines_def query_def querier.case
    by (rule triple_try_bind)
       (auto intro!: triple_bindE [OF triple_map_error [OF q]] triple_return triple_fail)
qed

lemma run_call_rule: "triple (idle db_inv db_guar d0) (run_call c) (\<lambda>_. idle db_inv db_guar d0) (\<lambda>_. idle db_inv db_guar d0)"
proof (cases c)
  case CallReserve
  then show ?thesis by (auto intro: triple_discard [OF Reserve_rule])
next
  case CallRelease
  then show ?thesis by (auto intro: triple_discard [OF Release_rule])
next
  case CallCommit
  then show ?thesis by (auto intro: triple_discard [OF Commit_rule])
next
  case CallGet
  then show ?thesis by (auto intro: triple_discard [OF GetReservation_rule])
next
  case CallReceive
  then show ?thesis by (auto intro: triple_discard [OF ReceiveStock_rule])
next
  case CallAdjust
  then show ?thesis by (auto intro: triple_discard [OF AdjustOnHand_rule])
next
  case CallSafety
  then show ?thesis by (auto intro: triple_discard [OF SetSafetyStock_rule])
qed

section \<open>Reachable states\<close>

inductive service_step :: "db \<Rightarrow> db \<Rightarrow> bool" where
  call: "w_tx w = None \<Longrightarrow>
     (\<forall>e \<in> set (w_script w). fault_ok (ev_fault e) \<and> (\<forall>d. service_step\<^sup>*\<^sup>* d (ev_others e d))) \<Longrightarrow>
     run_call c w = (r, w') \<Longrightarrow> service_step (w_db w) (w_db w')"

inductive_simps service_step_iff: "service_step d d'"

abbreviation evolves :: "db \<Rightarrow> db \<Rightarrow> bool" where
  "evolves \<equiv> service_step\<^sup>*\<^sup>*"

lemma service_step_sound:
  "service_step d d' \<Longrightarrow> db_inv d \<Longrightarrow> db_inv d' \<and> db_guar d d'"
proof (induction rule: service_step.induct)
  case (call w c r w')
  have "others_ok db_inv db_guar (ev_others e) \<and> fault_ok (ev_fault e)" if "e \<in> set (w_script w)" for e
  proof -
    let ?sound = "\<lambda>d d'. service_step d d' \<and> (db_inv d \<longrightarrow> db_inv d' \<and> db_guar d d')"
    have chain: "db_inv d \<longrightarrow> db_inv d' \<and> db_guar d d'" if "?sound\<^sup>*\<^sup>* d d'" for d d'
      using that by (induction rule: rtranclp_induct) (auto intro: db_guar_refl db_guar_trans)
    from call.IH that have h: "fault_ok (ev_fault e)" "?sound\<^sup>*\<^sup>* d (ev_others e d)" for d by auto
    have "others_ok db_inv db_guar (ev_others e)"
      unfolding others_ok_def by (intro allI) (rule chain [OF h(2)])
    then show ?thesis using h(1) ..
  qed
  then have "script_ok db_inv db_guar (w_script w)" by (simp add: script_ok_def list_all_iff)
  with call.hyps(1) call.prems have start: "idle db_inv db_guar (w_db w) w" by (simp add: idle_def base_def db_guar_refl)
  have "idle db_inv db_guar (w_db w) w'"
    using call.hyps(2) triple_Inl [OF run_call_rule start] triple_Inr [OF run_call_rule start]
    by (cases r) blast+
  then show ?case by (simp add: idle_def base_def)
qed

lemma evolves_sound: "evolves d d' \<Longrightarrow> db_inv d \<Longrightarrow> db_inv d' \<and> db_guar d d'"
  by (induction rule: rtranclp_induct) (auto intro: db_guar_refl db_guar_trans dest: service_step_sound)

text \<open>
  A fresh deployment: the warehouses the operators set up, no stock and no reservations. The state
  after the migrations is one.
\<close>

definition provisioned :: "db \<Rightarrow> bool" where
  "provisioned d \<longleftrightarrow>
     distinct (map fst (warehouses d)) \<and> balances d = [] \<and> reservations d = [] \<and>
     reservation_lines d = [] \<and> movements d = []"

lemma provisioned_migrated: "provisioned (migrated sv)"
  by (simp add: provisioned_def migrated_def)

lemma provisioned_inv: "provisioned d \<Longrightarrow> db_inv d"
  by (simp add: provisioned_def db_inv_def schema_ok_def balances_ok_def reservations_ok_def lines_ok_def
      movements_ok_def reserved_of_def held_qty_def moved_reserved_def)

definition reachable :: "db \<Rightarrow> bool" where
  "reachable d \<longleftrightarrow> (\<exists>d0. provisioned d0 \<and> evolves d0 d)"

lemma reachable_inv: "reachable d \<Longrightarrow> db_inv d"
  using evolves_sound provisioned_inv by (auto simp: reachable_def)

lemma reachable_provisioned: "provisioned d \<Longrightarrow> reachable d"
  by (auto simp: reachable_def)

lemma reachable_evolves: "reachable d \<Longrightarrow> evolves d d' \<Longrightarrow> reachable d'"
  unfolding reachable_def by (meson rtranclp_trans)

lemma reachable_guar: "reachable d \<Longrightarrow> evolves d d' \<Longrightarrow> db_guar d d'"
  using evolves_sound reachable_inv by blast

lemma reachable_on_hand:
  assumes "reachable d"
  shows "on_hand_of d k = moved_on_hand d k"
proof -
  from assms obtain d0 where p: "provisioned d0" and e: "evolves d0 d" by (auto simp: reachable_def)
  have "on_hand_of d k - moved_on_hand d k = on_hand_of d0 k - moved_on_hand d0 k"
    using evolves_sound [OF e provisioned_inv [OF p]] unfolding db_guar_def by blast
  with p show ?thesis by (simp add: provisioned_def on_hand_of_def moved_on_hand_def)
qed

text \<open>A call without faults or interference is a step of the system.\<close>

lemma quiet_step: "quiet w \<Longrightarrow> service_step (w_db w) (w_db (snd (run_call c w)))"
  by (rule service_step.call [where w = w and c = c and r = "fst (run_call c w)"]) (simp_all add: quiet_def)

section \<open>A call among concurrent ones\<close>

definition concurrent :: "world \<Rightarrow> bool" where
  "concurrent w \<longleftrightarrow> reachable (w_db w) \<and> w_tx w = None \<and>
     (\<forall>e \<in> set (w_script w). fault_ok (ev_fault e) \<and> (\<forall>d. evolves d (ev_others e d)))"

lemma concurrent_idle:
  assumes "concurrent w"
  shows "idle db_inv db_guar (w_db w) w"
proof -
  have "others_ok db_inv db_guar (ev_others e) \<and> fault_ok (ev_fault e)" if "e \<in> set (w_script w)" for e
  proof
    show "others_ok db_inv db_guar (ev_others e)"
      unfolding others_ok_def
    proof (intro allI impI)
      fix d
      assume "db_inv d"
      moreover have "evolves d (ev_others e d)" using assms that by (simp add: concurrent_def)
      ultimately show "db_inv (ev_others e d) \<and> db_guar d (ev_others e d)" using evolves_sound by blast
    qed
    show "fault_ok (ev_fault e)" using assms that by (simp add: concurrent_def)
  qed
  then have "script_ok db_inv db_guar (w_script w)" by (simp add: script_ok_def list_all_iff)
  with assms reachable_inv show ?thesis by (simp add: concurrent_def idle_def base_def db_guar_refl)
qed

lemma concurrent_run:
  assumes c: "concurrent w" and rule: "\<And>d0. triple (idle db_inv db_guar d0) m
    (\<lambda>x w. idle db_inv db_guar d0 w \<and> Q d0 x (w_db w)) (\<lambda>_. idle db_inv db_guar d0)"
    and run: "m w = (Inr x, w')"
  shows "db_inv (w_db w') \<and> db_guar (w_db w) (w_db w') \<and> Q (w_db w) x (w_db w')"
  using triple_Inr [OF rule concurrent_idle [OF c] run] by (simp add: idle_def base_def)

lemma quiet_concurrent: "quiet w \<Longrightarrow> reachable (w_db w) \<Longrightarrow> concurrent w"
  by (simp add: quiet_def concurrent_def)

end
