(* ===== verification/Atomicity.thy ===== *)
theory Atomicity
  imports Rely_Guarantee Reservation_Repo Stock_Repo
begin

text \<open>
  A call that answers an error has changed nothing. The client is alone, so that any change of the
  committed state is its own, calls may fail at any point with any error, and only the loss of a
  commit's acknowledgement is excluded: in that case the commit did take effect.
\<close>

definition alone :: "world \<Rightarrow> bool" where
  "alone w \<longleftrightarrow> (\<forall>e \<in> set (w_script w). ev_others e = id \<and> (\<forall>err. ev_fault e \<noteq> LostAck err))"

definition still :: "db \<Rightarrow> world \<Rightarrow> bool" where
  "still d w \<longleftrightarrow> alone w \<and> w_db w = d"

named_theorems still_rules \<open>one rule per construct: nothing is committed\<close>

lemma still_event: "still d w \<Longrightarrow> next_event w = (fault, w1) \<Longrightarrow>
    still d w1 \<and> w_tx w1 = w_tx w \<and> (\<forall>err. fault \<noteq> LostAck err)"
  by (cases "w_script w") (auto simp: next_event_def still_def alone_def interfere_def)

lemma still_tx [simp]: "still d (w\<lparr>w_tx := t\<rparr>) = still d w" "still d (tx_rollback w) = still d w"
    "still d (abort_tx w) = still d w" "still d (w\<lparr>w_seq := s\<rparr>) = still d w"
    "still d (w\<lparr>w_locked := ks\<rparr>) = still d w"
  by (simp_all add: still_def alone_def tx_rollback_def abort_tx_def)

abbreviation quietly :: "db \<Rightarrow> 'a prog \<Rightarrow> bool" where
  "quietly d m \<equiv> triple (still d) m (\<lambda>_. still d) (\<lambda>_. still d)"

lemma still_begin [still_rules]: "quietly d pool_begin"
proof -
  have "still d w1" if "still d w" "next_event w = (fault, w1)" for w w1 fault
    using still_event [OF that] by simp
  then show ?thesis
    by (auto simp: triple_def pool_begin_def split: prod.split fault.split)
qed

lemma still_stmt [still_rules]: "quietly d (tx_stmt f)"
proof -
  have "still d w1" if "still d w" "next_event w = (fault, w1)" for w w1 fault
    using still_event [OF that] by simp
  then show ?thesis
    by (auto simp: triple_def tx_stmt_def split: prod.split fault.split option.split sum.split)
qed

lemma still_query [still_rules]: "quietly d (tx_query f)"
  unfolding tx_query_def by (rule still_stmt)

lemma still_pool_query [still_rules]: "quietly d (pool_query f)"
proof -
  have "still d w1" if "still d w" "next_event w = (fault, w1)" for w w1 fault
    using still_event [OF that] by simp
  then show ?thesis
    by (auto simp: triple_def pool_query_def split: prod.split fault.split)
qed

lemma still_querier [still_rules]: "quietly d (query q f)"
  by (cases q) (auto simp: query_def intro: still_rules)

lemma still_return [still_rules]: "quietly d (return x)"
  and still_fail [still_rules]: "quietly d (fail e)"
  and still_rollback_now [still_rules]: "quietly d rollback_now"
  by (simp_all add: triple_return triple_fail) (simp add: triple_def rollback_now_def)

lemma still_bindE [still_rules]:
  "quietly d m \<Longrightarrow> (\<And>x. quietly d (f x)) \<Longrightarrow> quietly d (bindE m f)"
  by (rule triple_bindE)

lemma still_try_bind [still_rules]:
  "quietly d m \<Longrightarrow> (\<And>e. quietly d (h e)) \<Longrightarrow> (\<And>x. quietly d (f x)) \<Longrightarrow> quietly d (try_bind m h f)"
  by (rule triple_try_bind)

lemma still_map_error [still_rules]: "quietly d m \<Longrightarrow> quietly d (map_error h m)"
  by (rule triple_map_error)

lemma still_for_each [still_rules]: "(\<And>x. quietly d (f x)) \<Longrightarrow> quietly d (for_each f xs)"
  by (rule triple_for_each [where I = "\<lambda>_. still d"])

lemma still_nextval [still_rules]: "(\<And>n. quietly d (f n)) \<Longrightarrow> quietly d (tx_nextval f)"
  by (rule triple_nextval) simp_all

lemma still_defer [still_rules]: "quietly d m \<Longrightarrow> quietly d (defer_rollback m)"
  by (rule triple_defer_rollback) simp

lemma still_if [still_rules]: "(b \<Longrightarrow> quietly d m) \<Longrightarrow> (\<not> b \<Longrightarrow> quietly d n) \<Longrightarrow> quietly d (if b then m else n)"
  by simp

lemma still_option [still_rules]:
  "quietly d m \<Longrightarrow> (\<And>x. quietly d (f x)) \<Longrightarrow> quietly d (case r of None \<Rightarrow> m | Some x \<Rightarrow> f x)"
  by (cases r) simp_all

lemma still_sum [still_rules]:
  "(\<And>e. quietly d (f e)) \<Longrightarrow> (\<And>x. quietly d (g x)) \<Longrightarrow> quietly d (case r of Inl e \<Rightarrow> f e | Inr x \<Rightarrow> g x)"
  by (cases r) simp_all

lemma still_scan_row [still_rules]: "quietly d m \<Longrightarrow> quietly d (scan_row m)"
  unfolding scan_row_def by (intro still_rules)

text \<open>With the commit as the last call, an error means nothing was committed.\<close>

abbreviation error_quietly :: "db \<Rightarrow> 'a prog \<Rightarrow> bool" where
  "error_quietly d m \<equiv> triple (still d) m (\<lambda>_ _. True) (\<lambda>_. still d)"

lemma error_commit: "error_quietly d (map_error h tx_commit)"
proof (rule triple_map_error, rule tripleI)
  fix w e w'
  assume P: "still d w" and run: "tx_commit w = (Inl e, w')"
  obtain fault w1 where ev: "next_event w = (fault, w1)" by fastforce
  from still_event [OF P ev] run ev show "still d w'"
    by (cases fault) (auto simp: tx_commit_def split: option.splits if_splits)
qed simp

lemma error_then_return: "error_quietly d m \<Longrightarrow> error_quietly d (bindE m (\<lambda>_. return x))"
  by (erule triple_bindE) (simp add: triple_return)

lemma error_bindE: "quietly d m \<Longrightarrow> (\<And>x. error_quietly d (f x)) \<Longrightarrow> error_quietly d (bindE m f)"
  by (rule triple_bindE)

lemma error_try_bind:
  "quietly d m \<Longrightarrow> (\<And>e. error_quietly d (h e)) \<Longrightarrow> (\<And>x. error_quietly d (f x)) \<Longrightarrow>
   error_quietly d (try_bind m h f)"
  by (rule triple_try_bind)

lemma error_defer: "error_quietly d m \<Longrightarrow> error_quietly d (defer_rollback m)"
  by (rule triple_defer_rollback) simp

lemma error_still: "quietly d m \<Longrightarrow> error_quietly d m"
  by (erule triple_weaken) simp_all

lemma error_if: "(b \<Longrightarrow> error_quietly d m) \<Longrightarrow> (\<not> b \<Longrightarrow> error_quietly d n) \<Longrightarrow> error_quietly d (if b then m else n)"
  by simp

lemma error_option:
  "error_quietly d m \<Longrightarrow> (\<And>x. error_quietly d (f x)) \<Longrightarrow> error_quietly d (case r of None \<Rightarrow> m | Some x \<Rightarrow> f x)"
  by (cases r) simp_all

lemma error_sum:
  "(\<And>e. error_quietly d (f e)) \<Longrightarrow> (\<And>x. error_quietly d (g x)) \<Longrightarrow>
   error_quietly d (case r of Inl e \<Rightarrow> f e | Inr x \<Rightarrow> g x)"
  by (cases r) simp_all

lemmas error_rules = error_commit error_then_return error_bindE error_try_bind error_defer

section \<open>The operations\<close>

lemma still_load [still_rules]: "quietly d (loadReservationLines q rid)"
  unfolding loadReservationLines_def by (intro still_rules)

lemma still_claim: "quietly d (claimReservation req hash)"
  unfolding claimReservation_def by (intro still_rules)

lemma still_replay: "quietly d (replayReservation q rid ref hash)"
  unfolding replayReservation_def by (intro still_rules)

lemma still_classify [still_rules]: "quietly d (classifyReservationFailure items short)"
  unfolding classifyReservationFailure_def Let_def by (intro still_rules)

lemma still_snapshot: "quietly d (activeATPSnapshot items)"
  unfolding activeATPSnapshot_def by (intro still_rules)

lemma still_lock [still_rules]: "quietly d (lockWarehouseATP wh items)"
  unfolding lockWarehouseATP_def by (intro still_rules)

lemma still_allocate: "quietly d (allocateReservation items)"
  unfolding allocateReservation_def
  by (rule still_bindE [OF still_snapshot]) (auto simp: Let_def split: prod.split intro!: still_rules)

lemma still_movement [still_rules]: "quietly d (insertReservationMovement c a ty dh dr rid reason)"
  unfolding insertReservationMovement_def by (intro still_rules)

lemma still_apply: "quietly d (applyReserve rid as)"
  unfolding applyReserve_def by (intro still_rules)

lemma Reserve_error: "error_quietly d (Reserve req)"
  unfolding Reserve_def Let_def
proof (rule error_bindE [OF still_map_error [OF still_begin]], rule error_defer,
    rule error_try_bind [OF still_claim])
  fix err
  show "error_quietly d (if \<not> errors_Is err errOrderRefTaken then fail err
      else bindE rollback_now (\<lambda>_. try_bind
        (replayReservation QPool (rq_ID req) (rq_OrderID req)
          (CanonicalHash (rq_Items req) (rq_DestinationRegion req)))
        (\<lambda>rerr. if errors_Is rerr ErrNoRows
           then fail (errorf_w (''order '' @ rq_OrderID req @
              '' already reserved under another reservation id: '') (Sentinel ErrIdempotencyConflict))
           else fail rerr) return))"
    by (rule error_still) (intro still_rules still_replay)
next
  fix claimed
  show "error_quietly d (if \<not> claimed then replayReservation QTx (rq_ID req) (rq_OrderID req)
        (CanonicalHash (rq_Items req) (rq_DestinationRegion req))
      else bindE (allocateReservation (rq_Items req)) (\<lambda>allocations.
        bindE (applyReserve (rq_ID req) allocations) (\<lambda>_.
        bindE (map_error (\<lambda>err. errorf_w (''commit reserve '' @ rq_ID req @ '': '') (translateConcurrency err)) tx_commit)
          (\<lambda>_. return \<lparr>rr_ID = rq_ID req, rr_Status = ReservationReserved,
             rr_Allocations = allocations, rr_Replayed = False\<rparr>))))"
    by (rule error_if, rule error_still [OF still_replay])
       (rule error_bindE [OF still_allocate], rule error_bindE [OF still_apply],
        rule error_then_return, rule error_commit)
qed

lemma transition_error:
  assumes "\<And>a. quietly d (line a)"
  shows "error_quietly d (transition rid tgt decide line)"
  unfolding transition_def
  by (intro error_bindE error_defer error_sum error_if error_then_return error_commit
      still_map_error still_begin still_load still_for_each [OF assms] still_stmt error_still
      still_try_bind still_scan_row still_if still_fail still_return)

lemma Release_error: "error_quietly d (Release rid reason)"
  unfolding Release_def release_line_def by (intro transition_error still_rules)

lemma Commit_error: "error_quietly d (Commit rid)"
  unfolding Commit_def commit_line_def by (intro transition_error still_rules)

lemma still_claim_command: "quietly d (claimCommand cmd ty dh dr)"
  unfolding claimCommand_def by (intro still_rules)

lemma run_command_error:
  assumes "quietly d change"
  shows "error_quietly d (run_command cmd ty dh dr change)"
  unfolding run_command_def
  by (intro error_bindE error_defer error_if error_then_return error_commit still_map_error
      still_begin still_claim_command assms error_still [OF still_return])

lemma stock_command_error:
  "error_quietly d (ReceiveStock cmd)" "error_quietly d (AdjustOnHand cmd)" "error_quietly d (SetSafetyStock cmd)"
  unfolding ReceiveStock_def AdjustOnHand_def SetSafetyStock_def
    receive_change_def adjust_change_def safety_change_def
  by (intro error_option error_if error_still [OF still_fail] run_command_error still_rules)+

end
