(* ===== verification/Quiet_Runs.thy ===== *)
theory Quiet_Runs
  imports Transition_Safety Stock_Safety Atomicity
begin

text \<open>
  Calls in a quiet world, without faults or interference: total correctness. A postcondition \<open>E\<close> for
  errors that no world satisfies makes a triple say that the call succeeds, so these lemmas show
  that the operations do produce their result, which the safety theories leave open.
\<close>

section \<open>Rules\<close>

definition rest :: "db \<Rightarrow> world \<Rightarrow> bool" where
  "rest d w \<longleftrightarrow> quiet w \<and> w_db w = d"

definition in_quiet :: "db \<Rightarrow> (tx \<Rightarrow> bool) \<Rightarrow> world \<Rightarrow> bool" where
  "in_quiet d A w \<longleftrightarrow>
     w_script w = [] \<and> w_db w = d \<and> (\<exists>t. w_tx w = Some t \<and> \<not> tx_aborted t \<and> A t)"

definition failed :: "db \<Rightarrow> world \<Rightarrow> bool" where
  "failed d w \<longleftrightarrow> w_script w = [] \<and> w_db w = d"

lemma failed_rollback: "failed d w \<Longrightarrow> rest d (tx_rollback w)"
  by (simp add: failed_def rest_def quiet_def tx_rollback_def)

lemma in_quiet_failed: "in_quiet d A w \<Longrightarrow> failed d w"
  by (simp add: in_quiet_def failed_def)

lemma in_quiet_mono: "in_quiet d A w \<Longrightarrow> (\<And>t. A t \<Longrightarrow> B t) \<Longrightarrow> in_quiet d B w"
  by (auto simp: in_quiet_def)

lemma in_quiet_rollback: "in_quiet d A w \<Longrightarrow> rest d (tx_rollback w)"
  by (simp add: in_quiet_failed failed_rollback)

lemma q_begin: "triple (rest d) pool_begin
    (\<lambda>_. in_quiet d (\<lambda>t. tx_writes t = [] \<and> tx_locks t = [])) E"
  by (simp add: triple_def rest_def quiet_def in_quiet_def quiet_simps)

lemma q_stmt:
  assumes "\<And>t. A t \<Longrightarrow> \<exists>x ws ls. f (tx_view d t) (tx_now t) = Inr (x, ws, ls) \<and>
      B x (t\<lparr>tx_writes := tx_writes t @ ws, tx_locks := tx_locks t @ ls\<rparr>)"
  shows "triple (in_quiet d A) (tx_stmt f) (\<lambda>x. in_quiet d (B x)) E"
proof -
  have "case tx_stmt f w of (Inl e, w') \<Rightarrow> E e w' | (Inr x, w') \<Rightarrow> in_quiet d (B x) w'"
    if w: "in_quiet d A w" for w
  proof -
    from w obtain t where t: "w_script w = []" "w_db w = d" "w_tx w = Some t" "\<not> tx_aborted t" "A t"
      by (auto simp: in_quiet_def)
    from assms [OF t(5)] obtain x ws ls where "f (tx_view d t) (tx_now t) = Inr (x, ws, ls)"
      "B x (t\<lparr>tx_writes := tx_writes t @ ws, tx_locks := tx_locks t @ ls\<rparr>)" by blast
    with t show ?thesis by (simp add: quiet_simps in_quiet_def)
  qed
  then show ?thesis by (simp add: triple_def)
qed

lemma q_stmt_error:
  assumes "\<And>t. A t \<Longrightarrow> f (tx_view d t) (tx_now t) = Inl code"
  shows "triple (in_quiet d A) (tx_stmt f) Q (\<lambda>e w. e = PgError code \<and> failed d w)"
  using assms by (auto simp: triple_def in_quiet_def quiet_simps failed_def abort_tx_def)

lemma q_query:
  assumes "\<And>t. A t \<Longrightarrow> f (tx_view d t) = v"
  shows "triple (in_quiet d A) (tx_query f) (\<lambda>x w. x = v \<and> in_quiet d A w) E"
  using assms by (auto simp: triple_def in_quiet_def quiet_simps)

lemma triple_fact: "(C \<Longrightarrow> triple P m Q E) \<Longrightarrow> triple (\<lambda>w. C \<and> P w) m Q E"
  by (auto simp: triple_def)

lemma triple_never [simp]: "triple (\<lambda>_. False) m Q E"
  by (simp add: triple_def)

lemma triple_known: "triple P (m v) Q E \<Longrightarrow> triple (\<lambda>w. x = v \<and> P w) (m x) Q E"
  by (auto simp: triple_def)

lemma q_pool_query: "triple (rest d) (pool_query f) (\<lambda>x w. x = f d \<and> rest d w) E"
  by (simp add: triple_def rest_def quiet_def quiet_simps)

lemma q_commit: "triple (in_quiet d A) tx_commit
    (\<lambda>_ w. quiet w \<and> (\<exists>t. A t \<and> w_db w = apply_writes (tx_writes t) d)) E"
  by (auto simp: triple_def in_quiet_def quiet_simps quiet_def tx_view_def) blast

lemma q_nextval: "(\<And>n. triple (in_quiet d A) (f n) Q E) \<Longrightarrow> triple (in_quiet d A) (tx_nextval f) Q E"
  by (rule triple_nextval) (auto simp: in_quiet_def)

text \<open>A program that cannot fail has a result.\<close>

lemma total_result:
  assumes "triple P m Q (\<lambda>_ _. False)" "P w"
  obtains x w' where "m w = (Inr x, w')" "Q x w'"
  using assms by (cases "m w"; cases "fst (m w)") (auto simp: triple_def)

lemma error_result:
  assumes "triple P m (\<lambda>_ _. False) E" "P w"
  obtains e w' where "m w = (Inl e, w')" "E e w'"
  using assms by (cases "m w"; cases "fst (m w)") (auto simp: triple_def)

lemma rest_idle:
  assumes "rest d w" "db_inv d"
  shows "idle db_inv db_guar d w"
  using assms by (simp add: rest_def quiet_def idle_def base_def script_ok_def db_guar_refl)

section \<open>Allocation\<close>


text \<open>The policy: the lowest-id active warehouse that can serve the whole basket.\<close>

definition serving_warehouse :: "db \<Rightarrow> Line list \<Rightarrow> int option" where
  "serving_warehouse d items = find (serves d items) (select_active_ids d)"

definition baseline_atp :: "db \<Rightarrow> string \<Rightarrow> int" where
  "baseline_atp d s = (case select_active_ids d of [] \<Rightarrow> 0 | w # _ \<Rightarrow> atp_at d w s)"

definition shortage_report :: "db \<Rightarrow> Line list \<Rightarrow> Shortage list" where
  "shortage_report d items =
     map (\<lambda>it. \<lparr>sh_SKUID = ln_SKUID it, sh_Requested = ln_Quantity it, sh_ATP = baseline_atp d (ln_SKUID it)\<rparr>)
       (filter (\<lambda>it. baseline_atp d (ln_SKUID it) < ln_Quantity it) items)"

definition untracked_skus :: "db \<Rightarrow> Line list \<Rightarrow> string list" where
  "untracked_skus d items = filter (\<lambda>s. s \<notin> fst ` fst ` set (balances d)) (map ln_SKUID items)"

definition rejection :: "db \<Rightarrow> Line list \<Rightarrow> goerr" where
  "rejection d items =
     (if untracked_skus d items \<noteq> [] then UnknownSKUError (untracked_skus d items)
      else InsufficientStockError (shortage_report d items))"

lemma find_cong: "(\<And>x. x \<in> set xs \<Longrightarrow> P x = Q x) \<Longrightarrow> find P xs = find Q xs"
  by (induction xs) auto

lemma choose_serving:
  assumes "distinct (map fst (balances d))" "distinct (map fst (warehouses d))"
  shows "choose_warehouse (select_active_ids d) (fill_by_warehouse (select_atp_rows (skuIDsOf items) d) Map.empty) items =
    serving_warehouse d items"
  unfolding choose_warehouse_find serving_warehouse_def
  using assms by (intro find_cong) (simp add: in_select_active_ids snapshot_map fulfillsLines_atp_map)

lemma baseline_shortages:
  assumes "distinct (map fst (balances d))" "distinct (map fst (warehouses d))"
  shows "shortagesAgainst (case select_active_ids d of [] \<Rightarrow> Map.empty
      | wh # _ \<Rightarrow> mget_map (fill_by_warehouse (select_atp_rows (skuIDsOf items) d) Map.empty) wh) items =
    shortage_report d items"
proof -
  let ?b = "case select_active_ids d of [] \<Rightarrow> Map.empty
      | wh # _ \<Rightarrow> mget_map (fill_by_warehouse (select_atp_rows (skuIDsOf items) d) Map.empty) wh"
  have "mget ?b (ln_SKUID it) = baseline_atp d (ln_SKUID it)" if "it \<in> set items" for it
  proof (cases "select_active_ids d")
    case Nil
    then show ?thesis by (simp add: baseline_atp_def)
  next
    case (Cons w ws)
    then have "is_active d w" using in_select_active_ids [OF assms(2), of w] by simp
    from snapshot_map [OF assms(1) this] that show ?thesis
      by (simp add: Cons baseline_atp_def mget_atp_map skuIDsOf_def)
  qed
  then show ?thesis
    unfolding shortagesAgainst_filter shortage_report_def by (simp cong: map_cong filter_cong)
qed

lemma untracked_of_scan:
  "filter (\<lambda>i. \<not> mget_bool (fill_tracked (select_tracked (map ln_SKUID items) d) Map.empty) i) (map ln_SKUID items) =
   untracked_skus d items"
  unfolding untracked_skus_def
  by (intro filter_cong) (auto simp: fill_tracked_map mget_bool_def select_tracked_def image_image)

lemma classify_quiet:
  assumes "\<And>t. A t \<Longrightarrow> balances (tx_view d t) = balances d"
  shows "triple (in_quiet d A) (classifyReservationFailure items short) (\<lambda>_ _. False)
    (\<lambda>e w. e = (if untracked_skus d items \<noteq> [] then UnknownSKUError (untracked_skus d items)
        else InsufficientStockError short) \<and> failed d w)"
  unfolding classifyReservationFailure_def Let_def
proof (rule triple_try_bind)
  show "triple (in_quiet d A) (tx_query (select_tracked (map ln_SKUID items)))
      (\<lambda>rows w. rows = select_tracked (map ln_SKUID items) d \<and> in_quiet d A w) (\<lambda>_ _. False)"
    by (rule q_query) (simp add: select_tracked_def assms)
  show "triple (\<lambda>w. rows = select_tracked (map ln_SKUID items) d \<and> in_quiet d A w)
     (if length (filter (\<lambda>i. \<not> mget_bool (fill_tracked rows Map.empty) i) (map ln_SKUID items)) > 0
      then fail (UnknownSKUError (filter (\<lambda>i. \<not> mget_bool (fill_tracked rows Map.empty) i) (map ln_SKUID items)))
      else fail (InsufficientStockError short))
     (\<lambda>_ _. False)
     (\<lambda>e w. e = (if untracked_skus d items \<noteq> [] then UnknownSKUError (untracked_skus d items)
        else InsufficientStockError short) \<and> failed d w)" for rows
  proof (rule triple_fact)
    assume "rows = select_tracked (map ln_SKUID items) d"
    then show "triple (in_quiet d A)
     (if length (filter (\<lambda>i. \<not> mget_bool (fill_tracked rows Map.empty) i) (map ln_SKUID items)) > 0
      then fail (UnknownSKUError (filter (\<lambda>i. \<not> mget_bool (fill_tracked rows Map.empty) i) (map ln_SKUID items)))
      else fail (InsufficientStockError short))
     (\<lambda>_ _. False)
     (\<lambda>e w. e = (if untracked_skus d items \<noteq> [] then UnknownSKUError (untracked_skus d items)
        else InsufficientStockError short) \<and> failed d w)"
      unfolding \<open>rows = _\<close> untracked_of_scan by (simp add: triple_fail in_quiet_failed)
  qed
qed (rule triple_fail, simp)

lemma snapshot_quiet:
  assumes "\<And>t. A t \<Longrightarrow> balances (tx_view d t) = balances d"
  shows "triple (in_quiet d A) (activeATPSnapshot items)
    (\<lambda>x w. x = (fill_by_warehouse (select_atp_rows (skuIDsOf items) d) Map.empty, select_active_ids d) \<and>
       in_quiet d A w) E"
proof -
  have ids: "triple (in_quiet d A) (tx_query select_active_ids)
      (\<lambda>ids w. ids = select_active_ids d \<and> in_quiet d A w) E'" for E'
    by (rule q_query) (simp add: select_active_ids_def tx_view_def table_simps)
  have "is_active (tx_view d t) = is_active d" for t
    by (simp add: is_active_def fun_eq_iff tx_view_def table_simps)
  then have rows: "triple (in_quiet d A) (tx_query (select_atp_rows (skuIDsOf items)))
      (\<lambda>rows w. rows = select_atp_rows (skuIDsOf items) d \<and> in_quiet d A w) E'" for E'
    by (intro q_query) (simp add: select_atp_rows_def assms)
  show ?thesis
    unfolding activeATPSnapshot_def
    by (rule triple_bindE [OF triple_map_error [OF ids]], rule triple_fact,
        rule triple_bindE [OF triple_map_error [OF rows]], rule triple_return) simp
qed

lemma lock_quiet:
  assumes d: "db_inv d"
  shows "triple (in_quiet d (placing rid ref hash False [] [] [] [] d)) (lockWarehouseATP wh items)
     (\<lambda>m w. m = atp_map d wh (skuIDsOf items) \<and>
        in_quiet d (placing rid ref hash (serves d items wh) (allocations_at wh items) [] [] [] d) w) E"
  unfolding lockWarehouseATP_def
proof (rule triple_bindE, rule triple_map_error, rule q_stmt)
  fix t :: tx
  let ?B = "\<lambda>rows t. fill_atp rows Map.empty = atp_map d wh (skuIDsOf items) \<and>
      placing rid ref hash (serves d items wh) (allocations_at wh items) [] [] [] d t"
  assume A: "placing rid ref hash False [] [] [] [] d t"
  obtain rows ls where run: "lock_balances wh (skuIDsOf items) (tx_view d t) (tx_now t) = Inr (rows, [], ls)"
    by (simp add: lock_balances_def Let_def)
  with lock_balances_step [OF d A run]
  show "\<exists>x ws ls. lock_balances wh (skuIDsOf items) (tx_view d t) (tx_now t) = Inr (x, ws, ls) \<and>
      ?B x (t\<lparr>tx_writes := tx_writes t @ ws, tx_locks := tx_locks t @ ls\<rparr>)" by blast
next
  fix rows
  show "triple (in_quiet d (\<lambda>t. fill_atp rows Map.empty = atp_map d wh (skuIDsOf items) \<and>
      placing rid ref hash (serves d items wh) (allocations_at wh items) [] [] [] d t))
     (return (fill_atp rows Map.empty))
     (\<lambda>m w. m = atp_map d wh (skuIDsOf items) \<and>
        in_quiet d (placing rid ref hash (serves d items wh) (allocations_at wh items) [] [] [] d) w) E"
    by (rule triple_return) (auto simp: in_quiet_def)
qed

lemma placing_balances: "placing rid ref hash C as [] ls ms d t \<Longrightarrow> balances (tx_view d t) = balances d"
  by (auto simp: placing_def tx_view_def intro: reserving_balances)

lemma serving_serves: "serving_warehouse d items = Some wh \<Longrightarrow> serves d items wh \<and> wh \<in> set (select_active_ids d)"
  unfolding serving_warehouse_def by (auto simp: find_Some_iff)

lemma allocate_quiet:
  assumes d: "db_inv d" and wh: "serving_warehouse d items = Some wh"
  shows "triple (in_quiet d (placing rid ref hash False [] [] [] [] d)) (allocateReservation items)
     (\<lambda>as w. as = allocations_at wh items \<and>
        in_quiet d (placing rid ref hash True (allocations_at wh items) [] [] [] d) w) E"
  unfolding allocateReservation_def allocations_at_def [symmetric]
proof (rule triple_bindE [OF snapshot_quiet [OF placing_balances]], assumption, rule triple_fact)
  fix x
  assume x: "x = (fill_by_warehouse (select_atp_rows (skuIDsOf items) d) Map.empty, select_active_ids d)"
  have chosen: "choose_warehouse (snd x) (fst x) items = Some wh"
    using choose_serving [of d items] wh db_invD(1,7) [OF d] by (simp add: x balances_ok_def)
  have sv: "serves d items wh" using serving_serves [OF wh] by blast
  have none: "shortagesAgainst (atp_map d wh (skuIDsOf items)) items = []"
    using sv by (simp add: no_shortage_iff fulfillsLines_atp_map)
  have "triple (in_quiet d (placing rid ref hash False [] [] [] [] d))
     (bindE (lockWarehouseATP wh items) (\<lambda>locked. let short = shortagesAgainst locked items
        in if length short > 0 then classifyReservationFailure items short else return (allocations_at wh items)))
     (\<lambda>as w. as = allocations_at wh items \<and>
        in_quiet d (placing rid ref hash True (allocations_at wh items) [] [] [] d) w) E"
    by (rule triple_bindE [OF lock_quiet [OF d]], rule triple_fact)
       (simp add: none sv triple_return)
  with chosen show "triple (in_quiet d (placing rid ref hash False [] [] [] [] d))
     (case x of (byWarehouse, activeIDs) \<Rightarrow>
       (case choose_warehouse activeIDs byWarehouse items of
         None \<Rightarrow> let b = (case activeIDs of [] \<Rightarrow> Map.empty | wh # _ \<Rightarrow> mget_map byWarehouse wh)
            in classifyReservationFailure items (shortagesAgainst b items)
       | Some chosen \<Rightarrow> bindE (lockWarehouseATP chosen items) (\<lambda>locked.
             let short = shortagesAgainst locked items
             in if length short > 0 then classifyReservationFailure items short
                else return (allocations_at chosen items))))
     (\<lambda>as w. as = allocations_at wh items \<and>
        in_quiet d (placing rid ref hash True (allocations_at wh items) [] [] [] d) w) E"
    by (simp add: case_prod_beta)
qed

lemma allocate_rejected:
  assumes d: "db_inv d" and none: "serving_warehouse d items = None"
  shows "triple (in_quiet d (placing rid ref hash False [] [] [] [] d)) (allocateReservation items)
     (\<lambda>_ _. False) (\<lambda>e w. e = rejection d items \<and> failed d w)"
  unfolding allocateReservation_def
proof (rule triple_bindE [OF snapshot_quiet [OF placing_balances]], assumption, rule triple_fact)
  fix x
  assume x: "x = (fill_by_warehouse (select_atp_rows (skuIDsOf items) d) Map.empty, select_active_ids d)"
  note ok = db_invD(1,7) [OF d, unfolded balances_ok_def]
  have chosen: "choose_warehouse (snd x) (fst x) items = None"
    using choose_serving [of d items] none ok by (simp add: x)
  have short: "shortagesAgainst (case snd x of [] \<Rightarrow> Map.empty | wh # _ \<Rightarrow> mget_map (fst x) wh) items =
      shortage_report d items"
    unfolding x fst_conv snd_conv by (rule baseline_shortages) (use ok in blast)+
  have "triple (in_quiet d (placing rid ref hash False [] [] [] [] d))
      (classifyReservationFailure items (shortage_report d items))
      (\<lambda>_ _. False) (\<lambda>e w. e = rejection d items \<and> failed d w)"
    unfolding rejection_def by (rule classify_quiet [OF placing_balances])
  then show "triple (in_quiet d (placing rid ref hash False [] [] [] [] d))
     (case x of (byWarehouse, activeIDs) \<Rightarrow>
       (case choose_warehouse activeIDs byWarehouse items of
         None \<Rightarrow> let b = (case activeIDs of [] \<Rightarrow> Map.empty | wh # _ \<Rightarrow> mget_map byWarehouse wh)
            in classifyReservationFailure items (shortagesAgainst b items)
       | Some chosen \<Rightarrow> bindE (lockWarehouseATP chosen items) (\<lambda>locked.
             let short = shortagesAgainst locked items
             in if length short > 0 then classifyReservationFailure items short
                else return (map (\<lambda>it. \<lparr>al_SKUID = ln_SKUID it, al_WarehouseID = chosen,
                                   al_Quantity = ln_Quantity it\<rparr>) items))))
     (\<lambda>_ _. False) (\<lambda>e w. e = rejection d items \<and> failed d w)"
    unfolding case_prod_beta chosen option.case Let_def short .
qed

section \<open>Placing a reservation\<close>

definition res_command :: "string \<Rightarrow> string \<Rightarrow> string" where
  "res_command rid sku = ''res:'' @ rid @ '':'' @ sku"

text \<open>What a request needs besides a warehouse that can serve it.\<close>

definition line_fits :: "db \<Rightarrow> string \<Rightarrow> Allocation \<Rightarrow> bool" where
  "line_fits d rid a \<longleftrightarrow>
     0 < al_Quantity a \<and> varchar 64 (al_SKUID a) \<and> varchar 255 (res_command rid (al_SKUID a)) \<and>
     \<not> has_command d (res_command rid (al_SKUID a)) \<and>
     (case map_of (balances d) (akey a) of None \<Rightarrow> True | Some r \<Rightarrow> int64_range (version r + 1))"

definition placed :: "string \<Rightarrow> string \<Rightarrow> string \<Rightarrow> Allocation list \<Rightarrow> Allocation list \<Rightarrow> Allocation list \<Rightarrow>
    Allocation list \<Rightarrow> db \<Rightarrow> tx \<Rightarrow> bool" where
  "placed rid ref hash as bs ls ms d t \<longleftrightarrow>
     placing rid ref hash True as bs ls ms d t \<and>
     map mv_command_id (write_movements (tx_writes t)) = map (\<lambda>a. res_command rid (al_SKUID a)) ms"

lemma reserve_balance_progress:
  assumes d: "db_inv d" and A: "placed rid ref hash as ys ys ys d t" and a: "a \<in> set as"
    and fits: "line_fits d rid a" and fresh: "al_SKUID a \<notin> al_SKUID ` set ys"
  shows "\<exists>x ws ls. update_balance (bump_reserved (al_Quantity a) now) (akey a) (tx_view d t) = Inr (x, ws, ls) \<and>
     placed rid ref hash as (ys @ [a]) ys ys d (t\<lparr>tx_writes := tx_writes t @ ws, tx_locks := tx_locks t @ ls\<rparr>)"
proof -
  from A have P: "placing rid ref hash True as ys ys ys d t" by (simp add: placed_def)
  then have cov: "covered d (tx_held t) as" and sm: "stock_moved (\<lambda>a. 0) al_Quantity d (tx_writes t) ys ys"
    by (simp_all add: placing_def reserving_def)
  from fits have q: "0 < al_Quantity a" by (simp add: line_fits_def)
  from cov a q obtain r where r: "map_of (balances d) (akey a) = Some r" "al_Quantity a \<le> row_atp r"
    unfolding covered_def by blast
  have view: "map_of (balances (tx_view d t)) (akey a) = Some r"
    using stock_moved_view [OF sm, of a] fresh r(1) by (auto simp: tx_view_def akey_def)
  let ?r = "bump_reserved (al_Quantity a) now r"
  from balances_okD [OF db_invD(1) [OF d] r(1)] have br: "balance_range r" "balance_check r" by blast+
  have "al_Quantity a \<le> on_hand r - reserved r - safety_stock r"
    using r(2) q by (auto simp: row_atp_def max_def split: if_splits)
  with br q fits r(1) have "balance_range ?r" "balance_check ?r"
    by (auto simp: balance_range_def balance_check_def int64_range_def bump_reserved_def line_fits_def)
  then have run: "update_balance (bump_reserved (al_Quantity a) now) (akey a) (tx_view d t) =
      Inr (1, [WBalance (akey a) ?r], [])"
    by (simp add: update_balance_def view store_balance_def)
  from reserve_balance_step [OF d P a run] fresh q
  have "placing rid ref hash True as (ys @ [a]) ys ys d
      (t\<lparr>tx_writes := tx_writes t @ [WBalance (akey a) ?r], tx_locks := tx_locks t @ []\<rparr>)"
    by (simp add: half_placed_def)
  with A run show ?thesis by (auto simp: placed_def)
qed

lemma reserve_line_progress:
  assumes d: "db_inv d" and A: "placed rid ref hash as (ys @ [a]) ys ys d t"
    and fits: "line_fits d rid a" and fresh: "al_SKUID a \<notin> al_SKUID ` set ys" and rid: "varchar 255 rid"
  shows "\<exists>x ws ls. insert_line rid (al_SKUID a) (al_WarehouseID a) (al_Quantity a) (tx_view d t) = Inr (x, ws, ls) \<and>
     placed rid ref hash as (ys @ [a]) (ys @ [a]) ys d (t\<lparr>tx_writes := tx_writes t @ ws, tx_locks := tx_locks t @ ls\<rparr>)"
proof -
  from A have P: "placing rid ref hash True as (ys @ [a]) ys ys d t" by (simp add: placed_def)
  then have res: "reserving rid ref hash d (tx_writes t) (ys @ [a]) ys ys" by (simp add: placing_def)
  then obtain hdr where hdr: "write_reservations (tx_writes t) = [(rid, hdr)]" and
    wl: "write_lines (tx_writes t) = map (line_write rid) ys" and new: "map_of (reservations d) rid = None"
    by (auto simp: reserving_def)
  from res have "list_all2 (balance_moved (\<lambda>a. 0) al_Quantity d) (write_balances (tx_writes t)) (ys @ [a])"
    by (simp add: reserving_def stock_moved_def)
  from list_all2_ex_left [OF this, of a] have wh: "has_warehouse d (al_WarehouseID a)"
    by (auto simp: balance_moved_def)
  have "map_of (reservation_lines d) (rid, al_SKUID a) = None"
    using lines_okD [OF db_invD(3) [OF d], of "(rid, al_SKUID a)"] new
    by (cases "map_of (reservation_lines d) (rid, al_SKUID a)") auto
  moreover have "map_of (rev (map (line_write rid) ys)) (rid, al_SKUID a) = None"
    using fresh by (auto simp: map_of_eq_None_iff line_write_def)
  ultimately have "map_of (reservation_lines (tx_view d t)) (rid, al_SKUID a) = None"
    by (simp add: tx_view_def table_simps wl map_of_replay map_add_None)
  moreover have "map_of (reservations (tx_view d t)) rid \<noteq> None"
    by (simp add: tx_view_def table_simps hdr AList.update_conv')
  ultimately obtain ws where run: "insert_line rid (al_SKUID a) (al_WarehouseID a) (al_Quantity a) (tx_view d t) =
      Inr (1, ws, [])" and ws: "write_movements ws = []"
    using fits rid wh by (simp add: insert_line_def line_fits_def tx_view_def)
  have "half_placed rid ref hash as ys a d t" using P fits fresh by (simp add: half_placed_def line_fits_def)
  from reserve_line_step [OF this run] A ws run show ?thesis
    by (intro exI [of _ 1] exI [of _ ws] exI [of _ "[]"]) (simp add: placed_def)
qed

lemma reserve_movement_progress:
  assumes A: "placed rid ref hash as (ys @ [a]) (ys @ [a]) ys d t"
    and fits: "line_fits d rid a" and fresh: "al_SKUID a \<notin> al_SKUID ` set ys"
    and m: "mv_command_id m = res_command rid (al_SKUID a)" "mv_key m = akey a" "mv_on_hand_delta m = 0"
      "mv_reserved_delta m = al_Quantity a" "mv_type m \<in> set movement_types" "movement_fits m"
  shows "\<exists>x ws ls. insert_movement False m (tx_view d t) = Inr (x, ws, ls) \<and>
     placed rid ref hash as (ys @ [a]) (ys @ [a]) (ys @ [a]) d
       (t\<lparr>tx_writes := tx_writes t @ ws, tx_locks := tx_locks t @ ls\<rparr>)"
proof -
  from A have P: "placing rid ref hash True as (ys @ [a]) (ys @ [a]) ys d t" by (simp add: placed_def)
  then have "list_all2 (balance_moved (\<lambda>a. 0) al_Quantity d) (write_balances (tx_writes t)) (ys @ [a])"
    by (simp add: placing_def reserving_def stock_moved_def)
  from list_all2_ex_left [OF this, of a] have wh: "has_warehouse d (al_WarehouseID a)"
    by (auto simp: balance_moved_def)
  have "mv_command_id ` set (write_movements (tx_writes t)) = set (map (\<lambda>a. res_command rid (al_SKUID a)) ys)"
    using A unfolding placed_def by (metis list.set_map)
  then have "\<not> has_command (tx_view d t) (mv_command_id m)"
    using fits fresh unfolding tx_view_def has_command_apply m(1) line_fits_def
    by (auto simp: res_command_def)
  then have run: "insert_movement False m (tx_view d t) = Inr (1, [WMovement m], [])"
    using m wh by (simp add: insert_movement_def tx_view_def mv_key_def akey_def)
  from reserve_movement_step [OF P run m(2,3,4)] A m(1) run show ?thesis
    by (auto simp: placed_def)
qed

lemma applyReserve_quiet:
  assumes d: "db_inv d" and fits: "\<forall>a \<in> set as. line_fits d rid a"
    and dist: "distinct (map al_SKUID as)" and rid: "varchar 255 rid"
  shows "triple (in_quiet d (placed rid ref hash as [] [] [] d)) (applyReserve rid as)
     (\<lambda>_. in_quiet d (placed rid ref hash as as as as d)) E"
  unfolding applyReserve_def
proof (rule triple_for_each [where I = "\<lambda>ys. in_quiet d (placed rid ref hash as ys ys ys d)"])
  fix ys a zs
  assume as: "as = ys @ a # zs"
  then have a: "a \<in> set as" and fa: "line_fits d rid a" and fresh: "al_SKUID a \<notin> al_SKUID ` set ys"
    using fits dist by auto
  let ?line = "\<lambda>_ :: nat. bindE (map_error
        (\<lambda>err. errorf_w (''insert reservation line '' @ al_SKUID a @ '': '') (translateConcurrency err))
        (tx_stmt (\<lambda>d now. insert_line rid (al_SKUID a) (al_WarehouseID a) (al_Quantity a) d)))
     (\<lambda>_. insertReservationMovement (''res:'' @ rid @ '':'' @ al_SKUID a)
        a MovementReserve 0 (al_Quantity a) rid '''')"
  have balance: "triple (in_quiet d (placed rid ref hash as ys ys ys d))
       (tx_stmt (\<lambda>d now. update_balance (bump_reserved (al_Quantity a) now) (al_SKUID a, al_WarehouseID a) d))
       (\<lambda>_. in_quiet d (placed rid ref hash as (ys @ [a]) ys ys d)) E'" for E'
    by (rule q_stmt) (rule reserve_balance_progress [OF d _ a fa fresh, unfolded akey_def])
  have line: "triple (in_quiet d (placed rid ref hash as (ys @ [a]) ys ys d))
       (tx_stmt (\<lambda>d now. insert_line rid (al_SKUID a) (al_WarehouseID a) (al_Quantity a) d))
       (\<lambda>_. in_quiet d (placed rid ref hash as (ys @ [a]) (ys @ [a]) ys d)) E'" for E'
    by (rule q_stmt) (rule reserve_line_progress [OF d _ fa fresh rid])
  have movement: "triple (in_quiet d (placed rid ref hash as (ys @ [a]) (ys @ [a]) ys d))
       (insertReservationMovement (''res:'' @ rid @ '':'' @ al_SKUID a) a MovementReserve 0 (al_Quantity a) rid '''')
       (\<lambda>_. in_quiet d (placed rid ref hash as (ys @ [a]) (ys @ [a]) (ys @ [a]) d)) E'" for E'
    unfolding insertReservationMovement_def
    by (rule triple_map_error, rule triple_bindE, rule q_nextval, rule q_stmt,
        rule reserve_movement_progress [OF _ fa fresh], assumption)
       (use fa rid in \<open>auto simp: res_command_def mv_key_def akey_def movement_types_def movement_fits_def
          varchar_null_def line_fits_def MovementReserve_def varchar_def char_length_def intro: triple_return\<close>)
  show "triple (in_quiet d (placed rid ref hash as ys ys ys d))
    (bindE (map_error (\<lambda>err. errorf_w (''reserve balance '' @ al_SKUID a @ '': '') (translateConcurrency err))
       (tx_stmt (\<lambda>d now. update_balance (bump_reserved (al_Quantity a) now) (al_SKUID a, al_WarehouseID a) d)))
     ?line)
    (\<lambda>_. in_quiet d (placed rid ref hash as (ys @ [a]) (ys @ [a]) (ys @ [a]) d)) E"
    by (rule triple_bindE [OF triple_map_error [OF balance]],
        rule triple_bindE [OF triple_map_error [OF line]], rule movement)
qed

text \<open>A request the database can take: fresh id and order, distinct SKUs, everything fits its column.\<close>

definition admissible :: "ReservationRequest \<Rightarrow> int \<Rightarrow> db \<Rightarrow> bool" where
  "admissible req wh d \<longleftrightarrow>
     varchar 255 (rq_ID req) \<and> varchar 255 (rq_OrderID req) \<and>
     (rq_ExpiresAt req = '''' \<or> timestamptz_in (server d) (rq_ExpiresAt req) \<noteq> None) \<and>
     map_of (reservations d) (rq_ID req) = None \<and> ref_ids d (rq_OrderID req) = [] \<and>
     distinct (map ln_SKUID (rq_Items req)) \<and>
     (\<forall>a \<in> set (allocations_at wh (rq_Items req)). line_fits d (rq_ID req) a)"

lemma length_filter_chars: "char_length s \<le> length s"
  by (simp add: char_length_def)

lemma hash_fits: "varchar 128 (CanonicalHash items region)"
  using length_filter_chars [of "CanonicalHash items region"] by (simp add: varchar_def CanonicalHash_def)

lemma claim_quiet:
  assumes "varchar 255 (rq_ID req)" "varchar 255 (rq_OrderID req)" "varchar 128 hash"
    "rq_ExpiresAt req = '''' \<or> timestamptz_in (server d) (rq_ExpiresAt req) \<noteq> None"
    "map_of (reservations d) (rq_ID req) = None" "ref_ids d (rq_OrderID req) = []"
  shows "triple (in_quiet d (\<lambda>t. tx_writes t = [] \<and> tx_locks t = [])) (claimReservation req hash)
    (\<lambda>claimed w. claimed = True \<and> in_quiet d (placing (rq_ID req) (rq_OrderID req) hash False [] [] [] [] d) w) E"
  unfolding claimReservation_def
proof (rule triple_try_bind)
  show "triple (in_quiet d (\<lambda>t. tx_writes t = [] \<and> tx_locks t = []))
      (tx_stmt (insert_reservation (rq_ID req) (rq_OrderID req) hash (rq_ExpiresAt req)))
      (\<lambda>n. in_quiet d (\<lambda>t. n = 1 \<and> placing (rq_ID req) (rq_OrderID req) hash False [] [] [] [] d t))
      (\<lambda>_ _. False)"
    by (rule q_stmt) (use assms in \<open>auto simp: insert_reservation_def placing_def reserving_def
        stock_moved_def claimed_header_def tx_view_def\<close>)
  fix n :: nat
  show "triple (in_quiet d (\<lambda>t. n = 1 \<and> placing (rq_ID req) (rq_OrderID req) hash False [] [] [] [] d t))
      (return (n = 1))
      (\<lambda>claimed w. claimed = True \<and> in_quiet d (placing (rq_ID req) (rq_OrderID req) hash False [] [] [] [] d) w) E"
    by (rule triple_return) (auto simp: in_quiet_def)
qed simp

definition reserve_result :: "ReservationRequest \<Rightarrow> int \<Rightarrow> ReservationResult" where
  "reserve_result req wh =
     \<lparr>rr_ID = rq_ID req, rr_Status = ReservationReserved,
      rr_Allocations = allocations_at wh (rq_Items req), rr_Replayed = False\<rparr>"

lemma Reserve_quiet:
  assumes d: "db_inv d" and wh: "serving_warehouse d (rq_Items req) = Some wh" and adm: "admissible req wh d"
  defines "as \<equiv> allocations_at wh (rq_Items req)"
    and "hash \<equiv> CanonicalHash (rq_Items req) (rq_DestinationRegion req)"
  shows "triple (rest d) (Reserve req)
    (\<lambda>res w. res = reserve_result req wh \<and> quiet w \<and>
       (\<exists>ws. w_db w = apply_writes ws d \<and> reserving (rq_ID req) (rq_OrderID req) hash d ws as as as))
    (\<lambda>_ _. False)"
  unfolding Reserve_def Let_def hash_def [symmetric]
proof (rule triple_bindE [OF triple_map_error [OF q_begin]], rule triple_defer_rollback)
  let ?rid = "rq_ID req" and ?ref = "rq_OrderID req"
  let ?Q = "\<lambda>res w. res = reserve_result req wh \<and> quiet (tx_rollback w) \<and>
    (\<exists>ws. w_db (tx_rollback w) = apply_writes ws d \<and> reserving ?rid ?ref hash d ws as as as)"
  let ?E = "\<lambda>(_ :: goerr) (_ :: world). False"
  from adm have dist: "distinct (map al_SKUID as)" and fits: "\<forall>a \<in> set as. line_fits d ?rid a"
    and rid: "varchar 255 ?rid"
    by (simp_all add: admissible_def as_def allocations_at_def comp_def)
  have claim: "triple (in_quiet d (\<lambda>t. tx_writes t = [] \<and> tx_locks t = [])) (claimReservation req hash)
    (\<lambda>claimed w. claimed = True \<and> in_quiet d (placing ?rid ?ref hash False [] [] [] [] d) w) ?E"
    using adm by (intro claim_quiet) (simp_all add: admissible_def hash_def hash_fits)
  have start: "in_quiet d (placing ?rid ?ref hash True as [] [] [] d) w \<Longrightarrow> in_quiet d (placed ?rid ?ref hash as [] [] [] d) w" for w
    by (erule in_quiet_mono) (simp add: placed_def placing_def reserving_def stock_moved_def)
  have alloc: "triple (in_quiet d (placing ?rid ?ref hash False [] [] [] [] d)) (allocateReservation (rq_Items req))
     (\<lambda>x w. x = as \<and> in_quiet d (placed ?rid ?ref hash as [] [] [] d) w) ?E"
    by (rule triple_weaken [OF allocate_quiet [OF d wh]]) (use start in \<open>auto simp: as_def\<close>)
  have commit: "triple (in_quiet d (placed ?rid ?ref hash as as as as d)) tx_commit
     (\<lambda>_ w. quiet w \<and> (\<exists>ws. w_db w = apply_writes ws d \<and> reserving ?rid ?ref hash d ws as as as)) ?E"
    by (rule triple_weaken [OF q_commit]) (auto simp: placed_def placing_def)
  have rb: "quiet (tx_rollback w) = (w_script w = [])" "w_db (tx_rollback w) = w_db w" for w
    by (simp_all add: quiet_def tx_rollback_def)
  show "triple (in_quiet d (\<lambda>t. tx_writes t = [] \<and> tx_locks t = []))
     (try_bind (claimReservation req hash)
       (\<lambda>err. if \<not> errors_Is err errOrderRefTaken then fail err
          else bindE rollback_now (\<lambda>_. try_bind (replayReservation QPool ?rid ?ref hash)
             (\<lambda>rerr. if errors_Is rerr ErrNoRows
                then fail (errorf_w (''order '' @ ?ref @ '' already reserved under another reservation id: '')
                   (Sentinel ErrIdempotencyConflict))
                else fail rerr) return))
       (\<lambda>claimed. if \<not> claimed then replayReservation QTx ?rid ?ref hash
          else bindE (allocateReservation (rq_Items req)) (\<lambda>allocations.
      bindE (applyReserve ?rid allocations) (\<lambda>_.
      bindE (map_error (\<lambda>err. errorf_w (''commit reserve '' @ ?rid @ '': '') (translateConcurrency err)) tx_commit)
       (\<lambda>_. return \<lparr>rr_ID = ?rid, rr_Status = ReservationReserved,
            rr_Allocations = allocations, rr_Replayed = False\<rparr>))))) ?Q ?E"
    by (rule triple_try_bind [OF claim], rule triple_fact, simp,
        rule triple_bindE [OF alloc], rule triple_fact, simp,
        rule triple_bindE [OF applyReserve_quiet [OF d fits dist rid]],
        rule triple_bindE [OF triple_map_error [OF commit]], rule triple_return)
       (auto simp: rb reserve_result_def as_def quiet_def triple_def tx_rollback_def)
qed

section \<open>Rejections, replays and conflicts\<close>

text \<open>The columns of the header the claim inserts.\<close>

definition header_fits :: "ReservationRequest \<Rightarrow> db \<Rightarrow> bool" where
  "header_fits req d \<longleftrightarrow>
     varchar 255 (rq_ID req) \<and> varchar 255 (rq_OrderID req) \<and>
     (rq_ExpiresAt req = '''' \<or> timestamptz_in (server d) (rq_ExpiresAt req) \<noteq> None)"

lemma Reserve_rejected:
  assumes d: "db_inv d" and none: "serving_warehouse d (rq_Items req) = None"
    and fits: "header_fits req d"
    and fresh: "map_of (reservations d) (rq_ID req) = None" "ref_ids d (rq_OrderID req) = []"
  shows "triple (rest d) (Reserve req) (\<lambda>_ _. False) (\<lambda>e w. e = rejection d (rq_Items req) \<and> rest d w)"
  unfolding Reserve_def Let_def
proof (rule triple_bindE [OF triple_map_error [OF q_begin]], rule triple_defer_rollback)
  let ?hash = "CanonicalHash (rq_Items req) (rq_DestinationRegion req)"
  let ?E = "\<lambda>e w. e = rejection d (rq_Items req) \<and> rest d (tx_rollback w)"
  have claim: "triple (in_quiet d (\<lambda>t. tx_writes t = [] \<and> tx_locks t = [])) (claimReservation req ?hash)
    (\<lambda>claimed w. claimed = True \<and> in_quiet d (placing (rq_ID req) (rq_OrderID req) ?hash False [] [] [] [] d) w)
    (\<lambda>_ _. False)"
    using fits fresh by (intro claim_quiet) (simp_all add: header_fits_def hash_fits)
  have alloc: "triple (in_quiet d (placing (rq_ID req) (rq_OrderID req) ?hash False [] [] [] [] d))
      (allocateReservation (rq_Items req)) (\<lambda>_ _. False) ?E"
    by (rule triple_weaken [OF allocate_rejected [OF d none]]) (auto intro: failed_rollback)
  show "triple (in_quiet d (\<lambda>t. tx_writes t = [] \<and> tx_locks t = []))
     (try_bind (claimReservation req ?hash)
       (\<lambda>err. if \<not> errors_Is err errOrderRefTaken then fail err
          else bindE rollback_now (\<lambda>_. try_bind (replayReservation QPool (rq_ID req) (rq_OrderID req) ?hash)
             (\<lambda>rerr. if errors_Is rerr ErrNoRows
                then fail (errorf_w (''order '' @ rq_OrderID req @ '' already reserved under another reservation id: '')
                   (Sentinel ErrIdempotencyConflict))
                else fail rerr) return))
       (\<lambda>claimed. if \<not> claimed then replayReservation QTx (rq_ID req) (rq_OrderID req) ?hash
          else bindE (allocateReservation (rq_Items req)) (\<lambda>allocations.
      bindE (applyReserve (rq_ID req) allocations) (\<lambda>_.
      bindE (map_error (\<lambda>err. errorf_w (''commit reserve '' @ rq_ID req @ '': '') (translateConcurrency err)) tx_commit)
       (\<lambda>_. return \<lparr>rr_ID = rq_ID req, rr_Status = ReservationReserved,
            rr_Allocations = allocations, rr_Replayed = False\<rparr>))))) (\<lambda>_ _. False) ?E"
    by (rule triple_try_bind [OF claim], rule triple_fact, simp, rule triple_bindE [OF alloc], simp, simp)
qed

definition stored_result :: "string \<Rightarrow> reservation_row \<Rightarrow> db \<Rightarrow> ReservationResult" where
  "stored_result rid row d =
     \<lparr>rr_ID = rid, rr_Status = res_status row, rr_Allocations = select_lines rid d, rr_Replayed = True\<rparr>"

definition replay_outcome :: "string \<Rightarrow> string \<Rightarrow> string \<Rightarrow> db \<Rightarrow> goerr + ReservationResult" where
  "replay_outcome rid ref hash d =
     (case map_of (reservations d) rid of
        None \<Rightarrow> Inl (errorf_w (''load claimed reservation '' @ rid @ '': '') (Sentinel ErrNoRows))
      | Some row \<Rightarrow>
          (if request_hash row \<noteq> hash \<or> external_reference row \<noteq> ref
           then Inl (errorf_w (''reservation '' @ rid @ '': '') (Sentinel ErrIdempotencyConflict))
           else Inr (stored_result rid row d)))"

lemma no_rows_kept [simp]: "translateConcurrency (Sentinel s) = Sentinel s"
  by (simp add: translateConcurrency_def)

lemma replay_evaluated:
  assumes q: "\<And>f :: db \<Rightarrow> reservation_row option. query q f w = (Inr (f d), w)"
    and l: "\<And>f :: db \<Rightarrow> Allocation list. query q f w = (Inr (f d), w)"
  shows "replayReservation q rid ref hash w = (replay_outcome rid ref hash d, w)"
  by (simp add: replayReservation_def loadReservationLines_def scan_row_def prog_defs q l select_header_def
      replay_outcome_def stored_result_def split: option.split)

lemma replay_pool_quiet: "rest d w \<Longrightarrow> replayReservation QPool rid ref hash w = (replay_outcome rid ref hash d, w)"
  by (rule replay_evaluated) (simp_all add: query_def rest_def quiet_def quiet_simps)

lemma replay_tx_quiet:
  "in_quiet d (\<lambda>t. tx_writes t = []) w \<Longrightarrow> replayReservation QTx rid ref hash w = (replay_outcome rid ref hash d, w)"
  by (rule replay_evaluated) (auto simp: query_def in_quiet_def quiet_simps tx_view_def)

lemma begin_quiet:
  assumes "rest d w"
  obtains w1 where "pool_begin w = (Inr (), w1)" "in_quiet d (\<lambda>t. tx_writes t = [] \<and> tx_locks t = []) w1"
  using assms by (simp add: rest_def quiet_def in_quiet_def quiet_simps)

lemma claim_taken:
  assumes "in_quiet d (\<lambda>t. tx_writes t = [] \<and> tx_locks t = []) w" "header_fits req d"
    and "map_of (reservations d) (rq_ID req) \<noteq> None"
  shows "\<exists>w'. claimReservation req (CanonicalHash items region) w = (Inr False, w') \<and>
     in_quiet d (\<lambda>t. tx_writes t = []) w'"
  using assms hash_fits [of items region]
  by (auto simp: claimReservation_def in_quiet_def quiet_simps prog_defs insert_reservation_def
      header_fits_def tx_view_def)

lemma claim_ref_taken:
  assumes "in_quiet d (\<lambda>t. tx_writes t = [] \<and> tx_locks t = []) w" "header_fits req d"
    and "map_of (reservations d) (rq_ID req) = None" "ref_ids d (rq_OrderID req) \<noteq> []"
  shows "\<exists>w'. claimReservation req (CanonicalHash items region) w =
       (Inl (errorf_w (''claim reservation '' @ rq_ID req @ '': '') (Sentinel errOrderRefTaken)), w') \<and> failed d w'"
  using assms hash_fits [of items region]
  by (auto simp: claimReservation_def in_quiet_def quiet_simps prog_defs insert_reservation_def
      header_fits_def tx_view_def failed_def abort_tx_def)

text \<open>A known id is answered from the stored reservation, an order held under another id is a conflict.\<close>

lemma Reserve_known_id:
  assumes w: "rest d w" and fits: "header_fits req d"
    and known: "map_of (reservations d) (rq_ID req) \<noteq> None"
  shows "\<exists>w'. Reserve req w = (replay_outcome (rq_ID req) (rq_OrderID req)
     (CanonicalHash (rq_Items req) (rq_DestinationRegion req)) d, w') \<and> rest d w'"
proof -
  from w obtain w1 where w1: "pool_begin w = (Inr (), w1)"
    "in_quiet d (\<lambda>t. tx_writes t = [] \<and> tx_locks t = []) w1" by (rule begin_quiet)
  from claim_taken [OF w1(2) fits known] obtain w2 where
    w2: "claimReservation req (CanonicalHash (rq_Items req) (rq_DestinationRegion req)) w1 = (Inr False, w2)"
      "in_quiet d (\<lambda>t. tx_writes t = []) w2" by blast
  show ?thesis
    using w1(1) w2(1) replay_tx_quiet [OF w2(2)] in_quiet_rollback [OF w2(2)]
    by (simp add: Reserve_def Let_def bindE_def map_error_def defer_rollback_def try_bind_def)
qed

lemma Reserve_known_order:
  assumes w: "rest d w" and fits: "header_fits req d"
    and new: "map_of (reservations d) (rq_ID req) = None" and held: "ref_ids d (rq_OrderID req) \<noteq> []"
  shows "\<exists>w'. Reserve req w = (Inl (errorf_w (''order '' @ rq_OrderID req @
       '' already reserved under another reservation id: '') (Sentinel ErrIdempotencyConflict)), w') \<and> rest d w'"
proof -
  from w obtain w1 where w1: "pool_begin w = (Inr (), w1)"
    "in_quiet d (\<lambda>t. tx_writes t = [] \<and> tx_locks t = []) w1" by (rule begin_quiet)
  from claim_ref_taken [OF w1(2) fits new held] obtain w2 where
    w2: "claimReservation req (CanonicalHash (rq_Items req) (rq_DestinationRegion req)) w1 =
       (Inl (errorf_w (''claim reservation '' @ rq_ID req @ '': '') (Sentinel errOrderRefTaken)), w2)"
      "failed d w2" by blast
  have rest2: "rest d (tx_rollback w2)" by (rule failed_rollback [OF w2(2)])
  then have "failed d (tx_rollback w2)" by (simp add: rest_def quiet_def failed_def)
  from failed_rollback [OF this] new show ?thesis
    using w1(1) w2(1) replay_pool_quiet [OF rest2]
    by (simp add: Reserve_def Let_def bindE_def map_error_def defer_rollback_def try_bind_def
        rollback_now_def replay_outcome_def fail_def)
qed

end
