(* ===== verification/Quiet_Transitions.thy ===== *)
theory Quiet_Transitions
  imports Quiet_Runs
begin

text \<open>
  \<open>Release\<close> and \<open>Commit\<close> in a quiet world. That an open reservation can always be closed rests on
  the invariant: the balances hold at least what its lines hold, so neither the row lookup nor the
  CHECKs can fail.
\<close>

section \<open>An open reservation is backed by its balances\<close>

lemma sum_list_member_le:
  assumes "x \<in> set xs" "\<forall>y \<in> set xs. 0 \<le> (f y :: int)"
  shows "f x \<le> sum_list (map f xs)"
  using assms
proof (induction xs)
  case (Cons y ys)
  then have "0 \<le> sum_list (map f ys)" by (intro sum_list_nonneg) auto
  with Cons show ?case by auto
qed simp

lemma open_line_backed:
  assumes d: "db_inv d" and st: "status_of d rid = Some ReservationReserved" and a: "a \<in> set (lines_of rid d)"
  obtains r where "map_of (balances d) (akey a) = Some r" "0 < al_Quantity a"
    "al_Quantity a \<le> reserved r" "reserved r \<le> on_hand r" "balance_range r" "balance_check r"
proof -
  from a obtain kl where kl: "kl \<in> set (reservation_lines d)" "fst (fst kl) = rid" "a = line_allocation kl"
    by (auto simp: lines_of_def)
  note lok = db_invD(3) [OF d]
  have dist: "distinct (map fst (reservation_lines d))" using lok by (simp add: lines_ok_def)
  have pos: "0 < line_quantity (snd m)" if "m \<in> set (reservation_lines d)" for m
  proof -
    have "map_of (reservation_lines d) (fst m) = Some (snd m)"
      using that dist by (metis map_of_is_SomeI prod.collapse)
    from lines_okD [OF lok this] show ?thesis by blast
  qed
  have q: "0 < al_Quantity a" using pos [OF kl(1)] kl(3) by (simp add: line_allocation_def)
  have "line_held d (akey a) kl = al_Quantity a"
    using kl st by (simp add: line_held_def akey_def line_allocation_def)
  moreover have "line_held d (akey a) kl \<le> held_qty d (akey a)"
    unfolding held_qty_def
  proof (rule sum_list_member_le [OF kl(1)], rule ballI)
    fix m
    assume "m \<in> set (reservation_lines d)"
    from pos [OF this] show "0 \<le> line_held d (akey a) m" by (simp add: line_held_def)
  qed
  ultimately have held: "al_Quantity a \<le> reserved_of d (akey a)" using db_invD(5) [OF d] by simp
  with q obtain r where r: "map_of (balances d) (akey a) = Some r" "al_Quantity a \<le> reserved r"
    by (auto simp: reserved_of_def split: option.splits)
  from balances_okD [OF db_invD(1) [OF d] r(1)] have "balance_range r" "balance_check r" by blast+
  with r q show ?thesis by (intro that [of r]) (auto simp: balance_check_def)
qed

section \<open>One line\<close>

text \<open>What the columns of a line's ledger row need, and the room the version counter needs.\<close>

definition close_fits :: "db \<Rightarrow> string \<Rightarrow> string \<Rightarrow> Allocation \<Rightarrow> bool" where
  "close_fits d pre rid a \<longleftrightarrow>
     varchar 64 (al_SKUID a) \<and> varchar 255 (pre @ rid @ '':'' @ al_SKUID a) \<and>
     \<not> has_command d (pre @ rid @ '':'' @ al_SKUID a) \<and>
     (case map_of (balances d) (akey a) of None \<Rightarrow> True | Some r \<Rightarrow> int64_range (version r + 1))"

definition closed_lines ::
  "string \<Rightarrow> string \<Rightarrow> (Allocation \<Rightarrow> int) \<Rightarrow> (Allocation \<Rightarrow> int) \<Rightarrow> Allocation list \<Rightarrow>
   Allocation list \<Rightarrow> Allocation list \<Rightarrow> db \<Rightarrow> tx \<Rightarrow> bool" where
  "closed_lines pre rid dh dr lines bs as d t \<longleftrightarrow>
     closing rid dh dr lines None bs as d t \<and>
     map mv_command_id (write_movements (tx_writes t)) = map (\<lambda>a. pre @ rid @ '':'' @ al_SKUID a) as"

lemma closing_open: "closing rid dh dr lines None bs as d t \<Longrightarrow>
    status_of d rid = Some ReservationReserved \<and> lines = select_lines rid d"
  by (auto simp: closing_def status_of_def)

lemma closing_keys:
  assumes "db_inv d" "closing rid dh dr lines None bs as d t" "lines = ys @ a # zs"
  shows "akey a \<notin> akey ` set ys \<and> al_SKUID a \<notin> al_SKUID ` set ys \<and> a \<in> set (lines_of rid d)"
proof -
  have sel: "lines = select_lines rid d" using closing_open [OF assms(2)] by blast
  have "distinct (map akey lines)" unfolding sel by (rule distinct_select_keys [OF db_invD(3) [OF assms(1)]])
  moreover have "distinct (map al_SKUID (lines_of rid d))"
  proof -
    have "distinct (map (snd \<circ> fst) (filter (\<lambda>kl. fst (fst kl) = rid) (reservation_lines d)))"
      using db_invD(3) [OF assms(1)] by (intro distinct_selected) (auto simp: lines_ok_def inj_on_def)
    then show ?thesis by (simp add: lines_of_def line_allocation_def comp_def)
  qed
  then have "distinct (map al_SKUID lines)"
    unfolding sel using mset_eq_imp_distinct_iff [of "map al_SKUID (select_lines rid d)" "map al_SKUID (lines_of rid d)"]
    by (simp add: mset_select_lines)
  moreover have "set lines = set (lines_of rid d)"
    unfolding sel using mset_eq_setD [OF mset_select_lines] .
  ultimately show ?thesis using assms(3) by auto
qed

lemma close_balance_progress:
  assumes d: "db_inv d" and A: "closed_lines pre rid dh dr lines ys ys d t" and lines: "lines = ys @ a # zs"
    and fits: "close_fits d pre rid a"
    and f: "\<And>r. on_hand (f r) = on_hand r + dh a" "\<And>r. reserved (f r) = reserved r - al_Quantity a"
      "\<And>r. safety_stock (f r) = safety_stock r" "\<And>r. version (f r) = version r + 1"
    and dh: "dh a = 0 \<or> dh a = - al_Quantity a" and dr: "dr a = - al_Quantity a"
  shows "\<exists>x ws ls. update_balance f (akey a) (tx_view d t) = Inr (x, ws, ls) \<and>
     x = 1 \<and> closed_lines pre rid dh dr lines (ys @ [a]) ys d (t\<lparr>tx_writes := tx_writes t @ ws, tx_locks := tx_locks t @ ls\<rparr>)"
proof -
  from A have c: "closing rid dh dr lines None ys ys d t" by (simp add: closed_lines_def)
  then have sm: "stock_moved dh dr d (tx_writes t) ys ys" by (simp add: closing_def)
  note keys = closing_keys [OF d c lines]
  from closing_open [OF c] keys obtain r where r: "map_of (balances d) (akey a) = Some r" "0 < al_Quantity a"
    "al_Quantity a \<le> reserved r" "reserved r \<le> on_hand r" "balance_range r" "balance_check r"
    using open_line_backed [OF d] by metis
  have view: "map_of (balances (tx_view d t)) (akey a) = Some r"
    using stock_moved_view [OF sm] keys r(1) by (simp add: tx_view_def)
  have "balance_range (f r)" "balance_check (f r)"
    using r fits dh by (auto simp: balance_range_def balance_check_def int64_range_def f close_fits_def)
  then have run: "update_balance f (akey a) (tx_view d t) = Inr (1, [WBalance (akey a) (f r)], [])"
    by (simp add: update_balance_def view store_balance_def)
  from stock_moved_update [OF sm _ db_invD(1) [OF d] r(1) run [unfolded tx_view_def]] keys
  have "stock_moved dh dr d (tx_writes t @ [WBalance (akey a) (f r)]) (ys @ [a]) ys"
    by (simp add: f dr)
  with A run show ?thesis by (auto simp: closed_lines_def closing_def)
qed

lemma close_movement_progress:
  assumes d: "db_inv d" and A: "closed_lines pre rid dh dr lines (ys @ [a]) ys d t" and lines: "lines = ys @ a # zs"
    and fits: "close_fits d pre rid a"
    and m: "mv_command_id m = pre @ rid @ '':'' @ al_SKUID a" "mv_key m = akey a" "mv_on_hand_delta m = dh a"
      "mv_reserved_delta m = dr a" "mv_type m \<in> set movement_types" "movement_fits m"
  shows "\<exists>x ws ls. insert_movement False m (tx_view d t) = Inr (x, ws, ls) \<and>
     closed_lines pre rid dh dr lines (ys @ [a]) (ys @ [a]) d
       (t\<lparr>tx_writes := tx_writes t @ ws, tx_locks := tx_locks t @ ls\<rparr>)"
proof -
  from A have c: "closing rid dh dr lines None (ys @ [a]) ys d t" by (simp add: closed_lines_def)
  then have sm: "stock_moved dh dr d (tx_writes t) (ys @ [a]) ys" by (simp add: closing_def)
  then have "list_all2 (balance_moved dh dr d) (write_balances (tx_writes t)) (ys @ [a])"
    by (simp add: stock_moved_def)
  from list_all2_ex_left [OF this, of a] have wh: "has_warehouse d (al_WarehouseID a)"
    by (auto simp: balance_moved_def)
  have "mv_command_id ` set (write_movements (tx_writes t)) = set (map (\<lambda>a. pre @ rid @ '':'' @ al_SKUID a) ys)"
    using A unfolding closed_lines_def by (metis list.set_map)
  then have "\<not> has_command (tx_view d t) (mv_command_id m)"
    using fits closing_keys [OF d c lines] unfolding tx_view_def has_command_apply m(1) close_fits_def by auto
  then have run: "insert_movement False m (tx_view d t) = Inr (1, [WMovement m], [])"
    using m wh by (simp add: insert_movement_def tx_view_def mv_key_def akey_def)
  from stock_moved_insert [OF sm run [unfolded tx_view_def] _ m(2,3,4)]
  have "stock_moved dh dr d (tx_writes t @ [WMovement m]) (ys @ [a]) (ys @ [a])" by simp
  with A run m(1) show ?thesis by (auto simp: closed_lines_def closing_def)
qed

lemma close_line_quiet:
  assumes d: "db_inv d" and lines: "lines = ys @ a # zs" and fits: "close_fits d pre rid a"
    and rid: "varchar 255 rid" and reason: "varchar 64 reason" and ty: "mt \<in> set movement_types" "varchar 32 mt"
    and f: "\<And>now r. on_hand (f now r) = on_hand r + dh a" "\<And>now r. reserved (f now r) = reserved r - al_Quantity a"
      "\<And>now r. safety_stock (f now r) = safety_stock r" "\<And>now r. version (f now r) = version r + 1"
    and dh: "dh a = 0 \<or> dh a = - al_Quantity a" and dr: "dr a = - al_Quantity a"
  shows "triple (in_quiet d (closed_lines pre rid dh dr lines ys ys d))
    (bindE (map_error h (tx_stmt (\<lambda>d now. update_balance (f now) (al_SKUID a, al_WarehouseID a) d)))
       (\<lambda>rows. if rows \<noteq> 1 then fail (err rows)
          else insertReservationMovement (pre @ rid @ '':'' @ al_SKUID a) a mt (dh a) (dr a) rid reason))
    (\<lambda>_. in_quiet d (closed_lines pre rid dh dr lines (ys @ [a]) (ys @ [a]) d)) E"
proof (rule triple_bindE, rule triple_map_error)
  show "triple (in_quiet d (closed_lines pre rid dh dr lines ys ys d))
     (tx_stmt (\<lambda>d now. update_balance (f now) (al_SKUID a, al_WarehouseID a) d))
     (\<lambda>x. in_quiet d (\<lambda>t. x = 1 \<and> closed_lines pre rid dh dr lines (ys @ [a]) ys d t)) (\<lambda>e. E (h e))"
  proof (rule q_stmt)
    fix t :: tx
    assume A: "closed_lines pre rid dh dr lines ys ys d t"
    show "\<exists>x ws ls. update_balance (f (tx_now t)) (al_SKUID a, al_WarehouseID a) (tx_view d t) = Inr (x, ws, ls) \<and>
       x = 1 \<and> closed_lines pre rid dh dr lines (ys @ [a]) ys d
         (t\<lparr>tx_writes := tx_writes t @ ws, tx_locks := tx_locks t @ ls\<rparr>)"
      unfolding akey_def [symmetric] by (rule close_balance_progress [OF d A lines fits]) (rule f dh dr)+
  qed
  fix n :: nat
  have ins: "triple (in_quiet d (closed_lines pre rid dh dr lines (ys @ [a]) ys d))
      (insertReservationMovement (pre @ rid @ '':'' @ al_SKUID a) a mt (dh a) (dr a) rid reason)
      (\<lambda>_. in_quiet d (closed_lines pre rid dh dr lines (ys @ [a]) (ys @ [a]) d)) E"
    unfolding insertReservationMovement_def
    by (rule triple_map_error, rule triple_bindE, rule q_nextval, rule q_stmt,
        rule close_movement_progress [OF d _ lines fits], assumption)
       (use fits rid reason ty in \<open>auto simp: mv_key_def akey_def movement_fits_def varchar_null_def
          close_fits_def varchar_def char_length_def intro: triple_return\<close>)
  show "triple (in_quiet d (\<lambda>t. n = 1 \<and> closed_lines pre rid dh dr lines (ys @ [a]) ys d t))
      (if n \<noteq> 1 then fail (err n)
       else insertReservationMovement (pre @ rid @ '':'' @ al_SKUID a) a mt (dh a) (dr a) rid reason)
      (\<lambda>_. in_quiet d (closed_lines pre rid dh dr lines (ys @ [a]) (ys @ [a]) d)) E"
    using ins by (cases "n = 1") (auto simp: in_quiet_def triple_def)
qed

section \<open>The whole transition\<close>

lemma lock_header_quiet:
  assumes row: "map_of (reservations d) rid = Some row"
  shows "triple (in_quiet d (\<lambda>t. tx_writes t = [] \<and> tx_locks t = []))
     (try_bind (scan_row (tx_stmt (select_status_for_update rid)))
        (\<lambda>err. if \<not> errors_Is err ErrNoRows then fail (g err) else return '''') return)
     (\<lambda>status w. status = res_status row \<and>
        in_quiet d (\<lambda>t. tx_writes t = [] \<and> LockReservation rid \<in> set (tx_locks t)) w) E"
  using row
  by (auto simp: triple_def in_quiet_def quiet_simps prog_defs scan_row_def select_status_for_update_def tx_view_def)

lemma transition_quiet:
  assumes d: "db_inv d" and row: "map_of (reservations d) rid = Some row" "res_status row = ReservationReserved"
    and tgt: "tgt \<in> set reservation_statuses" and proceed: "decide ReservationReserved = Inr ''''"
    and line: "\<And>ys a zs E. select_lines rid d = ys @ a # zs \<Longrightarrow>
      triple (in_quiet d (closed_lines pre rid dh dr (select_lines rid d) ys ys d)) (applyLine a)
        (\<lambda>_. in_quiet d (closed_lines pre rid dh dr (select_lines rid d) (ys @ [a]) (ys @ [a]) d)) E"
  shows "triple (rest d) (transition rid tgt decide applyLine)
    (\<lambda>s w. s = tgt \<and> quiet w \<and>
       (\<exists>t. closing rid dh dr (select_lines rid d) (Some tgt) (select_lines rid d) (select_lines rid d) d t \<and>
          w_db w = apply_writes (tx_writes t) d))
    (\<lambda>_ _. False)"
  unfolding transition_def
proof (rule triple_bindE [OF triple_map_error [OF q_begin]], rule triple_defer_rollback)
  let ?lines = "select_lines rid d"
  let ?closed = "\<lambda>ys. in_quiet d (closed_lines pre rid dh dr ?lines ys ys d)"
  let ?E = "\<lambda>(_ :: goerr) (_ :: world). False"
  let ?open = "in_quiet d (\<lambda>t. tx_writes t = [] \<and> LockReservation rid \<in> set (tx_locks t))"
  have "triple ?open (loadReservationLines QTx rid) (\<lambda>ls w. ls = ?lines \<and> ?open w) ?E"
    unfolding loadReservationLines_def query_def querier.case
    by (intro triple_map_error q_query) (simp add: tx_view_def)
  then have load: "triple ?open (loadReservationLines QTx rid) (\<lambda>ls w. ls = ?lines \<and> ?closed [] w) ?E"
    by (rule triple_weaken)
       (auto simp: closed_lines_def closing_def header_writes_def stock_moved_def row elim!: in_quiet_mono)
  have all_lines: "triple (?closed []) (for_each applyLine ?lines) (\<lambda>_. ?closed ?lines) ?E"
    by (rule triple_for_each [where I = ?closed]) (rule line)
  have flip: "triple (?closed ?lines) (tx_stmt (update_status rid tgt))
      (\<lambda>_. in_quiet d (closing rid dh dr ?lines (Some tgt) ?lines ?lines d)) ?E"
  proof (rule q_stmt)
    fix t :: tx
    assume "closed_lines pre rid dh dr ?lines ?lines ?lines d t"
    then have c: "closing rid dh dr ?lines None ?lines ?lines d t" by (simp add: closed_lines_def)
    then have "reservations (tx_view d t) = reservations d"
      by (auto simp: tx_view_def table_simps closing_def header_writes_def)
    then obtain ws where run: "update_status rid tgt (tx_view d t) (tx_now t) = Inr (1, ws, [])"
      using row tgt by (simp add: update_status_def)
    from update_status_step [OF d c tgt run] run
    show "\<exists>x ws ls. update_status rid tgt (tx_view d t) (tx_now t) = Inr (x, ws, ls) \<and>
       closing rid dh dr ?lines (Some tgt) ?lines ?lines d
         (t\<lparr>tx_writes := tx_writes t @ ws, tx_locks := tx_locks t @ ls\<rparr>)" by blast
  qed
  have commit: "triple (in_quiet d (closing rid dh dr ?lines (Some tgt) ?lines ?lines d)) tx_commit
     (\<lambda>_ w. quiet w \<and> (\<exists>t. closing rid dh dr ?lines (Some tgt) ?lines ?lines d t \<and>
        w_db w = apply_writes (tx_writes t) d)) ?E"
    by (rule triple_weaken [OF q_commit]) auto
  have lock: "triple (in_quiet d (\<lambda>t. tx_writes t = [] \<and> tx_locks t = []))
     (try_bind (scan_row (tx_stmt (select_status_for_update rid)))
        (\<lambda>err. if \<not> errors_Is err ErrNoRows
           then fail (errorf_w (''lock reservation '' @ rid @ '': '') (translateConcurrency err))
           else return '''') return)
     (\<lambda>status w. status = ReservationReserved \<and> ?open w) ?E"
    using lock_header_quiet [OF row(1)] row(2) by simp
  have body: "triple ?open
     (bindE (loadReservationLines QTx rid) (\<lambda>lines.
      bindE (for_each applyLine lines) (\<lambda>_.
      bindE (map_error (\<lambda>err. errorf_w (''set reservation '' @ rid @ '' status: '') (translateConcurrency err))
         (tx_stmt (update_status rid tgt))) (\<lambda>_.
      bindE (map_error (\<lambda>err. errorf_w (''commit transition '' @ rid @ '': '') (translateConcurrency err))
         tx_commit) (\<lambda>_. return tgt)))))
     (\<lambda>s w. s = tgt \<and> quiet (tx_rollback w) \<and>
       (\<exists>t. closing rid dh dr ?lines (Some tgt) ?lines ?lines d t \<and>
          w_db (tx_rollback w) = apply_writes (tx_writes t) d)) ?E"
    by (rule triple_bindE [OF load], rule triple_fact, simp,
        rule triple_bindE [OF all_lines], rule triple_bindE [OF triple_map_error [OF flip]],
        rule triple_bindE [OF triple_map_error [OF commit]], rule triple_return)
       (auto simp: quiet_def tx_rollback_def)
  show "triple (in_quiet d (\<lambda>t. tx_writes t = [] \<and> tx_locks t = []))
     (bindE (try_bind (scan_row (tx_stmt (select_status_for_update rid)))
        (\<lambda>err. if \<not> errors_Is err ErrNoRows
           then fail (errorf_w (''lock reservation '' @ rid @ '': '') (translateConcurrency err))
           else return '''') return)
      (\<lambda>status. case decide status of Inl err \<Rightarrow> fail err
         | Inr done \<Rightarrow> if done \<noteq> '''' then return done
           else bindE (loadReservationLines QTx rid) (\<lambda>lines.
      bindE (for_each applyLine lines) (\<lambda>_.
      bindE (map_error (\<lambda>err. errorf_w (''set reservation '' @ rid @ '' status: '') (translateConcurrency err))
         (tx_stmt (update_status rid tgt))) (\<lambda>_.
      bindE (map_error (\<lambda>err. errorf_w (''commit transition '' @ rid @ '': '') (translateConcurrency err))
         tx_commit) (\<lambda>_. return tgt))))))
     (\<lambda>s w. s = tgt \<and> quiet (tx_rollback w) \<and>
       (\<exists>t. closing rid dh dr ?lines (Some tgt) ?lines ?lines d t \<and>
          w_db (tx_rollback w) = apply_writes (tx_writes t) d)) ?E"
    by (rule triple_bindE [OF lock], rule triple_fact) (simp only: proceed sum.case simp_thms if_False body)
qed

lemma Release_quiet:
  assumes d: "db_inv d" and row: "map_of (reservations d) rid = Some row" "res_status row = ReservationReserved"
    and fits: "\<forall>a \<in> set (lines_of rid d). close_fits d ''rel:'' rid a"
    and wide: "varchar 255 rid" "varchar 64 reason"
  shows "triple (rest d) (Release rid reason)
    (\<lambda>s w. s = ReservationReleased \<and> quiet w \<and>
       (\<exists>t. closing rid (\<lambda>a. 0) (\<lambda>a. - al_Quantity a) (select_lines rid d) (Some ReservationReleased)
            (select_lines rid d) (select_lines rid d) d t \<and>
          w_db w = apply_writes (tx_writes t) d))
    (\<lambda>_ _. False)"
  unfolding Release_def
proof (rule transition_quiet [OF d row, where pre = "''rel:''"])
  fix ys a zs and E :: "goerr \<Rightarrow> world \<Rightarrow> bool"
  assume lines: "select_lines rid d = ys @ a # zs"
  have "set (select_lines rid d) = set (lines_of rid d)" using mset_eq_setD [OF mset_select_lines] .
  with lines fits have fa: "close_fits d ''rel:'' rid a" by auto
  show "triple (in_quiet d (closed_lines ''rel:'' rid (\<lambda>a. 0) (\<lambda>a. - al_Quantity a) (select_lines rid d) ys ys d))
      (release_line rid reason a)
      (\<lambda>_. in_quiet d (closed_lines ''rel:'' rid (\<lambda>a. 0) (\<lambda>a. - al_Quantity a) (select_lines rid d)
         (ys @ [a]) (ys @ [a]) d)) E"
    unfolding release_line_def
    using close_line_quiet [OF d lines fa wide, where mt = MovementRelease and dh = "\<lambda>a. 0" and
        dr = "\<lambda>a. - al_Quantity a" and E = E and
        f = "\<lambda>now r. r\<lparr>reserved := reserved r - al_Quantity a, version := version r + 1, bal_updated_at := now\<rparr>"]
    by (simp add: movement_types_def MovementRelease_def varchar_def char_length_def)
qed (simp_all add: reservation_statuses_def decide_release_def reservation_status_defs)

lemma Commit_quiet:
  assumes d: "db_inv d" and row: "map_of (reservations d) rid = Some row" "res_status row = ReservationReserved"
    and fits: "\<forall>a \<in> set (lines_of rid d). close_fits d ''cmt:'' rid a" and wide: "varchar 255 rid"
  shows "triple (rest d) (Commit rid)
    (\<lambda>s w. s = ReservationCommitted \<and> quiet w \<and>
       (\<exists>t. closing rid (\<lambda>a. - al_Quantity a) (\<lambda>a. - al_Quantity a) (select_lines rid d) (Some ReservationCommitted)
            (select_lines rid d) (select_lines rid d) d t \<and>
          w_db w = apply_writes (tx_writes t) d))
    (\<lambda>_ _. False)"
  unfolding Commit_def
proof (rule transition_quiet [OF d row, where pre = "''cmt:''"])
  fix ys a zs and E :: "goerr \<Rightarrow> world \<Rightarrow> bool"
  assume lines: "select_lines rid d = ys @ a # zs"
  have "set (select_lines rid d) = set (lines_of rid d)" using mset_eq_setD [OF mset_select_lines] .
  with lines fits have fa: "close_fits d ''cmt:'' rid a" by auto
  have "varchar 64 ''''" by (simp add: varchar_def char_length_def)
  from close_line_quiet [OF d lines fa wide this, where mt = MovementSaleCommitted and
        dh = "\<lambda>a. - al_Quantity a" and dr = "\<lambda>a. - al_Quantity a" and E = E and
        f = "\<lambda>now r. r\<lparr>on_hand := on_hand r - al_Quantity a, reserved := reserved r - al_Quantity a,
              version := version r + 1, bal_updated_at := now\<rparr>"]
  show "triple (in_quiet d (closed_lines ''cmt:'' rid (\<lambda>a. - al_Quantity a) (\<lambda>a. - al_Quantity a)
          (select_lines rid d) ys ys d))
      (commit_line rid a)
      (\<lambda>_. in_quiet d (closed_lines ''cmt:'' rid (\<lambda>a. - al_Quantity a) (\<lambda>a. - al_Quantity a)
         (select_lines rid d) (ys @ [a]) (ys @ [a]) d)) E"
    unfolding commit_line_def
    by (simp add: movement_types_def MovementSaleCommitted_def varchar_def char_length_def)
qed (simp_all add: reservation_statuses_def decide_commit_def reservation_status_defs)

text \<open>The quantities after a closed reservation.\<close>

lemma closing_quantities:
  assumes "closing rid dh dr (select_lines rid d) tgt (select_lines rid d) (select_lines rid d) d t"
  shows "on_hand_of (apply_writes (tx_writes t) d) k = on_hand_of d k + sum_at dh (lines_of rid d) k"
    and "reserved_of (apply_writes (tx_writes t) d) k = reserved_of d k + sum_at dr (lines_of rid d) k"
proof -
  from assms have sm: "stock_moved dh dr d (tx_writes t) (select_lines rid d) (select_lines rid d)"
    by (simp add: closing_def)
  show "on_hand_of (apply_writes (tx_writes t) d) k = on_hand_of d k + sum_at dh (lines_of rid d) k"
    and "reserved_of (apply_writes (tx_writes t) d) k = reserved_of d k + sum_at dr (lines_of rid d) k"
    using stock_moved_quantities [OF sm] sum_at_mset [OF mset_select_lines] by simp_all
qed

section \<open>Answers that change nothing\<close>

definition current_status :: "string \<Rightarrow> db \<Rightarrow> string" where
  "current_status rid d = (case status_of d rid of None \<Rightarrow> '''' | Some s \<Rightarrow> s)"

lemma read_status_quiet:
  assumes "in_quiet d (\<lambda>t. tx_writes t = [] \<and> tx_locks t = []) w"
  shows "\<exists>w'. try_bind (scan_row (tx_stmt (select_status_for_update rid)))
        (\<lambda>err. if \<not> errors_Is err ErrNoRows then fail (g err) else return '''') return w =
      (Inr (current_status rid d), w') \<and> failed d w'"
  using assms
  by (cases "map_of (reservations d) rid")
     (auto simp: in_quiet_def quiet_simps prog_defs scan_row_def select_status_for_update_def tx_view_def
        current_status_def status_of_def failed_def)

lemma transition_answered:
  assumes w: "rest d w" and dec: "decide (current_status rid d) = r" "r \<noteq> Inr ''''"
  shows "\<exists>w'. transition rid tgt decide line w = (r, w') \<and> rest d w'"
proof -
  from w obtain w1 where w1: "pool_begin w = (Inr (), w1)"
    "in_quiet d (\<lambda>t. tx_writes t = [] \<and> tx_locks t = []) w1" by (rule begin_quiet)
  let ?g = "\<lambda>err. errorf_w (''lock reservation '' @ rid @ '': '') (translateConcurrency err)"
  from read_status_quiet [OF w1(2), of rid ?g] obtain w2 where
    w2: "try_bind (scan_row (tx_stmt (select_status_for_update rid)))
        (\<lambda>err. if \<not> errors_Is err ErrNoRows then fail (?g err) else return '''') return w1 =
      (Inr (current_status rid d), w2)" "failed d w2" by blast
  show ?thesis
    unfolding transition_def bindE_def map_error_def defer_rollback_def w1(1) prod.case sum.case w2(1)
    using dec failed_rollback [OF w2(2)] by (cases r) (auto simp: fail_def return_def)
qed

end
