(* ===== verification/Call_Outcomes.thy ===== *)
theory Call_Outcomes
  imports Service_System Quiet_Transitions
begin

text \<open>
  What single calls achieve, as facts about the world before and after: the outcome of each
  reservation command that runs alone, and the failure of any command.
\<close>

section \<open>Failures\<close>

lemma still_GetReservation: "quietly d (GetReservation rid)"
  unfolding GetReservation_def loadReservationLines_def by (intro still_rules)

lemma error_discard: "error_quietly d m \<Longrightarrow> error_quietly d (discard m)"
  unfolding discard_def by (rule error_then_return)

lemma run_call_error: "error_quietly d (run_call c)"
  by (cases c)
     (auto intro: error_discard Reserve_error Release_error Commit_error stock_command_error
        error_still still_GetReservation)

section \<open>Commands that run alone\<close>

lemma quiet_rest: "quiet w \<Longrightarrow> rest (w_db w) w"
  by (simp add: rest_def)

lemma Reserve_done:
  assumes w: "quiet w" and d: "db_inv (w_db w)" and wh: "serving_warehouse (w_db w) (rq_Items req) = Some wh"
    and adm: "admissible req wh (w_db w)"
  obtains w' where "Reserve req w = (Inr (reserve_result req wh), w')" "quiet w'" "db_inv (w_db w')"
    "status_of (w_db w') (rq_ID req) = Some ReservationReserved"
    "lines_of (rq_ID req) (w_db w') = allocations_at wh (rq_Items req)"
    "\<And>k. on_hand_of (w_db w') k = on_hand_of (w_db w) k"
    "\<And>k. reserved_of (w_db w') k =
       reserved_of (w_db w) k + sum_at al_Quantity (allocations_at wh (rq_Items req)) k"
proof -
  let ?as = "allocations_at wh (rq_Items req)"
  from total_result [OF Reserve_quiet [OF d wh adm] quiet_rest [OF w]] obtain w' ws where
    run: "Reserve req w = (Inr (reserve_result req wh), w')" "quiet w'" and db: "w_db w' = apply_writes ws (w_db w)"
    and res: "reserving (rq_ID req) (rq_OrderID req) (CanonicalHash (rq_Items req) (rq_DestinationRegion req))
      (w_db w) ws ?as ?as ?as"
    by metis
  from res have sm: "stock_moved (\<lambda>a. 0) al_Quantity (w_db w) ws ?as ?as" by (simp add: reserving_def)
  note commit = reserving_commit [OF d res, folded db]
  show ?thesis
  proof (rule that [OF run commit(1) _ commit(4)])
    show "status_of (w_db w') (rq_ID req) = Some ReservationReserved"
      using commit(3) by (auto simp: status_of_def claimed_header_def)
  qed (simp_all add: db stock_moved_quantities [OF sm])
qed

lemma Release_done:
  assumes w: "quiet w" and d: "db_inv (w_db w)" and st: "status_of (w_db w) rid = Some ReservationReserved"
    and fits: "\<forall>a \<in> set (lines_of rid (w_db w)). close_fits (w_db w) ''rel:'' rid a"
    and wide: "varchar 255 rid" "varchar 64 reason"
  obtains w' where "Release rid reason w = (Inr ReservationReleased, w')" "quiet w'" "db_inv (w_db w')"
    "status_of (w_db w') rid = Some ReservationReleased"
    "\<And>k. on_hand_of (w_db w') k = on_hand_of (w_db w) k"
    "\<And>k. reserved_of (w_db w') k = reserved_of (w_db w) k - sum_at al_Quantity (lines_of rid (w_db w)) k"
proof -
  from st obtain row where row: "map_of (reservations (w_db w)) rid = Some row" "res_status row = ReservationReserved"
    by (auto simp: status_of_def)
  from total_result [OF Release_quiet [OF d row fits wide] quiet_rest [OF w]] obtain w' t where
    run: "Release rid reason w = (Inr ReservationReleased, w')" "quiet w'"
    and db: "w_db w' = apply_writes (tx_writes t) (w_db w)"
    and c: "closing rid (\<lambda>a. 0) (\<lambda>a. - al_Quantity a) (select_lines rid (w_db w)) (Some ReservationReleased)
      (select_lines rid (w_db w)) (select_lines rid (w_db w)) (w_db w) t"
    by metis
  have tgt: "ReservationReleased \<in> set reservation_statuses" "ReservationReleased \<noteq> ReservationReserved"
    by (simp_all add: reservation_statuses_def reservation_status_defs)
  note commit = closing_commit [OF d c refl tgt, folded db]
  show ?thesis
    by (rule that [OF run commit(1,3)]) (simp_all add: db closing_quantities [OF c] sum_at_uminus)
qed

lemma Commit_done:
  assumes w: "quiet w" and d: "db_inv (w_db w)" and st: "status_of (w_db w) rid = Some ReservationReserved"
    and fits: "\<forall>a \<in> set (lines_of rid (w_db w)). close_fits (w_db w) ''cmt:'' rid a"
    and wide: "varchar 255 rid"
  obtains w' where "Commit rid w = (Inr ReservationCommitted, w')" "quiet w'" "db_inv (w_db w')"
    "status_of (w_db w') rid = Some ReservationCommitted"
    "\<And>k. on_hand_of (w_db w') k = on_hand_of (w_db w) k - sum_at al_Quantity (lines_of rid (w_db w)) k"
    "\<And>k. reserved_of (w_db w') k = reserved_of (w_db w) k - sum_at al_Quantity (lines_of rid (w_db w)) k"
proof -
  from st obtain row where row: "map_of (reservations (w_db w)) rid = Some row" "res_status row = ReservationReserved"
    by (auto simp: status_of_def)
  from total_result [OF Commit_quiet [OF d row fits wide] quiet_rest [OF w]] obtain w' t where
    run: "Commit rid w = (Inr ReservationCommitted, w')" "quiet w'"
    and db: "w_db w' = apply_writes (tx_writes t) (w_db w)"
    and c: "closing rid (\<lambda>a. - al_Quantity a) (\<lambda>a. - al_Quantity a) (select_lines rid (w_db w))
      (Some ReservationCommitted) (select_lines rid (w_db w)) (select_lines rid (w_db w)) (w_db w) t"
    by metis
  have tgt: "ReservationCommitted \<in> set reservation_statuses" "ReservationCommitted \<noteq> ReservationReserved"
    by (simp_all add: reservation_statuses_def reservation_status_defs)
  note commit = closing_commit [OF d c refl tgt, folded db]
  show ?thesis
    by (rule that [OF run commit(1,3)]) (simp_all add: db closing_quantities [OF c] sum_at_uminus)
qed

text \<open>A reservation that is not open: the answer, and that nothing changes.\<close>

lemma known_status:
  assumes "db_inv d" "status_of d rid = Some s"
  shows "s \<in> set reservation_statuses"
proof -
  from assms(2) obtain r where r: "map_of (reservations d) rid = Some r" "s = res_status r"
    by (auto simp: status_of_def)
  have "\<forall>i r. map_of (reservations d) i = Some r \<longrightarrow> res_status r \<in> set reservation_statuses"
    using db_invD(2) [OF assms(1)] unfolding reservations_ok_def by blast
  with r show ?thesis by blast
qed

lemma decided:
  assumes "db_inv d" "status_of d rid \<noteq> Some ReservationReserved"
  shows "decide_release rid (current_status rid d) \<noteq> Inr ''''" "decide_commit rid (current_status rid d) \<noteq> Inr ''''"
  using known_status [OF assms(1), of rid] assms(2)
  by (cases "status_of d rid";
      auto simp: decide_release_def decide_commit_def current_status_def reservation_status_defs
        reservation_statuses_def)+

lemma transition_decided:
  assumes "quiet w" "decide (current_status rid (w_db w)) \<noteq> Inr ''''"
  shows "\<exists>w'. transition rid tgt decide line w = (decide (current_status rid (w_db w)), w') \<and> quiet w' \<and> w_db w' = w_db w"
  using transition_answered [where decide = decide, OF quiet_rest [OF assms(1)] refl assms(2), where tgt = tgt and line = line]
  by (auto simp: rest_def)

end
