(* ===== verification/Sample_Runs.thy ===== *)
theory Sample_Runs
  imports Call_Outcomes
begin

text \<open>
  A small concrete deployment on which the properties are exercised: ten units of one SKU are
  received into the default warehouse, then three of them are reserved for an order.
\<close>

definition sample_server :: pg_server where
  "sample_server = \<lparr>strxfrm = (\<lambda>s. s), timestamptz_in = (\<lambda>s. None)\<rparr>"

definition sample_start :: world where
  "sample_start =
     \<lparr>w_db = migrated sample_server, w_tx = None, w_locked = [], w_seq = 1, w_now = 0, w_script = [], w_trace = []\<rparr>"

definition sample_receipt :: StockCommand where
  "sample_receipt =
     \<lparr>cmd_CommandID = ''c1'', cmd_SKUID = ''A'', cmd_WarehouseID = 1, cmd_Quantity = 10,
      cmd_Reason = '''', cmd_Actor = ''ops''\<rparr>"

definition sample_request :: ReservationRequest where
  "sample_request =
     \<lparr>rq_ID = ''r1'', rq_OrderID = ''o1'', rq_Items = [\<lparr>ln_SKUID = ''A'', ln_Quantity = 3\<rparr>],
      rq_DestinationRegion = '''', rq_ExpiresAt = ''''\<rparr>"

definition sample_stocked :: world where
  "sample_stocked = snd (ReceiveStock sample_receipt sample_start)"

definition sample_reserved :: world where
  "sample_reserved = snd (Reserve sample_request sample_stocked)"

lemma sample_stocked_run:
  "ReceiveStock sample_receipt sample_start = (Inr True, sample_stocked)"
  "w_script sample_stocked = [] \<and> w_tx sample_stocked = None"
  "on_hand_of (w_db sample_stocked) (''A'', 1) = 10"
  "length (movements (w_db sample_stocked)) = 1"
proof -
  have "fst (ReceiveStock sample_receipt sample_start) = Inr True" by code_simp
  then show "ReceiveStock sample_receipt sample_start = (Inr True, sample_stocked)"
    by (simp add: sample_stocked_def prod_eq_iff)
  show "w_script sample_stocked = [] \<and> w_tx sample_stocked = None" by code_simp
  show "on_hand_of (w_db sample_stocked) (''A'', 1) = 10" by code_simp
  show "length (movements (w_db sample_stocked)) = 1" by code_simp
qed

text \<open>The result and the new state of the reservation, in the fields that matter.\<close>

definition sample_allocation :: Allocation where
  "sample_allocation = \<lparr>al_SKUID = ''A'', al_WarehouseID = 1, al_Quantity = 3\<rparr>"

definition sample_result :: ReservationResult where
  "sample_result =
     \<lparr>rr_ID = ''r1'', rr_Status = ReservationReserved, rr_Allocations = [sample_allocation],
      rr_Replayed = False\<rparr>"

definition sample_view ::
  "world \<Rightarrow> bool \<times> int \<times> int \<times> nat \<times> string option \<times> Allocation list \<times> (goerr + string) \<times> (goerr + string)" where
  "sample_view w =
     (w_script w = [] \<and> w_tx w = None, on_hand_of (w_db w) (''A'', 1), reserved_of (w_db w) (''A'', 1),
      length (movements (w_db w)), status_of (w_db w) ''r1'', lines_of ''r1'' (w_db w),
      fst (Release ''r1'' ''changed mind'' w), fst (Commit ''r1'' w))"

lemma sample_reserved_eval:
  "(fst (Reserve sample_request sample_stocked), sample_view sample_reserved) =
     (Inr sample_result, True, 10, 3, 2, Some ReservationReserved, [sample_allocation],
      Inr ReservationReleased, Inr ReservationCommitted)"
  by code_simp

lemma sample_reserved_run:
  "Reserve sample_request sample_stocked = (Inr sample_result, sample_reserved)"
  "quiet sample_reserved"
  "on_hand_of (w_db sample_reserved) (''A'', 1) = 10"
  "reserved_of (w_db sample_reserved) (''A'', 1) = 3"
  "status_of (w_db sample_reserved) ''r1'' = Some ReservationReserved"
  "lines_of ''r1'' (w_db sample_reserved) = [sample_allocation]"
  using sample_reserved_eval by (simp_all add: sample_view_def sample_reserved_def quiet_def prod_eq_iff)

definition sample_released :: world where
  "sample_released = snd (Release ''r1'' ''changed mind'' sample_reserved)"

definition sample_committed :: world where
  "sample_committed = snd (Commit ''r1'' sample_reserved)"

lemma sample_closed_run:
  "Release ''r1'' ''changed mind'' sample_reserved = (Inr ReservationReleased, sample_released)"
  "Commit ''r1'' sample_reserved = (Inr ReservationCommitted, sample_committed)"
  using sample_reserved_eval
  by (simp_all add: sample_view_def sample_released_def sample_committed_def prod_eq_iff)

lemma quiet_samples: "quiet sample_start" "quiet sample_stocked"
  using sample_stocked_run(2) by (simp_all add: quiet_def sample_start_def)

lemma sample_evolves:
  "evolves (w_db sample_start) (w_db sample_stocked)"
  "evolves (w_db sample_stocked) (w_db sample_reserved)"
  "evolves (w_db sample_reserved) (w_db sample_committed)"
proof -
  have "snd (run_call (CallReceive sample_receipt) sample_start) = sample_stocked"
    using sample_stocked_run(1) by (simp add: discard_def prog_defs)
  with quiet_step [OF quiet_samples(1), of "CallReceive sample_receipt"]
  show "evolves (w_db sample_start) (w_db sample_stocked)" by auto
  have "snd (run_call (CallReserve sample_request) sample_stocked) = sample_reserved"
    using sample_reserved_run(1) by (simp add: discard_def prog_defs)
  with quiet_step [OF quiet_samples(2), of "CallReserve sample_request"]
  show "evolves (w_db sample_stocked) (w_db sample_reserved)" by auto
  have "snd (run_call (CallCommit ''r1'') sample_reserved) = sample_committed"
    using sample_closed_run(2) by (simp add: discard_def prog_defs)
  with quiet_step [OF sample_reserved_run(2), of "CallCommit ''r1''"]
  show "evolves (w_db sample_reserved) (w_db sample_committed)" by auto
qed

lemma sample_reachable:
  "reachable (w_db sample_start)" "reachable (w_db sample_stocked)" "reachable (w_db sample_reserved)"
proof -
  show s: "reachable (w_db sample_start)"
    by (rule reachable_provisioned) (simp add: sample_start_def provisioned_migrated)
  then show t: "reachable (w_db sample_stocked)" by (rule reachable_evolves [OF _ sample_evolves(1)])
  then show "reachable (w_db sample_reserved)" by (rule reachable_evolves [OF _ sample_evolves(2)])
qed

lemma sample_concurrent:
  "concurrent sample_start" "concurrent sample_stocked" "concurrent sample_reserved"
  using quiet_concurrent quiet_samples sample_reserved_run(2) sample_reachable by blast+

section \<open>Conditions of the properties, on the samples\<close>

lemma sample_servable:
  "serving_warehouse (w_db sample_stocked) (rq_Items sample_request) = Some 1"
  "admissible sample_request 1 (w_db sample_stocked)"
  by code_simp+

definition sample_large_request :: ReservationRequest where
  "sample_large_request = sample_request\<lparr>rq_Items := [\<lparr>ln_SKUID = ''A'', ln_Quantity = 30\<rparr>]\<rparr>"

lemma sample_unservable:
  "serving_warehouse (w_db sample_stocked) (rq_Items sample_large_request) = None"
  "header_fits sample_large_request (w_db sample_stocked)"
  "map_of (reservations (w_db sample_stocked)) (rq_ID sample_large_request) = None"
  "ref_ids (w_db sample_stocked) (rq_OrderID sample_large_request) = []"
  "rejection (w_db sample_stocked) (rq_Items sample_large_request) =
     InsufficientStockError [\<lparr>sh_SKUID = ''A'', sh_Requested = 30, sh_ATP = 10\<rparr>]"
  by code_simp+

text \<open>A connection lost at the fourth database call, after the claim and the snapshot.\<close>

definition sample_failing :: world where
  "sample_failing =
     sample_stocked\<lparr>w_script :=
       replicate 3 \<lparr>ev_others = id, ev_elapsed = 1, ev_fault = NoFault\<rparr> @
       [\<lparr>ev_others = id, ev_elapsed = 1, ev_fault = Fault (ErrorsNew ''conn closed'')\<rparr>]\<rparr>"

lemma sample_failing_run:
  "alone sample_failing"
  "isl (fst (run_call (CallReserve sample_request) sample_failing))"
proof -
  show "alone sample_failing" by (simp add: sample_failing_def alone_def)
  show "isl (fst (run_call (CallReserve sample_request) sample_failing))" by code_simp
qed

lemma sample_header_fits: "header_fits sample_request (w_db sample_reserved)"
  by (simp add: header_fits_def sample_request_def varchar_def char_length_def)

lemma sample_row:
  obtains row where "map_of (reservations (w_db sample_reserved)) (rq_ID sample_request) = Some row"
    "external_reference row = rq_OrderID sample_request"
    "request_hash row = CanonicalHash (rq_Items sample_request) (rq_DestinationRegion sample_request)"
proof -
  have "reserve_answer sample_request sample_result (w_db sample_reserved)"
    using concurrent_run [OF sample_concurrent(2) Reserve_rule sample_reserved_run(1)] by blast
  then have "matches (rq_ID sample_request) (rq_OrderID sample_request)
      (CanonicalHash (rq_Items sample_request) (rq_DestinationRegion sample_request)) (w_db sample_reserved)"
    by (simp add: reserve_answer_def Let_def)
  then show ?thesis using that unfolding matches_def by blast
qed

lemma sample_close_fits:
  "\<forall>a \<in> set (lines_of ''r1'' (w_db sample_reserved)). close_fits (w_db sample_reserved) ''rel:'' ''r1'' a"
  "\<forall>a \<in> set (lines_of ''r1'' (w_db sample_reserved)). close_fits (w_db sample_reserved) ''cmt:'' ''r1'' a"
  "varchar 255 ''r1''" "varchar 64 ''changed mind''"
  "map_of (reservations (w_db sample_reserved)) ''r2'' = None"
proof -
  have e: "(list_all (close_fits (w_db sample_reserved) ''rel:'' ''r1'') (lines_of ''r1'' (w_db sample_reserved)) \<and>
      list_all (close_fits (w_db sample_reserved) ''cmt:'' ''r1'') (lines_of ''r1'' (w_db sample_reserved))) \<and>
      map_of (reservations (w_db sample_reserved)) ''r2'' = None"
    by code_simp
  from e show "\<forall>a \<in> set (lines_of ''r1'' (w_db sample_reserved)). close_fits (w_db sample_reserved) ''rel:'' ''r1'' a"
    and "\<forall>a \<in> set (lines_of ''r1'' (w_db sample_reserved)). close_fits (w_db sample_reserved) ''cmt:'' ''r1'' a"
    and "map_of (reservations (w_db sample_reserved)) ''r2'' = None"
    unfolding list_all_iff by blast+
  show "varchar 255 ''r1''" "varchar 64 ''changed mind''" by code_simp+
qed

lemmas sample_second_id = sample_close_fits(5)

end
