(* ===== verification/Go_Time_Parse.thy ===== *)
theory Go_Time_Parse
  imports Go_Values
begin

text \<open>
  \<open>time.Parse(time.RFC3339, s)\<close> as far as the transport uses it: whether it accepts \<open>s\<close>. The general
  parser of the standard library walks the layout \<open>2006-01-02T15:04:05Z07:00\<close> chunk by chunk; a chunk
  consumes a prefix or fails. It is more lenient than RFC 3339 in four places: the hour may have one
  digit, the fraction may start with a comma, an offset hour may be 24 and an offset minute 60. The
  strict fast path accepts a subset of the same strings.
\<close>

section \<open>Chunks\<close>

definition digit_value :: "char \<Rightarrow> nat" where
  "digit_value c = (of_char c :: nat) - 48"

text \<open>\<open>skip(value, prefix)\<close> for a prefix without blanks.\<close>

fun skip_char :: "char \<Rightarrow> string \<Rightarrow> string option" where
  "skip_char c [] = None"
| "skip_char c (x # xs) = (if x = c then Some xs else None)"

text \<open>\<open>getnum(s, fixed)\<close>: one or two digits, exactly two if \<open>fixed\<close>.\<close>

fun getnum :: "bool \<Rightarrow> string \<Rightarrow> (nat \<times> string) option" where
  "getnum fixed [] = None"
| "getnum fixed (a # s) =
     (if \<not> is_digit a then None
      else
        (case s of
           b # s' \<Rightarrow>
             (if is_digit b then Some (10 * digit_value a + digit_value b, s')
              else if fixed then None else Some (digit_value a, s))
         | [] \<Rightarrow> (if fixed then None else Some (digit_value a, s))))"

definition get_year :: "string \<Rightarrow> (nat \<times> string) option" where
  "get_year s =
     (if length s < 4 \<or> \<not> list_all is_digit (take 4 s) then None
      else Some (digits_value (take 4 s), drop 4 s))"

definition comma_or_period :: "char \<Rightarrow> bool" where
  "comma_or_period c \<longleftrightarrow> c = CHR '','' \<or> c = CHR ''.''"

definition skip_fraction :: "string \<Rightarrow> string" where
  "skip_fraction s =
     (case s of
        c # d # r \<Rightarrow> (if comma_or_period c \<and> is_digit d then dropWhile is_digit r else s)
      | _ \<Rightarrow> s)"

text \<open>The zone chunk \<open>Z07:00\<close>: \<open>Z\<close>, or a sign with a two-digit hour up to 24 and minute up to 60.\<close>

definition get_zone :: "string \<Rightarrow> string option" where
  "get_zone s =
     (case s of
        [] \<Rightarrow> None
      | c # r \<Rightarrow>
          (if c = CHR ''Z'' then Some r
           else if length s < 6 \<or> s ! 3 \<noteq> CHR '':'' then None
           else
             (case (getnum True (take 2 (drop 1 s)), getnum True (take 2 (drop 4 s))) of
                (Some (hr, _), Some (mm, _)) \<Rightarrow>
                  (if hr > 24 \<or> mm > 60 \<or> (c \<noteq> CHR ''+'' \<and> c \<noteq> CHR ''-'') then None
                   else Some (drop 6 s))
              | _ \<Rightarrow> None)))"

section \<open>The date\<close>

definition leap_year :: "nat \<Rightarrow> bool" where
  "leap_year y \<longleftrightarrow> y mod 4 = 0 \<and> (y mod 100 \<noteq> 0 \<or> y mod 400 = 0)"

definition days_in :: "nat \<Rightarrow> nat \<Rightarrow> nat" where
  "days_in m y =
     (if m = 2 then (if leap_year y then 29 else 28)
      else if m \<in> {4, 6, 9, 11} then 30 else 31)"

section \<open>The parser\<close>

definition ParseRFC3339_accepts :: "string \<Rightarrow> bool" where
  "ParseRFC3339_accepts s =
     (case
        Option.bind (get_year s) (\<lambda>(y, s). Option.bind (skip_char (CHR ''-'') s) (\<lambda>s.
        Option.bind (getnum True s) (\<lambda>(m, s). if m = 0 \<or> 12 < m then None else
        Option.bind (skip_char (CHR ''-'') s) (\<lambda>s.
        Option.bind (getnum True s) (\<lambda>(d, s).
        Option.bind (skip_char (CHR ''T'') s) (\<lambda>s.
        Option.bind (getnum False s) (\<lambda>(hh, s). if 24 \<le> hh then None else
        Option.bind (skip_char (CHR '':'') s) (\<lambda>s.
        Option.bind (getnum True s) (\<lambda>(mm, s). if 60 \<le> mm then None else
        Option.bind (skip_char (CHR '':'') s) (\<lambda>s.
        Option.bind (getnum True s) (\<lambda>(ss, s). if 60 \<le> ss then None else
        Option.bind (get_zone (skip_fraction s)) (\<lambda>s.
          if s \<noteq> [] \<or> d < 1 \<or> days_in m y < d then None else Some ()))))))))))))
      of None \<Rightarrow> False | Some _ \<Rightarrow> True)"

lemma ParseRFC3339_examples:
  "ParseRFC3339_accepts ''2024-02-29T9:30:00,5+24:60''"
  "\<not> ParseRFC3339_accepts ''2023-02-29T09:30:00Z''"
  by code_simp+

end
