(* ===== verification/Grpc_Validation.thy ===== *)
theory Grpc_Validation
  imports Domain_Types Go_Time_Parse Pg_Session
begin

text \<open>
  \<open>internal/grpc/v1/validate.go\<close> and the status errors of the transport. The anchored regular
  expressions \<open>^[class]{m,n}$\<close> match a string as a whole; their classes are ASCII, so a matched rune is
  a byte and the bounds are bounds on the length. \<open>grpcx.ErrorWithReason\<close> and \<open>status.Error\<close> are
  foreign: a status error is the record of the call's arguments.
\<close>

section \<open>Status errors\<close>

datatype code =
    InvalidArgument | FailedPrecondition | AlreadyExists | NotFound | Aborted | Unavailable | CodeCanceled

datatype reason =
    ReasonValidationError | ReasonSKUNotFound | ReasonInsufficientStock | ReasonIdempotencyConflict
  | ReasonInvalidTransition | ReasonNotFound | ReasonConcurrencyConflict | ReasonDependencyUnavailable

datatype status_error =
    ErrorWithReason code reason string
  | StatusError code string

type_synonym 'a rpc = "world \<Rightarrow> (status_error + 'a) \<times> world"

section \<open>validate.go\<close>

definition maxQuantity :: int where "maxQuantity = 10000"

definition is_alnum :: "char \<Rightarrow> bool" where
  "is_alnum c \<longleftrightarrow>
     (let n = of_char c :: nat in (65 \<le> n \<and> n \<le> 90) \<or> (97 \<le> n \<and> n \<le> 122) \<or> (48 \<le> n \<and> n \<le> 57))"

definition class_match :: "string \<Rightarrow> nat \<Rightarrow> nat \<Rightarrow> string \<Rightarrow> bool" where
  "class_match extra lo hi s \<longleftrightarrow>
     lo \<le> length s \<and> length s \<le> hi \<and> list_all (\<lambda>c. is_alnum c \<or> c \<in> set extra) s"

definition validSKUID :: "string \<Rightarrow> bool" where
  "validSKUID i = class_match ''._-'' 1 64 i"

definition validReservationID :: "string \<Rightarrow> bool" where
  "validReservationID i = class_match ''_.:-'' 1 186 i"

definition releaseReason_matches :: "string \<Rightarrow> bool" where
  "releaseReason_matches r = class_match ''_.-'' 0 64 r"

definition validDestinationRegion :: "string \<Rightarrow> bool" where
  "validDestinationRegion region = class_match ''_-'' 0 64 region"

definition errInvalidSKUID :: status_error where
  "errInvalidSKUID =
     ErrorWithReason InvalidArgument ReasonValidationError ''sku_ids entries must match [A-Za-z0-9._-]{1,64}''"

definition fieldReservationID :: string where "fieldReservationID = ''reservation_id''"

definition errInvalidReservationID :: "string \<Rightarrow> status_error" where
  "errInvalidReservationID field =
     ErrorWithReason InvalidArgument ReasonValidationError (field @ '' must match [A-Za-z0-9_.:-]{1,186}'')"

definition errInvalidDestinationRegion :: status_error where
  "errInvalidDestinationRegion =
     ErrorWithReason InvalidArgument ReasonValidationError ''destination_region must match [A-Za-z0-9_-]{0,64}''"

section \<open>What the patterns guarantee\<close>

lemma class_match_length: "class_match extra lo hi s \<Longrightarrow> length s \<le> hi"
  by (simp add: class_match_def)

lemma class_match_excludes:
  "class_match extra lo hi s \<Longrightarrow> \<not> is_alnum c \<Longrightarrow> c \<notin> set extra \<Longrightarrow> c \<notin> set s"
  by (auto simp: class_match_def list_all_iff)

lemma separators: "\<not> is_alnum (CHR '':'')" "\<not> is_alnum (CHR ''|'')"
  by (simp_all add: is_alnum_def)

lemma valid_sku_separators: "validSKUID s \<Longrightarrow> CHR '':'' \<notin> set s \<and> CHR ''|'' \<notin> set s"
  unfolding validSKUID_def using separators by (auto dest: class_match_excludes)

lemma valid_region_separators: "validDestinationRegion r \<Longrightarrow> CHR ''|'' \<notin> set r"
  unfolding validDestinationRegion_def using separators by (auto dest: class_match_excludes)

lemma varchar_length: "length s \<le> n \<Longrightarrow> varchar n s"
  unfolding varchar_def char_length_def using length_filter_le le_trans by blast

text \<open>\<open>res:<id>:<sku>\<close> fits \<open>command_id VARCHAR(255)\<close>: 4 + 186 + 1 + 64.\<close>

lemma ledger_id_fits:
  assumes "validReservationID rid" "validSKUID sku" "length pre = 4"
  shows "varchar 255 (pre @ rid @ '':'' @ sku)"
proof (rule varchar_length)
  have "length rid \<le> 186" "length sku \<le> 64"
    using assms(1,2) by (simp_all add: validReservationID_def validSKUID_def class_match_def)
  then show "length (pre @ rid @ '':'' @ sku) \<le> 255" using assms(3) by simp
qed

end
