(* ===== verification/Logic_Telemetry.thy ===== *)
theory Logic_Telemetry
  imports Pg_Session
begin

text \<open>
  \<open>internal/logic/v1/tracing.go\<close> and \<open>metrics.go\<close>: the span, metric and outcome helpers of the logic
  layer. The tracer, the meter and the logger are foreign; a call to one of them appends a record of
  it to the world's trace and does nothing else. Of the context only one thing matters to the code,
  whether the span it carries is recording (\<open>span.IsRecording()\<close>), which is the sampler's decision
  and therefore a field of the model's context.
\<close>

section \<open>Context and emission\<close>

record Context =
  ctx_recording :: bool

definition emit :: "telemetry \<Rightarrow> unit prog" where
  "emit t = (\<lambda>w. (Inr (), w\<lparr>w_trace := w_trace w @ [t]\<rparr>))"

text \<open>\<open>defer span.End()\<close>: whatever the body returns, the span is ended.\<close>

definition defer_span_end :: "'a prog \<Rightarrow> 'a prog" where
  "defer_span_end m = (\<lambda>w. case m w of (r, w') \<Rightarrow> (r, w'\<lparr>w_trace := w_trace w' @ [SpanEnd]\<rparr>))"

abbreviation skip :: "unit prog" where
  "skip \<equiv> return ()"

abbreviation seq :: "unit prog \<Rightarrow> 'a prog \<Rightarrow> 'a prog" where
  "seq m n \<equiv> bindE m (\<lambda>_. n)"

lemma seq_assoc: "seq a (seq b c) = seq (seq a b) c"
  by (auto simp: fun_eq_iff bindE_def split: prod.split sum.split)

section \<open>tracing.go\<close>

definition attrLayer :: string where "attrLayer = ''layer''"
definition attrOperation :: string where "attrOperation = ''operation''"
definition attrOutcome :: string where "attrOutcome = ''outcome''"
definition layerLogic :: string where "layerLogic = ''logic''"
definition opGetReservation :: string where "opGetReservation = ''get_reservation''"
definition opCheckAvailability :: string where "opCheckAvailability = ''check_availability''"
definition opBatchAvailability :: string where "opBatchAvailability = ''batch_get_availability''"

definition outcomeFulfillable :: string where "outcomeFulfillable = ''fulfillable''"
definition outcomeShortage :: string where "outcomeShortage = ''shortage''"
definition outcomeUnknownSKU :: string where "outcomeUnknownSKU = ''unknown_sku''"
definition outcomeError :: string where "outcomeError = ''error''"
definition opReserve :: string where "opReserve = ''reserve''"
definition opRelease :: string where "opRelease = ''release''"
definition opCommit :: string where "opCommit = ''commit''"
definition outcomeOK :: string where "outcomeOK = ''ok''"
definition outcomeReplayed :: string where "outcomeReplayed = ''replayed''"
definition outcomeInsufficient :: string where "outcomeInsufficient = ''insufficient''"
definition outcomeConflict :: string where "outcomeConflict = ''conflict''"
definition outcomeConcurrency :: string where "outcomeConcurrency = ''concurrency''"
definition outcomeInvalidTransition :: string where "outcomeInvalidTransition = ''invalid_transition''"
definition outcomeNotFound :: string where "outcomeNotFound = ''not_found''"

definition startLogicSpan :: "Context \<Rightarrow> string \<Rightarrow> unit prog" where
  "startLogicSpan ctx operation =
     emit (SpanStart (''inventory.'' @ operation) [(attrLayer, layerLogic), (attrOperation, operation)])"

text \<open>\<open>ctx, span := startLogicSpan(ctx, op); defer span.End()\<close> around a body.\<close>

definition with_span :: "Context \<Rightarrow> string \<Rightarrow> 'a prog \<Rightarrow> 'a prog" where
  "with_span ctx operation body = seq (startLogicSpan ctx operation) (defer_span_end body)"

definition setSpanOutcome :: "Context \<Rightarrow> string \<Rightarrow> unit prog" where
  "setSpanOutcome ctx outcome = emit (SpanAttribute attrOutcome outcome)"

definition recordBoundedSpanError :: "Context \<Rightarrow> string \<Rightarrow> unit prog" where
  "recordBoundedSpanError ctx operation =
     (if \<not> ctx_recording ctx then skip
      else emit (SpanError (operation @ ''_error'') (operation @ '' failed'')))"

definition recordSpanError :: "Context \<Rightarrow> string \<Rightarrow> goerr \<Rightarrow> unit prog" where
  "recordSpanError ctx operation err =
     (if errors_Is err Canceled then skip
      else seq (setSpanOutcome ctx outcomeError) (recordBoundedSpanError ctx operation))"

section \<open>metrics.go\<close>

definition checkCounter :: string where "checkCounter = ''inventory.check.total''"
definition reservationCounter :: string where "reservationCounter = ''inventory.reservation.total''"

definition recordCheck :: "Context \<Rightarrow> string \<Rightarrow> unit prog" where
  "recordCheck ctx outcome = emit (CounterAdd checkCounter [(''outcome'', outcome)])"

definition recordReservation :: "Context \<Rightarrow> string \<Rightarrow> string \<Rightarrow> unit prog" where
  "recordReservation ctx operation outcome =
     emit (CounterAdd reservationCounter [(''operation'', operation), (''outcome'', outcome)])"

section \<open>Reasoning about what is emitted\<close>

text \<open>
  A program emits within \<open>V\<close> if every record it appends to the trace is in \<open>V\<close>. One rule per
  construct; the database calls emit nothing.
\<close>

named_theorems emits_rules \<open>one rule per construct: which records a program appends to the trace\<close>

definition emits_within :: "telemetry set \<Rightarrow> 'a prog \<Rightarrow> bool" where
  "emits_within V m \<longleftrightarrow> (\<forall>w. \<exists>ts. w_trace (snd (m w)) = w_trace w @ ts \<and> set ts \<subseteq> V)"

lemma emits_withinI:
  "(\<And>w r w'. m w = (r, w') \<Longrightarrow> \<exists>ts. w_trace w' = w_trace w @ ts \<and> set ts \<subseteq> V) \<Longrightarrow> emits_within V m"
  unfolding emits_within_def by (metis prod.collapse)

lemma emits_withinD:
  "emits_within V m \<Longrightarrow> m w = (r, w') \<Longrightarrow> \<exists>ts. w_trace w' = w_trace w @ ts \<and> set ts \<subseteq> V"
  unfolding emits_within_def by (metis snd_conv)

lemma emits_mono: "emits_within U m \<Longrightarrow> U \<subseteq> V \<Longrightarrow> emits_within V m"
  unfolding emits_within_def by (metis subset_trans)

lemma emits_keep: "(\<And>w. w_trace (snd (m w)) = w_trace w) \<Longrightarrow> emits_within V m"
  unfolding emits_within_def by (metis append_Nil2 empty_set empty_subsetI)

lemma emits_return [emits_rules]: "emits_within V (return x)"
  and emits_fail [emits_rules]: "emits_within V (fail e)"
  by (rule emits_keep, simp add: return_def fail_def)+

lemma emits_emit: "t \<in> V \<Longrightarrow> emits_within V (emit t)"
  by (rule emits_withinI) (auto simp: emit_def)

lemma emits_try_bind [emits_rules]:
  assumes "emits_within V m" "\<And>e. emits_within V (h e)" "\<And>x. emits_within V (f x)"
  shows "emits_within V (try_bind m h f)"
proof (rule emits_withinI)
  fix w r w'
  assume run: "try_bind m h f w = (r, w')"
  obtain q u where m: "m w = (q, u)" by (cases "m w")
  have k: "emits_within V (case q of Inl e \<Rightarrow> h e | Inr x \<Rightarrow> f x)" (is "emits_within V ?k")
    using assms(2,3) by (cases q) simp_all
  have "?k u = (r, w')" using run m by (cases q) (simp_all add: try_bind_def)
  from emits_withinD [OF assms(1) m] emits_withinD [OF k this]
  show "\<exists>ts. w_trace w' = w_trace w @ ts \<and> set ts \<subseteq> V" by (metis append_assoc set_append Un_least)
qed

lemma bindE_try: "bindE m f = try_bind m fail f"
  by (auto simp: fun_eq_iff bindE_def try_bind_def fail_def split: prod.split sum.split)

lemma map_error_try: "map_error h m = try_bind m (\<lambda>e. fail (h e)) return"
  by (auto simp: fun_eq_iff map_error_def try_bind_def fail_def return_def split: prod.split sum.split)

lemma emits_bindE [emits_rules]:
  "emits_within V m \<Longrightarrow> (\<And>x. emits_within V (f x)) \<Longrightarrow> emits_within V (bindE m f)"
  unfolding bindE_try by (intro emits_rules)

lemma emits_map_error [emits_rules]: "emits_within V m \<Longrightarrow> emits_within V (map_error h m)"
  unfolding map_error_try by (intro emits_rules)

lemma emits_if [emits_rules]:
  "(b \<Longrightarrow> emits_within V m) \<Longrightarrow> (\<not> b \<Longrightarrow> emits_within V n) \<Longrightarrow> emits_within V (if b then m else n)"
  by simp

lemma emits_span_end [emits_rules]:
  assumes "emits_within V m" "SpanEnd \<in> V"
  shows "emits_within V (defer_span_end m)"
proof (rule emits_withinI)
  fix w r w'
  assume "defer_span_end m w = (r, w')"
  then obtain u where "m w = (r, u)" "w_trace w' = w_trace u @ [SpanEnd]"
    by (auto simp: defer_span_end_def split: prod.splits)
  with emits_withinD [OF assms(1)] assms(2)
  show "\<exists>ts. w_trace w' = w_trace w @ ts \<and> set ts \<subseteq> V" by fastforce
qed

text \<open>The database calls leave the trace alone.\<close>

lemma next_event_trace: "next_event w = (f, w') \<Longrightarrow> w_trace w' = w_trace w"
  by (cases "w_script w") (auto simp: next_event_def)

lemma emits_pool_query [emits_rules]: "emits_within V (pool_query f)"
  by (rule emits_keep) (auto simp: pool_query_def dest: next_event_trace split: prod.split fault.split)

lemma emits_begin [emits_rules]: "emits_within V pool_begin"
  by (rule emits_keep) (auto simp: pool_begin_def dest: next_event_trace split: prod.split fault.split)

lemma emits_stmt [emits_rules]: "emits_within V (tx_stmt f)"
  by (rule emits_keep)
     (auto simp: tx_stmt_def abort_tx_def dest: next_event_trace split: prod.split fault.split option.split sum.split)

lemma emits_query [emits_rules]: "emits_within V (tx_query f)"
  unfolding tx_query_def by (rule emits_stmt)

lemma emits_commit [emits_rules]: "emits_within V tx_commit"
  by (rule emits_keep)
     (auto simp: tx_commit_def tx_rollback_def dest: next_event_trace split: prod.split fault.split option.split)

lemma emits_defer_rollback [emits_rules]: "emits_within V m \<Longrightarrow> emits_within V (defer_rollback m)"
  unfolding emits_within_def by (simp add: defer_rollback_def tx_rollback_def split: prod.split)
    (metis snd_conv)

lemma emits_rollback_now [emits_rules]: "emits_within V rollback_now"
  by (rule emits_keep) (simp add: rollback_now_def tx_rollback_def)

lemma emits_nextval [emits_rules]:
  assumes "\<And>n. emits_within V (f n)"
  shows "emits_within V (tx_nextval f)"
proof (rule emits_withinI)
  fix w r w'
  assume "tx_nextval f w = (r, w')"
  from emits_withinD [OF assms this [unfolded tx_nextval_def]]
  show "\<exists>ts. w_trace w' = w_trace w @ ts \<and> set ts \<subseteq> V" by simp
qed

lemma emits_for_each [emits_rules]: "(\<And>x. emits_within V (f x)) \<Longrightarrow> emits_within V (for_each f xs)"
  by (induction f xs rule: for_each.induct) (auto intro: emits_rules)

lemma emits_option [emits_rules]:
  "emits_within V m \<Longrightarrow> (\<And>x. emits_within V (f x)) \<Longrightarrow> emits_within V (case r of None \<Rightarrow> m | Some x \<Rightarrow> f x)"
  by (cases r) simp_all

lemma emits_sum [emits_rules]:
  "(\<And>e. emits_within V (f e)) \<Longrightarrow> (\<And>x. emits_within V (g x)) \<Longrightarrow>
   emits_within V (case r of Inl e \<Rightarrow> f e | Inr x \<Rightarrow> g x)"
  by (cases r) simp_all

section \<open>Counting\<close>

text \<open>
  \<open>meters c m n\<close>: running \<open>m\<close> increments the counter \<open>c\<close> exactly \<open>n r\<close> times, where \<open>r\<close> is its
  result.
\<close>

fun is_count :: "string \<Rightarrow> telemetry \<Rightarrow> bool" where
  "is_count c (CounterAdd n as) = (n = c)"
| "is_count c _ = False"

definition counted :: "string \<Rightarrow> world \<Rightarrow> nat" where
  "counted c w = length (filter (is_count c) (w_trace w))"

definition meters :: "string \<Rightarrow> 'a prog \<Rightarrow> (goerr + 'a \<Rightarrow> nat) \<Rightarrow> bool" where
  "meters c m n \<longleftrightarrow> (\<forall>w. counted c (snd (m w)) = counted c w + n (fst (m w)))"

named_theorems meters_rules \<open>one rule per construct: how often a counter is incremented\<close>

lemma metersD: "meters c m n \<Longrightarrow> m w = (r, w') \<Longrightarrow> counted c w' = counted c w + n r"
  unfolding meters_def by (metis fst_conv snd_conv)

lemma meters_silent: "emits_within {} m \<Longrightarrow> meters c m (\<lambda>_. 0)"
  unfolding meters_def emits_within_def counted_def by (metis add.right_neutral append_Nil2 set_empty subset_empty)

lemma meters_return [meters_rules]: "n (Inr x) = 0 \<Longrightarrow> meters c (return x) n"
  and meters_fail [meters_rules]: "n (Inl e) = 0 \<Longrightarrow> meters c (fail e) n"
  by (simp_all add: meters_def return_def fail_def)

lemma meters_try [meters_rules]:
  assumes "emits_within {} m" "\<And>e. meters c (h e) n" "\<And>x. meters c (f x) n"
  shows "meters c (try_bind m h f) n"
  unfolding meters_def
proof
  fix w
  obtain q u where m: "m w = (q, u)" by (cases "m w")
  have "counted c u = counted c w" using metersD [OF meters_silent [OF assms(1)] m] by simp
  with assms(2,3) m show "counted c (snd (try_bind m h f w)) = counted c w + n (fst (try_bind m h f w))"
    by (cases q) (auto simp: try_bind_def meters_def)
qed

text \<open>A program of telemetry calls only always succeeds; \<open>k\<close> of them increment the counter.\<close>

definition counts :: "string \<Rightarrow> unit prog \<Rightarrow> nat \<Rightarrow> bool" where
  "counts c m k \<longleftrightarrow> (\<forall>w. fst (m w) = Inr () \<and> counted c (snd (m w)) = counted c w + k)"

named_theorems counts_rules \<open>counting for each telemetry call\<close>

lemma counts_emit [simp]: "counts c (emit t) k \<longleftrightarrow> k = (if is_count c t then 1 else 0)"
  by (auto simp: counts_def emit_def counted_def)

lemma counts_run:
  assumes "counts c m k"
  obtains u where "m w = (Inr (), u)" "counted c u = counted c w + k"
  using assms unfolding counts_def by (metis prod.collapse)

lemma counts_skip [counts_rules]: "counts c skip 0"
  by (simp add: counts_def return_def)

lemma counts_seq:
  assumes "counts c m j" "counts c n k"
  shows "counts c (seq m n) (j + k)"
  unfolding counts_def
proof
  fix w
  from assms(1) obtain u where "m w = (Inr (), u)" "counted c u = counted c w + j"
    unfolding counts_def by (metis prod.collapse)
  with assms(2) show "fst (seq m n w) = Inr () \<and> counted c (snd (seq m n w)) = counted c w + (j + k)"
    by (simp add: counts_def bindE_def)
qed

lemma counts_if: "(b \<Longrightarrow> counts c m k) \<Longrightarrow> (\<not> b \<Longrightarrow> counts c n k) \<Longrightarrow> counts c (if b then m else n) k"
  by simp

lemma counts_calls [counts_rules]:
  "counts checkCounter (recordCheck ctx outcome) 1"
  "counts reservationCounter (recordReservation ctx operation outcome) 1"
  "counts c (setSpanOutcome ctx outcome) 0"
  "counts c (startLogicSpan ctx operation) 0"
  "counts c (recordBoundedSpanError ctx operation) 0"
  by (simp_all add: recordCheck_def recordReservation_def setSpanOutcome_def startLogicSpan_def
      recordBoundedSpanError_def counts_skip)

lemma counts_recordSpanError [counts_rules]: "counts c (recordSpanError ctx operation err) 0"
  unfolding recordSpanError_def
  using counts_seq [OF counts_calls(3,5)] counts_skip by simp

lemma meters_seq:
  assumes "counts c m k" "meters c f n'" "\<And>r. n r = n' r + k"
  shows "meters c (seq m f) n"
  unfolding meters_def
proof
  fix w
  from assms(1) obtain u where "m w = (Inr (), u)" "counted c u = counted c w + k"
    unfolding counts_def by (metis prod.collapse)
  with assms(2,3) show "counted c (snd (seq m f w)) = counted c w + n (fst (seq m f w))"
    by (simp add: meters_def bindE_def)
qed

lemma meters_exact: "meters c m n \<Longrightarrow> (\<And>w. n (fst (m w)) = n' (fst (m w))) \<Longrightarrow> meters c m n'"
  by (simp add: meters_def)

lemma meters_after:
  fixes n :: "goerr + 'a \<Rightarrow> nat"
  assumes "counts c m k" "n (Inl e) = k"
  shows "meters c (seq m (fail e)) n"
proof -
  from assms(1) have "meters c (seq m (fail e)) (\<lambda>_. k)"
    by (rule meters_seq [where n' = "\<lambda>_. 0"]) (simp_all add: meters_fail)
  moreover have "fst (seq m (fail e :: 'a prog) w) = Inl e" for w
    by (rule counts_run [OF assms(1), of w]) (simp add: bindE_def fail_def)
  ultimately show ?thesis using assms(2) by (simp add: meters_def)
qed

lemma meters_answer:
  assumes "counts c m k" "n (Inr x) = k"
  shows "meters c (seq m (return x)) n"
proof -
  from assms(1) have "meters c (seq m (return x)) (\<lambda>_. k)"
    by (rule meters_seq [where n' = "\<lambda>_. 0"]) (simp_all add: meters_return)
  moreover have "fst (seq m (return x) w) = Inr x" for w
    by (rule counts_run [OF assms(1), of w]) (simp add: bindE_def return_def)
  ultimately show ?thesis using assms(2) by (simp add: meters_def)
qed

lemma meters_with_span:
  assumes "meters c m n"
  shows "meters c (with_span ctx operation m) n"
proof -
  have "meters c (defer_span_end m) n"
    using assms by (auto simp: meters_def defer_span_end_def counted_def split: prod.split)
       (metis fst_conv snd_conv)
  then show ?thesis unfolding with_span_def by (rule meters_seq [OF counts_calls(4)]) simp
qed

text \<open>What a command or check is expected to count: once, unless the caller hung up.\<close>

definition once_unless_canceled :: "goerr + 'a \<Rightarrow> nat" where
  "once_unless_canceled r = (case r of Inl e \<Rightarrow> (if errors_Is e Canceled then 0 else 1) | Inr _ \<Rightarrow> 1)"

lemma once_simps [simp]:
  "once_unless_canceled (Inl e) = (if errors_Is e Canceled then 0 else 1)"
  "once_unless_canceled (Inr x) = 1"
  by (simp_all add: once_unless_canceled_def)

end
