(* ===== verification/Reservation_Logic.thy ===== *)
theory Reservation_Logic
  imports Logic_Telemetry Call_Outcomes
begin

text \<open>
  \<open>internal/logic/v1/reservations.go\<close>: the reservation service over a \<open>ReservationStore\<close>. It
  aggregates the basket, classifies failures and records one outcome per command on metric, span and
  debug log. The store is a record of programs, interpreted on the repository of \<open>Reservation_Repo\<close>.
\<close>

record ReservationStore =
  st_Reserve :: "ReservationRequest \<Rightarrow> ReservationResult prog"
  st_Release :: "string \<Rightarrow> string \<Rightarrow> string prog"
  st_Commit :: "string \<Rightarrow> string prog"
  st_GetReservation :: "string \<Rightarrow> Reservation prog"

definition reservation_repository :: ReservationStore where
  "reservation_repository =
     \<lparr>st_Reserve = Reserve, st_Release = Release, st_Commit = Commit, st_GetReservation = GetReservation\<rparr>"

section \<open>Outcomes\<close>

definition failureOutcome :: "goerr \<Rightarrow> string" where
  "failureOutcome err =
     (if errors_Is err ErrUnknownSKU then outcomeUnknownSKU
      else if errors_Is err ErrInsufficientStock then outcomeInsufficient
      else if errors_Is err ErrIdempotencyConflict then outcomeConflict
      else if errors_Is err ErrConcurrencyConflict then outcomeConcurrency
      else if errors_Is err ErrInvalidTransition then outcomeInvalidTransition
      else if errors_Is err ErrReservationNotFound then outcomeNotFound
      else outcomeError)"

definition logOutcome :: "Context \<Rightarrow> string \<Rightarrow> string \<Rightarrow> unit prog" where
  "logOutcome ctx operation outcome =
     emit (LogDebug ''reservation outcome'' [(attrOperation, operation), (attrOutcome, outcome)])"

definition logRejected :: "Context \<Rightarrow> string \<Rightarrow> string \<Rightarrow> unit prog" where
  "logRejected ctx ref outcome =
     (if outcome \<noteq> outcomeInsufficient \<and> outcome \<noteq> outcomeUnknownSKU then skip
      else emit (LogEvent ''inventory.reservation.rejected'' ''reservation rejected''
             [(''inventory.reservation.ref'', ref), (attrOutcome, outcome)]))"

definition finishOK :: "Context \<Rightarrow> string \<Rightarrow> string \<Rightarrow> unit prog" where
  "finishOK ctx operation outcome =
     seq (recordReservation ctx operation outcome)
       (seq (setSpanOutcome ctx outcome) (logOutcome ctx operation outcome))"

definition finishFailure :: "Context \<Rightarrow> string \<Rightarrow> goerr \<Rightarrow> unit prog" where
  "finishFailure ctx operation err =
     (if errors_Is err Canceled then skip
      else
        (let outcome = failureOutcome err
         in seq (recordReservation ctx operation outcome)
              (seq (setSpanOutcome ctx outcome)
                (seq (if outcome = outcomeError then recordBoundedSpanError ctx operation else skip)
                  (logOutcome ctx operation outcome)))))"

section \<open>The operations\<close>

definition service_Reserve ::
  "ReservationStore \<Rightarrow> Context \<Rightarrow> ReservationRequest \<Rightarrow> ReservationResult prog" where
  "service_Reserve repo ctx req =
     with_span ctx opReserve (
       try_bind (st_Reserve repo (req\<lparr>rq_Items := AggregateLines (rq_Items req)\<rparr>))
         (\<lambda>err. seq (finishFailure ctx opReserve err)
            (seq (logRejected ctx (rq_ID req) (failureOutcome err)) (fail (errorf_w ''reserve: '' err))))
         (\<lambda>res. seq (finishOK ctx opReserve (if rr_Replayed res then outcomeReplayed else outcomeOK))
            (return res)))"

definition service_Release :: "ReservationStore \<Rightarrow> Context \<Rightarrow> string \<Rightarrow> string \<Rightarrow> string prog" where
  "service_Release repo ctx rid reason =
     with_span ctx opRelease (
       try_bind (st_Release repo rid reason)
         (\<lambda>err. seq (finishFailure ctx opRelease err) (fail (errorf_w ''release: '' err)))
         (\<lambda>status. seq (finishOK ctx opRelease outcomeOK) (return status)))"

definition service_Commit :: "ReservationStore \<Rightarrow> Context \<Rightarrow> string \<Rightarrow> string prog" where
  "service_Commit repo ctx rid =
     with_span ctx opCommit (
       try_bind (st_Commit repo rid)
         (\<lambda>err. seq (finishFailure ctx opCommit err) (fail (errorf_w ''commit: '' err)))
         (\<lambda>status. seq (finishOK ctx opCommit outcomeOK) (return status)))"

definition service_GetReservation :: "ReservationStore \<Rightarrow> Context \<Rightarrow> string \<Rightarrow> Reservation prog" where
  "service_GetReservation repo ctx rid =
     with_span ctx opGetReservation (
       try_bind (st_GetReservation repo rid)
         (\<lambda>err.
            seq (if \<not> errors_Is err Canceled
                 then (let outcome = failureOutcome err
                       in seq (setSpanOutcome ctx outcome)
                            (if outcome = outcomeError then recordBoundedSpanError ctx opGetReservation else skip))
                 else skip)
              (fail (errorf_w ''get reservation: '' err)))
         (\<lambda>res. seq (setSpanOutcome ctx outcomeOK) (return res)))"

section \<open>What the logic relies on\<close>

text \<open>
  The contract of the store: whatever runs concurrently, the success of a command means what
  \<open>Reservation_Safety\<close> and \<open>Transition_Safety\<close> state, and the store itself emits no telemetry.
\<close>

locale reservation_store =
  fixes repo :: ReservationStore
  assumes reserve_law: "concurrent w \<Longrightarrow> st_Reserve repo req w = (Inr res, w') \<Longrightarrow>
      db_inv (w_db w') \<and> db_guar (w_db w) (w_db w') \<and> reserve_answer req res (w_db w')"
    and release_law: "concurrent w \<Longrightarrow> st_Release repo rid reason w = (Inr s, w') \<Longrightarrow>
      db_inv (w_db w') \<and> db_guar (w_db w) (w_db w') \<and>
      transition_answer True rid ReservationReleased (w_db w) s (w_db w')"
    and commit_law: "concurrent w \<Longrightarrow> st_Commit repo rid w = (Inr s, w') \<Longrightarrow>
      db_inv (w_db w') \<and> db_guar (w_db w) (w_db w') \<and>
      transition_answer False rid ReservationCommitted (w_db w) s (w_db w')"
    and silent_law: "emits_within {} (st_Reserve repo req)" "emits_within {} (st_Release repo rid reason)"
      "emits_within {} (st_Commit repo rid)" "emits_within {} (st_GetReservation repo rid)"

lemma concurrent_trace [simp]: "concurrent (w\<lparr>w_trace := t\<rparr>) = concurrent w"
  by (simp add: concurrent_def)

lemma finish_counts:
  "counts reservationCounter (finishOK ctx operation outcome) 1"
  "counts reservationCounter (finishFailure ctx operation err) (if errors_Is err Canceled then 0 else 1)"
proof -
  have log: "counts reservationCounter (logOutcome ctx operation outcome) 0" for outcome
    by (simp add: logOutcome_def)
  show "counts reservationCounter (finishOK ctx operation outcome) 1"
    unfolding finishOK_def
    using counts_seq [OF counts_calls(2) counts_seq [OF counts_calls(3) log]] by simp
  have "counts reservationCounter (if outcome = outcomeError then recordBoundedSpanError ctx operation else skip) 0"
    for outcome by (simp add: counts_calls(5) counts_skip)
  from counts_seq [OF counts_calls(2) counts_seq [OF counts_calls(3) counts_seq [OF this log]]]
  show "counts reservationCounter (finishFailure ctx operation err) (if errors_Is err Canceled then 0 else 1)"
    by (simp add: finishFailure_def Let_def counts_skip)
qed

lemma rejected_counts: "counts reservationCounter (logRejected ctx ref outcome) 0"
  by (simp add: logRejected_def counts_skip)

text \<open>A telemetry call in front of an answer: the answer, and a world that differs in its trace only.\<close>

definition trace_only :: "unit prog \<Rightarrow> bool" where
  "trace_only m \<longleftrightarrow> (\<forall>w. \<exists>t. m w = (Inr (), w\<lparr>w_trace := t\<rparr>))"

lemma trace_only_rules:
  "trace_only (emit t)" "trace_only skip"
  "trace_only m \<Longrightarrow> trace_only n \<Longrightarrow> trace_only (seq m n)"
  "trace_only m \<Longrightarrow> trace_only n \<Longrightarrow> trace_only (if b then m else n)"
proof -
  show "trace_only (emit t)" by (simp add: trace_only_def emit_def) (metis)
  have "w = w\<lparr>w_trace := w_trace w\<rparr>" for w :: world by simp
  then show "trace_only skip" unfolding trace_only_def return_def by blast
  show "trace_only (seq m n)" if m: "trace_only m" and n: "trace_only n"
    unfolding trace_only_def
  proof
    fix w
    obtain t where t: "m w = (Inr (), w\<lparr>w_trace := t\<rparr>)" using m unfolding trace_only_def by blast
    obtain u where "n (w\<lparr>w_trace := t\<rparr>) = (Inr (), w\<lparr>w_trace := t\<rparr>\<lparr>w_trace := u\<rparr>)"
      using n unfolding trace_only_def by blast
    with t show "\<exists>u. seq m n w = (Inr (), w\<lparr>w_trace := u\<rparr>)" by (simp add: bindE_def) metis
  qed
qed simp

lemma trace_only_calls:
  "trace_only (finishOK ctx operation outcome)" "trace_only (finishFailure ctx operation err)"
  "trace_only (logRejected ctx ref outcome)"
  unfolding finishOK_def finishFailure_def logRejected_def recordReservation_def setSpanOutcome_def logOutcome_def
    recordBoundedSpanError_def Let_def
  by (intro trace_only_rules)+

text \<open>
  The shape every operation of the service has: the store's call runs in a world that differs in its
  trace only, and its result is passed on with the error wrapped.
\<close>

lemma service_run:
  assumes "\<And>e. trace_only (k e)" "\<And>x. trace_only (j x)"
  obtains t q u t' where "m (w\<lparr>w_trace := t\<rparr>) = (q, u)"
    "with_span ctx operation (try_bind m (\<lambda>e. seq (k e) (fail (h e))) (\<lambda>x. seq (j x) (return x))) w =
       (map_sum h id q, u\<lparr>w_trace := t'\<rparr>)"
proof -
  let ?t = "w_trace w @ [SpanStart (''inventory.'' @ operation) [(attrLayer, layerLogic), (attrOperation, operation)]]"
  obtain q u where m: "m (w\<lparr>w_trace := ?t\<rparr>) = (q, u)" by (cases "m (w\<lparr>w_trace := ?t\<rparr>)")
  have "\<exists>t'. with_span ctx operation (try_bind m (\<lambda>e. seq (k e) (fail (h e))) (\<lambda>x. seq (j x) (return x))) w =
       (map_sum h id q, u\<lparr>w_trace := t'\<rparr>)"
  proof (cases q)
    case (Inl e)
    obtain s where "k e u = (Inr (), u\<lparr>w_trace := s\<rparr>)" using assms(1) unfolding trace_only_def by blast
    with m Inl show ?thesis
      by (auto simp: with_span_def startLogicSpan_def bindE_def emit_def defer_span_end_def try_bind_def fail_def)
  next
    case (Inr x)
    obtain s where "j x u = (Inr (), u\<lparr>w_trace := s\<rparr>)" using assms(2) unfolding trace_only_def by blast
    with m Inr show ?thesis
      by (auto simp: with_span_def startLogicSpan_def bindE_def emit_def defer_span_end_def try_bind_def return_def)
  qed
  with m that show ?thesis by blast
qed

lemma service_Reserve_run:
  obtains t q u t' where
    "st_Reserve repo (req\<lparr>rq_Items := AggregateLines (rq_Items req)\<rparr>) (w\<lparr>w_trace := t\<rparr>) = (q, u)"
    "service_Reserve repo ctx req w = (map_sum (errorf_w ''reserve: '') id q, u\<lparr>w_trace := t'\<rparr>)"
  unfolding service_Reserve_def seq_assoc
  by (erule service_run [rotated 2]) (auto intro: trace_only_calls trace_only_rules)

lemma service_Release_run:
  obtains t q u t' where "st_Release repo rid reason (w\<lparr>w_trace := t\<rparr>) = (q, u)"
    "service_Release repo ctx rid reason w = (map_sum (errorf_w ''release: '') id q, u\<lparr>w_trace := t'\<rparr>)"
  unfolding service_Release_def by (erule service_run [rotated 2]) (auto intro: trace_only_calls)

lemma service_Commit_run:
  obtains t q u t' where "st_Commit repo rid (w\<lparr>w_trace := t\<rparr>) = (q, u)"
    "service_Commit repo ctx rid w = (map_sum (errorf_w ''commit: '') id q, u\<lparr>w_trace := t'\<rparr>)"
  unfolding service_Commit_def by (erule service_run [rotated 2]) (auto intro: trace_only_calls)

section \<open>The logic over any store\<close>

context reservation_store
begin

lemma Reserve_sound:
  assumes "concurrent w" "service_Reserve repo ctx req w = (Inr res, w')"
  shows "db_inv (w_db w') \<and> db_guar (w_db w) (w_db w') \<and>
    reserve_answer (req\<lparr>rq_Items := AggregateLines (rq_Items req)\<rparr>) res (w_db w')"
proof (rule service_Reserve_run [of repo req w ctx])
  fix t q u t'
  assume run: "st_Reserve repo (req\<lparr>rq_Items := AggregateLines (rq_Items req)\<rparr>) (w\<lparr>w_trace := t\<rparr>) = (q, u)"
    and srv: "service_Reserve repo ctx req w = (map_sum (errorf_w ''reserve: '') id q, u\<lparr>w_trace := t'\<rparr>)"
  from srv assms(2) have q: "q = Inr res" "w_db w' = w_db u" by (cases q; auto)+
  from assms(1) have "concurrent (w\<lparr>w_trace := t\<rparr>)" by simp
  from reserve_law [OF this run [unfolded q(1)]] show ?thesis by (simp add: q(2))
qed

lemma Release_sound:
  assumes "concurrent w" "service_Release repo ctx rid reason w = (Inr s, w')"
  shows "db_inv (w_db w') \<and> db_guar (w_db w) (w_db w') \<and>
    transition_answer True rid ReservationReleased (w_db w) s (w_db w')"
proof (rule service_Release_run [of repo rid reason w ctx])
  fix t q u t'
  assume run: "st_Release repo rid reason (w\<lparr>w_trace := t\<rparr>) = (q, u)"
    and srv: "service_Release repo ctx rid reason w = (map_sum (errorf_w ''release: '') id q, u\<lparr>w_trace := t'\<rparr>)"
  from srv assms(2) have q: "q = Inr s" "w_db w' = w_db u" by (cases q; auto)+
  from assms(1) have "concurrent (w\<lparr>w_trace := t\<rparr>)" by simp
  from release_law [OF this run [unfolded q(1)]] show ?thesis by (simp add: q(2))
qed

lemma Commit_sound:
  assumes "concurrent w" "service_Commit repo ctx rid w = (Inr s, w')"
  shows "db_inv (w_db w') \<and> db_guar (w_db w) (w_db w') \<and>
    transition_answer False rid ReservationCommitted (w_db w) s (w_db w')"
proof (rule service_Commit_run [of repo rid w ctx])
  fix t q u t'
  assume run: "st_Commit repo rid (w\<lparr>w_trace := t\<rparr>) = (q, u)"
    and srv: "service_Commit repo ctx rid w = (map_sum (errorf_w ''commit: '') id q, u\<lparr>w_trace := t'\<rparr>)"
  from srv assms(2) have q: "q = Inr s" "w_db w' = w_db u" by (cases q; auto)+
  from assms(1) have "concurrent (w\<lparr>w_trace := t\<rparr>)" by simp
  from commit_law [OF this run [unfolded q(1)]] show ?thesis by (simp add: q(2))
qed

lemma metered:
  "meters reservationCounter (service_Reserve repo ctx req) once_unless_canceled"
  "meters reservationCounter (service_Release repo ctx rid reason) once_unless_canceled"
  "meters reservationCounter (service_Commit repo ctx rid) once_unless_canceled"
proof -
  have failed: "meters reservationCounter (seq (finishFailure ctx operation e) (fail (errorf_w pre e))) once_unless_canceled"
    for operation e pre by (rule meters_after [OF finish_counts(2)]) simp
  have answered: "meters reservationCounter (seq (finishOK ctx operation outcome) (return x)) once_unless_canceled"
    for operation outcome x by (rule meters_answer [OF finish_counts(1)]) simp
  show "meters reservationCounter (service_Release repo ctx rid reason) once_unless_canceled"
    "meters reservationCounter (service_Commit repo ctx rid) once_unless_canceled"
    unfolding service_Release_def service_Commit_def
    by (intro meters_with_span meters_try silent_law failed answered)+
  have rejected: "meters reservationCounter (seq (seq (finishFailure ctx opReserve e) (logRejected ctx ref outcome))
      (fail (errorf_w pre e))) once_unless_canceled" for e ref outcome pre
    by (rule meters_after [OF counts_seq [OF finish_counts(2) rejected_counts]]) simp
  show "meters reservationCounter (service_Reserve repo ctx req) once_unless_canceled"
    unfolding service_Reserve_def seq_assoc by (intro meters_with_span meters_try silent_law rejected answered)
qed

end

section \<open>Calls that run alone\<close>

abbreviation aggregated :: "ReservationRequest \<Rightarrow> ReservationRequest" where
  "aggregated req \<equiv> req\<lparr>rq_Items := AggregateLines (rq_Items req)\<rparr>"

lemma quiet_trace [simp]: "quiet (w\<lparr>w_trace := t\<rparr>) = quiet w"
  by (simp add: quiet_def)

lemma service_Reserve_quiet:
  assumes "quiet w"
    and "\<And>u. quiet u \<Longrightarrow> w_db u = w_db w \<Longrightarrow>
      \<exists>u'. st_Reserve repo (aggregated req) u = (q, u') \<and> quiet u' \<and> P (w_db u')"
  shows "\<exists>w'. service_Reserve repo ctx req w = (map_sum (errorf_w ''reserve: '') id q, w') \<and> quiet w' \<and> P (w_db w')"
proof (rule service_Reserve_run [of repo req w ctx])
  fix t x u t'
  assume "st_Reserve repo (aggregated req) (w\<lparr>w_trace := t\<rparr>) = (x, u)"
    and "service_Reserve repo ctx req w = (map_sum (errorf_w ''reserve: '') id x, u\<lparr>w_trace := t'\<rparr>)"
  with assms(2) [of "w\<lparr>w_trace := t\<rparr>"] assms(1) show ?thesis by auto
qed

section \<open>The repository is such a store\<close>

lemma repository_silent:
  "emits_within {} (Reserve req)" "emits_within {} (Release rid reason)"
  "emits_within {} (Commit rid)" "emits_within {} (GetReservation rid)"
proof -
  have q: "emits_within {} (query q f)" for q and f :: "db \<Rightarrow> 'a"
    by (cases q) (simp_all add: query_def emits_rules)
  have row: "emits_within {} m \<Longrightarrow> emits_within {} (scan_row m)" for m :: "'a option prog"
    unfolding scan_row_def by (intro emits_rules)
  have lines: "emits_within {} (loadReservationLines q rid)" for q rid
    unfolding loadReservationLines_def by (intro emits_rules q)
  have replay: "emits_within {} (replayReservation q rid ref hash)" for q rid ref hash
    unfolding replayReservation_def by (intro emits_rules row q lines)
  have movement: "emits_within {} (insertReservationMovement c a ty dh dr rid reason)" for c a ty dh dr rid reason
    unfolding insertReservationMovement_def by (intro emits_rules)
  have classify: "emits_within {} (classifyReservationFailure items short :: 'a prog)" for items short
    unfolding classifyReservationFailure_def Let_def by (intro emits_rules)
  have allocate: "emits_within {} (allocateReservation items)" for items
    unfolding allocateReservation_def activeATPSnapshot_def lockWarehouseATP_def Let_def case_prod_beta
    by (intro emits_rules classify)
  show "emits_within {} (Reserve req)"
    unfolding Reserve_def Let_def claimReservation_def applyReserve_def
    by (intro emits_rules replay allocate movement)
  have tr: "emits_within {} (transition rid tgt decide line)" if "\<And>a. emits_within {} (line a)" for rid tgt decide line
    unfolding transition_def by (intro emits_rules row lines that)
  show "emits_within {} (Release rid reason)" "emits_within {} (Commit rid)"
    unfolding Release_def Commit_def release_line_def commit_line_def by (intro tr emits_rules movement)+
  show "emits_within {} (GetReservation rid)"
    unfolding GetReservation_def by (intro emits_rules row lines)
qed

interpretation store: reservation_store reservation_repository
  by unfold_locales
    (simp_all add: reservation_repository_def repository_silent concurrent_run [OF _ Reserve_rule]
      concurrent_run [OF _ Release_rule] concurrent_run [OF _ Commit_rule])

end
