(* ===== verification/Availability_Repo.thy ===== *)
theory Availability_Repo
  imports Reservation_Repo Allocation_Choice
begin

text \<open>
  \<open>internal/core/repository/availability.go\<close>: the three availability reads. Each is one or two
  queries on the pool, outside any transaction, so two queries of one call may see different
  committed states. As in \<open>Reservation_Repo\<close>, a failure met while rows are iterated or scanned is
  the failure of the query that produced them.
\<close>

section \<open>SQL\<close>

text \<open>
  The grouped sum is computed in \<open>numeric\<close> and cast back with \<open>::bigint\<close>, which fails with 22003
  when a total leaves the range. The order of the groups is irrelevant: the rows fill a map.
\<close>

definition promisable :: "db \<Rightarrow> string \<Rightarrow> balance_key \<times> balance_row \<Rightarrow> bool" where
  "promisable d s kr \<longleftrightarrow> fst (fst kr) = s \<and> is_active d (snd (fst kr))"

definition atp_total :: "db \<Rightarrow> string \<Rightarrow> int" where
  "atp_total d s = (\<Sum>kr \<leftarrow> filter (promisable d s) (balances d). row_atp (snd kr))"

definition promisable_skus :: "string list \<Rightarrow> db \<Rightarrow> string list" where
  "promisable_skus skus d =
     remdups (map (fst \<circ> fst) (filter (\<lambda>kr. fst (fst kr) \<in> set skus \<and> is_active d (snd (fst kr))) (balances d)))"

definition select_batch_atp :: "string list \<Rightarrow> db \<Rightarrow> string + (string \<times> int) list" where
  "select_batch_atp skus d =
     (let groups = map (\<lambda>s. (s, atp_total d s)) (promisable_skus skus d)
      in if list_all (\<lambda>g. int64_range (snd g)) groups then Inr groups else Inl ''22003'')"

text \<open>A query on the pool that the server may refuse with an SQLSTATE.\<close>

definition pool_query_checked :: "(db \<Rightarrow> string + 'a) \<Rightarrow> 'a prog" where
  "pool_query_checked f =
     bindE (pool_query f) (\<lambda>r. case r of Inl code \<Rightarrow> fail (PgError code) | Inr x \<Rightarrow> return x)"

section \<open>The reads\<close>

definition BatchATP :: "string list \<Rightarrow> (string \<rightharpoonup> int) prog" where
  "BatchATP skuIDs =
     bindE (map_error (errorf_w ''batch atp: '') (pool_query_checked (select_batch_atp skuIDs)))
       (\<lambda>rows. return (fill_atp rows Map.empty))"

definition ActiveWarehouseBalances :: "string list \<Rightarrow> ((int \<rightharpoonup> (string \<rightharpoonup> int)) \<times> int list) prog" where
  "ActiveWarehouseBalances skuIDs =
     bindE (map_error (errorf_w ''active warehouse ids: '') (pool_query select_active_ids)) (\<lambda>activeIDs.
     bindE (map_error (errorf_w ''active warehouse balances: '') (pool_query (select_atp_rows skuIDs))) (\<lambda>rows.
       return (fill_by_warehouse rows Map.empty, activeIDs)))"

definition TrackedSKUs :: "string list \<Rightarrow> (string \<rightharpoonup> bool) prog" where
  "TrackedSKUs skuIDs =
     bindE (map_error (errorf_w ''tracked skus: '') (pool_query (select_tracked skuIDs)))
       (\<lambda>rows. return (fill_tracked rows Map.empty))"

section \<open>What the maps contain\<close>

definition promised_anywhere :: "db \<Rightarrow> string \<Rightarrow> bool" where
  "promised_anywhere d s \<longleftrightarrow> (\<exists>kr \<in> set (balances d). promisable d s kr)"

definition tracked_sku :: "db \<Rightarrow> string \<Rightarrow> bool" where
  "tracked_sku d s \<longleftrightarrow> s \<in> fst ` fst ` set (balances d)"

lemma set_promisable_skus: "set (promisable_skus skus d) = {s \<in> set skus. promised_anywhere d s}"
  by (auto simp: promisable_skus_def promised_anywhere_def promisable_def image_iff)

lemma batch_map:
  "fill_atp (map (\<lambda>s. (s, atp_total d s)) (promisable_skus skus d)) Map.empty =
     (\<lambda>s. if s \<in> set skus \<and> promised_anywhere d s then Some (atp_total d s) else None)"
proof -
  let ?rows = "map (\<lambda>s. (s, atp_total d s)) (promisable_skus skus d)"
  have "map_of (rev ?rows) = (\<lambda>s. if s \<in> set skus \<and> promised_anywhere d s then Some (atp_total d s) else None)"
  proof (rule map_of_rows)
    show "distinct (map fst ?rows)" by (simp add: comp_def promisable_skus_def)
    fix s n
    show "(s, n) \<in> set ?rows \<longleftrightarrow>
        (if s \<in> set skus \<and> promised_anywhere d s then Some (atp_total d s) else None) = Some n"
      by (auto simp: set_promisable_skus)
  qed
  then show ?thesis by (simp add: fill_atp_map)
qed

lemma tracked_scan:
  "s \<in> set skus \<Longrightarrow> mget_bool (fill_tracked (select_tracked skus d) Map.empty) s = tracked_sku d s"
  by (auto simp: fill_tracked_map mget_bool_def select_tracked_def tracked_sku_def image_image)

text \<open>The batch total is the sum of the per-warehouse floors over the active warehouses.\<close>

lemma sum_list_filter_if: "(\<Sum>x \<leftarrow> filter P xs. (f x :: int)) = (\<Sum>x \<leftarrow> xs. if P x then f x else 0)"
  by (induction xs) simp_all

lemma atp_total_nonneg: "0 \<le> atp_total d s"
  unfolding atp_total_def by (rule sum_list_nonneg) (auto simp: row_atp_nonneg)

lemma atp_total_sum:
  assumes "distinct (map fst (balances d))" "distinct (map fst (warehouses d))"
  shows "atp_total d s = (\<Sum>w \<leftarrow> select_active_ids d. atp_at d w s)"
proof -
  have dist: "distinct (select_active_ids d)"
    unfolding select_active_ids_def distinct_sort using assms(2) by (rule distinct_map_filter)
  have one: "(\<Sum>w \<leftarrow> ws. if w = v then x else 0) = (if v \<in> set ws then x else 0)"
    if "distinct ws" for ws :: "int list" and v and x :: int
    using that by (induction ws) auto
  have "(\<Sum>kr \<leftarrow> t. if promisable d s kr then row_atp (snd kr) else 0) =
      (\<Sum>w \<leftarrow> select_active_ids d. case map_of t (s, w) of None \<Rightarrow> 0 | Some r \<Rightarrow> row_atp r)"
    if "distinct (map fst t)" for t
    using that
  proof (induction t)
    case Nil
    then show ?case by (simp add: sum_list_0)
  next
    case (Cons kr t)
    obtain s' v r where kr: "kr = ((s', v), r)" by (metis prod.collapse)
    have fresh: "map_of t (s', v) = None" using Cons.prems by (auto simp: kr map_of_eq_None_iff)
    have "(case map_of (kr # t) (s, w) of None \<Rightarrow> 0 | Some r \<Rightarrow> row_atp r) =
        (if w = v then if s' = s then row_atp r else 0 else 0) +
        (case map_of t (s, w) of None \<Rightarrow> 0 | Some r \<Rightarrow> row_atp r)" for w
      using fresh by (auto simp: kr)
    then show ?case
      using Cons one [OF dist] in_select_active_ids [OF assms(2), of v]
      by (simp add: sum_list_addf promisable_def kr)
  qed
  from this [OF assms(1)] show ?thesis
    by (simp add: atp_total_def sum_list_filter_if atp_at_def)
qed

end
