(* ===== verification/Availability_Logic.thy ===== *)
theory Availability_Logic
  imports Logic_Telemetry Availability_Repo Quiet_Runs
begin

text \<open>
  \<open>internal/logic/v1/availability.go\<close>: the two read operations over an \<open>AvailabilityReader\<close>. The
  interface is a record of programs, as a Go interface value is; the locale states what the logic
  relies on, and it is interpreted on the repository of \<open>Availability_Repo\<close>.
\<close>

section \<open>Types\<close>

definition lowStockThreshold :: int where "lowStockThreshold = 5"

datatype AvailabilityStatus = StatusUnknown | StatusInStock | StatusLowStock | StatusOutOfStock

record SkuAvailability =
  sa_SKUID :: string
  sa_Status :: AvailabilityStatus
  sa_ATP :: int

record CheckItem =
  ci_SKUID :: string
  ci_Quantity :: int

record ShortageLine =
  sl_SKUID :: string
  sl_Requested :: int
  sl_ATP :: int

record CheckResult =
  cr_CanFulfill :: bool
  cr_Shortages :: "ShortageLine list"
  cr_UnknownSKUIDs :: "string list"

record AvailabilityReader =
  rd_BatchATP :: "string list \<Rightarrow> (string \<rightharpoonup> int) prog"
  rd_ActiveWarehouseBalances :: "string list \<Rightarrow> ((int \<rightharpoonup> (string \<rightharpoonup> int)) \<times> int list) prog"
  rd_TrackedSKUs :: "string list \<Rightarrow> (string \<rightharpoonup> bool) prog"

definition availability_repository :: AvailabilityReader where
  "availability_repository =
     \<lparr>rd_BatchATP = BatchATP, rd_ActiveWarehouseBalances = ActiveWarehouseBalances, rd_TrackedSKUs = TrackedSKUs\<rparr>"

section \<open>BatchGetAvailability\<close>

definition statusFor :: "int \<Rightarrow> AvailabilityStatus" where
  "statusFor atp =
     (if atp \<le> 0 then StatusOutOfStock
      else if atp < lowStockThreshold then StatusLowStock
      else StatusInStock)"

definition absent :: "(string \<rightharpoonup> int) \<Rightarrow> string list \<Rightarrow> string list" where
  "absent m skuIDs = filter (\<lambda>i. m i = None) skuIDs"

text \<open>\<open>if len(missing) > 0 \{ tracked, err = repo.TrackedSKUs(ctx, missing) \}\<close>.\<close>

definition lookup_tracked :: "AvailabilityReader \<Rightarrow> string list \<Rightarrow> (string \<rightharpoonup> bool) prog" where
  "lookup_tracked repo missing =
     (if length missing > 0 then rd_TrackedSKUs repo missing else return Map.empty)"

definition sku_answer :: "(string \<rightharpoonup> int) \<Rightarrow> (string \<rightharpoonup> bool) \<Rightarrow> string \<Rightarrow> SkuAvailability" where
  "sku_answer atps tracked i =
     (case atps i of
        Some atp \<Rightarrow> \<lparr>sa_SKUID = i, sa_Status = statusFor atp, sa_ATP = atp\<rparr>
      | None \<Rightarrow>
          (if mget_bool tracked i then \<lparr>sa_SKUID = i, sa_Status = StatusOutOfStock, sa_ATP = 0\<rparr>
           else \<lparr>sa_SKUID = i, sa_Status = StatusUnknown, sa_ATP = 0\<rparr>))"

definition batch_failed :: "Context \<Rightarrow> goerr \<Rightarrow> 'a prog" where
  "batch_failed ctx err =
     seq (recordSpanError ctx opBatchAvailability err) (fail (errorf_w ''batch get availability: '' err))"

definition BatchGetAvailability ::
  "AvailabilityReader \<Rightarrow> Context \<Rightarrow> string list \<Rightarrow> SkuAvailability list prog" where
  "BatchGetAvailability repo ctx skuIDs =
     with_span ctx opBatchAvailability (
       try_bind (rd_BatchATP repo skuIDs) (batch_failed ctx) (\<lambda>atps.
       try_bind (lookup_tracked repo (absent atps skuIDs)) (batch_failed ctx) (\<lambda>tracked.
         seq (setSpanOutcome ctx outcomeOK) (return (map (sku_answer atps tracked) skuIDs)))))"

section \<open>CheckAvailability\<close>

fun fulfills :: "(string \<rightharpoonup> int) \<Rightarrow> CheckItem list \<Rightarrow> bool" where
  "fulfills atp [] = True"
| "fulfills atp (it # items) =
     (if mget atp (ci_SKUID it) < ci_Quantity it then False else fulfills atp items)"

text \<open>
  The verb \<open>%q\<close> (\<open>strconv.Quote\<close>) on an ASCII string; bytes from 128 on, which the transport never
  lets through, are kept as they are.
\<close>

definition hex_digit :: "nat \<Rightarrow> char" where
  "hex_digit d = char_of (if d < 10 then 48 + d else 87 + d)"

definition quote_char :: "char \<Rightarrow> string" where
  "quote_char c =
     (let n = of_char c :: nat
      in if n = 34 \<or> n = 92 then [char_of (92 :: nat), c]
         else if n = 7 then char_of (92 :: nat) # ''a''
         else if n = 8 then char_of (92 :: nat) # ''b''
         else if n = 12 then char_of (92 :: nat) # ''f''
         else if n = 10 then char_of (92 :: nat) # ''n''
         else if n = 13 then char_of (92 :: nat) # ''r''
         else if n = 9 then char_of (92 :: nat) # ''t''
         else if n = 11 then char_of (92 :: nat) # ''v''
         else if n < 32 \<or> n = 127 then char_of (92 :: nat) # ''x'' @ [hex_digit (n div 16), hex_digit (n mod 16)]
         else [c])"

definition Quote :: "string \<Rightarrow> string" where
  "Quote s = [char_of (34 :: nat)] @ concat (map quote_char s) @ [char_of (34 :: nat)]"

definition non_positive_error :: "CheckItem \<Rightarrow> goerr" where
  "non_positive_error it = Wrapf '''' (Sentinel ErrNonPositiveQuantity) ('': sku '' @ Quote (ci_SKUID it))"

definition check_failed :: "Context \<Rightarrow> string \<Rightarrow> goerr \<Rightarrow> 'a prog" where
  "check_failed ctx pre err =
     seq (if \<not> errors_Is err Canceled then recordCheck ctx outcomeError else skip)
       (seq (recordSpanError ctx opCheckAvailability err) (fail (errorf_w pre err)))"

fun fulfilling_warehouse ::
  "int list \<Rightarrow> (int \<rightharpoonup> (string \<rightharpoonup> int)) \<Rightarrow> CheckItem list \<Rightarrow> int option" where
  "fulfilling_warehouse [] byWarehouse items = None"
| "fulfilling_warehouse (i # ids) byWarehouse items =
     (if fulfills (mget_map byWarehouse i) items then Some i else fulfilling_warehouse ids byWarehouse items)"

text \<open>The loop that sorts the lines the base warehouse cannot fulfill into shortages and unknown SKUs.\<close>

fun classify_lines ::
  "(string \<rightharpoonup> int) \<Rightarrow> (string \<rightharpoonup> bool) \<Rightarrow> CheckItem list \<Rightarrow> ShortageLine list \<times> string list" where
  "classify_lines baseline tracked [] = ([], [])"
| "classify_lines baseline tracked (it # items) =
     (let (shortages, unknown) = classify_lines baseline tracked items;
          atp = mget baseline (ci_SKUID it)
      in if atp \<ge> ci_Quantity it then (shortages, unknown)
         else if baseline (ci_SKUID it) \<noteq> None \<or> mget_bool tracked (ci_SKUID it)
         then (\<lparr>sl_SKUID = ci_SKUID it, sl_Requested = ci_Quantity it, sl_ATP = atp\<rparr> # shortages, unknown)
         else (shortages, ci_SKUID it # unknown))"

definition check_shortfall ::
  "AvailabilityReader \<Rightarrow> Context \<Rightarrow> (string \<rightharpoonup> int) \<Rightarrow> CheckItem list \<Rightarrow> CheckResult prog" where
  "check_shortfall repo ctx baseline items =
     try_bind (lookup_tracked repo (absent baseline (map ci_SKUID items)))
       (check_failed ctx ''check availability: tracked lookup: '')
       (\<lambda>tracked.
          let (shortages, unknown) = classify_lines baseline tracked items;
              outcome = (if length unknown > 0 then outcomeUnknownSKU else outcomeShortage)
          in seq (recordCheck ctx outcome) (seq (setSpanOutcome ctx outcome)
               (return \<lparr>cr_CanFulfill = False, cr_Shortages = shortages, cr_UnknownSKUIDs = unknown\<rparr>)))"

definition CheckAvailability ::
  "AvailabilityReader \<Rightarrow> Context \<Rightarrow> CheckItem list \<Rightarrow> CheckResult prog" where
  "CheckAvailability repo ctx items =
     with_span ctx opCheckAvailability (
       case find (\<lambda>it. ci_Quantity it \<le> 0) items of
         Some it \<Rightarrow>
           seq (recordCheck ctx outcomeError)
             (seq (recordSpanError ctx opCheckAvailability (Sentinel ErrNonPositiveQuantity))
               (fail (non_positive_error it)))
       | None \<Rightarrow>
           try_bind (rd_ActiveWarehouseBalances repo (map ci_SKUID items))
             (check_failed ctx ''check availability: '')
             (\<lambda>(byWarehouse, activeIDs).
                case fulfilling_warehouse activeIDs byWarehouse items of
                  Some i \<Rightarrow>
                    seq (recordCheck ctx outcomeFulfillable) (seq (setSpanOutcome ctx outcomeFulfillable)
                      (return \<lparr>cr_CanFulfill = True, cr_Shortages = [], cr_UnknownSKUIDs = []\<rparr>))
                | None \<Rightarrow>
                    check_shortfall repo ctx
                      (case activeIDs of [] \<Rightarrow> Map.empty | i # _ \<Rightarrow> mget_map byWarehouse i) items))"

section \<open>What the logic relies on\<close>

text \<open>
  The contract of the reader in a quiet world: each read succeeds, changes nothing, emits no
  telemetry of its own, and returns the maps the state determines.
\<close>

locale availability_reader =
  fixes repo :: AvailabilityReader and ok :: "db \<Rightarrow> bool"
  assumes batch_law: "ok d \<Longrightarrow> \<forall>s \<in> set skus. int64_range (atp_total d s) \<Longrightarrow>
      triple (rest d) (rd_BatchATP repo skus)
        (\<lambda>m w. (\<forall>s \<in> set skus. m s = (if promised_anywhere d s then Some (atp_total d s) else None)) \<and> rest d w)
        (\<lambda>_ _. False)"
    and balances_law: "ok d \<Longrightarrow>
      triple (rest d) (rd_ActiveWarehouseBalances repo skus)
        (\<lambda>x w. (\<forall>wh \<in> set (select_active_ids d). mget_map (fst x) wh = atp_map d wh skus) \<and>
           snd x = select_active_ids d \<and> rest d w)
        (\<lambda>_ _. False)"
    and tracked_law: "ok d \<Longrightarrow>
      triple (rest d) (rd_TrackedSKUs repo skus)
        (\<lambda>m w. (\<forall>s \<in> set skus. mget_bool m s = tracked_sku d s) \<and> rest d w) (\<lambda>_ _. False)"
    and silent_law: "emits_within {} (rd_BatchATP repo skus)"
      "emits_within {} (rd_ActiveWarehouseBalances repo skus)" "emits_within {} (rd_TrackedSKUs repo skus)"

section \<open>Reference answers\<close>

definition sku_report :: "db \<Rightarrow> string \<Rightarrow> SkuAvailability" where
  "sku_report d s =
     (if promised_anywhere d s
      then \<lparr>sa_SKUID = s, sa_Status = statusFor (atp_total d s), sa_ATP = atp_total d s\<rparr>
      else \<lparr>sa_SKUID = s, sa_Status = (if tracked_sku d s then StatusOutOfStock else StatusUnknown), sa_ATP = 0\<rparr>)"

definition basket :: "CheckItem list \<Rightarrow> Line list" where
  "basket items = map (\<lambda>it. \<lparr>ln_SKUID = ci_SKUID it, ln_Quantity = ci_Quantity it\<rparr>) items"

definition shortage_line :: "Shortage \<Rightarrow> ShortageLine" where
  "shortage_line s = \<lparr>sl_SKUID = sh_SKUID s, sl_Requested = sh_Requested s, sl_ATP = sh_ATP s\<rparr>"

text \<open>The answer in the vocabulary of \<open>Reserve\<close>: its warehouse choice and its two rejection lists.\<close>

definition check_report :: "db \<Rightarrow> CheckItem list \<Rightarrow> CheckResult" where
  "check_report d items =
     (if serving_warehouse d (basket items) \<noteq> None
      then \<lparr>cr_CanFulfill = True, cr_Shortages = [], cr_UnknownSKUIDs = []\<rparr>
      else \<lparr>cr_CanFulfill = False,
            cr_Shortages = map shortage_line
              (filter (\<lambda>s. tracked_sku d (sh_SKUID s)) (shortage_report d (basket items))),
            cr_UnknownSKUIDs = untracked_skus d (basket items)\<rparr>)"

lemma fulfills_iff: "fulfills atp items \<longleftrightarrow> (\<forall>it \<in> set items. ci_Quantity it \<le> mget atp (ci_SKUID it))"
  by (induction atp items rule: fulfills.induct) auto

lemma fulfills_serves: "fulfills (atp_map d w (map ci_SKUID items)) items \<longleftrightarrow> serves d (basket items) w"
  by (auto simp: fulfills_iff serves_def basket_def mget_atp_map)

lemma fulfilling_warehouse_find:
  "fulfilling_warehouse ids byw items = find (\<lambda>i. fulfills (mget_map byw i) items) ids"
  by (induction ids byw items rule: fulfilling_warehouse.induct) auto

lemma fulfilling_serving:
  assumes "\<forall>wh \<in> set (select_active_ids d). mget_map byw wh = atp_map d wh (map ci_SKUID items)"
  shows "fulfilling_warehouse (select_active_ids d) byw items = serving_warehouse d (basket items)"
  unfolding fulfilling_warehouse_find serving_warehouse_def
  by (rule find_cong) (simp add: assms fulfills_serves)

lemma classify_lines_filter:
  "classify_lines b tr items =
     (map (\<lambda>it. \<lparr>sl_SKUID = ci_SKUID it, sl_Requested = ci_Quantity it, sl_ATP = mget b (ci_SKUID it)\<rparr>)
        (filter (\<lambda>it. mget b (ci_SKUID it) < ci_Quantity it \<and> (b (ci_SKUID it) \<noteq> None \<or> mget_bool tr (ci_SKUID it))) items),
      map ci_SKUID
        (filter (\<lambda>it. mget b (ci_SKUID it) < ci_Quantity it \<and> \<not> (b (ci_SKUID it) \<noteq> None \<or> mget_bool tr (ci_SKUID it))) items))"
  by (induction b tr items rule: classify_lines.induct) (auto simp: Let_def)

lemma atp_at_untracked: "\<not> tracked_sku d s \<Longrightarrow> atp_at d w s = 0"
  by (auto simp: atp_at_def tracked_sku_def split: option.split dest!: map_of_SomeD)
     (metis fst_conv image_eqI)

lemma baseline_untracked: "\<not> tracked_sku d s \<Longrightarrow> baseline_atp d s = 0"
  by (simp add: baseline_atp_def atp_at_untracked split: list.split)

lemma classify_report:
  assumes pos: "\<forall>it \<in> set items. 0 < ci_Quantity it"
    and b: "\<And>it. it \<in> set items \<Longrightarrow> mget b (ci_SKUID it) = baseline_atp d (ci_SKUID it)"
    and tr: "\<And>it. it \<in> set items \<Longrightarrow> (b (ci_SKUID it) \<noteq> None \<or> mget_bool tr (ci_SKUID it)) = tracked_sku d (ci_SKUID it)"
  shows "classify_lines b tr items =
     (map shortage_line (filter (\<lambda>s. tracked_sku d (sh_SKUID s)) (shortage_report d (basket items))),
      untracked_skus d (basket items))"
proof -
  have "filter (\<lambda>it. mget b (ci_SKUID it) < ci_Quantity it \<and> (b (ci_SKUID it) \<noteq> None \<or> mget_bool tr (ci_SKUID it))) items =
      filter (\<lambda>it. tracked_sku d (ci_SKUID it)) (filter (\<lambda>it. baseline_atp d (ci_SKUID it) < ci_Quantity it) items)"
    unfolding filter_filter by (rule filter_cong) (use b tr in auto)
  moreover have "filter (\<lambda>it. mget b (ci_SKUID it) < ci_Quantity it \<and> \<not> (b (ci_SKUID it) \<noteq> None \<or> mget_bool tr (ci_SKUID it))) items =
      filter (\<lambda>it. \<not> tracked_sku d (ci_SKUID it)) items"
    by (rule filter_cong) (use b tr pos baseline_untracked in auto)
  ultimately show ?thesis
    unfolding classify_lines_filter using b
    by (auto simp: shortage_report_def untracked_skus_def basket_def shortage_line_def filter_map
        comp_def tracked_sku_def)
qed

section \<open>The logic over any reader\<close>

lemma rest_trace [simp]: "rest d (w\<lparr>w_trace := t\<rparr>) = rest d w"
  by (simp add: rest_def quiet_def)

lemma q_emit: "triple (rest d) (emit t) (\<lambda>_. rest d) E"
  by (simp add: triple_def emit_def)

lemma q_seq: "triple (rest d) m (\<lambda>_. rest d) E \<Longrightarrow> triple (rest d) n Q E \<Longrightarrow> triple (rest d) (seq m n) Q E"
  by (rule triple_bindE)

lemma q_with_span:
  assumes "triple (rest d) body (\<lambda>x w. R x \<and> rest d w) E" "\<And>e w t. E e w \<Longrightarrow> E e (w\<lparr>w_trace := t\<rparr>)"
  shows "triple (rest d) (with_span ctx operation body) (\<lambda>x w. R x \<and> rest d w) E"
proof -
  have "triple (rest d) (defer_span_end body) (\<lambda>x w. R x \<and> rest d w) E"
    using assms by (fastforce simp: triple_def defer_span_end_def split: prod.splits sum.splits)
  then show ?thesis unfolding with_span_def startLogicSpan_def by (rule q_seq [OF q_emit])
qed

context availability_reader
begin

lemma lookup_tracked_quiet:
  assumes "ok d"
  shows "triple (rest d) (lookup_tracked repo missing)
    (\<lambda>m w. (\<forall>s \<in> set missing. mget_bool m s = tracked_sku d s) \<and> rest d w) (\<lambda>_ _. False)"
  unfolding lookup_tracked_def using tracked_law [OF assms] by (auto intro: triple_return)

lemma batch_quiet:
  assumes "ok d" "\<forall>s \<in> set skus. int64_range (atp_total d s)"
  shows "triple (rest d) (BatchGetAvailability repo ctx skus)
    (\<lambda>x w. x = map (sku_report d) skus \<and> rest d w) (\<lambda>_ _. False)"
  unfolding BatchGetAvailability_def
proof (rule q_with_span, rule triple_try_bind [OF batch_law [OF assms]])
  fix atps
  let ?known = "\<forall>s \<in> set skus. atps s = (if promised_anywhere d s then Some (atp_total d s) else None)"
  show "triple (\<lambda>w. ?known \<and> rest d w)
     (try_bind (lookup_tracked repo (absent atps skus)) (batch_failed ctx)
       (\<lambda>tracked. seq (setSpanOutcome ctx outcomeOK) (return (map (sku_answer atps tracked) skus))))
     (\<lambda>x w. x = map (sku_report d) skus \<and> rest d w) (\<lambda>_ _. False)"
  proof (rule triple_fact, rule triple_try_bind [OF lookup_tracked_quiet [OF assms(1)]])
    fix tr
    assume known: ?known
    let ?tr = "\<forall>s \<in> set (absent atps skus). mget_bool tr s = tracked_sku d s"
    have "map (sku_answer atps tr) skus = map (sku_report d) skus" if ?tr
      using known that by (auto simp: sku_answer_def sku_report_def absent_def)
    then show "triple (\<lambda>w. ?tr \<and> rest d w)
       (seq (setSpanOutcome ctx outcomeOK) (return (map (sku_answer atps tr) skus)))
       (\<lambda>x w. x = map (sku_report d) skus \<and> rest d w) (\<lambda>_ _. False)"
      unfolding setSpanOutcome_def by (intro triple_fact q_seq [OF q_emit] triple_return) simp
  qed simp
qed simp_all

lemma shortfall_quiet:
  assumes "ok d" "\<forall>it \<in> set items. 0 < ci_Quantity it" "serving_warehouse d (basket items) = None"
    and byw: "\<forall>wh \<in> set (select_active_ids d). mget_map byw wh = atp_map d wh (map ci_SKUID items)"
  shows "triple (rest d)
     (check_shortfall repo ctx (case select_active_ids d of [] \<Rightarrow> Map.empty | i # _ \<Rightarrow> mget_map byw i) items)
     (\<lambda>x w. x = check_report d items \<and> rest d w) (\<lambda>_ _. False)"
  unfolding check_shortfall_def
proof (rule triple_try_bind [OF lookup_tracked_quiet [OF assms(1)]])
  let ?b = "case select_active_ids d of [] \<Rightarrow> Map.empty | i # _ \<Rightarrow> mget_map byw i"
  have b: "mget ?b (ci_SKUID it) = baseline_atp d (ci_SKUID it)" if "it \<in> set items" for it
    using byw that by (auto simp: baseline_atp_def mget_atp_map split: list.split)
  have row: "tracked_sku d s" if "?b s \<noteq> None" for s
    using that byw
    by (auto simp: atp_map_def tracked_sku_def split: list.splits if_splits dest!: map_of_SomeD)
         (metis fst_conv image_eqI)+
  fix tr
  let ?tr = "\<forall>s \<in> set (absent ?b (map ci_SKUID items)). mget_bool tr s = tracked_sku d s"
  have "classify_lines ?b tr items =
     (map shortage_line (filter (\<lambda>s. tracked_sku d (sh_SKUID s)) (shortage_report d (basket items))),
      untracked_skus d (basket items))" if ?tr
  proof (rule classify_report [OF assms(2) b])
    fix it
    assume "it \<in> set items"
    then have "ci_SKUID it \<in> set (absent ?b (map ci_SKUID items))" if "?b (ci_SKUID it) = None"
      using that by (simp add: absent_def)
    with that row [of "ci_SKUID it"]
    show "(?b (ci_SKUID it) \<noteq> None \<or> mget_bool tr (ci_SKUID it)) = tracked_sku d (ci_SKUID it)"
      by blast
  qed assumption
  then show "triple (\<lambda>w. ?tr \<and> rest d w)
     (let (shortages, unknown) = classify_lines ?b tr items;
          outcome = (if length unknown > 0 then outcomeUnknownSKU else outcomeShortage)
      in seq (recordCheck ctx outcome) (seq (setSpanOutcome ctx outcome)
           (return \<lparr>cr_CanFulfill = False, cr_Shortages = shortages, cr_UnknownSKUIDs = unknown\<rparr>)))
     (\<lambda>x w. x = check_report d items \<and> rest d w) (\<lambda>_ _. False)"
    unfolding recordCheck_def setSpanOutcome_def Let_def
    by (intro triple_fact) (simp add: check_report_def assms(3) q_seq q_emit triple_return)
qed simp

lemma check_quiet:
  assumes ok: "ok d" and pos: "\<forall>it \<in> set items. 0 < ci_Quantity it"
  shows "triple (rest d) (CheckAvailability repo ctx items)
    (\<lambda>x w. x = check_report d items \<and> rest d w) (\<lambda>_ _. False)"
proof -
  from pos have none: "find (\<lambda>it. ci_Quantity it \<le> 0) items = None"
    by (fastforce simp: find_None_iff)
  show ?thesis
    unfolding CheckAvailability_def none option.case
  proof (rule q_with_span, rule triple_try_bind [OF balances_law [OF ok]])
    fix x :: "(int \<rightharpoonup> string \<rightharpoonup> int) \<times> int list"
    let ?A = "\<forall>wh \<in> set (select_active_ids d). mget_map (fst x) wh = atp_map d wh (map ci_SKUID items)"
    have "triple (rest d)
       (case fulfilling_warehouse (select_active_ids d) (fst x) items of
          Some i \<Rightarrow> seq (recordCheck ctx outcomeFulfillable) (seq (setSpanOutcome ctx outcomeFulfillable)
            (return \<lparr>cr_CanFulfill = True, cr_Shortages = [], cr_UnknownSKUIDs = []\<rparr>))
        | None \<Rightarrow> check_shortfall repo ctx
            (case select_active_ids d of [] \<Rightarrow> Map.empty | i # _ \<Rightarrow> mget_map (fst x) i) items)
       (\<lambda>x w. x = check_report d items \<and> rest d w) (\<lambda>_ _. False)" if A: ?A
    proof (cases "serving_warehouse d (basket items)")
      case None
      with shortfall_quiet [OF ok pos None A] show ?thesis unfolding fulfilling_serving [OF A] by simp
    next
      case (Some i)
      then show ?thesis
        unfolding fulfilling_serving [OF A] recordCheck_def setSpanOutcome_def
        by (simp add: check_report_def q_seq q_emit triple_return)
    qed
    then show "triple (\<lambda>w. ?A \<and> snd x = select_active_ids d \<and> rest d w)
       (case x of (byWarehouse, activeIDs) \<Rightarrow>
          (case fulfilling_warehouse activeIDs byWarehouse items of
            Some i \<Rightarrow> seq (recordCheck ctx outcomeFulfillable) (seq (setSpanOutcome ctx outcomeFulfillable)
              (return \<lparr>cr_CanFulfill = True, cr_Shortages = [], cr_UnknownSKUIDs = []\<rparr>))
          | None \<Rightarrow> check_shortfall repo ctx
              (case activeIDs of [] \<Rightarrow> Map.empty | i # _ \<Rightarrow> mget_map byWarehouse i) items))
       (\<lambda>x w. x = check_report d items \<and> rest d w) (\<lambda>_ _. False)"
      by (intro triple_fact) (simp add: case_prod_beta)
  qed simp_all
qed

lemma check_metered: "meters checkCounter (CheckAvailability repo ctx items) once_unless_canceled"
proof -
  have failed: "meters checkCounter (check_failed ctx pre err) once_unless_canceled" for pre err
  proof -
    have "counts checkCounter (if \<not> errors_Is err Canceled then recordCheck ctx outcomeError else skip)
        (if errors_Is err Canceled then 0 else 1)"
      by (simp add: counts_skip counts_calls(1) [simplified])
    then show ?thesis
      unfolding check_failed_def seq_assoc
      by (rule meters_after [OF counts_seq [OF _ counts_recordSpanError]]) simp
  qed
  have answered: "meters checkCounter (seq (recordCheck ctx out) (seq (setSpanOutcome ctx out) (return x)))
      once_unless_canceled" for out x
    unfolding seq_assoc by (rule meters_answer [OF counts_seq [OF counts_calls(1,3)]]) simp
  have refused: "meters checkCounter (seq (recordCheck ctx outcomeError)
      (seq (recordSpanError ctx opCheckAvailability err) (fail (non_positive_error it)))) once_unless_canceled" for err it
    unfolding seq_assoc
    by (rule meters_after [OF counts_seq [OF counts_calls(1) counts_recordSpanError]]) (simp add: non_positive_error_def)
  have silent: "emits_within {} (lookup_tracked repo skus)" for skus
    unfolding lookup_tracked_def by (intro emits_rules silent_law)
  have shortfall: "meters checkCounter (check_shortfall repo ctx b items) once_unless_canceled" for b
    unfolding check_shortfall_def Let_def case_prod_beta by (intro meters_try silent failed answered)
  show ?thesis
    unfolding CheckAvailability_def case_prod_beta
    by (intro meters_with_span) (auto split: option.split intro!: meters_try silent_law failed answered refused shortfall)
qed

end

section \<open>The repository is such a reader\<close>

lemma q_read: "triple (rest d) (map_error h (pool_query f)) (\<lambda>x w. x = f d \<and> rest d w) E"
  by (rule triple_map_error, rule triple_weaken [OF q_pool_query]) simp_all

interpretation reader: availability_reader availability_repository db_inv
proof
  fix d skus
  assume d: "db_inv d"
  note keys = db_invD(1) [OF d, unfolded balances_ok_def, THEN conjunct1] db_invD(7) [OF d]
  show "triple (rest d) (rd_ActiveWarehouseBalances availability_repository skus)
      (\<lambda>x w. (\<forall>wh \<in> set (select_active_ids d). mget_map (fst x) wh = atp_map d wh skus) \<and>
         snd x = select_active_ids d \<and> rest d w) (\<lambda>_ _. False)"
    unfolding availability_repository_def AvailabilityReader.simps ActiveWarehouseBalances_def
    by (rule triple_bindE [OF q_read], rule triple_fact, rule triple_bindE [OF q_read], rule triple_fact,
        rule triple_return) (simp add: in_select_active_ids [OF keys(2)] snapshot_map [OF keys(1)])
  show "triple (rest d) (rd_TrackedSKUs availability_repository skus)
      (\<lambda>m w. (\<forall>s \<in> set skus. mget_bool m s = tracked_sku d s) \<and> rest d w) (\<lambda>_ _. False)"
    unfolding availability_repository_def AvailabilityReader.simps TrackedSKUs_def
    by (rule triple_bindE [OF q_read], rule triple_fact, rule triple_return) (simp add: tracked_scan)
next
  fix d skus
  assume d: "db_inv d" and range: "\<forall>s \<in> set skus. int64_range (atp_total d s)"
  have sel: "select_batch_atp skus d = Inr (map (\<lambda>s. (s, atp_total d s)) (promisable_skus skus d))"
    using range by (simp add: select_batch_atp_def list_all_iff set_promisable_skus)
  have "triple (rest d) (pool_query_checked (select_batch_atp skus))
      (\<lambda>rows w. rows = map (\<lambda>s. (s, atp_total d s)) (promisable_skus skus d) \<and> rest d w) (\<lambda>_ _. False)"
    unfolding pool_query_checked_def
    by (rule triple_bindE [OF q_pool_query], rule triple_fact) (simp add: sel triple_return)
  then show "triple (rest d) (rd_BatchATP availability_repository skus)
      (\<lambda>m w. (\<forall>s \<in> set skus. m s = (if promised_anywhere d s then Some (atp_total d s) else None)) \<and> rest d w)
      (\<lambda>_ _. False)"
    unfolding availability_repository_def AvailabilityReader.simps BatchATP_def
    by (rule triple_bindE [OF triple_map_error], intro triple_fact triple_return) (simp add: batch_map)
qed (simp_all add: availability_repository_def BatchATP_def ActiveWarehouseBalances_def TrackedSKUs_def
       pool_query_checked_def emits_rules)

end
