(* ===== verification/Grpc_Server.thy ===== *)
theory Grpc_Server
  imports Grpc_Validation Reservation_Logic Availability_Logic
begin

text \<open>
  \<open>internal/grpc/v1/server.go\<close> and \<open>reservations.go\<close>: the six RPCs over the two logic interfaces. A
  protobuf message is a record of the values its getters return. An RPC returns a status error or a
  response; everything else it does is the logic call and, when it fails closed, one error log line.
\<close>

section \<open>Messages\<close>

record ReservationItem =
  pi_SkuId :: string
  pi_Quantity :: int

record ReserveRequest =
  pq_ReservationId :: string
  pq_OrderId :: string
  pq_Items :: "ReservationItem list"
  pq_DestinationRegion :: string
  pq_ExpiresAt :: string
  pq_RequestHash :: string

datatype ReservationStatus =
    RESERVATION_STATUS_UNSPECIFIED | RESERVATION_STATUS_RESERVED | RESERVATION_STATUS_COMMITTED
  | RESERVATION_STATUS_RELEASED | RESERVATION_STATUS_EXPIRED

datatype ProtoAvailabilityStatus =
    AVAILABILITY_STATUS_UNKNOWN | AVAILABILITY_STATUS_IN_STOCK | AVAILABILITY_STATUS_LOW_STOCK
  | AVAILABILITY_STATUS_OUT_OF_STOCK

record ProtoAllocation =
  pa_SkuId :: string
  pa_WarehouseId :: string
  pa_Quantity :: int

record ReserveResponse =
  pr_ReservationId :: string
  pr_Status :: ReservationStatus
  pr_Allocations :: "ProtoAllocation list"

record TransitionResponse =
  pt_ReservationId :: string
  pt_Status :: ReservationStatus

record ProtoReservation =
  pv_Id :: string
  pv_OrderId :: string
  pv_Status :: ReservationStatus
  pv_Allocations :: "ProtoAllocation list"
  pv_CreatedAt :: string
  pv_UpdatedAt :: string
  pv_ExpiresAt :: string

record ProtoSkuAvailability =
  ps_SkuId :: string
  ps_Status :: ProtoAvailabilityStatus
  ps_AvailableToPromise :: int

record ProtoShortage =
  ph_SkuId :: string
  ph_Requested :: int
  ph_AvailableToPromise :: int

record CheckAvailabilityResponse =
  pc_CanFulfill :: bool
  pc_Shortages :: "ProtoShortage list"
  pc_UnknownSkuIds :: "string list"

section \<open>The logic interfaces and the server\<close>

record Availability =
  av_BatchGetAvailability :: "Context \<Rightarrow> string list \<Rightarrow> SkuAvailability list prog"
  av_CheckAvailability :: "Context \<Rightarrow> CheckItem list \<Rightarrow> CheckResult prog"

record Reservations =
  rs_Reserve :: "Context \<Rightarrow> ReservationRequest \<Rightarrow> ReservationResult prog"
  rs_Release :: "Context \<Rightarrow> string \<Rightarrow> string \<Rightarrow> string prog"
  rs_Commit :: "Context \<Rightarrow> string \<Rightarrow> string prog"
  rs_GetReservation :: "Context \<Rightarrow> string \<Rightarrow> Reservation prog"

record Server =
  sv_availability :: Availability
  sv_reservations :: Reservations

definition availability_service :: "AvailabilityReader \<Rightarrow> Availability" where
  "availability_service repo =
     \<lparr>av_BatchGetAvailability = BatchGetAvailability repo, av_CheckAvailability = CheckAvailability repo\<rparr>"

definition reservation_service :: "ReservationStore \<Rightarrow> Reservations" where
  "reservation_service repo =
     \<lparr>rs_Reserve = service_Reserve repo, rs_Release = service_Release repo, rs_Commit = service_Commit repo,
      rs_GetReservation = service_GetReservation repo\<rparr>"

text \<open>The wiring of \<open>main\<close>.\<close>

definition wired_server :: Server where
  "wired_server =
     \<lparr>sv_availability = availability_service availability_repository,
      sv_reservations = reservation_service reservation_repository\<rparr>"

section \<open>Returning from an RPC\<close>

definition reject :: "status_error \<Rightarrow> 'a rpc" where
  "reject st = (\<lambda>w. (Inl st, w))"

definition respond :: "'a \<Rightarrow> 'a rpc" where
  "respond x = (\<lambda>w. (Inr x, w))"

text \<open>\<open>x, err := m(); if err != nil \{ return nil, h(err) \}; f(x)\<close>.\<close>

definition rpc_bind :: "'a prog \<Rightarrow> (goerr \<Rightarrow> 'b rpc) \<Rightarrow> ('a \<Rightarrow> 'b rpc) \<Rightarrow> 'b rpc" where
  "rpc_bind m h f = (\<lambda>w. case m w of (Inl e, w') \<Rightarrow> h e w' | (Inr x, w') \<Rightarrow> f x w')"

definition rpc_log :: "telemetry \<Rightarrow> 'a rpc \<Rightarrow> 'a rpc" where
  "rpc_log t k = (\<lambda>w. k (w\<lparr>w_trace := w_trace w @ [t]\<rparr>))"

definition invalid_argument :: "string \<Rightarrow> status_error" where
  "invalid_argument msg = ErrorWithReason InvalidArgument ReasonValidationError msg"

definition failClosed :: "Context \<Rightarrow> string \<Rightarrow> goerr \<Rightarrow> 'a rpc" where
  "failClosed ctx rpc err =
     (if errors_Is err Canceled then reject (StatusError CodeCanceled ''request canceled'')
      else
        rpc_log (LogError ''Inventory RPC failed'' [(''rpc.method'', rpc)] err)
          (reject (ErrorWithReason Unavailable ReasonDependencyUnavailable (rpc @ '' failed''))))"

section \<open>server.go\<close>

definition maxBatchSkuIDs :: nat where "maxBatchSkuIDs = 200"
definition maxCheckItems :: nat where "maxCheckItems = 100"

definition toProtoStatus :: "AvailabilityStatus \<Rightarrow> ProtoAvailabilityStatus" where
  "toProtoStatus s =
     (case s of
        StatusInStock \<Rightarrow> AVAILABILITY_STATUS_IN_STOCK
      | StatusLowStock \<Rightarrow> AVAILABILITY_STATUS_LOW_STOCK
      | StatusOutOfStock \<Rightarrow> AVAILABILITY_STATUS_OUT_OF_STOCK
      | StatusUnknown \<Rightarrow> AVAILABILITY_STATUS_UNKNOWN)"

definition Server_BatchGetAvailability ::
  "Server \<Rightarrow> Context \<Rightarrow> string list \<Rightarrow> ProtoSkuAvailability list rpc" where
  "Server_BatchGetAvailability s ctx skuIds =
     (if length skuIds = 0 \<or> length skuIds > maxBatchSkuIDs then
        reject (invalid_argument (''sku_ids must contain 1..'' @ FormatInt (int maxBatchSkuIDs) @ '' entries''))
      else if \<not> list_all validSKUID skuIds then reject errInvalidSKUID
      else
        rpc_bind (av_BatchGetAvailability (sv_availability s) ctx skuIds)
          (failClosed ctx ''BatchGetAvailability'')
          (\<lambda>availabilities.
             respond (map (\<lambda>a. \<lparr>ps_SkuId = sa_SKUID a, ps_Status = toProtoStatus (sa_Status a),
                                ps_AvailableToPromise = sa_ATP a\<rparr>) availabilities)))"

text \<open>
  The loop of \<open>CheckAvailability\<close>: validation of each line, then aggregation in place through the
  index map; the first bad line ends it.
\<close>

definition quantity_error :: status_error where
  "quantity_error = invalid_argument (''item quantity must be 1..'' @ FormatInt maxQuantity)"

definition item_count_error :: status_error where
  "item_count_error = invalid_argument (''items must contain 1..'' @ FormatInt (int maxCheckItems) @ '' lines'')"

fun check_loop ::
  "ReservationItem list \<Rightarrow> CheckItem list \<Rightarrow> (string \<rightharpoonup> nat) \<Rightarrow> status_error + CheckItem list" where
  "check_loop [] items index = Inr items"
| "check_loop (it # its) items index =
     (let q = pi_Quantity it
      in if q \<le> 0 \<or> q > maxQuantity then Inl quantity_error
         else if \<not> validSKUID (pi_SkuId it) then Inl errInvalidSKUID
         else
           (case index (pi_SkuId it) of
              Some i \<Rightarrow>
                check_loop its
                  (items[i := (items ! i)\<lparr>ci_Quantity := wrap64 (ci_Quantity (items ! i) + q)\<rparr>]) index
            | None \<Rightarrow>
                check_loop its (items @ [\<lparr>ci_SKUID = pi_SkuId it, ci_Quantity = q\<rparr>])
                  (index(pi_SkuId it \<mapsto> length items))))"

definition Server_CheckAvailability ::
  "Server \<Rightarrow> Context \<Rightarrow> ReservationItem list \<Rightarrow> CheckAvailabilityResponse rpc" where
  "Server_CheckAvailability s ctx reqItems =
     (if length reqItems = 0 \<or> length reqItems > maxCheckItems then reject item_count_error
      else
        (case check_loop reqItems [] Map.empty of
           Inl st \<Rightarrow> reject st
         | Inr items \<Rightarrow>
             rpc_bind (av_CheckAvailability (sv_availability s) ctx items)
               (failClosed ctx ''CheckAvailability'')
               (\<lambda>result.
                  respond
                    \<lparr>pc_CanFulfill = cr_CanFulfill result,
                     pc_Shortages = map (\<lambda>sh. \<lparr>ph_SkuId = sl_SKUID sh, ph_Requested = sl_Requested sh,
                        ph_AvailableToPromise = sl_ATP sh\<rparr>) (cr_Shortages result),
                     pc_UnknownSkuIds = cr_UnknownSKUIDs result\<rparr>)))"

section \<open>reservations.go\<close>

fun reservation_loop :: "ReservationItem list \<Rightarrow> status_error + Line list" where
  "reservation_loop [] = Inr []"
| "reservation_loop (it # its) =
     (let q = pi_Quantity it
      in if q \<le> 0 \<or> q > maxQuantity then Inl quantity_error
         else if \<not> validSKUID (pi_SkuId it) then Inl errInvalidSKUID
         else
           (case reservation_loop its of
              Inl st \<Rightarrow> Inl st
            | Inr out \<Rightarrow> Inr (\<lparr>ln_SKUID = pi_SkuId it, ln_Quantity = q\<rparr> # out)))"

definition reservationLines :: "ReservationItem list \<Rightarrow> status_error + Line list" where
  "reservationLines items =
     (if length items = 0 \<or> length items > maxCheckItems then Inl item_count_error
      else reservation_loop items)"

definition toProtoReservationStatus :: "string \<Rightarrow> ReservationStatus" where
  "toProtoReservationStatus status =
     (if status = ReservationReserved then RESERVATION_STATUS_RESERVED
      else if status = ReservationCommitted then RESERVATION_STATUS_COMMITTED
      else if status = ReservationReleased then RESERVATION_STATUS_RELEASED
      else if status = ReservationExpired then RESERVATION_STATUS_EXPIRED
      else RESERVATION_STATUS_UNSPECIFIED)"

definition reservationError :: "Context \<Rightarrow> string \<Rightarrow> goerr \<Rightarrow> 'a rpc" where
  "reservationError ctx rpc err =
     (if errors_Is err ErrUnknownSKU then
        reject (ErrorWithReason FailedPrecondition ReasonSKUNotFound ''sku not tracked by inventory'')
      else if errors_Is err ErrInsufficientStock then
        reject (ErrorWithReason FailedPrecondition ReasonInsufficientStock ''insufficient stock to reserve'')
      else if errors_Is err ErrIdempotencyConflict then
        reject (ErrorWithReason AlreadyExists ReasonIdempotencyConflict
          ''reservation or order id reused with a different request'')
      else if errors_Is err ErrInvalidTransition then
        reject (ErrorWithReason FailedPrecondition ReasonInvalidTransition
          ''reservation status does not allow this transition'')
      else if errors_Is err ErrReservationNotFound then
        reject (ErrorWithReason NotFound ReasonNotFound ''reservation not found'')
      else if errors_Is err ErrConcurrencyConflict then
        reject (ErrorWithReason Aborted ReasonConcurrencyConflict ''concurrent transaction conflict, retry'')
      else failClosed ctx rpc err)"

definition proto_allocation :: "Allocation \<Rightarrow> ProtoAllocation" where
  "proto_allocation a =
     \<lparr>pa_SkuId = al_SKUID a, pa_WarehouseId = FormatInt (al_WarehouseID a), pa_Quantity = al_Quantity a\<rparr>"

text \<open>The checks \<open>Reserve\<close> makes before it calls the logic, in their order.\<close>

definition decode_reserve :: "ReserveRequest \<Rightarrow> status_error + ReservationRequest" where
  "decode_reserve req =
     (if \<not> validReservationID (pq_ReservationId req) then Inl (errInvalidReservationID fieldReservationID)
      else if \<not> validReservationID (pq_OrderId req) then Inl (errInvalidReservationID ''order_id'')
      else if \<not> validDestinationRegion (pq_DestinationRegion req) then Inl errInvalidDestinationRegion
      else
        (case reservationLines (pq_Items req) of
           Inl st \<Rightarrow> Inl st
         | Inr items \<Rightarrow>
             (if pq_ExpiresAt req \<noteq> '''' \<and> \<not> ParseRFC3339_accepts (pq_ExpiresAt req)
              then Inl (invalid_argument ''expires_at must be RFC-3339'')
              else if pq_RequestHash req \<noteq> '''' \<and>
                pq_RequestHash req \<noteq> CanonicalHash (AggregateLines items) (pq_DestinationRegion req)
              then Inl (invalid_argument ''request_hash does not match the canonical server-side hash'')
              else
                Inr \<lparr>rq_ID = pq_ReservationId req, rq_OrderID = pq_OrderId req, rq_Items = items,
                     rq_DestinationRegion = pq_DestinationRegion req, rq_ExpiresAt = pq_ExpiresAt req\<rparr>)))"

definition reserve_response :: "ReservationResult \<Rightarrow> ReserveResponse" where
  "reserve_response res =
     \<lparr>pr_ReservationId = rr_ID res, pr_Status = toProtoReservationStatus (rr_Status res),
      pr_Allocations = map proto_allocation (rr_Allocations res)\<rparr>"

definition Server_Reserve :: "Server \<Rightarrow> Context \<Rightarrow> ReserveRequest \<Rightarrow> ReserveResponse rpc" where
  "Server_Reserve s ctx req =
     (case decode_reserve req of
        Inl st \<Rightarrow> reject st
      | Inr r \<Rightarrow>
          rpc_bind (rs_Reserve (sv_reservations s) ctx r) (reservationError ctx ''Reserve'')
            (\<lambda>res. respond (reserve_response res)))"

definition Server_Release :: "Server \<Rightarrow> Context \<Rightarrow> string \<Rightarrow> string \<Rightarrow> TransitionResponse rpc" where
  "Server_Release s ctx rid reason =
     (if \<not> validReservationID rid then reject (errInvalidReservationID fieldReservationID)
      else if \<not> releaseReason_matches reason then
        reject (invalid_argument ''reason must match [A-Za-z0-9_.-]{0,64}'')
      else
        rpc_bind (rs_Release (sv_reservations s) ctx rid reason) (reservationError ctx ''Release'')
          (\<lambda>status. respond \<lparr>pt_ReservationId = rid, pt_Status = toProtoReservationStatus status\<rparr>))"

definition Server_Commit :: "Server \<Rightarrow> Context \<Rightarrow> string \<Rightarrow> TransitionResponse rpc" where
  "Server_Commit s ctx rid =
     (if \<not> validReservationID rid then reject (errInvalidReservationID fieldReservationID)
      else
        rpc_bind (rs_Commit (sv_reservations s) ctx rid) (reservationError ctx ''Commit'')
          (\<lambda>status. respond \<lparr>pt_ReservationId = rid, pt_Status = toProtoReservationStatus status\<rparr>))"

definition Server_GetReservation :: "Server \<Rightarrow> Context \<Rightarrow> string \<Rightarrow> ProtoReservation rpc" where
  "Server_GetReservation s ctx rid =
     (if \<not> validReservationID rid then reject (errInvalidReservationID fieldReservationID)
      else
        rpc_bind (rs_GetReservation (sv_reservations s) ctx rid) (reservationError ctx ''GetReservation'')
          (\<lambda>res. respond
             \<lparr>pv_Id = rv_ID res, pv_OrderId = rv_OrderID res,
              pv_Status = toProtoReservationStatus (rv_Status res),
              pv_Allocations = map proto_allocation (rv_Allocations res),
              pv_CreatedAt = rv_CreatedAt res, pv_UpdatedAt = rv_UpdatedAt res,
              pv_ExpiresAt = rv_ExpiresAt res\<rparr>))"

section \<open>What validation establishes\<close>

definition line_of_item :: "ReservationItem \<Rightarrow> Line" where
  "line_of_item it = \<lparr>ln_SKUID = pi_SkuId it, ln_Quantity = pi_Quantity it\<rparr>"

definition edge_line :: "Line \<Rightarrow> bool" where
  "edge_line l \<longleftrightarrow> 0 < ln_Quantity l \<and> ln_Quantity l \<le> maxQuantity \<and> validSKUID (ln_SKUID l)"

lemma reservation_loop_ok:
  "reservation_loop items = Inr ls \<Longrightarrow> ls = map line_of_item items \<and> list_all edge_line ls"
proof (induction items arbitrary: ls)
  case (Cons it its)
  from Cons.prems obtain out where out: "reservation_loop its = Inr out" "ls = line_of_item it # out"
    "edge_line (line_of_item it)"
    by (auto simp: Let_def line_of_item_def edge_line_def split: if_splits sum.splits)
  from Cons.IH [OF out(1)] have o: "out = map line_of_item its" "list_all edge_line out" by blast+
  show ?case by (simp add: out(2,3) o(1) [symmetric] o(2))
qed simp

lemma reservationLines_ok:
  assumes "reservationLines items = Inr ls"
  shows "ls = map line_of_item items" "0 < length ls" "length ls \<le> maxCheckItems" "\<forall>l \<in> set ls. edge_line l"
  using assms reservation_loop_ok [of items ls] by (auto simp: reservationLines_def list_all_iff split: if_splits)

text \<open>An accepted basket never overflows: at most 100 lines of at most 10000 units.\<close>

lemma edge_demand:
  assumes "\<forall>l \<in> set ls. edge_line l"
  shows "0 \<le> demand ls s \<and> demand ls s \<le> int (length ls) * maxQuantity"
  using assms
proof (induction ls)
  case (Cons l ls)
  then have "0 \<le> demand ls s" "demand ls s \<le> int (length ls) * maxQuantity" "edge_line l" by simp_all
  then show ?case by (auto simp: demand_def edge_line_def algebra_simps)
qed (simp add: demand_def)

lemma edge_int64: "edge_line l \<Longrightarrow> int64_range (ln_Quantity l)"
  by (simp add: edge_line_def int64_range_def maxQuantity_def)

lemma edge_demand_exact:
  assumes "\<forall>l \<in> set ls. edge_line l" "length ls \<le> maxCheckItems"
  shows "wrap64 (demand ls s) = demand ls s"
proof (rule wrap64_id)
  have "demand ls s \<le> int (length ls) * maxQuantity" "0 \<le> demand ls s" using edge_demand [OF assms(1)] by simp_all
  with assms(2) show "int64_range (demand ls s)"
    by (simp add: int64_range_def maxCheckItems_def maxQuantity_def)
qed

lemma edge_aggregate:
  assumes "\<forall>l \<in> set ls. edge_line l" "length ls \<le> maxCheckItems" "l \<in> set (AggregateLines ls)"
  shows "ln_Quantity l = demand ls (ln_SKUID l)" "0 < ln_Quantity l" "validSKUID (ln_SKUID l)"
proof -
  show q: "ln_Quantity l = demand ls (ln_SKUID l)"
    using AggregateLines_demand [of ls] assms edge_int64 edge_demand_exact [OF assms(1,2)] by fastforce
  have "ln_SKUID l \<in> ln_SKUID ` set ls" using assms(3) set_AggregateLines_SKUIDs by blast
  then obtain m where m: "m \<in> set ls" "ln_SKUID m = ln_SKUID l" by auto
  with assms(1) show "validSKUID (ln_SKUID l)" by (metis edge_line_def)
  from m(1) obtain xs ys where "ls = xs @ m # ys" by (metis split_list)
  then have "demand ls (ln_SKUID l) = demand xs (ln_SKUID l) + ln_Quantity m + demand ys (ln_SKUID l)"
    using m(2) by (simp add: demand_def)
  moreover have "0 \<le> demand xs (ln_SKUID l)" "0 \<le> demand ys (ln_SKUID l)" "0 < ln_Quantity m"
    using assms(1) \<open>ls = xs @ m # ys\<close> edge_demand by (auto simp: edge_line_def)
  ultimately show "0 < ln_Quantity l" using q by simp
qed

lemma decode_reserve_ok:
  assumes "decode_reserve p = Inr r"
  shows "validReservationID (rq_ID r)" "validReservationID (rq_OrderID r)"
    "validDestinationRegion (rq_DestinationRegion r)" "\<forall>l \<in> set (rq_Items r). edge_line l"
    "length (rq_Items r) \<le> maxCheckItems" "rq_Items r = map line_of_item (pq_Items p)"
    "rq_ExpiresAt r = '''' \<or> ParseRFC3339_accepts (rq_ExpiresAt r)"
    "rq_DestinationRegion r = pq_DestinationRegion p" "rq_Items r \<noteq> []"
  using assms reservationLines_ok [of "pq_Items p"]
  by (auto simp: decode_reserve_def split: if_splits sum.splits)

section \<open>The two baskets\<close>

text \<open>\<open>CheckAvailability\<close> validates and aggregates exactly as \<open>Reserve\<close> does.\<close>

definition item_of_line :: "Line \<Rightarrow> CheckItem" where
  "item_of_line l = \<lparr>ci_SKUID = ln_SKUID l, ci_Quantity = ln_Quantity l\<rparr>"

lemma basket_items [simp]: "basket (map item_of_line ls) = ls"
  by (simp add: basket_def item_of_line_def comp_def) (simp add: map_idI)

lemma check_loop_aggregate:
  assumes "\<forall>s i. index s = Some i \<longrightarrow> i < length out"
  shows "check_loop its (map item_of_line out) index =
    (case reservation_loop its of Inl st \<Rightarrow> Inl st | Inr ls \<Rightarrow> Inr (map item_of_line (aggregate_loop ls out index)))"
  using assms
proof (induction its arbitrary: out index)
  case (Cons it its)
  let ?l = "\<lparr>ln_SKUID = pi_SkuId it, ln_Quantity = pi_Quantity it\<rparr>"
  show ?case
  proof (cases "pi_Quantity it \<le> 0 \<or> pi_Quantity it > maxQuantity \<or> \<not> validSKUID (pi_SkuId it)")
    case True
    then show ?thesis by (auto simp: Let_def)
  next
    case valid: False
    show ?thesis
    proof (cases "index (pi_SkuId it)")
      case None
      have "map item_of_line out @ [\<lparr>ci_SKUID = pi_SkuId it, ci_Quantity = pi_Quantity it\<rparr>] =
          map item_of_line (out @ [?l])"
        by (simp add: item_of_line_def)
      moreover have "\<forall>s i. (index(pi_SkuId it \<mapsto> length out)) s = Some i \<longrightarrow> i < length (out @ [?l])"
        using Cons.prems by (auto simp: less_Suc_eq)
      ultimately show ?thesis
        using valid None Cons.IH [of "index(pi_SkuId it \<mapsto> length out)" "out @ [?l]"]
        by (simp add: Let_def del: fun_upd_apply split: sum.split)
    next
      case (Some i)
      with Cons.prems have i: "i < length out" by blast
      let ?out = "out[i := (out ! i)\<lparr>ln_Quantity := wrap64 (ln_Quantity (out ! i) + pi_Quantity it)\<rparr>]"
      have "(map item_of_line out)[i := (map item_of_line out ! i)
            \<lparr>ci_Quantity := wrap64 (ci_Quantity (map item_of_line out ! i) + pi_Quantity it)\<rparr>] = map item_of_line ?out"
        using i by (simp add: map_update item_of_line_def)
      then show ?thesis
        using valid Some Cons.IH [of index ?out] Cons.prems by (simp add: Let_def split: sum.split)
    qed
  qed
qed simp

lemma check_loop_lines:
  "check_loop its [] Map.empty =
     (case reservation_loop its of Inl st \<Rightarrow> Inl st | Inr ls \<Rightarrow> Inr (map item_of_line (AggregateLines ls)))"
  using check_loop_aggregate [of Map.empty "[]" its] by (simp add: AggregateLines_def split: sum.split)

end
