(* ===== verification/Telemetry_Bounds.thy ===== *)
theory Telemetry_Bounds
  imports Reservation_Logic Availability_Logic
begin

text \<open>
  What the logic layer lets out as telemetry. The comments of \<open>tracing.go\<close> and \<open>metrics.go\<close> promise
  that span names, attributes, span errors and metric labels come from a fixed vocabulary and never
  carry SKU, order, reservation or warehouse ids or driver errors, with one exception: the reference
  of a rejected reservation in its event record. \<open>bounded_record\<close> is that vocabulary.
\<close>

definition logic_operations :: "string list" where
  "logic_operations =
     [opReserve, opRelease, opCommit, opGetReservation, opCheckAvailability, opBatchAvailability]"

definition check_outcomes :: "string list" where
  "check_outcomes = [outcomeFulfillable, outcomeShortage, outcomeUnknownSKU, outcomeError]"

definition reservation_outcomes :: "string list" where
  "reservation_outcomes =
     [outcomeOK, outcomeReplayed, outcomeInsufficient, outcomeUnknownSKU, outcomeConflict, outcomeConcurrency,
      outcomeInvalidTransition, outcomeNotFound, outcomeError]"

fun bounded_record :: "string \<Rightarrow> telemetry \<Rightarrow> bool" where
  "bounded_record ref (SpanStart n as) \<longleftrightarrow>
     (\<exists>op \<in> set logic_operations. n = ''inventory.'' @ op \<and> as = [(attrLayer, layerLogic), (attrOperation, op)])"
| "bounded_record ref (SpanAttribute k v) \<longleftrightarrow>
     k = attrOutcome \<and> v \<in> set check_outcomes \<union> set reservation_outcomes"
| "bounded_record ref (SpanError e d) \<longleftrightarrow>
     (\<exists>op \<in> set logic_operations. e = op @ ''_error'' \<and> d = op @ '' failed'')"
| "bounded_record ref SpanEnd \<longleftrightarrow> True"
| "bounded_record ref (CounterAdd n as) \<longleftrightarrow>
     (n = checkCounter \<and> (\<exists>out \<in> set check_outcomes. as = [(''outcome'', out)])) \<or>
     (n = reservationCounter \<and>
       (\<exists>op \<in> {opReserve, opRelease, opCommit}. \<exists>out \<in> set reservation_outcomes.
          as = [(''operation'', op), (''outcome'', out)]))"
| "bounded_record ref (LogDebug m as) \<longleftrightarrow>
     m = ''reservation outcome'' \<and>
     (\<exists>op \<in> {opReserve, opRelease, opCommit}. \<exists>out \<in> set reservation_outcomes.
        as = [(attrOperation, op), (attrOutcome, out)])"
| "bounded_record ref (LogEvent n m as) \<longleftrightarrow>
     n = ''inventory.reservation.rejected'' \<and> m = ''reservation rejected'' \<and>
     (\<exists>out \<in> {outcomeInsufficient, outcomeUnknownSKU}.
        as = [(''inventory.reservation.ref'', ref), (attrOutcome, out)])"
| "bounded_record ref (LogError m as e) \<longleftrightarrow> False"

abbreviation bounded :: "string \<Rightarrow> 'a prog \<Rightarrow> bool" where
  "bounded ref \<equiv> emits_within {t. bounded_record ref t}"

lemma failureOutcome_bounded: "failureOutcome err \<in> set reservation_outcomes"
  by (simp add: failureOutcome_def reservation_outcomes_def)

lemma bounded_trace:
  "bounded ref m \<Longrightarrow> \<exists>ts. w_trace (snd (m w)) = w_trace w @ ts \<and> list_all (bounded_record ref) ts"
  unfolding emits_within_def list_all_iff by (metis mem_Collect_eq subset_code(1))

lemma bounded_silent: "emits_within {} m \<Longrightarrow> bounded ref m"
  by (erule emits_mono) blast

lemma bounded_calls:
  "op \<in> set logic_operations \<Longrightarrow> bounded ref (startLogicSpan ctx op)"
  "out \<in> set check_outcomes \<union> set reservation_outcomes \<Longrightarrow> bounded ref (setSpanOutcome ctx out)"
  "op \<in> set logic_operations \<Longrightarrow> bounded ref (recordBoundedSpanError ctx op)"
  "out \<in> set check_outcomes \<Longrightarrow> bounded ref (recordCheck ctx out)"
  "op \<in> {opReserve, opRelease, opCommit} \<Longrightarrow> out \<in> set reservation_outcomes \<Longrightarrow>
     bounded ref (recordReservation ctx op out)"
  "op \<in> {opReserve, opRelease, opCommit} \<Longrightarrow> out \<in> set reservation_outcomes \<Longrightarrow>
     bounded ref (logOutcome ctx op out)"
  "bounded ref (logRejected ctx ref out)"
  by (auto simp: startLogicSpan_def setSpanOutcome_def recordBoundedSpanError_def recordCheck_def
      recordReservation_def logOutcome_def logRejected_def intro!: emits_emit emits_return)

lemma bounded_error: "op \<in> set logic_operations \<Longrightarrow> bounded ref (recordSpanError ctx op err)"
  unfolding recordSpanError_def
  by (intro emits_rules bounded_calls) (simp_all add: check_outcomes_def)

lemma bounded_finish:
  assumes "op \<in> {opReserve, opRelease, opCommit}"
  shows "out \<in> set reservation_outcomes \<Longrightarrow> bounded ref (finishOK ctx op out)"
    and "bounded ref (finishFailure ctx op err)"
proof -
  have ops: "op \<in> set logic_operations" using assms by (auto simp: logic_operations_def)
  show "bounded ref (finishOK ctx op out)" if "out \<in> set reservation_outcomes"
    unfolding finishOK_def using assms that by (intro emits_rules bounded_calls) simp_all
  show "bounded ref (finishFailure ctx op err)"
    unfolding finishFailure_def Let_def
    using assms ops failureOutcome_bounded by (intro emits_rules bounded_calls) simp_all
qed

lemma bounded_with_span: "op \<in> set logic_operations \<Longrightarrow> bounded ref m \<Longrightarrow> bounded ref (with_span ctx op m)"
  unfolding with_span_def by (intro emits_rules bounded_calls) simp_all

lemma ops [simp]: "opReserve \<in> set logic_operations" "opRelease \<in> set logic_operations"
  "opCommit \<in> set logic_operations" "opGetReservation \<in> set logic_operations"
  "opCheckAvailability \<in> set logic_operations" "opBatchAvailability \<in> set logic_operations"
  by (simp_all add: logic_operations_def)

context reservation_store
begin

lemma reservation_bounded:
  "bounded (rq_ID req) (service_Reserve repo ctx req)" "bounded ref (service_Release repo ctx rid reason)"
  "bounded ref (service_Commit repo ctx rid)" "bounded ref (service_GetReservation repo ctx rid)"
proof -
  have ok: "outcomeOK \<in> set reservation_outcomes" "outcomeReplayed \<in> set reservation_outcomes"
    by (simp_all add: reservation_outcomes_def)
  show "bounded (rq_ID req) (service_Reserve repo ctx req)"
    unfolding service_Reserve_def
    by (intro bounded_with_span ops emits_try_bind emits_bindE emits_return emits_fail
        bounded_silent [OF silent_law(1)] bounded_finish bounded_calls(7)) (use ok in simp_all)
  show "bounded ref (service_Release repo ctx rid reason)" "bounded ref (service_Commit repo ctx rid)"
    unfolding service_Release_def service_Commit_def
    by (intro bounded_with_span ops emits_try_bind emits_bindE emits_return emits_fail
        bounded_silent [OF silent_law(2)] bounded_silent [OF silent_law(3)] bounded_finish; use ok in simp)+
  show "bounded ref (service_GetReservation repo ctx rid)"
    unfolding service_GetReservation_def Let_def
    by (intro bounded_with_span ops emits_try_bind emits_bindE emits_return emits_fail emits_if
        bounded_silent [OF silent_law(4)] bounded_calls(2,3)) (use ok failureOutcome_bounded in simp_all)
qed

end

context availability_reader
begin

lemma availability_bounded:
  "bounded ref (BatchGetAvailability repo ctx skus)" "bounded ref (CheckAvailability repo ctx items)"
proof -
  have tracked: "bounded ref (lookup_tracked repo missing)" for missing
    unfolding lookup_tracked_def by (intro emits_rules bounded_silent silent_law)
  have ok: "outcomeOK \<in> set reservation_outcomes" by (simp add: reservation_outcomes_def)
  show "bounded ref (BatchGetAvailability repo ctx skus)"
    unfolding BatchGetAvailability_def batch_failed_def
    by (intro bounded_with_span ops emits_rules bounded_silent [OF silent_law(1)] tracked bounded_error
        bounded_calls(2)) (use ok in simp)
  have check: "outcomeFulfillable \<in> set check_outcomes" "outcomeShortage \<in> set check_outcomes"
    "outcomeUnknownSKU \<in> set check_outcomes" "outcomeError \<in> set check_outcomes"
    by (simp_all add: check_outcomes_def)
  show "bounded ref (CheckAvailability repo ctx items)"
    unfolding CheckAvailability_def check_failed_def check_shortfall_def Let_def case_prod_beta
    by (intro bounded_with_span ops emits_rules bounded_silent [OF silent_law(2)] tracked bounded_error
        bounded_calls(2,4)) (use check in simp_all)
qed

end

end
