(* ===== verification/Grpc_Contract.thy ===== *)
theory Grpc_Contract
  imports Grpc_Server Canonical_Hash Telemetry_Bounds
begin

text \<open>
  What a caller of the RPCs can rely on: responses mean what the repository theories prove, status
  errors come from a fixed list and agree with the metric labels, and a valid request reaches the
  state it asks for.
\<close>

section \<open>The interface of the logic layer\<close>

locale reservations_api =
  fixes api :: Reservations
  assumes reserve_law: "concurrent w \<Longrightarrow> rs_Reserve api ctx req w = (Inr res, w') \<Longrightarrow>
      db_inv (w_db w') \<and> db_guar (w_db w) (w_db w') \<and>
      reserve_answer (req\<lparr>rq_Items := AggregateLines (rq_Items req)\<rparr>) res (w_db w')"
    and release_law: "concurrent w \<Longrightarrow> rs_Release api ctx rid reason w = (Inr s, w') \<Longrightarrow>
      db_inv (w_db w') \<and> db_guar (w_db w) (w_db w') \<and>
      transition_answer True rid ReservationReleased (w_db w) s (w_db w')"
    and commit_law: "concurrent w \<Longrightarrow> rs_Commit api ctx rid w = (Inr s, w') \<Longrightarrow>
      db_inv (w_db w') \<and> db_guar (w_db w) (w_db w') \<and>
      transition_answer False rid ReservationCommitted (w_db w) s (w_db w')"

sublocale reservation_store \<subseteq> served: reservations_api "reservation_service repo"
  by unfold_locales (simp_all add: reservation_service_def Reserve_sound Release_sound Commit_sound)

lemma respond_run: "(respond x w = (Inr y, w')) = (x = y \<and> w = w')" "respond x w \<noteq> (Inl st, w')"
  by (auto simp: respond_def)

lemma reject_run: "reject st w \<noteq> (Inr y, w')" "(reject st w = (Inl st', w')) = (st = st' \<and> w = w')"
  by (auto simp: reject_def)

lemma failClosed_fails: "failClosed ctx rpc err w \<noteq> (Inr y, w')"
  by (simp add: failClosed_def rpc_log_def reject_run)

lemma reservationError_fails: "reservationError ctx rpc err w \<noteq> (Inr y, w')"
  by (simp add: reservationError_def reject_run failClosed_fails)

lemma rpc_bind_Inr:
  assumes "rpc_bind m h f w = (Inr y, w')" "\<And>e u. h e u \<noteq> (Inr y, w')"
  obtains x u where "m w = (Inr x, u)" "f x u = (Inr y, w')"
  using assms by (auto simp: rpc_bind_def split: prod.splits sum.splits)

context reservations_api
begin

lemma Server_Reserve_sound:
  assumes "sv_reservations s = api" "concurrent w" "Server_Reserve s ctx p w = (Inr resp, w')"
  shows "\<exists>r res. decode_reserve p = Inr r \<and> resp = reserve_response res \<and> db_inv (w_db w') \<and>
    db_guar (w_db w) (w_db w') \<and> reserve_answer (r\<lparr>rq_Items := AggregateLines (rq_Items r)\<rparr>) res (w_db w')"
proof -
  from assms(3) obtain r where r: "decode_reserve p = Inr r"
    by (auto simp: Server_Reserve_def reject_run split: sum.splits)
  with assms(1,3) have "rpc_bind (rs_Reserve api ctx r) (reservationError ctx ''Reserve'')
      (\<lambda>res. respond (reserve_response res)) w = (Inr resp, w')"
    by (simp add: Server_Reserve_def)
  then obtain res u where "rs_Reserve api ctx r w = (Inr res, u)" "respond (reserve_response res) u = (Inr resp, w')"
    by (rule rpc_bind_Inr) (rule reservationError_fails)
  with reserve_law [OF assms(2)] r show ?thesis by (auto simp: respond_run)
qed

lemma Server_transitions_sound:
  assumes "sv_reservations s = api" "concurrent w"
  shows "Server_Release s ctx rid reason w = (Inr resp, w') \<Longrightarrow>
      pt_Status resp = RESERVATION_STATUS_RELEASED \<and> db_inv (w_db w') \<and> db_guar (w_db w) (w_db w') \<and>
      (status_of (w_db w') rid = Some ReservationReleased \<or> status_of (w_db w) rid = None)"
    and "Server_Commit s ctx rid w = (Inr resp, w') \<Longrightarrow>
      pt_Status resp = RESERVATION_STATUS_COMMITTED \<and> db_inv (w_db w') \<and> db_guar (w_db w) (w_db w') \<and>
      status_of (w_db w') rid = Some ReservationCommitted"
proof -
  have st: "toProtoReservationStatus ReservationReleased = RESERVATION_STATUS_RELEASED"
    "toProtoReservationStatus ReservationCommitted = RESERVATION_STATUS_COMMITTED"
    by (simp_all add: toProtoReservationStatus_def reservation_status_defs)
  show "pt_Status resp = RESERVATION_STATUS_RELEASED \<and> db_inv (w_db w') \<and> db_guar (w_db w) (w_db w') \<and>
      (status_of (w_db w') rid = Some ReservationReleased \<or> status_of (w_db w) rid = None)"
    if "Server_Release s ctx rid reason w = (Inr resp, w')"
  proof -
    from that assms(1) have "rpc_bind (rs_Release api ctx rid reason) (reservationError ctx ''Release'')
        (\<lambda>status. respond \<lparr>pt_ReservationId = rid, pt_Status = toProtoReservationStatus status\<rparr>) w = (Inr resp, w')"
      by (simp add: Server_Release_def reject_run split: if_splits)
    then obtain x u where run: "rs_Release api ctx rid reason w = (Inr x, u)"
      and resp: "respond \<lparr>pt_ReservationId = rid, pt_Status = toProtoReservationStatus x\<rparr> u = (Inr resp, w')"
      by (rule rpc_bind_Inr) (rule reservationError_fails)
    from release_law [OF assms(2) run] resp st show ?thesis by (auto simp: respond_run transition_answer_def)
  qed
  show "pt_Status resp = RESERVATION_STATUS_COMMITTED \<and> db_inv (w_db w') \<and> db_guar (w_db w) (w_db w') \<and>
      status_of (w_db w') rid = Some ReservationCommitted"
    if "Server_Commit s ctx rid w = (Inr resp, w')"
  proof -
    from that assms(1) have "rpc_bind (rs_Commit api ctx rid) (reservationError ctx ''Commit'')
        (\<lambda>status. respond \<lparr>pt_ReservationId = rid, pt_Status = toProtoReservationStatus status\<rparr>) w = (Inr resp, w')"
      by (simp add: Server_Commit_def reject_run split: if_splits)
    then obtain x u where run: "rs_Commit api ctx rid w = (Inr x, u)"
      and resp: "respond \<lparr>pt_ReservationId = rid, pt_Status = toProtoReservationStatus x\<rparr> u = (Inr resp, w')"
      by (rule rpc_bind_Inr) (rule reservationError_fails)
    from commit_law [OF assms(2) run] resp st show ?thesis by (auto simp: respond_run transition_answer_def)
  qed
qed

end

section \<open>Status errors\<close>

text \<open>Every status error the six RPCs can return, whatever the request holds and whatever fails.\<close>

definition rpc_names :: "string list" where
  "rpc_names = [''Reserve'', ''Release'', ''Commit'', ''GetReservation'', ''BatchGetAvailability'', ''CheckAvailability'']"

definition wire_status :: "string \<Rightarrow> string \<Rightarrow> status_error" where
  "wire_status rpc outcome =
     (if outcome = outcomeUnknownSKU then
        ErrorWithReason FailedPrecondition ReasonSKUNotFound ''sku not tracked by inventory''
      else if outcome = outcomeInsufficient then
        ErrorWithReason FailedPrecondition ReasonInsufficientStock ''insufficient stock to reserve''
      else if outcome = outcomeConflict then
        ErrorWithReason AlreadyExists ReasonIdempotencyConflict ''reservation or order id reused with a different request''
      else if outcome = outcomeInvalidTransition then
        ErrorWithReason FailedPrecondition ReasonInvalidTransition ''reservation status does not allow this transition''
      else if outcome = outcomeNotFound then ErrorWithReason NotFound ReasonNotFound ''reservation not found''
      else if outcome = outcomeConcurrency then
        ErrorWithReason Aborted ReasonConcurrencyConflict ''concurrent transaction conflict, retry''
      else ErrorWithReason Unavailable ReasonDependencyUnavailable (rpc @ '' failed''))"

definition wire_errors :: "status_error list" where
  "wire_errors =
     [errInvalidSKUID, errInvalidReservationID fieldReservationID, errInvalidReservationID ''order_id'',
      errInvalidDestinationRegion, quantity_error, item_count_error,
      invalid_argument (''sku_ids must contain 1..'' @ FormatInt (int maxBatchSkuIDs) @ '' entries''),
      invalid_argument ''expires_at must be RFC-3339'',
      invalid_argument ''request_hash does not match the canonical server-side hash'',
      invalid_argument ''reason must match [A-Za-z0-9_.-]{0,64}'',
      StatusError CodeCanceled ''request canceled''] @
     concat (map (\<lambda>rpc. map (wire_status rpc) reservation_outcomes) rpc_names)"

lemma outcome_distinct:
  "distinct [outcomeUnknownSKU, outcomeInsufficient, outcomeConflict, outcomeConcurrency,
     outcomeInvalidTransition, outcomeNotFound, outcomeError]"
  "distinct [outcomeError, outcomeNotFound, outcomeInvalidTransition, outcomeConcurrency, outcomeConflict,
     outcomeInsufficient, outcomeUnknownSKU]"
  by (simp_all add: outcomeUnknownSKU_def outcomeInsufficient_def outcomeConflict_def outcomeConcurrency_def
      outcomeInvalidTransition_def outcomeNotFound_def outcomeError_def)

text \<open>An error chain without \<open>Wrap2\<close> has at most one sentinel.\<close>

fun linear :: "goerr \<Rightarrow> bool" where
  "linear (Wrapf pre e post) = linear e"
| "linear (Wrap2 a b) = False"
| "linear _ = True"

lemma linear_Is: "linear err \<Longrightarrow> errors_Is err s \<Longrightarrow> errors_Is err t \<Longrightarrow> s = t"
  by (induction err) auto

lemma reservationError_status:
  assumes "linear err"
  shows "fst (reservationError ctx rpc err w :: (status_error + 'a) \<times> world) =
    Inl (if errors_Is err Canceled then StatusError CodeCanceled ''request canceled''
         else wire_status rpc (failureOutcome err))" (is ?goal)
proof -
  note defs = reservationError_def failureOutcome_def wire_status_def failClosed_def reject_def rpc_log_def
  have ?goal if s: "errors_Is err s" for s
  proof -
    have "errors_Is err t \<longleftrightarrow> t = s" for t using linear_Is [OF assms s] s by blast
    then show ?thesis using outcome_distinct by (cases s) (simp_all add: defs)
  qed
  moreover have ?goal if "\<And>s. \<not> errors_Is err s" using that outcome_distinct by (simp add: defs)
  ultimately show ?goal by blast
qed

lemma reservationError_listed:
  assumes "rpc \<in> set rpc_names"
  shows "reservationError ctx rpc err w = (Inl st, w') \<Longrightarrow> st \<in> set wire_errors"
    and "failClosed ctx rpc err w = (Inl st, w') \<Longrightarrow> st \<in> set wire_errors"
proof -
  have out: "wire_status rpc x \<in> set wire_errors" if "x \<in> set reservation_outcomes" for x
    using assms that by (auto simp: wire_errors_def)
  have all_out: "outcomeUnknownSKU \<in> set reservation_outcomes" "outcomeInsufficient \<in> set reservation_outcomes"
    "outcomeConflict \<in> set reservation_outcomes" "outcomeInvalidTransition \<in> set reservation_outcomes"
    "outcomeNotFound \<in> set reservation_outcomes" "outcomeConcurrency \<in> set reservation_outcomes"
    "outcomeError \<in> set reservation_outcomes"
    by (simp_all add: reservation_outcomes_def)
  have canceled: "StatusError CodeCanceled ''request canceled'' \<in> set wire_errors"
    by (simp add: wire_errors_def)
  show closed: "failClosed ctx rpc err w = (Inl st, w') \<Longrightarrow> st \<in> set wire_errors" for st w'
    using canceled out [OF all_out(7)] outcome_distinct
    by (auto simp: failClosed_def rpc_log_def reject_def wire_status_def split: if_splits)
  show "reservationError ctx rpc err w = (Inl st, w') \<Longrightarrow> st \<in> set wire_errors"
    using out [OF all_out(1)] out [OF all_out(2)] out [OF all_out(3)] out [OF all_out(4)] out [OF all_out(5)]
      out [OF all_out(6)] outcome_distinct closed
    by (auto simp: reservationError_def reject_def wire_status_def split: if_splits)
qed

lemma rpc_bind_Inl:
  assumes "rpc_bind m h (\<lambda>x. respond (g x)) w = (Inl st, w')" "\<And>e u. h e u = (Inl st, w') \<Longrightarrow> Q"
  shows Q
  using assms by (auto simp: rpc_bind_def respond_run split: prod.splits sum.splits)

lemma reservation_loop_error: "reservation_loop its = Inl st \<Longrightarrow> st \<in> {quantity_error, errInvalidSKUID}"
  by (induction its) (auto simp: Let_def split: if_splits sum.splits)

lemma decode_error:
  assumes "decode_reserve p = Inl st"
  shows "st \<in> set wire_errors"
  using assms reservation_loop_error [of "pq_Items p" st]
  by (auto simp: decode_reserve_def reservationLines_def wire_errors_def split: if_splits sum.splits)

lemma rpc_names [simp]: "''Reserve'' \<in> set rpc_names" "''Release'' \<in> set rpc_names" "''Commit'' \<in> set rpc_names"
  "''GetReservation'' \<in> set rpc_names" "''BatchGetAvailability'' \<in> set rpc_names"
  "''CheckAvailability'' \<in> set rpc_names"
  by (simp_all add: rpc_names_def)

section \<open>Valid requests that run alone\<close>

text \<open>What a new request still needs of the state, besides a warehouse that can serve it.\<close>

definition fresh_request :: "ReservationRequest \<Rightarrow> db \<Rightarrow> bool" where
  "fresh_request r d \<longleftrightarrow>
     (rq_ExpiresAt r = '''' \<or> timestamptz_in (server d) (rq_ExpiresAt r) \<noteq> None) \<and>
     map_of (reservations d) (rq_ID r) = None \<and> ref_ids d (rq_OrderID r) = [] \<and>
     list_all (\<lambda>l. \<not> has_command d (res_command (rq_ID r) (ln_SKUID l))) (rq_Items r) \<and>
     list_all (\<lambda>kr. int64_range (version (snd kr) + 1)) (balances d)"

lemma valid_id_fits: "validReservationID i \<Longrightarrow> varchar 255 i"
  by (rule varchar_length) (auto simp: validReservationID_def class_match_def)

lemma edge_header_fits:
  assumes "decode_reserve p = Inr r"
    and "rq_ExpiresAt r = '''' \<or> timestamptz_in (server d) (rq_ExpiresAt r) \<noteq> None"
  shows "header_fits (aggregated r) d"
  using assms(2) decode_reserve_ok(1,2) [OF assms(1)] by (simp add: header_fits_def valid_id_fits)

lemma edge_admissible:
  assumes p: "decode_reserve p = Inr r" and f: "fresh_request r d"
  shows "admissible (aggregated r) wh d"
proof -
  note ok = decode_reserve_ok [OF p]
  have "line_fits d (rq_ID r) a" if "a \<in> set (allocations_at wh (AggregateLines (rq_Items r)))" for a
  proof -
    from that obtain l where l: "l \<in> set (AggregateLines (rq_Items r))" "al_SKUID a = ln_SKUID l" "al_Quantity a = ln_Quantity l"
      by (auto simp: allocations_at_def)
    note e = edge_aggregate [OF ok(4,5) l(1)]
    have "ln_SKUID l \<in> ln_SKUID ` set (rq_Items r)" using l(1) set_AggregateLines_SKUIDs by blast
    then have "\<not> has_command d (res_command (rq_ID r) (ln_SKUID l))"
      using f by (auto simp: fresh_request_def list_all_iff)
    moreover have "varchar 64 (ln_SKUID l)"
      using e(3) by (intro varchar_length) (simp add: validSKUID_def class_match_def)
    moreover have "varchar 255 (res_command (rq_ID r) (ln_SKUID l))"
      using ledger_id_fits [OF ok(1) e(3), of "''res:''"] by (simp add: res_command_def)
    moreover have "case map_of (balances d) (akey a) of None \<Rightarrow> True | Some row \<Rightarrow> int64_range (version row + 1)"
      using f by (auto simp: fresh_request_def list_all_iff split: option.split dest!: map_of_SomeD)
    ultimately show ?thesis using e(2) l(2,3) by (simp add: line_fits_def)
  qed
  with f ok(1,2) show ?thesis
    by (simp add: admissible_def fresh_request_def valid_id_fits distinct_AggregateLines)
qed

lemma demand_distinct:
  assumes "distinct (map ln_SKUID ls)" "l \<in> set ls"
  shows "demand ls (ln_SKUID l) = ln_Quantity l"
  using assms
proof (induction ls)
  case (Cons m ls)
  have d: "demand (m # ls) (ln_SKUID l) = (if ln_SKUID m = ln_SKUID l then ln_Quantity m else 0) + demand ls (ln_SKUID l)"
    by (simp add: demand_def)
  show ?case
  proof (cases "l = m")
    case True
    with Cons.prems d show ?thesis by (simp add: demand_absent)
  next
    case False
    with Cons.prems have "l \<in> set ls" "ln_SKUID m \<noteq> ln_SKUID l" by auto
    with Cons d show ?thesis by simp
  qed
qed simp

lemma demand_aggregate:
  assumes "\<forall>l \<in> set ls. edge_line l" "length ls \<le> maxCheckItems"
  shows "demand (AggregateLines ls) s = demand ls s"
proof (cases "s \<in> ln_SKUID ` set ls")
  case True
  then obtain l where "l \<in> set (AggregateLines ls)" "s = ln_SKUID l"
    using set_AggregateLines_SKUIDs by (metis imageE)
  with demand_distinct [OF distinct_AggregateLines] edge_aggregate(1) [OF assms] show ?thesis by metis
next
  case False
  then show ?thesis by (simp add: demand_absent set_AggregateLines_SKUIDs)
qed

lemma sum_allocations: "sum_at al_Quantity (allocations_at wh ls) k = (if snd k = wh then demand ls (fst k) else 0)"
  by (induction ls) (auto simp: allocations_at_def demand_def akey_def prod_eq_iff)

lemma reservationError_world [simp]:
  "w_db (snd (reservationError ctx rpc e v)) = w_db v"
  "quiet (snd (reservationError ctx rpc e v)) = quiet v"
  by (simp_all add: reservationError_def failClosed_def reject_def rpc_log_def)

lemma Server_Reserve_eq:
  assumes "decode_reserve p = Inr r"
  shows "Server_Reserve wired_server ctx p =
    rpc_bind (service_Reserve reservation_repository ctx r) (reservationError ctx ''Reserve'')
      (\<lambda>res. respond (reserve_response res))"
  by (simp add: Server_Reserve_def assms wired_server_def reservation_service_def)

lemma Server_Reserve_alone:
  assumes "quiet w" "decode_reserve p = Inr r"
    and "\<And>u. quiet u \<Longrightarrow> w_db u = w_db w \<Longrightarrow>
      \<exists>u'. Reserve (aggregated r) u = (q, u') \<and> quiet u' \<and> P (w_db u')"
  shows "\<exists>w'. fst (Server_Reserve wired_server ctx p w) =
      (case q of Inr res \<Rightarrow> Inr (reserve_response res)
       | Inl e \<Rightarrow> fst (reservationError ctx ''Reserve'' (errorf_w ''reserve: '' e) w')) \<and>
    quiet (snd (Server_Reserve wired_server ctx p w)) \<and> P (w_db (snd (Server_Reserve wired_server ctx p w)))"
proof -
  have "\<And>u. quiet u \<Longrightarrow> w_db u = w_db w \<Longrightarrow>
      \<exists>u'. st_Reserve reservation_repository (aggregated r) u = (q, u') \<and> quiet u' \<and> P (w_db u')"
    using assms(3) by (simp add: reservation_repository_def)
  from service_Reserve_quiet [OF assms(1) this] obtain w' where
    w': "service_Reserve reservation_repository ctx r w = (map_sum (errorf_w ''reserve: '') id q, w')"
      "quiet w'" "P (w_db w')" by blast
  show ?thesis
    unfolding Server_Reserve_eq [OF assms(2)] rpc_bind_def w'(1)
    using w'(2,3) by (cases q) (auto simp: respond_def)
qed

end
