(* ===== verification/Edge_Outcomes.thy ===== *)
theory Edge_Outcomes
  imports Grpc_Contract Sample_Runs
begin

text \<open>
  What an RPC achieves when it runs alone, from the request message to the committed state: placing
  and refusing a basket, the prediction \<open>CheckAvailability\<close> makes of it, and the replay of a
  retry whose lines come in another order. The sample requests of the properties are at the end.
\<close>

section \<open>Placing and refusing\<close>

lemma aggregated_simps [simp]:
  "rq_Items (aggregated r) = AggregateLines (rq_Items r)" "rq_ID (aggregated r) = rq_ID r"
  "rq_OrderID (aggregated r) = rq_OrderID r" "rq_DestinationRegion (aggregated r) = rq_DestinationRegion r"
  "rq_ExpiresAt (aggregated r) = rq_ExpiresAt r"
  by simp_all

lemma edge_sum_allocations:
  assumes "decode_reserve p = Inr r"
  shows "sum_at al_Quantity (allocations_at wh (AggregateLines (rq_Items r))) k =
    (if snd k = wh then demand (rq_Items r) (fst k) else 0)"
  using decode_reserve_ok(4,5) [OF assms] by (simp add: sum_allocations demand_aggregate)

lemma edge_placed:
  assumes w: "quiet w" "db_inv (w_db w)" and p: "decode_reserve p = Inr r" and f: "fresh_request r (w_db w)"
    and wh: "serving_warehouse (w_db w) (AggregateLines (rq_Items r)) = Some wh"
  obtains w' where "Server_Reserve wired_server ctx p w = (Inr (reserve_response (reserve_result (aggregated r) wh)), w')"
    "quiet w'" "db_inv (w_db w')" "db_guar (w_db w) (w_db w')"
    "status_of (w_db w') (rq_ID r) = Some ReservationReserved"
    "lines_of (rq_ID r) (w_db w') = allocations_at wh (AggregateLines (rq_Items r))"
    "\<And>k. on_hand_of (w_db w') k = on_hand_of (w_db w) k"
    "\<And>k. reserved_of (w_db w') k = reserved_of (w_db w) k + (if snd k = wh then demand (rq_Items r) (fst k) else 0)"
    "matches (rq_ID r) (rq_OrderID r) (CanonicalHash (AggregateLines (rq_Items r)) (rq_DestinationRegion r)) (w_db w')"
proof -
  let ?P = "\<lambda>d'. db_inv d' \<and> db_guar (w_db w) d' \<and> status_of d' (rq_ID r) = Some ReservationReserved \<and>
    lines_of (rq_ID r) d' = allocations_at wh (AggregateLines (rq_Items r)) \<and>
    (\<forall>k. on_hand_of d' k = on_hand_of (w_db w) k) \<and>
    (\<forall>k. reserved_of d' k = reserved_of (w_db w) k + (if snd k = wh then demand (rq_Items r) (fst k) else 0)) \<and>
    matches (rq_ID r) (rq_OrderID r) (CanonicalHash (AggregateLines (rq_Items r)) (rq_DestinationRegion r)) d'"
  have run: "\<exists>u'. Reserve (aggregated r) u = (Inr (reserve_result (aggregated r) wh), u') \<and> quiet u' \<and> ?P (w_db u')"
    if u: "quiet u" "w_db u = w_db w" for u
  proof -
    have d: "db_inv (w_db u)" and s: "serving_warehouse (w_db u) (rq_Items (aggregated r)) = Some wh"
      and a: "admissible (aggregated r) wh (w_db u)"
      using w(2) wh edge_admissible [OF p f] u(2) by simp_all
    from Reserve_done [OF u(1) d s a] obtain u' where
      u': "Reserve (aggregated r) u = (Inr (reserve_result (aggregated r) wh), u')" "quiet u'" "db_inv (w_db u')"
        "status_of (w_db u') (rq_ID r) = Some ReservationReserved"
        "lines_of (rq_ID r) (w_db u') = allocations_at wh (AggregateLines (rq_Items r))"
        "\<And>k. on_hand_of (w_db u') k = on_hand_of (w_db u) k"
        "\<And>k. reserved_of (w_db u') k = reserved_of (w_db u) k +
           sum_at al_Quantity (allocations_at wh (AggregateLines (rq_Items r))) k"
      by (metis aggregated_simps(1,2))
    have "idle db_inv db_guar (w_db u) u"
      using u(1) d by (simp add: idle_def base_def quiet_def script_ok_def db_guar_refl)
    from triple_Inr [OF Reserve_rule this u'(1)]
    have "db_guar (w_db u) (w_db u') \<and> reserve_answer (aggregated r) (reserve_result (aggregated r) wh) (w_db u')"
      by (simp add: idle_def base_def)
    with u' u(2) show ?thesis
      by (simp add: edge_sum_allocations [OF p] reserve_answer_def Let_def)
  qed
  from Server_Reserve_alone [OF w(1) p, where q = "Inr (reserve_result (aggregated r) wh)" and P = ?P] run
  have "fst (Server_Reserve wired_server ctx p w) = Inr (reserve_response (reserve_result (aggregated r) wh)) \<and>
      quiet (snd (Server_Reserve wired_server ctx p w)) \<and> ?P (w_db (snd (Server_Reserve wired_server ctx p w)))"
    by auto
  then show ?thesis
    by (intro that [of "snd (Server_Reserve wired_server ctx p w)"]) (auto simp: prod_eq_iff)
qed

section \<open>CheckAvailability predicts Reserve\<close>

definition unknown_sku_status :: status_error where
  "unknown_sku_status = ErrorWithReason FailedPrecondition ReasonSKUNotFound ''sku not tracked by inventory''"

definition insufficient_status :: status_error where
  "insufficient_status = ErrorWithReason FailedPrecondition ReasonInsufficientStock ''insufficient stock to reserve''"

lemma edge_refused:
  assumes w: "quiet w" "db_inv (w_db w)" and p: "decode_reserve p = Inr r" and f: "fresh_request r (w_db w)"
    and none: "serving_warehouse (w_db w) (AggregateLines (rq_Items r)) = None"
  shows "fst (Server_Reserve wired_server ctx p w) =
      Inl (if untracked_skus (w_db w) (AggregateLines (rq_Items r)) \<noteq> [] then unknown_sku_status
           else insufficient_status)"
    and "w_db (snd (Server_Reserve wired_server ctx p w)) = w_db w"
proof -
  let ?e = "rejection (w_db w) (AggregateLines (rq_Items r))"
  have run: "\<exists>u'. Reserve (aggregated r) u = (Inl ?e, u') \<and> quiet u' \<and> w_db u' = w_db w"
    if u: "quiet u" "w_db u = w_db w" for u
  proof -
    have "header_fits (aggregated r) (w_db w)" using f by (intro edge_header_fits [OF p]) (simp add: fresh_request_def)
    with f none have "triple (rest (w_db w)) (Reserve (aggregated r)) (\<lambda>_ _. False)
        (\<lambda>e v. e = rejection (w_db w) (rq_Items (aggregated r)) \<and> rest (w_db w) v)"
      by (intro Reserve_rejected [OF w(2)]) (simp_all add: fresh_request_def)
    from error_result [OF this] u show ?thesis by (auto simp: rest_def)
  qed
  from Server_Reserve_alone [OF w(1) p, where q = "Inl ?e" and P = "\<lambda>d. d = w_db w" and ctx = ctx] run
  obtain w' where f: "fst (Server_Reserve wired_server ctx p w) =
      fst (reservationError ctx ''Reserve'' (errorf_w ''reserve: '' ?e) w')"
    and d: "w_db (snd (Server_Reserve wired_server ctx p w)) = w_db w" by auto
  from f show "fst (Server_Reserve wired_server ctx p w) =
      Inl (if untracked_skus (w_db w) (AggregateLines (rq_Items r)) \<noteq> [] then unknown_sku_status
           else insufficient_status)"
    by (simp add: reservationError_def rejection_def reject_def unknown_sku_status_def insufficient_status_def)
  from d show "w_db (snd (Server_Reserve wired_server ctx p w)) = w_db w" .
qed

lemma decode_lines: "decode_reserve p = Inr r \<Longrightarrow> reservationLines (pq_Items p) = Inr (rq_Items r)"
  by (auto simp: decode_reserve_def split: if_splits sum.splits)

lemma basket_positive:
  assumes "reservationLines items = Inr ls"
  shows "\<forall>it \<in> set (map item_of_line (AggregateLines ls)). 0 < ci_Quantity it"
  using edge_aggregate(2) reservationLines_ok(3,4) [OF assms] by (auto simp: item_of_line_def)

lemma decode_check:
  assumes "reservationLines items = Inr ls"
  shows "check_loop items [] Map.empty = Inr (map item_of_line (AggregateLines ls))"
    and "\<not> (length items = 0 \<or> length items > maxCheckItems)"
  using assms by (auto simp: reservationLines_def check_loop_lines split: if_splits)

definition check_response :: "CheckResult \<Rightarrow> CheckAvailabilityResponse" where
  "check_response result =
     \<lparr>pc_CanFulfill = cr_CanFulfill result,
      pc_Shortages = map (\<lambda>sh. \<lparr>ph_SkuId = sl_SKUID sh, ph_Requested = sl_Requested sh,
         ph_AvailableToPromise = sl_ATP sh\<rparr>) (cr_Shortages result),
      pc_UnknownSkuIds = cr_UnknownSKUIDs result\<rparr>"

lemma edge_check:
  assumes w: "quiet w" "db_inv (w_db w)" and its: "reservationLines items = Inr ls"
  obtains w' where "Server_CheckAvailability wired_server ctx items w =
      (Inr (check_response (check_report (w_db w) (map item_of_line (AggregateLines ls)))), w')"
    "quiet w'" "w_db w' = w_db w"
proof -
  let ?items = "map item_of_line (AggregateLines ls)"
  from total_result [OF reader.check_quiet [OF w(2) basket_positive [OF its]] quiet_rest [OF w(1)]]
  obtain w' where "CheckAvailability availability_repository ctx ?items w = (Inr (check_report (w_db w) ?items), w')"
    "rest (w_db w) w'" by metis
  then show ?thesis
    using decode_check [OF its]
    by (intro that [of w'])
       (simp_all add: Server_CheckAvailability_def wired_server_def availability_service_def rpc_bind_def
          respond_def check_response_def rest_def)
qed

section \<open>Reports\<close>

text \<open>What a SKU can promise, in the vocabulary of the reservation path.\<close>

definition promise :: "db \<Rightarrow> string \<Rightarrow> int" where
  "promise d s = (\<Sum>wh \<leftarrow> select_active_ids d. atp_at d wh s)"

lemma sku_report_promise:
  assumes "db_inv d"
  shows "sku_report d s = \<lparr>sa_SKUID = s,
    sa_Status = (if tracked_sku d s then statusFor (promise d s) else StatusUnknown), sa_ATP = promise d s\<rparr>"
proof -
  note keys = db_invD(1) [OF assms, unfolded balances_ok_def, THEN conjunct1] db_invD(7) [OF assms]
  have total: "atp_total d s = promise d s" unfolding promise_def by (rule atp_total_sum [OF keys])
  have "promised_anywhere d s \<Longrightarrow> tracked_sku d s"
    by (auto simp: promised_anywhere_def promisable_def tracked_sku_def)
  moreover have "\<not> promised_anywhere d s \<Longrightarrow> atp_total d s = 0"
  proof -
    assume "\<not> promised_anywhere d s"
    then have "filter (promisable d s) (balances d) = []" by (auto simp: promised_anywhere_def filter_empty_conv)
    then show ?thesis unfolding atp_total_def by simp
  qed
  ultimately show ?thesis using total by (auto simp: sku_report_def statusFor_def)
qed

lemma promise_nonneg: "0 \<le> promise d s"
  unfolding promise_def by (rule sum_list_nonneg) (auto simp: atp_at_nonneg)

lemma edge_set_aggregate:
  assumes "\<forall>l \<in> set ls. edge_line l" "length ls \<le> maxCheckItems"
  shows "set (AggregateLines ls) = {\<lparr>ln_SKUID = s, ln_Quantity = demand ls s\<rparr> |s. 0 < demand ls s}"
proof -
  have skus: "s \<in> ln_SKUID ` set ls \<longleftrightarrow> 0 < demand ls s" for s
  proof
    assume "s \<in> ln_SKUID ` set ls"
    then obtain l where "l \<in> set (AggregateLines ls)" "s = ln_SKUID l"
      using set_AggregateLines_SKUIDs by (metis imageE)
    with edge_aggregate(1,2) [OF assms] show "0 < demand ls s" by metis
  next
    show "0 < demand ls s \<Longrightarrow> s \<in> ln_SKUID ` set ls" by (rule ccontr) (simp add: demand_absent)
  qed
  have "\<forall>it \<in> set ls. int64_range (ln_Quantity it)" using assms(1) edge_int64 by blast
  moreover have "ln_SKUID ` set ls = {s. 0 < demand ls s}" using skus by blast
  ultimately show ?thesis by (auto simp: set_AggregateLines edge_demand_exact [OF assms])
qed

text \<open>A warehouse serves the aggregated basket exactly if it covers the summed demand of every SKU.\<close>

lemma serves_demand:
  assumes "\<forall>l \<in> set ls. edge_line l" "length ls \<le> maxCheckItems"
  shows "serves d (AggregateLines ls) wh \<longleftrightarrow> (\<forall>s. demand ls s \<le> atp_at d wh s)"
proof
  assume s: "serves d (AggregateLines ls) wh"
  show "\<forall>s. demand ls s \<le> atp_at d wh s"
  proof
    fix s
    show "demand ls s \<le> atp_at d wh s"
    proof (cases "0 < demand ls s")
      case True
      then have "\<lparr>ln_SKUID = s, ln_Quantity = demand ls s\<rparr> \<in> set (AggregateLines ls)"
        by (simp add: edge_set_aggregate [OF assms])
      with s show ?thesis by (fastforce simp: serves_def)
    next
      case False
      then show ?thesis using atp_at_nonneg [of d wh s] by simp
    qed
  qed
next
  assume "\<forall>s. demand ls s \<le> atp_at d wh s"
  then show "serves d (AggregateLines ls) wh"
    by (auto simp: serves_def edge_set_aggregate [OF assms])
qed

lemma serving_iff: "serving_warehouse d items \<noteq> None \<longleftrightarrow> (\<exists>wh \<in> set (select_active_ids d). serves d items wh)"
  by (auto simp: serving_warehouse_def find_None_iff)

text \<open>A basket that cannot be served is short somewhere at the baseline.\<close>

lemma unserved_short:
  assumes "serving_warehouse d items = None" "items \<noteq> []" "\<forall>l \<in> set items. 0 < ln_Quantity l"
  shows "\<exists>l \<in> set items. baseline_atp d (ln_SKUID l) < ln_Quantity l"
proof (cases "select_active_ids d")
  case Nil
  with assms(2,3) show ?thesis by (cases items) (auto simp: baseline_atp_def)
next
  case (Cons wh ids)
  with assms(1) have "\<not> serves d items wh" by (simp add: serving_warehouse_def split: if_splits)
  with Cons show ?thesis by (auto simp: serves_def baseline_atp_def not_le)
qed

section \<open>Retries\<close>

lemma edge_same_demand:
  assumes "\<forall>l \<in> set xs. edge_line l" "length xs \<le> maxCheckItems"
    and "\<forall>l \<in> set ys. edge_line l" "length ys \<le> maxCheckItems"
  shows "mset (AggregateLines xs) = mset (AggregateLines ys) \<longleftrightarrow> (\<forall>s. demand xs s = demand ys s)"
proof
  assume "mset (AggregateLines xs) = mset (AggregateLines ys)"
  then have "demand (AggregateLines xs) s = demand (AggregateLines ys) s" for s by (rule demand_perm)
  then show "\<forall>s. demand xs s = demand ys s" by (simp add: demand_aggregate assms)
next
  assume "\<forall>s. demand xs s = demand ys s"
  then have "set (AggregateLines xs) = set (AggregateLines ys)" by (simp add: edge_set_aggregate assms)
  moreover have "distinct (AggregateLines zs)" for zs
    using distinct_AggregateLines [of zs] by (simp add: distinct_map)
  ultimately show "mset (AggregateLines xs) = mset (AggregateLines ys)" by (simp add: set_eq_iff_mset_eq_distinct)
qed

lemma edge_canonical:
  assumes p: "decode_reserve p = Inr r" and q: "decode_reserve q = Inr t"
  shows "canonical_bytes (AggregateLines (rq_Items r)) (rq_DestinationRegion r) =
      canonical_bytes (AggregateLines (rq_Items t)) (rq_DestinationRegion t) \<longleftrightarrow>
    rq_DestinationRegion r = rq_DestinationRegion t \<and> (\<forall>s. demand (rq_Items r) s = demand (rq_Items t) s)"
proof -
  have free: "\<forall>l \<in> set (AggregateLines (rq_Items u)). sku_separator_free (ln_SKUID l)"
    "CHR ''|'' \<notin> set (rq_DestinationRegion u)" if "decode_reserve v = Inr u" for u v
    using edge_aggregate(3) [OF decode_reserve_ok(4,5) [OF that]] valid_sku_separators
      valid_region_separators [OF decode_reserve_ok(3) [OF that]]
    by (auto simp: sku_separator_free_def)
  have "canonical_bytes (AggregateLines (rq_Items r)) (rq_DestinationRegion r) =
      canonical_bytes (AggregateLines (rq_Items t)) (rq_DestinationRegion t) \<longleftrightarrow>
    mset (AggregateLines (rq_Items r)) = mset (AggregateLines (rq_Items t)) \<and>
      rq_DestinationRegion r = rq_DestinationRegion t"
    using canonical_bytes_inject [OF free [OF p] free [OF q]] canonical_bytes_perm [OF _ distinct_AggregateLines] by metis
  then show ?thesis
    using edge_same_demand [OF decode_reserve_ok(4,5) [OF p] decode_reserve_ok(4,5) [OF q]] by blast
qed

lemma edge_same_hash:
  assumes "decode_reserve p = Inr r" "decode_reserve q = Inr t"
    and "rq_DestinationRegion r = rq_DestinationRegion t" "\<forall>s. demand (rq_Items r) s = demand (rq_Items t) s"
  shows "CanonicalHash (AggregateLines (rq_Items r)) (rq_DestinationRegion r) =
    CanonicalHash (AggregateLines (rq_Items t)) (rq_DestinationRegion t)"
  using edge_canonical [OF assms(1,2)] assms(3,4) by (simp add: CanonicalHash_def)

lemma edge_replayed:
  assumes w: "quiet w" and p: "decode_reserve p = Inr r"
    and x: "rq_ExpiresAt r = '''' \<or> timestamptz_in (server (w_db w)) (rq_ExpiresAt r) \<noteq> None"
    and row: "map_of (reservations (w_db w)) (rq_ID r) = Some row" "external_reference row = rq_OrderID r"
      "request_hash row = CanonicalHash (AggregateLines (rq_Items r)) (rq_DestinationRegion r)"
  obtains w' where "Server_Reserve wired_server ctx p w =
      (Inr (reserve_response (stored_result (rq_ID r) row (w_db w))), w')" "quiet w'" "w_db w' = w_db w"
proof -
  have run: "\<exists>u'. Reserve (aggregated r) u = (Inr (stored_result (rq_ID r) row (w_db w)), u') \<and> quiet u' \<and> w_db u' = w_db w"
    if u: "quiet u" "w_db u = w_db w" for u
  proof -
    have "header_fits (aggregated r) (w_db u)" using edge_header_fits [OF p x] u(2) by simp
    with Reserve_known_id [OF quiet_rest [OF u(1)] this] row u(2) show ?thesis
      by (auto simp: replay_outcome_def rest_def)
  qed
  from Server_Reserve_alone [OF w p, where q = "Inr (stored_result (rq_ID r) row (w_db w))"
      and P = "\<lambda>d. d = w_db w" and ctx = ctx] run
  show ?thesis
    by (intro that [of "snd (Server_Reserve wired_server ctx p w)"]) (auto simp: prod_eq_iff)
qed


section \<open>Sample requests\<close>

text \<open>The request of \<open>sample_request\<close> as a message, the same basket in two lines, and one too large.\<close>

definition sample_order :: ReserveRequest where
  "sample_order =
     \<lparr>pq_ReservationId = ''r1'', pq_OrderId = ''o1'', pq_Items = [\<lparr>pi_SkuId = ''A'', pi_Quantity = 3\<rparr>],
      pq_DestinationRegion = '''', pq_ExpiresAt = '''', pq_RequestHash = ''''\<rparr>"

definition sample_split_order :: ReserveRequest where
  "sample_split_order =
     sample_order\<lparr>pq_Items := [\<lparr>pi_SkuId = ''A'', pi_Quantity = 1\<rparr>, \<lparr>pi_SkuId = ''A'', pi_Quantity = 2\<rparr>]\<rparr>"

definition sample_split_request :: ReservationRequest where
  "sample_split_request =
     sample_request\<lparr>rq_Items := [\<lparr>ln_SKUID = ''A'', ln_Quantity = 1\<rparr>, \<lparr>ln_SKUID = ''A'', ln_Quantity = 2\<rparr>]\<rparr>"

lemma sample_decode:
  "decode_reserve sample_order = Inr sample_request"
  "decode_reserve sample_split_order = Inr sample_split_request"
  "decode_reserve (sample_order\<lparr>pq_Items := []\<rparr>) = Inl item_count_error"
  by code_simp+

lemma sample_fresh:
  "fresh_request sample_request (w_db sample_stocked)"
  "serving_warehouse (w_db sample_stocked) (AggregateLines (rq_Items sample_request)) = Some 1"
  by code_simp+

lemma sample_demand:
  "demand (rq_Items sample_request) s = (if s = ''A'' then 3 else 0)"
  "demand (rq_Items sample_split_request) s = (if s = ''A'' then 3 else 0)"
  by (auto simp: demand_def sample_request_def sample_split_request_def)

lemma sample_aggregated: "AggregateLines (rq_Items sample_request) = rq_Items sample_request"
  by (rule AggregateLines_distinct_id) (simp add: sample_request_def)

end
