(* ===== verification/Error_Classes.thy ===== *)
theory Error_Classes
  imports Reservation_Repo Stock_Repo Rely_Guarantee
begin

text \<open>
  Which errors a repository call can answer. An error class is a set of error values that contains the
  server's errors and the sentinels the repositories raise and is closed under wrapping one error. If
  the driver's own errors are in the class, so is every error a repository command answers. Two classes
  are used: the errors that wrap at most one sentinel, and those that do not wrap the validation
  sentinel of the admin commands.
\<close>

section \<open>Classes\<close>

definition faults_in :: "(goerr \<Rightarrow> bool) \<Rightarrow> world \<Rightarrow> bool" where
  "faults_in P w \<longleftrightarrow>
     (\<forall>e \<in> set (w_script w). case ev_fault e of NoFault \<Rightarrow> True | Fault err \<Rightarrow> P err | LostAck err \<Rightarrow> P err)"

abbreviation answers :: "(goerr \<Rightarrow> bool) \<Rightarrow> 'a prog \<Rightarrow> bool" where
  "answers P m \<equiv> triple (faults_in P) m (\<lambda>_. faults_in P) (\<lambda>e w. P e \<and> faults_in P w)"

definition repository_sentinels :: "sentinel list" where
  "repository_sentinels =
     [ErrCommandConflict, ErrInsufficientOnHand, ErrBalanceNotFound, ErrIdempotencyConflict,
      ErrInvalidTransition, ErrReservationNotFound, ErrConcurrencyConflict, errOrderRefTaken, ErrNoRows]"

lemma faults_in_event:
  "faults_in P w \<Longrightarrow> next_event w = (fault, w1) \<Longrightarrow>
   faults_in P w1 \<and> (\<forall>e. fault = Fault e \<or> fault = LostAck e \<longrightarrow> P e)"
  by (cases "w_script w") (auto simp: next_event_def faults_in_def)

lemma faults_in_world [simp]:
  "faults_in P (w\<lparr>w_tx := t\<rparr>) = faults_in P w" "faults_in P (tx_rollback w) = faults_in P w"
  "faults_in P (abort_tx w) = faults_in P w" "faults_in P (w\<lparr>w_seq := s\<rparr>) = faults_in P w"
  "faults_in P (w\<lparr>w_db := d\<rparr>) = faults_in P w" "faults_in P (w\<lparr>w_trace := ts\<rparr>) = faults_in P w"
  "faults_in P (w\<lparr>w_locked := ks\<rparr>) = faults_in P w"
  by (simp_all add: faults_in_def tx_rollback_def abort_tx_def)

locale error_class =
  fixes P :: "goerr \<Rightarrow> bool"
  assumes wrapped: "P e \<Longrightarrow> P (Wrapf pre e post)"
    and server: "P (PgError code)" "P (ErrorsNew msg)"
    and raised: "s \<in> set repository_sentinels \<Longrightarrow> P (Sentinel s)"
      "P (InsufficientStockError short)" "P (UnknownSKUError ids)"
begin

lemma in_translate: "P e \<Longrightarrow> P (translateConcurrency e)"
  using wrapped raised(1) [of ErrConcurrencyConflict]
  by (simp add: translateConcurrency_def repository_sentinels_def split: option.split)

lemma in_sentinels:
  "P (Sentinel ErrCommandConflict)" "P (Sentinel ErrInsufficientOnHand)" "P (Sentinel ErrBalanceNotFound)"
  "P (Sentinel ErrIdempotencyConflict)" "P (Sentinel ErrInvalidTransition)" "P (Sentinel ErrReservationNotFound)"
  "P (Sentinel errOrderRefTaken)" "P (Sentinel ErrNoRows)"
  by (simp_all add: raised(1) repository_sentinels_def)

lemmas in_class = wrapped server raised in_translate in_sentinels

section \<open>Database calls and constructs\<close>

lemma call_begin: "answers P pool_begin"
  and call_stmt: "answers P (tx_stmt f)"
  and call_commit: "answers P tx_commit"
  and call_pool_query: "answers P (pool_query g)"
proof -
  have ev: "faults_in P w1 \<and> (\<forall>e. fault = Fault e \<or> fault = LostAck e \<longrightarrow> P e)"
    if "faults_in P w" "next_event w = (fault, w1)" for w w1 fault
    by (rule faults_in_event [OF that])
  show "answers P pool_begin" using ev by (auto simp: triple_def pool_begin_def split: prod.split fault.split)
  show "answers P (tx_stmt f)"
    using ev server by (auto simp: triple_def tx_stmt_def err_tx_closed_def
        split: prod.split fault.split option.split sum.split)
  show "answers P tx_commit"
    using ev server by (auto simp: triple_def tx_commit_def err_tx_closed_def
        split: prod.split fault.split option.split)
  show "answers P (pool_query g)" using ev by (auto simp: triple_def pool_query_def split: prod.split fault.split)
qed

lemma call_query: "answers P (query q f)" "answers P (tx_query f)"
proof -
  show "answers P (tx_query f)" unfolding tx_query_def by (rule call_stmt)
  then show "answers P (query q f)" using call_pool_query by (cases q) (simp_all add: query_def)
qed

lemma in_return: "answers P (return x)"
  and in_rollback_now: "answers P rollback_now"
  by (simp add: triple_return) (simp add: triple_def rollback_now_def)

lemma in_fail: "P e \<Longrightarrow> answers P (fail e)"
  by (simp add: triple_fail)

lemma in_bindE: "answers P m \<Longrightarrow> (\<And>x. answers P (f x)) \<Longrightarrow> answers P (bindE m f)"
  by (rule triple_bindE)

lemma in_try_bind:
  assumes "answers P m" "\<And>e. P e \<Longrightarrow> answers P (h e)" "\<And>x. answers P (f x)"
  shows "answers P (try_bind m h f)"
  by (rule triple_try_bind [OF assms(1)]) (use assms(2,3) in \<open>auto simp: triple_def\<close>)

lemma in_map_error: "answers P m \<Longrightarrow> (\<And>e. P e \<Longrightarrow> P (h e)) \<Longrightarrow> answers P (map_error h m)"
  by (rule triple_map_error, erule triple_weaken) simp_all

lemma in_for_each: "(\<And>x. answers P (f x)) \<Longrightarrow> answers P (for_each f xs)"
  by (rule triple_for_each [where I = "\<lambda>_. faults_in P"])

lemma in_nextval: "(\<And>n. answers P (f n)) \<Longrightarrow> answers P (tx_nextval f)"
  by (rule triple_nextval) simp_all

lemma in_defer: "answers P m \<Longrightarrow> answers P (defer_rollback m)"
  by (rule triple_defer_rollback) simp

lemma in_if: "(b \<Longrightarrow> answers P m) \<Longrightarrow> (\<not> b \<Longrightarrow> answers P n) \<Longrightarrow> answers P (if b then m else n)"
  by simp

lemma in_option:
  "(r = None \<Longrightarrow> answers P m) \<Longrightarrow> (\<And>x. r = Some x \<Longrightarrow> answers P (f x)) \<Longrightarrow>
   answers P (case r of None \<Rightarrow> m | Some x \<Rightarrow> f x)"
  by (cases r) simp_all

lemma in_sum:
  "(\<And>e. r = Inl e \<Longrightarrow> answers P (f e)) \<Longrightarrow> (\<And>x. answers P (g x)) \<Longrightarrow>
   answers P (case r of Inl e \<Rightarrow> f e | Inr x \<Rightarrow> g x)"
  by (cases r) simp_all

lemma in_scan_row: "answers P m \<Longrightarrow> answers P (scan_row m)"
  unfolding scan_row_def by (intro in_bindE in_option in_return in_fail in_class)

lemmas class_rules = call_begin call_stmt call_commit call_pool_query call_query in_return in_rollback_now
  in_fail in_bindE in_try_bind in_map_error in_for_each in_nextval in_defer in_if in_option in_sum in_scan_row

section \<open>The reservation commands\<close>

lemma load_answers: "answers P (loadReservationLines q rid)"
  unfolding loadReservationLines_def by (intro class_rules in_class)

lemma replay_answers: "answers P (replayReservation q rid ref hash)"
  unfolding replayReservation_def by (intro class_rules load_answers in_class)

lemma movement_answers: "answers P (insertReservationMovement c a ty dh dr rid reason)"
  unfolding insertReservationMovement_def by (intro class_rules in_class)

lemma classify_answers: "answers P (classifyReservationFailure items short)"
  unfolding classifyReservationFailure_def Let_def by (intro class_rules in_class)

lemma allocate_answers: "answers P (allocateReservation items)"
  unfolding allocateReservation_def activeATPSnapshot_def lockWarehouseATP_def Let_def case_prod_beta
  by (intro class_rules classify_answers in_class)

lemma Reserve_answers: "answers P (Reserve req)"
  unfolding Reserve_def Let_def claimReservation_def applyReserve_def
  by (intro class_rules replay_answers allocate_answers movement_answers in_class)

lemma transition_answers:
  assumes "\<And>s e. decide s = Inl e \<Longrightarrow> P e" "\<And>a. answers P (line a)"
  shows "answers P (transition rid tgt decide line)"
  unfolding transition_def by (intro class_rules load_answers assms(2) in_class) (simp_all add: assms(1))

lemma Release_answers: "answers P (Release rid reason)"
  unfolding Release_def release_line_def
  by (intro transition_answers class_rules movement_answers in_class)
     (auto simp: decide_release_def rows_updated_error_def in_class split: if_splits)

lemma Commit_answers: "answers P (Commit rid)"
  unfolding Commit_def commit_line_def
  by (intro transition_answers class_rules movement_answers in_class)
     (auto simp: decide_commit_def rows_updated_error_def in_class split: if_splits)

section \<open>The stock commands\<close>

lemma run_command_answers:
  assumes "answers P change"
  shows "answers P (run_command cmd ty dh dr change)"
  unfolding run_command_def claimCommand_def by (intro class_rules assms in_class)

lemma in_check: "P e \<Longrightarrow> P (checkViolation e)"
  by (simp add: checkViolation_def in_class)

lemma Validate_in: "Validate cmd = Some e \<Longrightarrow> P e"
  by (auto simp: Validate_def in_class split: if_splits)

lemma command_answers: "answers P (ReceiveStock cmd)" "answers P (AdjustOnHand cmd)" "answers P (SetSafetyStock cmd)"
  unfolding ReceiveStock_def AdjustOnHand_def SetSafetyStock_def receive_change_def adjust_change_def
    safety_change_def not_found_error_def
  by (intro run_command_answers class_rules in_class in_check; (assumption | erule Validate_in))+

end

end
