(* ===== verification/Error_Chains.thy ===== *)
theory Error_Chains
  imports Grpc_Contract Error_Classes
begin

text \<open>
  Every error the repository answers wraps at most one sentinel, as long as the driver's own errors
  do. Metric label and wire status test the sentinels in different orders, so this is what makes them
  agree.
\<close>

section \<open>Linear errors\<close>

abbreviation linear_faults :: "world \<Rightarrow> bool" where
  "linear_faults \<equiv> faults_in linear"

interpretation linear: error_class linear
  by unfold_locales (simp_all add: repository_sentinels_def)

section \<open>The label and the status\<close>

abbreviation reservation_count :: "string \<Rightarrow> string \<Rightarrow> telemetry" where
  "reservation_count operation outcome \<equiv>
     CounterAdd reservationCounter [(''operation'', operation), (''outcome'', outcome)]"

text \<open>The records a call appended, as counts of the reservation counter.\<close>

definition new_counts :: "world \<Rightarrow> world \<Rightarrow> telemetry list" where
  "new_counts w w' = filter (is_count reservationCounter) (drop (length (w_trace w)) (w_trace w'))"

lemma new_counts_append: "w_trace w' = w_trace w @ ts \<Longrightarrow> new_counts w w' = filter (is_count reservationCounter) ts"
  by (simp add: new_counts_def)

lemma counts_new:
  assumes "counted reservationCounter w' = counted reservationCounter w + n" "w_trace w' = w_trace w @ ts"
  shows "length (new_counts w w') = n"
  using assms by (simp add: new_counts_append counted_def)

lemma emits_any: "emits_within {} m \<Longrightarrow> emits_within UNIV m"
  by (erule emits_mono) simp

text \<open>A telemetry call appends a fixed list of records and does nothing else.\<close>

definition appends :: "unit prog \<Rightarrow> telemetry list \<Rightarrow> bool" where
  "appends m ts \<longleftrightarrow> (\<forall>w. m w = (Inr (), w\<lparr>w_trace := w_trace w @ ts\<rparr>))"

lemma appends_rules:
  "appends (emit t) [t]" "appends skip []"
  "appends m ts \<Longrightarrow> appends n us \<Longrightarrow> appends (seq m n) (ts @ us)"
  by (simp_all add: appends_def emit_def return_def bindE_def)

definition failure_records :: "Context \<Rightarrow> string \<Rightarrow> goerr \<Rightarrow> telemetry list" where
  "failure_records ctx op err =
     (if errors_Is err Canceled then []
      else [reservation_count op (failureOutcome err)] @ [SpanAttribute attrOutcome (failureOutcome err)] @
        (if failureOutcome err = outcomeError \<and> ctx_recording ctx
         then [SpanError (op @ ''_error'') (op @ '' failed'')] else []) @
        [LogDebug ''reservation outcome'' [(attrOperation, op), (attrOutcome, failureOutcome err)]])"

lemma appends_finishFailure: "appends (finishFailure ctx op err) (failure_records ctx op err)"
proof -
  have "appends (if failureOutcome err = outcomeError then recordBoundedSpanError ctx op else skip)
      (if failureOutcome err = outcomeError \<and> ctx_recording ctx
       then [SpanError (op @ ''_error'') (op @ '' failed'')] else [])"
    by (simp add: recordBoundedSpanError_def appends_rules)
  then show ?thesis
    by (simp add: finishFailure_def failure_records_def Let_def recordReservation_def setSpanOutcome_def logOutcome_def
        appends_rules del: append.simps)
qed

lemma failure_records_counts:
  "filter (is_count reservationCounter) (failure_records ctx op err) =
     (if errors_Is err Canceled then [] else [reservation_count op (failureOutcome err)])"
  by (simp add: failure_records_def)


text \<open>A failing operation of the service: the store's error, and the records of the failure between the span's two.\<close>

lemma service_failed:
  assumes silent: "emits_within {} m" and K: "\<And>e. appends (K e) (R e)" and j: "\<And>x. trace_only (j x)"
    and run: "with_span ctx op (try_bind m (\<lambda>e. seq (K e) (fail (h e))) (\<lambda>x. seq (j x) (return x))) w = (Inl e', w')"
  obtains e u t where "m (w\<lparr>w_trace := t\<rparr>) = (Inl e, u)" "e' = h e"
    "w_trace w' = w_trace w @ SpanStart (''inventory.'' @ op) [(attrLayer, layerLogic), (attrOperation, op)] # R e @ [SpanEnd]"
proof -
  let ?t = "w_trace w @ [SpanStart (''inventory.'' @ op) [(attrLayer, layerLogic), (attrOperation, op)]]"
  obtain q u where m: "m (w\<lparr>w_trace := ?t\<rparr>) = (q, u)" by (cases "m (w\<lparr>w_trace := ?t\<rparr>)")
  have tr: "w_trace u = ?t" using emits_withinD [OF silent m] by simp
  show ?thesis
  proof (cases q)
    case (Inl e)
    have "K e u = (Inr (), u\<lparr>w_trace := w_trace u @ R e\<rparr>)" using K unfolding appends_def by blast
    with run m Inl tr show ?thesis
      by (intro that [of ?t e u])
         (auto simp: with_span_def startLogicSpan_def bindE_def emit_def defer_span_end_def try_bind_def fail_def)
  next
    case (Inr x)
    obtain s where "j x u = (Inr (), u\<lparr>w_trace := s\<rparr>)" using j unfolding trace_only_def by blast
    with run m Inr show ?thesis
      by (auto simp: with_span_def startLogicSpan_def bindE_def emit_def defer_span_end_def try_bind_def return_def)
  qed
qed

definition labelled :: "string \<Rightarrow> string \<Rightarrow> world \<Rightarrow> status_error \<Rightarrow> world \<Rightarrow> bool" where
  "labelled rpc op w st w' \<longleftrightarrow>
     (if st = StatusError CodeCanceled ''request canceled'' then new_counts w w' = []
      else \<exists>out \<in> set reservation_outcomes. st = wire_status rpc out \<and> new_counts w w' = [reservation_count op out])"

lemma wire_status_not_canceled: "wire_status rpc out \<noteq> StatusError CodeCanceled ''request canceled''"
  by (simp add: wire_status_def)

lemma reservationError_trace:
  "\<exists>ts. w_trace (snd (reservationError ctx rpc e w)) = w_trace w @ ts \<and> filter (is_count c) ts = []"
  by (simp add: reservationError_def failClosed_def reject_def rpc_log_def)

lemma failureOutcome_wrapped [simp]: "failureOutcome (Wrapf pre e post) = failureOutcome e"
  by (simp add: failureOutcome_def)

lemma rpc_failed:
  assumes silent: "emits_within {} m" and lin: "answers linear m" and w: "linear_faults w"
    and K: "\<And>e. appends (K e) (R e)" "\<And>e. filter (is_count reservationCounter) (R e) =
      (if errors_Is e Canceled then [] else [reservation_count op (failureOutcome e)])"
    and j: "\<And>x. trace_only (j x)"
    and run: "rpc_bind (with_span ctx op (try_bind m (\<lambda>e. seq (K e) (fail (errorf_w pre e))) (\<lambda>x. seq (j x) (return x))))
      (reservationError ctx rpc) (\<lambda>x. respond (g x)) w = (Inl st :: status_error + 'c, w')"
  shows "labelled rpc op w st w'"
proof -
  let ?P = "with_span ctx op (try_bind m (\<lambda>e. seq (K e) (fail (errorf_w pre e))) (\<lambda>x. seq (j x) (return x)))"
  from run obtain e' v where P: "?P w = (Inl e', v)" and err: "reservationError ctx rpc e' v = (Inl st :: status_error + 'c, w')"
    by (auto simp: rpc_bind_def respond_run split: prod.splits sum.splits)
  obtain e u t where e: "m (w\<lparr>w_trace := t\<rparr>) = (Inl e, u)" "e' = errorf_w pre e"
    "w_trace v = w_trace w @ SpanStart (''inventory.'' @ op) [(attrLayer, layerLogic), (attrOperation, op)] # R e @ [SpanEnd]"
    by (rule service_failed [OF silent K(1) j P])
  have "linear e" using triple_Inl [OF lin _ e(1)] w by simp
  then have st: "st = (if errors_Is e Canceled then StatusError CodeCanceled ''request canceled''
      else wire_status rpc (failureOutcome e))"
    using reservationError_status [of e' ctx rpc v, where 'a = 'c] err e(2) by simp
  obtain ts where ts: "w_trace w' = w_trace v @ ts" "filter (is_count reservationCounter) ts = []"
    using reservationError_trace [where 'a = 'c and ctx = ctx and rpc = rpc and e = e' and w = v and c = reservationCounter] err
    by (metis snd_conv)
  have "new_counts w w' = (if errors_Is e Canceled then [] else [reservation_count op (failureOutcome e)])"
    using ts e(3) K(2) [of e] by (simp add: new_counts_def)
  with st show ?thesis
    using failureOutcome_bounded wire_status_not_canceled by (auto simp: labelled_def)
qed


lemma Server_Release_eq:
  "Server_Release wired_server ctx rid reason w = (Inl st, w') \<Longrightarrow> validReservationID rid \<Longrightarrow>
   releaseReason_matches reason \<Longrightarrow>
   rpc_bind (service_Release reservation_repository ctx rid reason) (reservationError ctx ''Release'')
     (\<lambda>status. respond \<lparr>pt_ReservationId = rid, pt_Status = toProtoReservationStatus status\<rparr>) w = (Inl st, w')"
  by (simp add: Server_Release_def wired_server_def reservation_service_def)

lemma Server_Commit_eq:
  "Server_Commit wired_server ctx rid w = (Inl st, w') \<Longrightarrow> validReservationID rid \<Longrightarrow>
   rpc_bind (service_Commit reservation_repository ctx rid) (reservationError ctx ''Commit'')
     (\<lambda>status. respond \<lparr>pt_ReservationId = rid, pt_Status = toProtoReservationStatus status\<rparr>) w = (Inl st, w')"
  by (simp add: Server_Commit_def wired_server_def reservation_service_def)

definition rejection_records :: "string \<Rightarrow> string \<Rightarrow> telemetry list" where
  "rejection_records ref outcome =
     (if outcome \<noteq> outcomeInsufficient \<and> outcome \<noteq> outcomeUnknownSKU then []
      else [LogEvent ''inventory.reservation.rejected'' ''reservation rejected''
             [(''inventory.reservation.ref'', ref), (attrOutcome, outcome)]])"

lemma appends_logRejected: "appends (logRejected ctx ref outcome) (rejection_records ref outcome)"
  by (simp add: logRejected_def rejection_records_def appends_rules)

lemma reserve_labelled:
  assumes w: "linear_faults w" and p: "decode_reserve p = Inr r"
    and run: "Server_Reserve wired_server ctx p w = (Inl st, w')"
  shows "labelled ''Reserve'' opReserve w st w'"
proof (rule rpc_failed [OF repository_silent(1) linear.Reserve_answers w])
  let ?K = "\<lambda>e. seq (finishFailure ctx opReserve e) (logRejected ctx (rq_ID r) (failureOutcome e))"
  let ?R = "\<lambda>e. failure_records ctx opReserve e @ rejection_records (rq_ID r) (failureOutcome e)"
  show "appends (?K e) (?R e)" for e by (intro appends_rules appends_finishFailure appends_logRejected)
  show "filter (is_count reservationCounter) (?R e) =
      (if errors_Is e Canceled then [] else [reservation_count opReserve (failureOutcome e)])" for e
    by (simp add: failure_records_counts rejection_records_def)
  show "trace_only (finishOK ctx opReserve (if rr_Replayed res then outcomeReplayed else outcomeOK))" for res
    by (rule trace_only_calls)
  show "rpc_bind (with_span ctx opReserve (try_bind (Reserve (aggregated r))
      (\<lambda>e. seq (?K e) (fail (errorf_w ''reserve: '' e)))
      (\<lambda>res. seq (finishOK ctx opReserve (if rr_Replayed res then outcomeReplayed else outcomeOK)) (return res))))
      (reservationError ctx ''Reserve'') (\<lambda>res. respond (reserve_response res)) w = (Inl st, w')"
    using run by (simp add: Server_Reserve_eq [OF p] service_Reserve_def seq_assoc reservation_repository_def)
qed

lemma release_labelled:
  assumes "linear_faults w" "Server_Release wired_server ctx rid reason w = (Inl st, w')"
    and "validReservationID rid" "releaseReason_matches reason"
  shows "labelled ''Release'' opRelease w st w'"
  by (rule rpc_failed [OF repository_silent(2) [of rid reason] linear.Release_answers assms(1) appends_finishFailure failure_records_counts
        trace_only_calls(1) Server_Release_eq [OF assms(2-4), unfolded service_Release_def reservation_repository_def ReservationStore.simps]])

lemma commit_labelled:
  assumes "linear_faults w" "Server_Commit wired_server ctx rid w = (Inl st, w')" and "validReservationID rid"
  shows "labelled ''Commit'' opCommit w st w'"
  by (rule rpc_failed [OF repository_silent(3) [of rid] linear.Commit_answers assms(1) appends_finishFailure failure_records_counts
        trace_only_calls(1) Server_Commit_eq [OF assms(2,3), unfolded service_Commit_def reservation_repository_def ReservationStore.simps]])

end
