(* ===== verification/Edge_Properties.thy ===== *)
theory Edge_Properties
  imports Edge_Outcomes Error_Chains
begin

text \<open>
  The properties of the gRPC surface: what the responses and status errors of the six RPCs mean, for
  requests as they arrive on the wire.
\<close>

section \<open>Reservations\<close>

text \<open>
  C14. A successful \<open>Reserve\<close> RPC means what the repository promises, whatever runs concurrently and
  whatever fails: the request passed validation, the response is the conversion of a result that
  holds of the committed state for the aggregated basket (the reservation exists under this id, order
  and hash; if it was placed, it is open, in one warehouse, above every safety stock), and the
  invariant is kept.
\<close>

theorem rpc_Reserve_sound:
  assumes "concurrent w" and "Server_Reserve wired_server ctx p w = (Inr resp, w')"
  shows "\<exists>r res. decode_reserve p = Inr r \<and> resp = reserve_response res \<and> db_inv (w_db w') \<and>
    db_guar (w_db w) (w_db w') \<and> reserve_answer (aggregated r) res (w_db w')"
  by (rule store.served.Server_Reserve_sound [OF _ assms]) (simp add: wired_server_def)

theorem rpc_Reserve_sound_witness:
  "\<exists>res w'. Server_Reserve wired_server \<lparr>ctx_recording = True\<rparr> sample_order sample_stocked =
       (Inr (reserve_response res), w') \<and>
     reserve_answer (aggregated sample_request) res (w_db w')"
proof -
  obtain w' where run: "Server_Reserve wired_server \<lparr>ctx_recording = True\<rparr> sample_order sample_stocked =
      (Inr (reserve_response (reserve_result (aggregated sample_request) 1)), w')"
    by (rule edge_placed [OF quiet_samples(2) reachable_inv [OF sample_reachable(2)] sample_decode(1) sample_fresh])
  from rpc_Reserve_sound [OF sample_concurrent(2) this] show ?thesis using run by (auto simp: sample_decode(1))
qed

text \<open>
  C15. A valid, fresh request that runs alone is placed whenever some active warehouse covers the
  summed demand of its lines: the response is \<open>RESERVED\<close> with the aggregated lines in the lowest-id
  such warehouse, and exactly the summed demand is added to the reserved quantities. Fresh means that the ids
  are unused, the versions of the rows can be counted up and the database accepts the expiry. No column width,
  ledger id or arithmetic overflow can stop a request the edge has accepted.
\<close>

theorem rpc_Reserve_places:
  assumes "quiet w" and "db_inv (w_db w)" and "decode_reserve p = Inr r" and "fresh_request r (w_db w)"
    and "serving_warehouse (w_db w) (AggregateLines (rq_Items r)) = Some wh"
  shows "\<exists>w'. Server_Reserve wired_server ctx p w =
      (Inr \<lparr>pr_ReservationId = pq_ReservationId p, pr_Status = RESERVATION_STATUS_RESERVED,
            pr_Allocations = map proto_allocation (allocations_at wh (AggregateLines (rq_Items r)))\<rparr>, w') \<and>
    db_inv (w_db w') \<and> status_of (w_db w') (pq_ReservationId p) = Some ReservationReserved \<and>
    (\<forall>k. on_hand_of (w_db w') k = on_hand_of (w_db w) k \<and>
      reserved_of (w_db w') k = reserved_of (w_db w) k + (if snd k = wh then demand (rq_Items r) (fst k) else 0))"
proof -
  have rid: "pq_ReservationId p = rq_ID r" using assms(3) by (auto simp: decode_reserve_def split: if_splits sum.splits)
  have resp: "reserve_response (reserve_result (aggregated r) wh) =
      \<lparr>pr_ReservationId = pq_ReservationId p, pr_Status = RESERVATION_STATUS_RESERVED,
       pr_Allocations = map proto_allocation (allocations_at wh (AggregateLines (rq_Items r)))\<rparr>"
    by (simp add: reserve_response_def reserve_result_def toProtoReservationStatus_def reservation_status_defs rid)
  from edge_placed [OF assms, of ctx] show ?thesis unfolding resp rid by metis
qed

theorem rpc_Reserve_places_witness:
  "\<exists>w'. Server_Reserve wired_server \<lparr>ctx_recording = False\<rparr> sample_split_order sample_stocked =
      (Inr \<lparr>pr_ReservationId = ''r1'', pr_Status = RESERVATION_STATUS_RESERVED,
            pr_Allocations = [\<lparr>pa_SkuId = ''A'', pa_WarehouseId = ''1'', pa_Quantity = 3\<rparr>]\<rparr>, w') \<and>
    reserved_of (w_db w') (''A'', 1) = reserved_of (w_db sample_stocked) (''A'', 1) + 3"
proof -
  have "fresh_request sample_split_request (w_db sample_stocked) \<and>
      serving_warehouse (w_db sample_stocked) (AggregateLines (rq_Items sample_split_request)) = Some 1"
    by code_simp
  then have f: "fresh_request sample_split_request (w_db sample_stocked)"
    and s: "serving_warehouse (w_db sample_stocked) (AggregateLines (rq_Items sample_split_request)) = Some 1" by blast+
  have "map proto_allocation (allocations_at 1 (AggregateLines (rq_Items sample_split_request))) =
      [\<lparr>pa_SkuId = ''A'', pa_WarehouseId = ''1'', pa_Quantity = 3\<rparr>] \<and> pq_ReservationId sample_split_order = ''r1''"
    by code_simp
  with rpc_Reserve_places [OF quiet_samples(2) reachable_inv [OF sample_reachable(2)] sample_decode(2) f s,
      of "\<lparr>ctx_recording = False\<rparr>"]
  show ?thesis by (auto simp: sample_demand)
qed

text \<open>
  C16. \<open>CheckAvailability\<close> predicts \<open>Reserve\<close>. Asked alone about the lines of a valid, fresh request,
  it changes nothing and answers \<open>can_fulfill\<close> exactly if \<open>Reserve\<close> of these lines, on the state it
  leaves, succeeds; if it cannot, \<open>Reserve\<close> fails with \<open>SKU_NOT_FOUND\<close> exactly if the check reported
  unknown SKUs, and with \<open>INSUFFICIENT_STOCK\<close> otherwise, again changing nothing.
\<close>

theorem check_predicts_reserve:
  assumes "quiet w" and "db_inv (w_db w)" and "decode_reserve p = Inr r" and "fresh_request r (w_db w)"
  shows "\<exists>c w'. Server_CheckAvailability wired_server ctx (pq_Items p) w = (Inr c, w') \<and> w_db w' = w_db w \<and>
    (if pc_CanFulfill c then \<exists>resp. fst (Server_Reserve wired_server ctx p w') = Inr resp
     else w_db (snd (Server_Reserve wired_server ctx p w')) = w_db w \<and>
       fst (Server_Reserve wired_server ctx p w') =
         Inl (if pc_UnknownSkuIds c \<noteq> [] then unknown_sku_status else insufficient_status))"
proof -
  let ?items = "AggregateLines (rq_Items r)"
  obtain w' where check: "Server_CheckAvailability wired_server ctx (pq_Items p) w =
      (Inr (check_response (check_report (w_db w) (map item_of_line ?items))), w')"
    and w': "quiet w'" "w_db w' = w_db w"
    by (rule edge_check [OF assms(1,2) decode_lines [OF assms(3)]])
  have inv: "db_inv (w_db w')" and fresh: "fresh_request r (w_db w')" using assms(2,4) w'(2) by simp_all
  show ?thesis
  proof (cases "serving_warehouse (w_db w') ?items")
    case None
    from edge_refused [OF w'(1) inv assms(3) fresh None, of ctx] check w'(2) None show ?thesis
      by (simp add: check_response_def check_report_def)
  next
    case (Some wh)
    obtain w'' where "Server_Reserve wired_server ctx p w' =
        (Inr (reserve_response (reserve_result (aggregated r) wh)), w'')"
      by (rule edge_placed [OF w'(1) inv assms(3) fresh Some])
    with check w'(2) Some show ?thesis by (simp add: check_response_def check_report_def)
  qed
qed

theorem check_predicts_reserve_witness:
  "\<exists>c w'. Server_CheckAvailability wired_server \<lparr>ctx_recording = True\<rparr> (pq_Items sample_order) sample_stocked = (Inr c, w') \<and>
     w_db w' = w_db sample_stocked"
  using check_predicts_reserve [OF quiet_samples(2) reachable_inv [OF sample_reachable(2)] sample_decode(1) sample_fresh(1)]
  by blast


text \<open>
  C17. Retries are safe. Place a valid, fresh request alone, then send the same reservation again with
  its lines reordered, split or merged: the retry changes nothing, and its response has the same
  status and the same allocations, at most in another order.
\<close>

theorem rpc_Reserve_retry:
  assumes "quiet w" and "db_inv (w_db w)"
    and "decode_reserve p = Inr r" and "fresh_request r (w_db w)"
    and "serving_warehouse (w_db w) (AggregateLines (rq_Items r)) = Some wh"
    and "decode_reserve q = Inr t" and "rq_ID t = rq_ID r" and "rq_OrderID t = rq_OrderID r"
    and "rq_DestinationRegion t = rq_DestinationRegion r" and "rq_ExpiresAt t = rq_ExpiresAt r"
    and "\<forall>s. demand (rq_Items t) s = demand (rq_Items r) s"
  shows "\<exists>resp w1 again w2. Server_Reserve wired_server ctx p w = (Inr resp, w1) \<and>
    Server_Reserve wired_server ctx q w1 = (Inr again, w2) \<and> w_db w2 = w_db w1 \<and>
    pr_ReservationId again = pr_ReservationId resp \<and> pr_Status again = pr_Status resp \<and>
    mset (pr_Allocations again) = mset (pr_Allocations resp)"
proof -
  let ?as = "allocations_at wh (AggregateLines (rq_Items r))"
  obtain w1 where w1: "Server_Reserve wired_server ctx p w = (Inr (reserve_response (reserve_result (aggregated r) wh)), w1)"
      "quiet w1" "db_guar (w_db w) (w_db w1)" "status_of (w_db w1) (rq_ID r) = Some ReservationReserved"
      "lines_of (rq_ID r) (w_db w1) = ?as"
      "matches (rq_ID r) (rq_OrderID r) (CanonicalHash (AggregateLines (rq_Items r)) (rq_DestinationRegion r)) (w_db w1)"
    by (rule edge_placed [OF assms(1-5)])
  from w1(6) obtain row where row: "map_of (reservations (w_db w1)) (rq_ID t) = Some row"
      "external_reference row = rq_OrderID t"
      "request_hash row = CanonicalHash (AggregateLines (rq_Items t)) (rq_DestinationRegion t)"
    using edge_same_hash [OF assms(6,3,9,11)] assms(7,8) by (auto simp: matches_def)
  have "rq_ExpiresAt t = '''' \<or> timestamptz_in (server (w_db w1)) (rq_ExpiresAt t) \<noteq> None"
    using assms(4,10) w1(3) by (auto simp: fresh_request_def db_guar_def)
  then obtain w2 where w2: "Server_Reserve wired_server ctx q w1 =
      (Inr (reserve_response (stored_result (rq_ID t) row (w_db w1))), w2)" "w_db w2 = w_db w1"
    by (rule edge_replayed [OF w1(2) assms(6) _ row])
  have "res_status row = ReservationReserved" using w1(4) row(1) assms(7) by (simp add: status_of_def)
  moreover have "mset (select_lines (rq_ID t) (w_db w1)) = mset ?as"
    using w1(5) assms(7) by (simp add: select_lines_def)
  ultimately show ?thesis
    using w1(1) w2 assms(7) by (auto simp: reserve_response_def reserve_result_def stored_result_def)
qed

theorem rpc_Reserve_retry_witness:
  "\<exists>resp w1 again w2.
     Server_Reserve wired_server \<lparr>ctx_recording = True\<rparr> sample_order sample_stocked = (Inr resp, w1) \<and>
     Server_Reserve wired_server \<lparr>ctx_recording = True\<rparr> sample_split_order w1 = (Inr again, w2) \<and> w_db w2 = w_db w1"
proof -
  have "rq_ID sample_split_request = rq_ID sample_request" "rq_OrderID sample_split_request = rq_OrderID sample_request"
    "rq_DestinationRegion sample_split_request = rq_DestinationRegion sample_request"
    "rq_ExpiresAt sample_split_request = rq_ExpiresAt sample_request"
    by (simp_all add: sample_split_request_def)
  from rpc_Reserve_retry [OF quiet_samples(2) reachable_inv [OF sample_reachable(2)] sample_decode(1) sample_fresh
      sample_decode(2) this] sample_demand show ?thesis by metis
qed

text \<open>
  C18. The canonical request hash identifies a request: two requests the edge accepts are hashed from
  the same bytes exactly if they go to the same region and ask for the same total of every SKU,
  however their lines are ordered or split. The field separators cannot be forged.
\<close>

theorem canonical_request:
  assumes "decode_reserve p = Inr r" and "decode_reserve q = Inr t"
  shows "canonical_bytes (AggregateLines (rq_Items r)) (rq_DestinationRegion r) =
      canonical_bytes (AggregateLines (rq_Items t)) (rq_DestinationRegion t) \<longleftrightarrow>
    rq_DestinationRegion r = rq_DestinationRegion t \<and> (\<forall>s. demand (rq_Items r) s = demand (rq_Items t) s)"
  by (rule edge_canonical [OF assms])

theorem canonical_request_witness:
  "canonical_bytes (AggregateLines (rq_Items sample_request)) '''' =
     canonical_bytes (AggregateLines (rq_Items sample_split_request)) ''''"
  using canonical_request [OF sample_decode(1,2)]
  by (simp add: sample_demand) (simp add: sample_request_def sample_split_request_def)

text \<open>
  C19. Arithmetic on accepted requests is exact. After aggregation no SKU occurs twice, every quantity
  is the true sum of its lines, between 1 and a million and so far inside \<open>int64\<close>; and every ledger
  command id built from the reservation and a SKU fits \<open>VARCHAR(255)\<close>.
\<close>

theorem accepted_request_bounds:
  assumes "decode_reserve p = Inr r"
  shows "distinct (map ln_SKUID (AggregateLines (rq_Items r))) \<and>
    (\<forall>l \<in> set (AggregateLines (rq_Items r)).
      ln_Quantity l = demand (map line_of_item (pq_Items p)) (ln_SKUID l) \<and>
      1 \<le> ln_Quantity l \<and> ln_Quantity l \<le> 1000000 \<and>
      (\<forall>pre \<in> {''res:'', ''rel:'', ''cmt:''}. varchar 255 (pre @ pq_ReservationId p @ '':'' @ ln_SKUID l)))"
proof (intro conjI ballI)
  note ok = decode_reserve_ok [OF assms]
  have rid: "pq_ReservationId p = rq_ID r" using assms by (auto simp: decode_reserve_def split: if_splits sum.splits)
  show "distinct (map ln_SKUID (AggregateLines (rq_Items r)))" by (rule distinct_AggregateLines)
  fix l
  assume l: "l \<in> set (AggregateLines (rq_Items r))"
  note e = edge_aggregate [OF ok(4,5) l]
  show "ln_Quantity l = demand (map line_of_item (pq_Items p)) (ln_SKUID l)" using e(1) ok(6) by simp
  show "1 \<le> ln_Quantity l" using e(2) by simp
  have "demand (rq_Items r) (ln_SKUID l) \<le> int (length (rq_Items r)) * maxQuantity" using edge_demand [OF ok(4)] by blast
  then show "ln_Quantity l \<le> 1000000" using e(1) ok(5) by (simp add: maxCheckItems_def maxQuantity_def)
  fix pre :: string
  assume "pre \<in> {''res:'', ''rel:'', ''cmt:''}"
  then show "varchar 255 (pre @ pq_ReservationId p @ '':'' @ ln_SKUID l)"
    unfolding rid by (intro ledger_id_fits ok(1) e(3)) auto
qed

theorem accepted_request_bounds_witness:
  "demand (map line_of_item (pq_Items sample_split_order)) ''A'' = 3 \<and> varchar 255 (''res:'' @ ''r1'' @ '':'' @ ''A'')"
proof -
  have "AggregateLines (rq_Items sample_split_request) = [\<lparr>ln_SKUID = ''A'', ln_Quantity = 3\<rparr>]" by code_simp
  with accepted_request_bounds [OF sample_decode(2)] show ?thesis by (simp add: sample_split_order_def sample_order_def)
qed

section \<open>Errors\<close>

text \<open>
  The requests the transport admits, written out: a SKU is 1 to 64 letters, digits, dots, underscores or
  hyphens; an id 1 to 186 of these or colons; a basket has 1 to 100 lines of 1 to 10000 units each; a
  timestamp and a hash may be left out.
\<close>

definition admitted_text :: "string \<Rightarrow> nat \<Rightarrow> nat \<Rightarrow> string \<Rightarrow> bool" where
  "admitted_text extra lo hi s \<longleftrightarrow> lo \<le> length s \<and> length s \<le> hi \<and> (\<forall>c \<in> set s. is_alnum c \<or> c \<in> set extra)"

definition admitted_id :: "string \<Rightarrow> bool" where "admitted_id = admitted_text ''_.:-'' 1 186"

definition admitted_sku :: "string \<Rightarrow> bool" where "admitted_sku = admitted_text ''._-'' 1 64"

definition admitted_items :: "ReservationItem list \<Rightarrow> bool" where
  "admitted_items items \<longleftrightarrow> items \<noteq> [] \<and> length items \<le> 100 \<and>
     (\<forall>it \<in> set items. 1 \<le> pi_Quantity it \<and> pi_Quantity it \<le> 10000 \<and> admitted_sku (pi_SkuId it))"

definition admitted_request :: "ReserveRequest \<Rightarrow> bool" where
  "admitted_request p \<longleftrightarrow> admitted_id (pq_ReservationId p) \<and> admitted_id (pq_OrderId p) \<and>
     admitted_text ''_-'' 0 64 (pq_DestinationRegion p) \<and> admitted_items (pq_Items p) \<and>
     (pq_ExpiresAt p = '''' \<or> ParseRFC3339_accepts (pq_ExpiresAt p)) \<and>
     (pq_RequestHash p = '''' \<or>
      pq_RequestHash p = CanonicalHash (AggregateLines (map line_of_item (pq_Items p))) (pq_DestinationRegion p))"

fun answered_code :: "status_error + 'a \<Rightarrow> code option" where
  "answered_code (Inl (ErrorWithReason c r msg)) = Some c"
| "answered_code (Inl (StatusError c msg)) = Some c"
| "answered_code (Inr x) = None"

text \<open>An RPC that answers \<open>InvalidArgument\<close> to exactly the requests not admitted, and leaves those untouched.\<close>

definition screens :: "bool \<Rightarrow> 'a rpc \<Rightarrow> world \<Rightarrow> bool" where
  "screens admitted rpc w \<longleftrightarrow>
     (if admitted then answered_code (fst (rpc w)) \<noteq> Some InvalidArgument
      else answered_code (fst (rpc w)) = Some InvalidArgument \<and> snd (rpc w) = w)"

lemma admitted_patterns:
  "validSKUID = admitted_sku" "validReservationID = admitted_id" "validDestinationRegion = admitted_text ''_-'' 0 64"
  "releaseReason_matches = admitted_text ''_.-'' 0 64"
  by (simp_all add: fun_eq_iff validSKUID_def validReservationID_def validDestinationRegion_def releaseReason_matches_def
      class_match_def admitted_sku_def admitted_id_def admitted_text_def list_all_iff)

lemma reservation_loop_admitted:
  "(case reservation_loop items of
      Inl st \<Rightarrow> answered_code (Inl st :: status_error + unit) = Some InvalidArgument
    | Inr ls \<Rightarrow> ls = map line_of_item items) \<and>
   ((\<exists>ls. reservation_loop items = Inr ls) \<longleftrightarrow>
     (\<forall>it \<in> set items. 1 \<le> pi_Quantity it \<and> pi_Quantity it \<le> 10000 \<and> admitted_sku (pi_SkuId it)))"
proof (induction items)
  case (Cons it its)
  then show ?case
    by (auto simp: Let_def line_of_item_def quantity_error_def errInvalidSKUID_def invalid_argument_def maxQuantity_def
        admitted_patterns split: sum.splits)
qed simp

lemma reservationLines_admitted:
  "(case reservationLines items of
      Inl st \<Rightarrow> \<not> admitted_items items \<and> answered_code (Inl st :: status_error + unit) = Some InvalidArgument
    | Inr ls \<Rightarrow> admitted_items items \<and> ls = map line_of_item items)"
  using reservation_loop_admitted [of items]
  by (auto simp: reservationLines_def admitted_items_def maxCheckItems_def item_count_error_def invalid_argument_def
      split: sum.splits)

lemma decode_reserve_admitted:
  "(case decode_reserve p of
      Inl st \<Rightarrow> \<not> admitted_request p \<and> answered_code (Inl st :: status_error + unit) = Some InvalidArgument
    | Inr r \<Rightarrow> admitted_request p)"
  using reservationLines_admitted [of "pq_Items p"]
  by (auto simp: decode_reserve_def admitted_request_def admitted_patterns errInvalidReservationID_def
      errInvalidDestinationRegion_def invalid_argument_def split: sum.splits)

lemma screens_reject: "answered_code (Inl st :: status_error + unit) = Some InvalidArgument \<Longrightarrow> screens False (reject st) w"
  by (cases st) (simp_all add: screens_def reject_def)

lemma errors_not_invalid:
  "answered_code (fst (failClosed ctx rpc err u)) \<noteq> Some InvalidArgument"
  "answered_code (fst (reservationError ctx rpc err u)) \<noteq> Some InvalidArgument"
  by (simp_all add: reservationError_def failClosed_def reject_def rpc_log_def)

lemma screens_call:
  assumes "\<And>err u. answered_code (fst (h err u)) \<noteq> Some InvalidArgument"
  shows "screens True (rpc_bind m h (\<lambda>x. respond (f x))) w"
  using assms by (auto simp: screens_def rpc_bind_def respond_def split: prod.split sum.split)

lemmas screens_rules = screens_reject screens_call [OF errors_not_invalid(1)] screens_call [OF errors_not_invalid(2)]

text \<open>
  C20. The status code tells whether a request was valid. Over any logic implementation, in any state and
  whatever runs concurrently, each of the six RPCs answers \<open>InvalidArgument\<close> exactly to the requests that
  are not admitted, whatever else is wrong with them, and then nothing was called, logged or counted: the
  world is unchanged. No failure of the logic or the database is ever reported as \<open>InvalidArgument\<close>.
\<close>

theorem invalid_argument_untouched:
  "screens (admitted_request p) (Server_Reserve s ctx p) w \<and>
   screens (admitted_id rid \<and> admitted_text ''_.-'' 0 64 reason) (Server_Release s ctx rid reason) w \<and>
   screens (admitted_id rid) (Server_Commit s ctx rid) w \<and>
   screens (admitted_id rid) (Server_GetReservation s ctx rid) w \<and>
   screens (skus \<noteq> [] \<and> length skus \<le> 200 \<and> (\<forall>sku \<in> set skus. admitted_sku sku)) (Server_BatchGetAvailability s ctx skus) w \<and>
   screens (admitted_items items) (Server_CheckAvailability s ctx items) w"
proof (intro conjI)
  show "screens (admitted_request p) (Server_Reserve s ctx p) w"
    using decode_reserve_admitted [of p] by (auto simp: Server_Reserve_def intro: screens_rules split: sum.splits)
  show "screens (admitted_id rid \<and> admitted_text ''_.-'' 0 64 reason) (Server_Release s ctx rid reason) w"
    by (auto simp: Server_Release_def admitted_patterns errInvalidReservationID_def invalid_argument_def intro!: screens_rules)
  show "screens (admitted_id rid) (Server_Commit s ctx rid) w"
    by (auto simp: Server_Commit_def admitted_patterns errInvalidReservationID_def intro!: screens_rules)
  show "screens (admitted_id rid) (Server_GetReservation s ctx rid) w"
    by (auto simp: Server_GetReservation_def admitted_patterns errInvalidReservationID_def intro!: screens_rules)
  show "screens (skus \<noteq> [] \<and> length skus \<le> 200 \<and> (\<forall>sku \<in> set skus. admitted_sku sku)) (Server_BatchGetAvailability s ctx skus) w"
    unfolding list_all_iff [symmetric]
    by (cases "list_all admitted_sku skus")
       (auto simp: Server_BatchGetAvailability_def maxBatchSkuIDs_def admitted_patterns invalid_argument_def
          errInvalidSKUID_def intro!: screens_rules)
  have "screens (admitted_items items)
      (case reservationLines items of
         Inl st \<Rightarrow> reject st
       | Inr ls \<Rightarrow> rpc_bind (m ls) (failClosed ctx ''CheckAvailability'') (\<lambda>x. respond (f x))) w" for m and f :: "_ \<Rightarrow> CheckAvailabilityResponse"
    using reservationLines_admitted [of items] by (auto intro: screens_rules split: sum.splits)
  then show "screens (admitted_items items) (Server_CheckAvailability s ctx items) w"
    by (simp add: Server_CheckAvailability_def check_loop_lines reservationLines_def if_distrib sum.case_distrib cong: if_cong sum.case_cong)
qed

text \<open>A basket of 10001 units is refused; the sample order is not, whatever comes of it.\<close>

theorem invalid_argument_untouched_witness:
  "\<forall>ctx. answered_code (fst (Server_Reserve wired_server ctx
       (sample_order\<lparr>pq_Items := [\<lparr>pi_SkuId = ''A'', pi_Quantity = 10001\<rparr>]\<rparr>) sample_start)) = Some InvalidArgument \<and>
   answered_code (fst (Server_Reserve wired_server ctx sample_order sample_start)) \<noteq> Some InvalidArgument"
proof (intro allI conjI)
  fix ctx
  have "\<not> admitted_request (sample_order\<lparr>pq_Items := [\<lparr>pi_SkuId = ''A'', pi_Quantity = 10001\<rparr>]\<rparr>)" by code_simp
  with invalid_argument_untouched show "answered_code (fst (Server_Reserve wired_server ctx
       (sample_order\<lparr>pq_Items := [\<lparr>pi_SkuId = ''A'', pi_Quantity = 10001\<rparr>]\<rparr>) sample_start)) = Some InvalidArgument"
    unfolding screens_def by metis
  have "admitted_request sample_order" by code_simp
  with invalid_argument_untouched show "answered_code (fst (Server_Reserve wired_server ctx sample_order sample_start)) \<noteq> Some InvalidArgument"
    unfolding screens_def by metis
qed

text \<open>
  C21. Clients only ever see the status errors of one fixed list. Whatever logic implementation the
  server runs on, whatever the request holds and whatever the state, the failures of all six RPCs are
  the validation errors, the cancellation, and seven classified outcomes per RPC; no SQL text,
  identifier or driver message reaches the wire.
\<close>

theorem status_errors_listed:
  "(Server_Reserve s ctx p w = (Inl st, w') \<longrightarrow> st \<in> set wire_errors) \<and>
   (Server_Release s ctx rid reason w = (Inl st, w') \<longrightarrow> st \<in> set wire_errors) \<and>
   (Server_Commit s ctx rid w = (Inl st, w') \<longrightarrow> st \<in> set wire_errors) \<and>
   (Server_GetReservation s ctx rid w = (Inl st, w') \<longrightarrow> st \<in> set wire_errors) \<and>
   (Server_BatchGetAvailability s ctx skus w = (Inl st, w') \<longrightarrow> st \<in> set wire_errors) \<and>
   (Server_CheckAvailability s ctx items w = (Inl st, w') \<longrightarrow> st \<in> set wire_errors)"
proof (intro conjI impI)
  have listed: "st \<in> set wire_errors" if "st \<in> {errInvalidReservationID fieldReservationID, errInvalidSKUID, item_count_error,
      invalid_argument (''sku_ids must contain 1..'' @ FormatInt (int maxBatchSkuIDs) @ '' entries''),
      invalid_argument ''reason must match [A-Za-z0-9_.-]{0,64}'', quantity_error}"
    using that by (auto simp: wire_errors_def)
  show "st \<in> set wire_errors" if "Server_Reserve s ctx p w = (Inl st, w')"
    using that decode_error by (auto simp: Server_Reserve_def reject_run split: sum.splits
        elim!: rpc_bind_Inl intro: reservationError_listed(1) [rotated])
  show "st \<in> set wire_errors" if "Server_Release s ctx rid reason w = (Inl st, w')"
    using that listed by (auto simp: Server_Release_def reject_run split: if_splits
        elim!: rpc_bind_Inl intro: reservationError_listed(1) [rotated])
  show "st \<in> set wire_errors" if "Server_Commit s ctx rid w = (Inl st, w')"
    using that listed by (auto simp: Server_Commit_def reject_run split: if_splits
        elim!: rpc_bind_Inl intro: reservationError_listed(1) [rotated])
  show "st \<in> set wire_errors" if "Server_GetReservation s ctx rid w = (Inl st, w')"
    using that listed by (auto simp: Server_GetReservation_def reject_run split: if_splits
        elim!: rpc_bind_Inl intro: reservationError_listed(1) [rotated])
  show "st \<in> set wire_errors" if "Server_BatchGetAvailability s ctx skus w = (Inl st, w')"
    using that listed by (auto simp: Server_BatchGetAvailability_def reject_run split: if_splits
        elim!: rpc_bind_Inl intro: reservationError_listed(2) [rotated])
  have "st' \<in> {quantity_error, errInvalidSKUID}" if "check_loop items [] Map.empty = Inl st'" for st'
    using that reservation_loop_error by (auto simp: check_loop_lines split: sum.splits)
  then show "st \<in> set wire_errors" if "Server_CheckAvailability s ctx items w = (Inl st, w')"
    using that listed by (auto simp: Server_CheckAvailability_def reject_run split: if_splits sum.splits
        elim!: rpc_bind_Inl intro: reservationError_listed(2) [rotated])
qed

theorem status_errors_listed_witness:
  "errInvalidReservationID fieldReservationID \<in> set wire_errors"
proof -
  have "Server_Commit wired_server ctx '''' sample_start = (Inl (errInvalidReservationID fieldReservationID), sample_start)" for ctx
    by (simp add: Server_Commit_def validReservationID_def class_match_def reject_def)
  then show ?thesis using status_errors_listed by blast
qed

text \<open>
  C22. The dashboard and the client agree. When a reservation command fails past validation, either
  the request was canceled, nothing is counted and the status says so, or the reservation counter is
  incremented exactly once, under the command's operation and one bounded outcome, and the wire status
  is the one that belongs to this outcome. The driver's errors are assumed to wrap at most one of the
  service's sentinels.
\<close>

theorem outcome_label_matches_status:
  assumes "linear_faults w"
  shows "(decode_reserve p = Inr r \<and> Server_Reserve wired_server ctx p w = (Inl st, w') \<longrightarrow>
      labelled ''Reserve'' opReserve w st w') \<and>
    (validReservationID rid \<and> releaseReason_matches reason \<and> Server_Release wired_server ctx rid reason w = (Inl st, w') \<longrightarrow>
      labelled ''Release'' opRelease w st w') \<and>
    (validReservationID rid \<and> Server_Commit wired_server ctx rid w = (Inl st, w') \<longrightarrow>
      labelled ''Commit'' opCommit w st w')"
  using reserve_labelled [OF assms] release_labelled [OF assms] commit_labelled [OF assms] by blast

theorem outcome_label_matches_status_witness:
  "\<exists>w'. labelled ''Commit'' opCommit sample_start
     (ErrorWithReason NotFound ReasonNotFound ''reservation not found'') w'"
proof -
  have valid: "validReservationID ''r9''" by (simp add: validReservationID_def class_match_def is_alnum_def)
  have "fst (Server_Commit wired_server \<lparr>ctx_recording = True\<rparr> ''r9'' sample_start) =
      Inl (ErrorWithReason NotFound ReasonNotFound ''reservation not found'')" by code_simp
  then have "Server_Commit wired_server \<lparr>ctx_recording = True\<rparr> ''r9'' sample_start =
      (Inl (ErrorWithReason NotFound ReasonNotFound ''reservation not found''),
       snd (Server_Commit wired_server \<lparr>ctx_recording = True\<rparr> ''r9'' sample_start))" by (simp add: prod_eq_iff)
  moreover have "linear_faults sample_start" by (simp add: faults_in_def sample_start_def)
  ultimately show ?thesis using outcome_label_matches_status valid by blast
qed

end
