(* ===== verification/Service_Properties.thy ===== *)
theory Service_Properties
  imports Edge_Outcomes
begin

text \<open>
  The properties of the reads, of the transitions as RPCs, and of the telemetry of the logic layer.
\<close>

section \<open>Transitions and reads as RPCs\<close>

text \<open>
  C23. A successful \<open>Release\<close> or \<open>Commit\<close> RPC tells the truth, whatever runs concurrently: the
  answered status is \<open>RELEASED\<close> and the reservation is released in the committed state or was unknown
  when the call began; the answered status is \<open>COMMITTED\<close> and the reservation is committed.
\<close>

theorem rpc_transitions_sound:
  assumes "concurrent w"
  shows "(Server_Release wired_server ctx rid reason w = (Inr resp, w') \<longrightarrow>
      pt_Status resp = RESERVATION_STATUS_RELEASED \<and> db_inv (w_db w') \<and> db_guar (w_db w) (w_db w') \<and>
      (status_of (w_db w') rid = Some ReservationReleased \<or> status_of (w_db w) rid = None)) \<and>
    (Server_Commit wired_server ctx rid w = (Inr resp, w') \<longrightarrow>
      pt_Status resp = RESERVATION_STATUS_COMMITTED \<and> db_inv (w_db w') \<and> db_guar (w_db w) (w_db w') \<and>
      status_of (w_db w') rid = Some ReservationCommitted)"
proof -
  have "sv_reservations wired_server = reservation_service reservation_repository" by (simp add: wired_server_def)
  note sound = store.served.Server_transitions_sound [OF this assms]
  show ?thesis by (intro conjI [OF impI impI] sound)
qed

theorem rpc_transitions_sound_witness:
  "\<exists>w'. Server_Commit wired_server \<lparr>ctx_recording = True\<rparr> ''r1'' sample_reserved =
     (Inr \<lparr>pt_ReservationId = ''r1'', pt_Status = RESERVATION_STATUS_COMMITTED\<rparr>, w') \<and>
     status_of (w_db w') ''r1'' = Some ReservationCommitted"
proof -
  have "fst (Server_Commit wired_server \<lparr>ctx_recording = True\<rparr> ''r1'' sample_reserved) =
      Inr \<lparr>pt_ReservationId = ''r1'', pt_Status = RESERVATION_STATUS_COMMITTED\<rparr>" by code_simp
  then obtain w' where run: "Server_Commit wired_server \<lparr>ctx_recording = True\<rparr> ''r1'' sample_reserved =
      (Inr \<lparr>pt_ReservationId = ''r1'', pt_Status = RESERVATION_STATUS_COMMITTED\<rparr>, w')" by (metis prod.collapse)
  with rpc_transitions_sound [OF sample_concurrent(3)] show ?thesis by blast
qed

text \<open>
  C24. \<open>GetReservation\<close> in a quiet world reports the stored row: id, order, the wire form of the status,
  the stored lines and the three timestamps in RFC 3339, or \<open>NotFound\<close> for an unknown id; it changes
  nothing. On a state that satisfies the invariant the reported status is never \<open>UNSPECIFIED\<close>.
\<close>

theorem rpc_GetReservation_reports:
  assumes "quiet w" and "db_inv (w_db w)" and "validReservationID rid"
  shows "w_db (snd (Server_GetReservation wired_server ctx rid w)) = w_db w \<and>
    fst (Server_GetReservation wired_server ctx rid w) =
      (case map_of (reservations (w_db w)) rid of
         None \<Rightarrow> Inl (ErrorWithReason NotFound ReasonNotFound ''reservation not found'')
       | Some row \<Rightarrow>
           Inr \<lparr>pv_Id = rid, pv_OrderId = external_reference row,
                pv_Status = toProtoReservationStatus (res_status row),
                pv_Allocations = map proto_allocation (select_lines rid (w_db w)),
                pv_CreatedAt = FormatRFC3339 (res_created_at row), pv_UpdatedAt = FormatRFC3339 (res_updated_at row),
                pv_ExpiresAt = (case expires_at row of None \<Rightarrow> '''' | Some t \<Rightarrow> FormatRFC3339 t)\<rparr>) \<and>
    (\<forall>s. status_of (w_db w) rid = Some s \<longrightarrow> toProtoReservationStatus s \<noteq> RESERVATION_STATUS_UNSPECIFIED)"
proof (intro conjI)
  let ?t = "w_trace w @ [SpanStart (''inventory.'' @ opGetReservation) [(attrLayer, layerLogic), (attrOperation, opGetReservation)]]"
  have q: "w_script w = []" using assms(1) by (simp add: quiet_def)
  have found: "errors_Is (errorf_w a (errorf_w b (Sentinel ErrReservationNotFound))) ErrReservationNotFound" for a b by simp
  note run = Server_GetReservation_def wired_server_def reservation_service_def reservation_repository_def
    service_GetReservation_def with_span_def startLogicSpan_def GetReservation_def loadReservationLines_def
    scan_row_def query_def rpc_bind_def prog_defs emit_def defer_span_end_def q setSpanOutcome_def
    select_header_def pool_query_quiet
  show "w_db (snd (Server_GetReservation wired_server ctx rid w)) = w_db w"
    using assms(3) by (cases "map_of (reservations (w_db w)) rid")
      (simp_all add: run failureOutcome_def respond_def recordBoundedSpanError_def)
  show "fst (Server_GetReservation wired_server ctx rid w) =
      (case map_of (reservations (w_db w)) rid of
         None \<Rightarrow> Inl (ErrorWithReason NotFound ReasonNotFound ''reservation not found'')
       | Some row \<Rightarrow>
           Inr \<lparr>pv_Id = rid, pv_OrderId = external_reference row,
                pv_Status = toProtoReservationStatus (res_status row),
                pv_Allocations = map proto_allocation (select_lines rid (w_db w)),
                pv_CreatedAt = FormatRFC3339 (res_created_at row), pv_UpdatedAt = FormatRFC3339 (res_updated_at row),
                pv_ExpiresAt = (case expires_at row of None \<Rightarrow> '''' | Some t \<Rightarrow> FormatRFC3339 t)\<rparr>)"
    using assms(3) by (cases "map_of (reservations (w_db w)) rid")
      (simp_all add: run failureOutcome_def respond_def recordBoundedSpanError_def reservationError_def reject_def)
  show "\<forall>s. status_of (w_db w) rid = Some s \<longrightarrow> toProtoReservationStatus s \<noteq> RESERVATION_STATUS_UNSPECIFIED"
    using known_status [OF assms(2)] by (auto simp: toProtoReservationStatus_def reservation_statuses_def)
qed

theorem rpc_GetReservation_reports_witness:
  "\<exists>res. fst (Server_GetReservation wired_server \<lparr>ctx_recording = True\<rparr> ''r1'' sample_reserved) = Inr res \<and>
     pv_OrderId res = ''o1'' \<and> pv_Allocations res = [\<lparr>pa_SkuId = ''A'', pa_WarehouseId = ''1'', pa_Quantity = 3\<rparr>]"
proof -
  obtain row where row: "map_of (reservations (w_db sample_reserved)) (rq_ID sample_request) = Some row"
    "external_reference row = rq_OrderID sample_request" by (rule sample_row)
  have "FormatInt 1 = ''1''" by code_simp
  then have lines: "map proto_allocation (select_lines ''r1'' (w_db sample_reserved)) =
      [\<lparr>pa_SkuId = ''A'', pa_WarehouseId = ''1'', pa_Quantity = 3\<rparr>]"
    using sample_reserved_run(6) by (simp add: select_lines_def proto_allocation_def sample_allocation_def)
  have "validReservationID ''r1''" by (simp add: validReservationID_def class_match_def is_alnum_def)
  from rpc_GetReservation_reports [OF sample_reserved_run(2) reachable_inv [OF sample_reachable(3)] this,
      of "\<lparr>ctx_recording = True\<rparr>"] row lines
  show ?thesis by (simp add: sample_request_def)
qed


section \<open>Availability\<close>

text \<open>
  C25. \<open>BatchGetAvailability\<close> in a quiet world answers one entry per requested SKU, in request order:
  the sum over the active warehouses of what each can promise beyond its safety stock (never negative
  per warehouse), with \<open>UNKNOWN\<close> exactly for SKUs without a balance row anywhere, and otherwise
  \<open>OUT_OF_STOCK\<close> at zero, \<open>LOW_STOCK\<close> below five and \<open>IN_STOCK\<close> from five on. It changes nothing.
\<close>

theorem rpc_BatchGetAvailability_reports:
  assumes "quiet w" and "db_inv (w_db w)" and "0 < length skus" and "length skus \<le> 200"
    and "\<forall>s \<in> set skus. validSKUID s" and "\<forall>s \<in> set skus. int64_range (promise (w_db w) s)"
  shows "fst (Server_BatchGetAvailability wired_server ctx skus w) =
      Inr (map (\<lambda>s. \<lparr>ps_SkuId = s,
        ps_Status =
          (if s \<notin> fst ` fst ` set (balances (w_db w)) then AVAILABILITY_STATUS_UNKNOWN
           else if promise (w_db w) s = 0 then AVAILABILITY_STATUS_OUT_OF_STOCK
           else if promise (w_db w) s < 5 then AVAILABILITY_STATUS_LOW_STOCK
           else AVAILABILITY_STATUS_IN_STOCK),
        ps_AvailableToPromise = promise (w_db w) s\<rparr>) skus) \<and>
    w_db (snd (Server_BatchGetAvailability wired_server ctx skus w)) = w_db w"
proof -
  note keys = db_invD(1) [OF assms(2), unfolded balances_ok_def, THEN conjunct1] db_invD(7) [OF assms(2)]
  have "\<forall>s \<in> set skus. int64_range (atp_total (w_db w) s)"
    using assms(6) by (simp add: promise_def atp_total_sum [OF keys])
  from total_result [OF reader.batch_quiet [OF assms(2) this] quiet_rest [OF assms(1)]]
  obtain w' where run: "BatchGetAvailability availability_repository ctx skus w = (Inr (map (sku_report (w_db w)) skus), w')"
    and w': "rest (w_db w) w'" by metis
  have zero: "promise (w_db w) s \<le> 0 \<longleftrightarrow> promise (w_db w) s = 0" for s
    using promise_nonneg [of "w_db w" s] by linarith
  have answer: "\<lparr>ps_SkuId = sa_SKUID (sku_report (w_db w) s), ps_Status = toProtoStatus (sa_Status (sku_report (w_db w) s)),
      ps_AvailableToPromise = sa_ATP (sku_report (w_db w) s)\<rparr> =
    \<lparr>ps_SkuId = s,
     ps_Status =
       (if s \<notin> fst ` fst ` set (balances (w_db w)) then AVAILABILITY_STATUS_UNKNOWN
        else if promise (w_db w) s = 0 then AVAILABILITY_STATUS_OUT_OF_STOCK
        else if promise (w_db w) s < 5 then AVAILABILITY_STATUS_LOW_STOCK
        else AVAILABILITY_STATUS_IN_STOCK),
     ps_AvailableToPromise = promise (w_db w) s\<rparr>" for s
    by (simp add: sku_report_promise [OF assms(2)] toProtoStatus_def statusFor_def tracked_sku_def lowStockThreshold_def zero)
  show ?thesis
    using assms(3-5) run w'
    by (simp add: Server_BatchGetAvailability_def maxBatchSkuIDs_def wired_server_def availability_service_def
        rpc_bind_def respond_def rest_def answer list_all_iff comp_def)
qed

theorem rpc_BatchGetAvailability_reports_witness:
  "fst (Server_BatchGetAvailability wired_server \<lparr>ctx_recording = True\<rparr> [''A'', ''B''] sample_stocked) =
     Inr [\<lparr>ps_SkuId = ''A'', ps_Status = AVAILABILITY_STATUS_IN_STOCK, ps_AvailableToPromise = 10\<rparr>,
          \<lparr>ps_SkuId = ''B'', ps_Status = AVAILABILITY_STATUS_UNKNOWN, ps_AvailableToPromise = 0\<rparr>]"
proof -
  have stock: "map (promise (w_db sample_stocked)) [''A'', ''B''] = [10, 0] \<and>
      map (fst \<circ> fst) (balances (w_db sample_stocked)) = [''A'']" by code_simp
  then have "set (map (fst \<circ> fst) (balances (w_db sample_stocked))) = {''A''}" by simp
  then have tracked: "fst ` fst ` set (balances (w_db sample_stocked)) = {''A''}" by (simp add: image_comp)
  have "\<forall>s \<in> set [''A'', ''B'']. validSKUID s"
    by (simp add: validSKUID_def class_match_def is_alnum_def)
  moreover have "\<forall>s \<in> set [''A'', ''B'']. int64_range (promise (w_db sample_stocked) s)"
    using stock by (simp add: int64_range_def)
  ultimately show ?thesis
    using rpc_BatchGetAvailability_reports [OF quiet_samples(2) reachable_inv [OF sample_reachable(2)],
        of "[''A'', ''B'']" "\<lparr>ctx_recording = True\<rparr>"] stock tracked by simp
qed

text \<open>
  C26. \<open>CheckAvailability\<close> in a quiet world says yes exactly if a single active warehouse covers the
  summed demand of every SKU of the basket; lines of one SKU are never checked separately. A no is
  always explained: by the SKUs without a balance row anywhere, or by shortages, each of a tracked SKU
  whose demand exceeds what the lowest-id active warehouse can promise. It changes nothing.
\<close>

theorem rpc_CheckAvailability_reports:
  assumes "quiet w" and "db_inv (w_db w)" and "reservationLines items = Inr ls"
  shows "\<exists>c w'. Server_CheckAvailability wired_server ctx items w = (Inr c, w') \<and> w_db w' = w_db w \<and>
    (pc_CanFulfill c \<longleftrightarrow> (\<exists>wh \<in> set (select_active_ids (w_db w)). \<forall>s. demand ls s \<le> atp_at (w_db w) wh s)) \<and>
    (if pc_CanFulfill c then pc_Shortages c = [] \<and> pc_UnknownSkuIds c = []
     else (pc_Shortages c \<noteq> [] \<or> pc_UnknownSkuIds c \<noteq> []) \<and>
       set (pc_UnknownSkuIds c) = ln_SKUID ` set ls - fst ` fst ` set (balances (w_db w)) \<and>
       (\<forall>sh \<in> set (pc_Shortages c). ph_SkuId sh \<in> fst ` fst ` set (balances (w_db w)) \<and>
          ph_Requested sh = demand ls (ph_SkuId sh) \<and>
          ph_AvailableToPromise sh = baseline_atp (w_db w) (ph_SkuId sh) \<and>
          ph_AvailableToPromise sh < ph_Requested sh))"
proof -
  let ?d = "w_db w" and ?its = "AggregateLines ls"
  note ok = reservationLines_ok(3,4) [OF assms(3)]
  have yes: "serving_warehouse ?d ?its \<noteq> None \<longleftrightarrow>
      (\<exists>wh \<in> set (select_active_ids ?d). \<forall>s. demand ls s \<le> atp_at ?d wh s)"
    unfolding serving_iff using serves_demand [OF ok(2,1)] by blast
  obtain w' where run: "Server_CheckAvailability wired_server ctx items w =
      (Inr (check_response (check_report ?d (map item_of_line ?its))), w')" "w_db w' = w_db w"
    by (rule edge_check [OF assms])
  have untracked: "set (untracked_skus ?d ?its) = ln_SKUID ` set ls - fst ` fst ` set (balances ?d)"
  proof -
    have "set (untracked_skus ?d ?its) = ln_SKUID ` set ?its - fst ` fst ` set (balances ?d)"
      unfolding untracked_skus_def by (simp add: set_diff_eq)
    then show ?thesis by (simp only: set_AggregateLines_SKUIDs)
  qed
  have explained: "filter (\<lambda>s. tracked_sku ?d (sh_SKUID s)) (shortage_report ?d ?its) \<noteq> [] \<or> untracked_skus ?d ?its \<noteq> []"
    if "serving_warehouse ?d ?its = None"
  proof -
    have "?its \<noteq> []" using reservationLines_ok(2) [OF assms(3)] set_AggregateLines_SKUIDs [of ls] by auto
    with unserved_short [OF that] edge_aggregate(2) [OF ok(2,1)] obtain l where
      "l \<in> set ?its" "baseline_atp ?d (ln_SKUID l) < ln_Quantity l" by blast
    then show ?thesis
      by (auto simp: untracked_skus_def shortage_report_def tracked_sku_def filter_empty_conv)
  qed
  have short: "sh_Requested s = demand ls (sh_SKUID s) \<and> sh_ATP s = baseline_atp ?d (sh_SKUID s) \<and>
      baseline_atp ?d (sh_SKUID s) < demand ls (sh_SKUID s)"
    if "s \<in> set (shortage_report ?d ?its)" for s
    using that edge_aggregate(1) [OF ok(2,1)] by (auto simp: shortage_report_def)
  show ?thesis
    by (rule exI, rule exI, rule conjI [OF run(1)])
       (use run(2) yes untracked explained short in
         \<open>auto simp: check_response_def check_report_def shortage_line_def tracked_sku_def\<close>)
qed

theorem rpc_CheckAvailability_reports_witness:
  "\<exists>c w'. Server_CheckAvailability wired_server \<lparr>ctx_recording = True\<rparr> (pq_Items sample_split_order) sample_stocked =
     (Inr c, w') \<and> w_db w' = w_db sample_stocked"
proof -
  have "reservationLines (pq_Items sample_split_order) = Inr (rq_Items sample_split_request)" by code_simp
  from rpc_CheckAvailability_reports [OF quiet_samples(2) reachable_inv [OF sample_reachable(2)] this] show ?thesis by blast
qed


section \<open>Telemetry\<close>

text \<open>
  Every command is counted exactly once. In any world, whatever fails, each \<open>Reserve\<close>, \<open>Release\<close>
  and \<open>Commit\<close> of the logic increments the reservation counter once, and each \<open>CheckAvailability\<close> the
  check counter once, except that a canceled request is not counted at all.
\<close>

theorem counted_once:
  "counted reservationCounter (snd (service_Reserve reservation_repository ctx req w)) =
     counted reservationCounter w + once_unless_canceled (fst (service_Reserve reservation_repository ctx req w)) \<and>
   counted reservationCounter (snd (service_Release reservation_repository ctx rid reason w)) =
     counted reservationCounter w + once_unless_canceled (fst (service_Release reservation_repository ctx rid reason w)) \<and>
   counted reservationCounter (snd (service_Commit reservation_repository ctx rid w)) =
     counted reservationCounter w + once_unless_canceled (fst (service_Commit reservation_repository ctx rid w)) \<and>
   counted checkCounter (snd (CheckAvailability availability_repository ctx items w)) =
     counted checkCounter w + once_unless_canceled (fst (CheckAvailability availability_repository ctx items w))"
  using store.metered reader.check_metered unfolding meters_def by blast

text \<open>
  Telemetry stays bounded. Whatever the request and the state hold and whatever fails, the spans,
  attributes, span errors, metric labels and log lines of the six operations come from a fixed
  vocabulary: no SKU, order or warehouse id and no driver error is exported, and a reservation id only
  as the reference of its own rejection event.
\<close>

theorem telemetry_bounded:
  "(\<exists>ts. w_trace (snd (service_Reserve reservation_repository ctx req w)) = w_trace w @ ts \<and>
      list_all (bounded_record (rq_ID req)) ts) \<and>
   (\<exists>ts. w_trace (snd (service_Release reservation_repository ctx rid reason w)) = w_trace w @ ts \<and>
      list_all (bounded_record ref) ts) \<and>
   (\<exists>ts. w_trace (snd (service_Commit reservation_repository ctx rid w)) = w_trace w @ ts \<and>
      list_all (bounded_record ref) ts) \<and>
   (\<exists>ts. w_trace (snd (service_GetReservation reservation_repository ctx rid w)) = w_trace w @ ts \<and>
      list_all (bounded_record ref) ts) \<and>
   (\<exists>ts. w_trace (snd (BatchGetAvailability availability_repository ctx skus w)) = w_trace w @ ts \<and>
      list_all (bounded_record ref) ts) \<and>
   (\<exists>ts. w_trace (snd (CheckAvailability availability_repository ctx items w)) = w_trace w @ ts \<and>
      list_all (bounded_record ref) ts)"
  by (intro conjI bounded_trace store.reservation_bounded reader.availability_bounded)


section \<open>Aggregation\<close>

text \<open>
  \<open>AggregateLines\<close> merges the lines of each SKU into one, in the order in which the SKUs first
  occur, with the sum of their quantities in Go's wrapping \<open>int64\<close> arithmetic; aggregating again
  changes nothing.
\<close>

theorem AggregateLines_sums:
  assumes "\<forall>it \<in> set items. int64_range (ln_Quantity it)"
  shows "map ln_SKUID (AggregateLines items) = first_seen (map ln_SKUID items) \<and>
    (\<forall>l \<in> set (AggregateLines items). ln_Quantity l = wrap64 (demand items (ln_SKUID l))) \<and>
    AggregateLines (AggregateLines items) = AggregateLines items"
  using AggregateLines_SKUIDs AggregateLines_demand [OF assms] AggregateLines_distinct_id [OF distinct_AggregateLines] by blast

theorem AggregateLines_sums_witness:
  "map ln_SKUID (AggregateLines
     [\<lparr>ln_SKUID = ''B'', ln_Quantity = 2\<rparr>, \<lparr>ln_SKUID = ''A'', ln_Quantity = 1\<rparr>, \<lparr>ln_SKUID = ''B'', ln_Quantity = 3\<rparr>]) =
   [''B'', ''A'']"
proof -
  let ?items = "[\<lparr>ln_SKUID = ''B'', ln_Quantity = 2\<rparr>, \<lparr>ln_SKUID = ''A'', ln_Quantity = 1\<rparr>, \<lparr>ln_SKUID = ''B'', ln_Quantity = 3\<rparr>]"
  have "\<forall>it \<in> set ?items. int64_range (ln_Quantity it)" by (simp add: int64_range_def)
  from AggregateLines_sums [OF this] show ?thesis by (simp add: first_seen_def)
qed

end
