(* ===== verification/Quiet_Commands.thy ===== *)
theory Quiet_Commands
  imports Stock_Safety Quiet_Runs
begin

text \<open>
  The stock commands in a quiet world, on every branch: a known command id is a replay or a conflict
  and changes nothing; a new one is applied with its movement in one step, or refused by a missing
  row or a CHECK with nothing changed.
\<close>

section \<open>The claim\<close>

definition command_movement :: "StockCommand \<Rightarrow> string \<Rightarrow> int \<Rightarrow> int \<Rightarrow> int \<Rightarrow> movement_row" where
  "command_movement cmd ty dh n now =
     \<lparr>mv_id = n, mv_command_id = cmd_CommandID cmd, mv_sku_id = cmd_SKUID cmd,
      mv_warehouse_id = cmd_WarehouseID cmd, mv_type = ty, mv_on_hand_delta = dh, mv_reserved_delta = 0,
      mv_reference_type = Some ''admin'', mv_reference_id = None,
      mv_reason = Some (cmd_Reason cmd), mv_actor = Some (cmd_Actor cmd), mv_created_at = now\<rparr>"

definition same_command :: "StockCommand \<Rightarrow> string \<Rightarrow> int \<Rightarrow> movement_row \<Rightarrow> bool" where
  "same_command cmd ty dh m \<longleftrightarrow>
     mv_sku_id m = cmd_SKUID cmd \<and> mv_warehouse_id m = cmd_WarehouseID cmd \<and> mv_type m = ty \<and>
     mv_on_hand_delta m = dh \<and> mv_reserved_delta m = 0 \<and> coalesce (mv_actor m) = cmd_Actor cmd \<and>
     coalesce (mv_reason m) = cmd_Reason cmd"

definition command_types :: "string list" where
  "command_types = [MovementReceive, MovementAdjust, MovementSetSafetyStock]"

lemma Validate_fits:
  assumes "Validate cmd = None" "varchar 64 (cmd_Reason cmd)" "ty \<in> set command_types"
  shows "movement_fits (command_movement cmd ty dh n now)" "ty \<in> set movement_types" "varchar 64 (cmd_SKUID cmd)"
proof -
  have len: "length (cmd_CommandID cmd) \<le> 255" "length (cmd_SKUID cmd) \<le> 64" "length (cmd_Actor cmd) \<le> 64"
    using assms(1) by (auto simp: Validate_def split: if_splits)
  have v: "length s \<le> k \<Longrightarrow> varchar k s" for s k using length_filter_chars [of s] by (simp add: varchar_def)
  have "varchar 32 ty" "varchar 32 ''admin''" using assms(3) by (auto simp: command_types_def movement_type_defs intro!: v)
  then show "movement_fits (command_movement cmd ty dh n now)"
    using assms(2) len by (simp add: movement_fits_def command_movement_def varchar_null_def v)
  show "ty \<in> set movement_types" using assms(3) by (auto simp: command_types_def movement_types_def)
  show "varchar 64 (cmd_SKUID cmd)" using len by (intro v)
qed

lemma Validate_stored:
  assumes "Validate cmd = None" "varchar_assign 64 (cmd_Reason cmd) = Some reason" "ty \<in> set command_types"
  shows "stored_movement (command_movement cmd ty dh n now) =
    Some (command_movement (cmd\<lparr>cmd_Reason := reason\<rparr>) ty dh n now)"
proof -
  have "varchar 32 ''admin''" "\<forall>ty \<in> set command_types. varchar 32 ty" by code_simp+
  with assms Validate_bounds [OF assms(1)] show ?thesis
    by (simp add: stored_movement_def command_movement_def varchar_assign_null_def)
qed

lemma has_command_movement: "has_command d c \<longleftrightarrow> select_movement c d \<noteq> None"
  by (auto simp: has_command_def select_movement_def find_None_iff)

lemma run_command_known:
  assumes w: "quiet w" and fits: "Validate cmd = None" "varchar_assign 64 (cmd_Reason cmd) \<noteq> None"
      "ty \<in> set command_types"
    and m: "select_movement (cmd_CommandID cmd) (w_db w) = Some m"
  shows "\<exists>w'. run_command cmd ty dh 0 change w =
      (if same_command cmd ty dh m then Inr False
       else Inl (errorf_w (''command '' @ cmd_CommandID cmd @ '': '') (Sentinel ErrCommandConflict)), w') \<and>
    quiet w' \<and> w_db w' = w_db w"
proof -
  obtain reason where r: "varchar_assign 64 (cmd_Reason cmd) = Some reason" using fits(2) by blast
  note v = Validate_stored [OF fits(1) r fits(3), of dh, unfolded command_movement_def]
  have ty: "ty \<in> set movement_types" using fits(3) by (auto simp: command_types_def movement_types_def)
  have known: "has_command (w_db w) (cmd_CommandID cmd)" using m by (simp add: has_command_movement)
  have q: "w_script w = []" "w_tx w = None" using w by (simp_all add: quiet_def)
  show ?thesis
    using m by (simp add: run_command_def claimCommand_def prog_defs q quiet_simps insert_movement_def v ty known tx_view_def
        same_command_def quiet_def)
qed

lemma claim_new:
  assumes fits: "Validate cmd = None" "varchar 64 (cmd_Reason cmd)" "ty \<in> set command_types"
    and u: "w_script u = []" "w_tx u = Some t" "\<not> tx_aborted t" "tx_writes t = []"
    and new: "\<not> has_command (w_db u) (cmd_CommandID cmd)" "has_warehouse (w_db u) (cmd_WarehouseID cmd)"
  shows "claimCommand cmd ty dh 0 u = (Inr True, u\<lparr>w_seq := w_seq u + 1,
    w_tx := Some (t\<lparr>tx_writes := [WMovement (command_movement cmd ty dh (w_seq u) (tx_now t))]\<rparr>),
    w_locked := w_locked u @ [LockCommand (cmd_CommandID cmd)]\<rparr>)"
proof -
  note v = Validate_fits(1) [OF fits, of dh "w_seq u" "tx_now t"] Validate_fits(2) [OF fits]
  show ?thesis
    using v u new
    by (simp add: claimCommand_def prog_defs quiet_simps insert_movement_def tx_view_def command_movement_def)
qed

lemma movement_view:
  "tx_writes t = [WMovement m] \<Longrightarrow> balances (tx_view d t) = balances d"
  "tx_writes t = [WMovement m] \<Longrightarrow> warehouses (tx_view d t) = warehouses d"
  by (simp_all add: tx_view_def table_simps)

text \<open>
  One statement on the balances after the claim: its SQLSTATE, no row, or its writes together with
  the movement.
\<close>

lemma run_command_new:
  fixes dh :: int and h :: "goerr \<Rightarrow> goerr" and k :: "nat \<Rightarrow> unit prog"
  assumes w: "quiet w" and fits: "Validate cmd = None" "varchar 64 (cmd_Reason cmd)" "ty \<in> set command_types"
    and new: "\<not> has_command (w_db w) (cmd_CommandID cmd)" "has_warehouse (w_db w) (cmd_WarehouseID cmd)"
    and f: "\<forall>d d'. balances d' = balances d \<longrightarrow> warehouses d' = warehouses d \<longrightarrow> f d' (w_now w) = f d (w_now w)"
  defines "run \<equiv> run_command cmd ty dh 0 (bindE (map_error h (tx_stmt f)) k) w"
  shows "f (w_db w) (w_now w) = Inl code \<Longrightarrow>
      \<exists>w'. run = (Inl (h (PgError code)), w') \<and> quiet w' \<and> w_db w' = w_db w"
    and "f (w_db w) (w_now w) = Inr (n, ws, ls) \<Longrightarrow> k n = fail e \<Longrightarrow>
      \<exists>w'. run = (Inl e, w') \<and> quiet w' \<and> w_db w' = w_db w"
    and "f (w_db w) (w_now w) = Inr (n, ws, ls) \<Longrightarrow> k n = return () \<Longrightarrow>
      \<exists>w'. run = (Inr True, w') \<and> quiet w' \<and>
        w_db w' = apply_writes (WMovement (command_movement cmd ty dh (w_seq w) (w_now w)) # ws) (w_db w)"
proof -
  have q: "w_script w = []" "w_tx w = None" using w by (simp_all add: quiet_def)
  let ?t = "\<lparr>tx_now = w_now w, tx_writes = [], tx_locks = [], tx_aborted = False\<rparr>"
  let ?m = "WMovement (command_movement cmd ty dh (w_seq w) (w_now w))"
  have claim: "claimCommand cmd ty dh 0 (w\<lparr>w_tx := Some ?t\<rparr>) =
      (Inr True, w\<lparr>w_tx := Some (?t\<lparr>tx_writes := [?m]\<rparr>), w_seq := w_seq w + 1,
        w_locked := w_locked w @ [LockCommand (cmd_CommandID cmd)]\<rparr>)"
    using claim_new [OF fits, of "w\<lparr>w_tx := Some ?t\<rparr>" ?t dh] q new by simp
  have view: "f (tx_view (w_db w) (?t\<lparr>tx_writes := [?m]\<rparr>)) (w_now w) = f (w_db w) (w_now w)"
    by (rule f [rule_format]) (simp_all add: movement_view)
  note defs = run_def run_command_def bindE_def map_error_def defer_rollback_def quiet_simps tx_rollback_def abort_tx_def
    quiet_def return_def fail_def
  show "\<exists>w'. run = (Inl (h (PgError code)), w') \<and> quiet w' \<and> w_db w' = w_db w"
    if "f (w_db w) (w_now w) = Inl code"
    using q claim view that by (simp add: defs)
  show "\<exists>w'. run = (Inl e, w') \<and> quiet w' \<and> w_db w' = w_db w"
    if "f (w_db w) (w_now w) = Inr (n, ws, ls)" "k n = fail e"
    using q claim view that by (simp add: defs)
  show "\<exists>w'. run = (Inr True, w') \<and> quiet w' \<and> w_db w' = apply_writes (?m # ws) (w_db w)"
    if "f (w_db w) (w_now w) = Inr (n, ws, ls)" "k n = return ()"
    using q claim view that by (simp add: defs) (simp add: tx_view_def)
qed


section \<open>The commands\<close>

abbreviation command_key :: "StockCommand \<Rightarrow> balance_key" where
  "command_key cmd \<equiv> (cmd_SKUID cmd, cmd_WarehouseID cmd)"

lemma stored_quantities:
  assumes "apply_writes (WMovement m # [WBalance k r]) d = d'"
  shows "on_hand_of d' j = (if j = k then on_hand r else on_hand_of d j)"
    "reserved_of d' j = (if j = k then reserved r else reserved_of d j)"
    "map_of (balances d') k = Some r" "movements d' = movements d @ [m]"
  using assms by (auto simp: on_hand_of_def reserved_of_def table_simps AList.update_conv')

text \<open>What a new command still needs of the state besides the row it changes.\<close>

definition new_command :: "StockCommand \<Rightarrow> db \<Rightarrow> bool" where
  "new_command cmd d \<longleftrightarrow>
     Validate cmd = None \<and> varchar 64 (cmd_Reason cmd) \<and> \<not> has_command d (cmd_CommandID cmd) \<and>
     has_warehouse d (cmd_WarehouseID cmd) \<and>
     (\<forall>r. map_of (balances d) (command_key cmd) = Some r \<longrightarrow>
        int64_range (on_hand r + cmd_Quantity cmd) \<and> int64_range (version r + 1))"

lemma AdjustOnHand_new:
  assumes w: "quiet w" and d: "db_inv (w_db w)" and new: "new_command cmd (w_db w)" and q: "cmd_Quantity cmd \<noteq> 0"
  shows "\<exists>x w'. AdjustOnHand cmd w = (x, w') \<and> quiet w' \<and>
    (case map_of (balances (w_db w)) (command_key cmd) of
       None \<Rightarrow> w_db w' = w_db w \<and> (\<exists>e. x = Inl e \<and> errors_Is e ErrBalanceNotFound)
     | Some r \<Rightarrow>
         (if on_hand r + cmd_Quantity cmd < reserved r
          then w_db w' = w_db w \<and> (\<exists>e. x = Inl e \<and> errors_Is e ErrInsufficientOnHand)
          else x = Inr True \<and>
            w_db w' = apply_writes
              [WMovement (command_movement cmd MovementAdjust (cmd_Quantity cmd) (w_seq w) (w_now w)),
               WBalance (command_key cmd) (add_on_hand (cmd_Quantity cmd) (w_now w) r)] (w_db w)))"
proof -
  let ?f = "\<lambda>d now. update_balance (add_on_hand (cmd_Quantity cmd) now) (command_key cmd) d"
  let ?h = "\<lambda>err. errorf_w ''adjust on_hand: '' (checkViolation err)"
  let ?k = "\<lambda>rows :: nat. if rows = 0 then fail (not_found_error ''adjust on_hand'' cmd) else return ()"
  have fits: "Validate cmd = None" "varchar 64 (cmd_Reason cmd)" "MovementAdjust \<in> set command_types"
    "\<not> has_command (w_db w) (cmd_CommandID cmd)" "has_warehouse (w_db w) (cmd_WarehouseID cmd)"
    using new by (simp_all add: new_command_def command_types_def)
  have same: "\<forall>d d'. balances d' = balances d \<longrightarrow> warehouses d' = warehouses d \<longrightarrow> ?f d' (w_now w) = ?f d (w_now w)"
    by (simp add: update_balance_def)
  note cases = run_command_new [where f = ?f and h = ?h and k = ?k and dh = "cmd_Quantity cmd", OF w fits same]
  have run: "AdjustOnHand cmd w = run_command cmd MovementAdjust (cmd_Quantity cmd) 0 (bindE (map_error ?h (tx_stmt ?f)) ?k) w"
    using fits(1) q by (simp add: AdjustOnHand_def adjust_change_def)
  show ?thesis
  proof (cases "map_of (balances (w_db w)) (command_key cmd)")
    case None
    then have "?f (w_db w) (w_now w) = Inr (0, [], [])" by (simp add: update_balance_def)
    from cases(2) [OF this, where e = "not_found_error ''adjust on_hand'' cmd"] None run show ?thesis
      by (auto simp: not_found_error_def)
  next
    case (Some r)
    note ok = balances_okD [OF db_invD(1) [OF d] Some]
    let ?r = "add_on_hand (cmd_Quantity cmd) (w_now w) r"
    have range: "balance_range ?r" using ok new Some by (simp add: balance_range_def add_on_hand_def new_command_def)
    show ?thesis
    proof (cases "on_hand r + cmd_Quantity cmd < reserved r")
      case True
      then have "?f (w_db w) (w_now w) = Inl ''23514''"
        using Some range ok by (auto simp: update_balance_def store_balance_def balance_check_def add_on_hand_def)
      from cases(1) [OF this] True Some run show ?thesis by (auto simp: checkViolation_def)
    next
      case False
      then have "?f (w_db w) (w_now w) = Inr (1, [WBalance (command_key cmd) ?r], [])"
        using Some range ok by (auto simp: update_balance_def store_balance_def balance_check_def add_on_hand_def)
      from cases(3) [OF this] False Some run show ?thesis by auto
    qed
  qed
qed


lemma ReceiveStock_new:
  assumes w: "quiet w" and d: "db_inv (w_db w)" and new: "new_command cmd (w_db w)"
    and q: "0 < cmd_Quantity cmd" "int64_range (cmd_Quantity cmd)"
  shows "\<exists>w' r. ReceiveStock cmd w = (Inr True, w') \<and> quiet w' \<and>
    on_hand r = on_hand_of (w_db w) (command_key cmd) + cmd_Quantity cmd \<and>
    reserved r = reserved_of (w_db w) (command_key cmd) \<and>
    w_db w' = apply_writes
      [WMovement (command_movement cmd MovementReceive (cmd_Quantity cmd) (w_seq w) (w_now w)),
       WBalance (command_key cmd) r] (w_db w)"
proof -
  let ?f = "upsert_on_hand (cmd_SKUID cmd) (cmd_WarehouseID cmd) (cmd_Quantity cmd)"
  let ?k = "\<lambda>rows :: nat. return ()"
  have fits: "Validate cmd = None" "varchar 64 (cmd_Reason cmd)" "MovementReceive \<in> set command_types"
    "\<not> has_command (w_db w) (cmd_CommandID cmd)" "has_warehouse (w_db w) (cmd_WarehouseID cmd)"
    using new by (simp_all add: new_command_def command_types_def)
  have same: "\<forall>d d'. balances d' = balances d \<longrightarrow> warehouses d' = warehouses d \<longrightarrow> ?f d' (w_now w) = ?f d (w_now w)"
    by (intro allI impI) (simp only: upsert_on_hand_def has_warehouse_def)
  note cases = run_command_new [where f = ?f and h = "errorf_w ''receive stock: ''" and k = ?k and dh = "cmd_Quantity cmd",
      OF w fits same]
  have run: "ReceiveStock cmd w = run_command cmd MovementReceive (cmd_Quantity cmd) 0
      (bindE (map_error (errorf_w ''receive stock: '') (tx_stmt ?f)) ?k) w"
    using fits(1) q by (simp add: ReceiveStock_def receive_change_def)
  note sku = Validate_fits(3) [OF fits(1-3)]
  have "\<exists>r. ?f (w_db w) (w_now w) = Inr (1, [WBalance (command_key cmd) r], []) \<and>
    on_hand r = on_hand_of (w_db w) (command_key cmd) + cmd_Quantity cmd \<and>
    reserved r = reserved_of (w_db w) (command_key cmd)"
  proof (cases "map_of (balances (w_db w)) (command_key cmd)")
    case None
    then show ?thesis using sku q fits(5)
      by (auto simp: upsert_on_hand_def store_balance_def balance_range_def balance_check_def on_hand_of_def reserved_of_def
          int64_range_def)
  next
    case (Some r)
    note ok = balances_okD [OF db_invD(1) [OF d] Some]
    with Some new q sku show ?thesis
      by (auto simp: upsert_on_hand_def store_balance_def balance_range_def balance_check_def on_hand_of_def
          reserved_of_def new_command_def)
  qed
  with cases(3) [of 1] run show ?thesis by fastforce
qed

lemma SetSafetyStock_new:
  assumes w: "quiet w" and d: "db_inv (w_db w)" and new: "new_command cmd (w_db w)"
    and q: "0 \<le> cmd_Quantity cmd" "int64_range (cmd_Quantity cmd)"
    and row: "map_of (balances (w_db w)) (command_key cmd) = Some r"
  shows "\<exists>w'. SetSafetyStock cmd w = (Inr True, w') \<and> quiet w' \<and>
    w_db w' = apply_writes
      [WMovement (command_movement cmd MovementSetSafetyStock 0 (w_seq w) (w_now w)),
       WBalance (command_key cmd) (put_safety_stock (cmd_Quantity cmd) (w_now w) r)] (w_db w)"
proof -
  let ?f = "\<lambda>d now. update_balance (put_safety_stock (cmd_Quantity cmd) now) (command_key cmd) d"
  let ?k = "\<lambda>rows :: nat. if rows = 0 then fail (not_found_error ''set safety stock'' cmd) else return ()"
  have fits: "Validate cmd = None" "varchar 64 (cmd_Reason cmd)" "MovementSetSafetyStock \<in> set command_types"
    "\<not> has_command (w_db w) (cmd_CommandID cmd)" "has_warehouse (w_db w) (cmd_WarehouseID cmd)"
    using new by (simp_all add: new_command_def command_types_def)
  have same: "\<forall>d d'. balances d' = balances d \<longrightarrow> warehouses d' = warehouses d \<longrightarrow> ?f d' (w_now w) = ?f d (w_now w)"
    by (simp add: update_balance_def)
  note cases = run_command_new [where f = ?f and h = "errorf_w ''set safety stock: ''" and k = ?k and dh = 0, OF w fits same]
  have run: "SetSafetyStock cmd w = run_command cmd MovementSetSafetyStock 0 0
      (bindE (map_error (errorf_w ''set safety stock: '') (tx_stmt ?f)) ?k) w"
    using fits(1) q by (simp add: SetSafetyStock_def safety_change_def)
  note ok = balances_okD [OF db_invD(1) [OF d] row]
  have "?f (w_db w) (w_now w) =
      Inr (1, [WBalance (command_key cmd) (put_safety_stock (cmd_Quantity cmd) (w_now w) r)], [])"
    using ok row new q
    by (auto simp: update_balance_def store_balance_def balance_range_def balance_check_def put_safety_stock_def new_command_def)
  from cases(3) [OF this] run show ?thesis by auto
qed


lemma select_appended:
  assumes "\<not> has_command d (mv_command_id m)"
  shows "select_movement (mv_command_id m) (apply_writes (WMovement m # [WBalance k r]) d) = Some m"
proof -
  have "find (\<lambda>n. mv_command_id n = mv_command_id m) (ms @ [m]) = Some m"
    if "mv_command_id m \<notin> mv_command_id ` set ms" for ms
    using that by (induction ms) auto
  with assms show ?thesis by (simp add: select_movement_def table_simps has_command_def)
qed

text \<open>What a known command answers: nothing changes, and the recorded movement decides.\<close>

definition retry_answer :: "StockCommand \<Rightarrow> string \<Rightarrow> int \<Rightarrow> movement_row \<Rightarrow> world \<Rightarrow> (goerr + bool) \<times> world \<Rightarrow> bool" where
  "retry_answer cmd ty dh m w out \<longleftrightarrow>
     w_db (snd out) = w_db w \<and>
     (if same_command cmd ty dh m then fst out = Inr False
      else \<exists>e. fst out = Inl e \<and> errors_Is e ErrCommandConflict)"

lemma commands_known:
  assumes "quiet w" "Validate cmd = None" "varchar_assign 64 (cmd_Reason cmd) \<noteq> None"
    and "select_movement (cmd_CommandID cmd) (w_db w) = Some m"
  shows "0 < cmd_Quantity cmd \<Longrightarrow> retry_answer cmd MovementReceive (cmd_Quantity cmd) m w (ReceiveStock cmd w)"
    and "cmd_Quantity cmd \<noteq> 0 \<Longrightarrow> retry_answer cmd MovementAdjust (cmd_Quantity cmd) m w (AdjustOnHand cmd w)"
    and "0 \<le> cmd_Quantity cmd \<Longrightarrow> retry_answer cmd MovementSetSafetyStock 0 m w (SetSafetyStock cmd w)"
proof -
  have known: "retry_answer cmd ty dh m w (run_command cmd ty dh 0 change w)" if ty: "ty \<in> set command_types" for ty dh change
    using run_command_known [OF assms(1-3) ty assms(4), of dh change] by (auto simp: retry_answer_def)
  show "0 < cmd_Quantity cmd \<Longrightarrow> retry_answer cmd MovementReceive (cmd_Quantity cmd) m w (ReceiveStock cmd w)"
    "cmd_Quantity cmd \<noteq> 0 \<Longrightarrow> retry_answer cmd MovementAdjust (cmd_Quantity cmd) m w (AdjustOnHand cmd w)"
    "0 \<le> cmd_Quantity cmd \<Longrightarrow> retry_answer cmd MovementSetSafetyStock 0 m w (SetSafetyStock cmd w)"
    using known by (simp_all add: ReceiveStock_def AdjustOnHand_def SetSafetyStock_def assms(2) command_types_def)
qed

end
