(* ===== verification/Stock_Properties.thy ===== *)
theory Stock_Properties
  imports Quiet_Commands Sample_Runs
begin

text \<open>The properties of the admin stock commands that run alone.\<close>

text \<open>
  C27. Stock commands are applied at most once. When the ledger already has a movement under the
  command id, every command with valid arguments, a receipt of a positive quantity, an adjustment by any
  non-zero delta or a safety stock of at least 0, changes nothing: it answers that it was not applied if
  the movement has the same SKU, warehouse, type, delta, actor and reason, and the command conflict
  otherwise. The reason is one its column accepts.
\<close>

theorem stock_command_retry:
  assumes "quiet w" and "Validate cmd = None" and "varchar_assign 64 (cmd_Reason cmd) \<noteq> None"
    and "select_movement (cmd_CommandID cmd) (w_db w) = Some m"
  shows "(0 < cmd_Quantity cmd \<longrightarrow> retry_answer cmd MovementReceive (cmd_Quantity cmd) m w (ReceiveStock cmd w)) \<and>
    (cmd_Quantity cmd \<noteq> 0 \<longrightarrow> retry_answer cmd MovementAdjust (cmd_Quantity cmd) m w (AdjustOnHand cmd w)) \<and>
    (0 \<le> cmd_Quantity cmd \<longrightarrow> retry_answer cmd MovementSetSafetyStock 0 m w (SetSafetyStock cmd w))"
  using commands_known [OF assms] by blast

text \<open>
  A second receipt under the first one's id, with the same content and with another quantity; a second
  adjustment by -4; a second safety stock of 0.
\<close>

definition sample_correction :: StockCommand where
  "sample_correction = sample_receipt\<lparr>cmd_CommandID := ''c2'', cmd_Quantity := -4\<rparr>"

definition sample_no_buffer :: StockCommand where
  "sample_no_buffer = sample_receipt\<lparr>cmd_CommandID := ''c3'', cmd_Quantity := 0\<rparr>"

definition agrees :: "StockCommand \<Rightarrow> string \<Rightarrow> int \<Rightarrow> world \<Rightarrow> bool option" where
  "agrees cmd ty dh w = map_option (same_command cmd ty dh) (select_movement (cmd_CommandID cmd) (w_db w))"

lemma sample_commands_valid:
  "Validate sample_receipt = None" "Validate sample_correction = None" "Validate sample_no_buffer = None"
  "Validate (sample_receipt\<lparr>cmd_Quantity := 11\<rparr>) = None" "varchar_assign 64 (cmd_Reason sample_receipt) \<noteq> None"
  "varchar_assign 64 (cmd_Reason sample_correction) \<noteq> None" "varchar_assign 64 (cmd_Reason sample_no_buffer) \<noteq> None"
  "varchar_assign 64 (cmd_Reason (sample_receipt\<lparr>cmd_Quantity := 11\<rparr>)) \<noteq> None"
  by code_simp+

theorem stock_command_retry_witness:
  "fst (ReceiveStock sample_receipt sample_stocked) = Inr False \<and>
   w_db (snd (ReceiveStock sample_receipt sample_stocked)) = w_db sample_stocked \<and>
   (\<exists>e. fst (ReceiveStock (sample_receipt\<lparr>cmd_Quantity := 11\<rparr>) sample_stocked) = Inl e \<and>
      errors_Is e ErrCommandConflict) \<and>
   (let w = snd (AdjustOnHand sample_correction sample_stocked)
    in w_db w \<noteq> w_db sample_stocked \<and> fst (AdjustOnHand sample_correction w) = Inr False \<and>
       w_db (snd (AdjustOnHand sample_correction w)) = w_db w) \<and>
   (let w = snd (SetSafetyStock sample_no_buffer sample_stocked)
    in fst (SetSafetyStock sample_no_buffer w) = Inr False \<and> w_db (snd (SetSafetyStock sample_no_buffer w)) = w_db w)"
proof -
  let ?a = "snd (AdjustOnHand sample_correction sample_stocked)"
  let ?s = "snd (SetSafetyStock sample_no_buffer sample_stocked)"
  let ?c = "sample_receipt\<lparr>cmd_Quantity := 11\<rparr>"
  have eval: "agrees sample_receipt MovementReceive 10 sample_stocked = Some True"
    "agrees ?c MovementReceive 11 sample_stocked = Some False"
    "agrees sample_correction MovementAdjust (-4) ?a = Some True" "agrees sample_no_buffer MovementSetSafetyStock 0 ?s = Some True"
    by code_simp+
  have quiet: "quiet ?a" "quiet ?s" unfolding quiet_def option.case_eq_if by code_simp+
  have differs: "w_db ?a \<noteq> w_db sample_stocked"
  proof -
    have "length (movements (w_db ?a)) = 2 \<and> length (movements (w_db sample_stocked)) = 1" by code_simp
    then show ?thesis by auto
  qed
  have q: "cmd_Quantity sample_receipt = 10" "cmd_Quantity ?c = 11" "cmd_Quantity sample_correction = -4"
    "cmd_Quantity sample_no_buffer = 0" by (simp_all add: sample_receipt_def sample_correction_def sample_no_buffer_def)
  have known: "select_movement (cmd_CommandID cmd) (w_db w) = Some (the (select_movement (cmd_CommandID cmd) (w_db w))) \<and>
      same_command cmd ty dh (the (select_movement (cmd_CommandID cmd) (w_db w))) = b"
    if "agrees cmd ty dh w = Some b" for cmd ty dh w b
    using that by (auto simp: agrees_def)
  note k = eval [THEN known]
  show ?thesis
    using stock_command_retry [OF quiet_samples(2) sample_commands_valid(1,5) conjunct1 [OF k(1)]]
      stock_command_retry [OF quiet_samples(2) sample_commands_valid(4,8) conjunct1 [OF k(2)]]
      stock_command_retry [OF quiet(1) sample_commands_valid(2,6) conjunct1 [OF k(3)]]
      stock_command_retry [OF quiet(2) sample_commands_valid(3,7) conjunct1 [OF k(4)]] k differs
    by (simp add: retry_answer_def q Let_def)
qed

text \<open>
  A weakness that follows from the reason's column. \<open>Validate\<close> leaves the reason unbounded, and 64
  characters and a blank are stored without the blank; the same command sent again then differs from its own
  row, so it is answered with the command conflict instead of the replay.
\<close>

definition sample_long_reason :: StockCommand where
  "sample_long_reason = sample_receipt\<lparr>cmd_Reason := replicate 64 (CHR ''x'') @ '' ''\<rparr>"

lemma blank_reason_conflicts:
  "fst (ReceiveStock sample_long_reason sample_start) = Inr True"
  "\<exists>e. fst (ReceiveStock sample_long_reason (snd (ReceiveStock sample_long_reason sample_start))) = Inl e \<and>
     errors_Is e ErrCommandConflict"
proof -
  show "fst (ReceiveStock sample_long_reason sample_start) = Inr True" by code_simp
  have "case fst (ReceiveStock sample_long_reason (snd (ReceiveStock sample_long_reason sample_start))) of
      Inr b \<Rightarrow> False | Inl e \<Rightarrow> errors_Is e ErrCommandConflict" by code_simp
  then show "\<exists>e. fst (ReceiveStock sample_long_reason (snd (ReceiveStock sample_long_reason sample_start))) = Inl e \<and>
      errors_Is e ErrCommandConflict" by (auto split: sum.splits)
qed

text \<open>
  C28. Adjusting stock, on every branch. A new adjustment of a pair that no one has stocked fails with
  \<open>ErrBalanceNotFound\<close>; one that would leave less on hand than is reserved fails with
  \<open>ErrInsufficientOnHand\<close>; both change nothing. Any other is applied: exactly this balance's quantity
  on hand changes, by exactly the delta, no reserved quantity does, and the ledger grows by one row.
\<close>

theorem AdjustOnHand_cases:
  assumes "quiet w" and "db_inv (w_db w)" and "new_command cmd (w_db w)" and "cmd_Quantity cmd \<noteq> 0"
  shows "\<exists>x w'. AdjustOnHand cmd w = (x, w') \<and>
    (if map_of (balances (w_db w)) (command_key cmd) = None
     then w_db w' = w_db w \<and> (\<exists>e. x = Inl e \<and> errors_Is e ErrBalanceNotFound)
     else if on_hand_of (w_db w) (command_key cmd) + cmd_Quantity cmd < reserved_of (w_db w) (command_key cmd)
     then w_db w' = w_db w \<and> (\<exists>e. x = Inl e \<and> errors_Is e ErrInsufficientOnHand)
     else x = Inr True \<and>
       (\<forall>k. on_hand_of (w_db w') k = on_hand_of (w_db w) k + (if k = command_key cmd then cmd_Quantity cmd else 0) \<and>
          reserved_of (w_db w') k = reserved_of (w_db w) k) \<and>
       (\<exists>m. movements (w_db w') = movements (w_db w) @ [m] \<and> records True cmd MovementAdjust (cmd_Quantity cmd) m))"
proof -
  from AdjustOnHand_new [OF assms] obtain x w' where run: "AdjustOnHand cmd w = (x, w')"
    and res: "case map_of (balances (w_db w)) (command_key cmd) of
       None \<Rightarrow> w_db w' = w_db w \<and> (\<exists>e. x = Inl e \<and> errors_Is e ErrBalanceNotFound)
     | Some r \<Rightarrow>
         (if on_hand r + cmd_Quantity cmd < reserved r
          then w_db w' = w_db w \<and> (\<exists>e. x = Inl e \<and> errors_Is e ErrInsufficientOnHand)
          else x = Inr True \<and>
            w_db w' = apply_writes
              [WMovement (command_movement cmd MovementAdjust (cmd_Quantity cmd) (w_seq w) (w_now w)),
               WBalance (command_key cmd) (add_on_hand (cmd_Quantity cmd) (w_now w) r)] (w_db w))" by blast
  have reason: "varchar 64 (cmd_Reason cmd)" using assms(3) by (simp add: new_command_def)
  have rec: "records True cmd MovementAdjust (cmd_Quantity cmd)
      (command_movement cmd MovementAdjust (cmd_Quantity cmd) n now)" for n now
    by (simp add: records_def command_movement_def coalesce_def ledger_reason_fits reason)
  show ?thesis
  proof (cases "map_of (balances (w_db w)) (command_key cmd)")
    case None
    with run res show ?thesis by auto
  next
    case (Some r)
    then have bal: "on_hand_of (w_db w) (command_key cmd) = on_hand r" "reserved_of (w_db w) (command_key cmd) = reserved r"
      by (simp_all add: on_hand_of_def reserved_of_def)
    show ?thesis
    proof (cases "on_hand r + cmd_Quantity cmd < reserved r")
      case True
      with run res Some bal show ?thesis by auto
    next
      case False
      with res Some have x: "x = Inr True" and "apply_writes
          [WMovement (command_movement cmd MovementAdjust (cmd_Quantity cmd) (w_seq w) (w_now w)),
           WBalance (command_key cmd) (add_on_hand (cmd_Quantity cmd) (w_now w) r)] (w_db w) = w_db w'" by simp_all
      from stored_quantities [OF this(2)] x False bal Some rec run show ?thesis
        by (auto simp: add_on_hand_def)
    qed
  qed
qed

theorem AdjustOnHand_cases_witness:
  "\<exists>w'. AdjustOnHand (sample_receipt\<lparr>cmd_CommandID := ''c2'', cmd_Quantity := -4\<rparr>) sample_stocked = (Inr True, w') \<and>
     on_hand_of (w_db w') (''A'', 1) = 6"
proof -
  have new: "new_command (sample_receipt\<lparr>cmd_CommandID := ''c2'', cmd_Quantity := -4\<rparr>) (w_db sample_stocked)"
  proof -
    have "list_all (\<lambda>kr. int64_range (on_hand (snd kr) - 4) \<and> int64_range (version (snd kr) + 1)) (balances (w_db sample_stocked)) \<and>
        \<not> has_command (w_db sample_stocked) ''c2'' \<and> has_warehouse (w_db sample_stocked) 1" by code_simp
    then show ?thesis
      by (auto simp: new_command_def sample_receipt_def Validate_def varchar_def char_length_def list_all_iff
          dest!: map_of_SomeD)
  qed
  have stock: "reserved_of (w_db sample_stocked) (''A'', 1) = 0 \<and>
      map_of (balances (w_db sample_stocked)) (''A'', 1) \<noteq> None" by code_simp
  have key: "command_key (sample_receipt\<lparr>cmd_CommandID := ''c2'', cmd_Quantity := -4\<rparr>) = (''A'', 1)"
    "cmd_Quantity (sample_receipt\<lparr>cmd_CommandID := ''c2'', cmd_Quantity := -4\<rparr>) = -4"
    by (simp_all add: sample_receipt_def)
  from AdjustOnHand_cases [OF quiet_samples(2) reachable_inv [OF sample_reachable(2)] new] stock sample_stocked_run(3)
  show ?thesis unfolding key by auto
qed

text \<open>
  Receiving stock under a new command id always succeeds in a quiet world, whether or not the
  warehouse held the SKU before: exactly this balance's quantity on hand grows by the received
  quantity, no reserved quantity changes, and the ledger grows by the receipt.
\<close>

theorem ReceiveStock_adds:
  assumes "quiet w" and "db_inv (w_db w)" and "new_command cmd (w_db w)"
    and "0 < cmd_Quantity cmd" and "int64_range (cmd_Quantity cmd)"
  shows "\<exists>w'. ReceiveStock cmd w = (Inr True, w') \<and>
    (\<forall>k. on_hand_of (w_db w') k = on_hand_of (w_db w) k + (if k = command_key cmd then cmd_Quantity cmd else 0) \<and>
       reserved_of (w_db w') k = reserved_of (w_db w) k) \<and>
    (\<exists>m. movements (w_db w') = movements (w_db w) @ [m] \<and> records True cmd MovementReceive (cmd_Quantity cmd) m)"
proof -
  from ReceiveStock_new [OF assms] obtain w' r where run: "ReceiveStock cmd w = (Inr True, w')"
    and r: "on_hand r = on_hand_of (w_db w) (command_key cmd) + cmd_Quantity cmd"
      "reserved r = reserved_of (w_db w) (command_key cmd)"
    and db: "apply_writes [WMovement (command_movement cmd MovementReceive (cmd_Quantity cmd) (w_seq w) (w_now w)),
       WBalance (command_key cmd) r] (w_db w) = w_db w'" by metis
  have reason: "varchar 64 (cmd_Reason cmd)" using assms(3) by (simp add: new_command_def)
  have "records True cmd MovementReceive (cmd_Quantity cmd)
      (command_movement cmd MovementReceive (cmd_Quantity cmd) (w_seq w) (w_now w))"
    by (simp add: records_def command_movement_def coalesce_def ledger_reason_fits reason)
  with stored_quantities [OF db] run r show ?thesis by auto
qed

theorem ReceiveStock_adds_witness:
  "\<exists>w'. ReceiveStock sample_receipt sample_start = (Inr True, w') \<and> on_hand_of (w_db w') (''A'', 1) = 10"
proof -
  have new: "new_command sample_receipt (w_db sample_start)"
    by (simp add: new_command_def sample_receipt_def sample_start_def migrated_def Validate_def varchar_def char_length_def
        has_command_def has_warehouse_def)
  have q: "0 < cmd_Quantity sample_receipt" "int64_range (cmd_Quantity sample_receipt)"
    by (simp_all add: sample_receipt_def int64_range_def)
  have start: "on_hand_of (w_db sample_start) (''A'', 1) = 0" by (simp add: sample_start_def migrated_def on_hand_of_def)
  from ReceiveStock_adds [OF quiet_samples(1) reachable_inv [OF sample_reachable(1)] new q] start
  show ?thesis by (auto simp: sample_receipt_def)
qed

text \<open>
  C29. A weakness of the safety-stock command. Its movement row has no delta and the level is stored
  nowhere else, so a replay cannot be told from a reuse: after a first \<open>SetSafetyStock\<close>, a second one
  under the same command id with any other quantity is answered as an idempotent replay instead of the
  command conflict, and the level stays at the first quantity.
\<close>

theorem SetSafetyStock_divergent_replay:
  assumes "quiet w" and "db_inv (w_db w)" and "new_command cmd (w_db w)"
    and "0 \<le> cmd_Quantity cmd" and "int64_range (cmd_Quantity cmd)"
    and "map_of (balances (w_db w)) (command_key cmd) = Some r" and "0 \<le> q"
  shows "\<exists>w1 w2 r'. SetSafetyStock cmd w = (Inr True, w1) \<and>
    SetSafetyStock (cmd\<lparr>cmd_Quantity := q\<rparr>) w1 = (Inr False, w2) \<and> w_db w2 = w_db w1 \<and>
    map_of (balances (w_db w2)) (command_key cmd) = Some r' \<and> safety_stock r' = cmd_Quantity cmd"
proof -
  let ?m = "command_movement cmd MovementSetSafetyStock 0 (w_seq w) (w_now w)"
  from SetSafetyStock_new [OF assms(1-6)] obtain w1 where run: "SetSafetyStock cmd w = (Inr True, w1)" "quiet w1"
    and db: "apply_writes [WMovement ?m, WBalance (command_key cmd) (put_safety_stock (cmd_Quantity cmd) (w_now w) r)]
      (w_db w) = w_db w1" by metis
  have cmd': "Validate (cmd\<lparr>cmd_Quantity := q\<rparr>) = None" "varchar_assign 64 (cmd_Reason (cmd\<lparr>cmd_Quantity := q\<rparr>)) \<noteq> None"
    using assms(3) by (simp_all add: new_command_def Validate_def split: if_splits)
  have id: "mv_command_id ?m = cmd_CommandID cmd" by (simp add: command_movement_def)
  have "select_movement (cmd_CommandID cmd) (w_db w1) = Some ?m"
    using select_appended [of "w_db w" ?m "command_key cmd" "put_safety_stock (cmd_Quantity cmd) (w_now w) r"] assms(3)
    unfolding db id by (simp add: new_command_def)
  then have "retry_answer (cmd\<lparr>cmd_Quantity := q\<rparr>) MovementSetSafetyStock 0 ?m w1 (SetSafetyStock (cmd\<lparr>cmd_Quantity := q\<rparr>) w1)"
    using commands_known(3) [OF run(2) cmd'] assms(7) by simp
  moreover have "same_command (cmd\<lparr>cmd_Quantity := q\<rparr>) MovementSetSafetyStock 0 ?m"
    by (simp add: same_command_def command_movement_def coalesce_def)
  ultimately obtain w2 where w2: "SetSafetyStock (cmd\<lparr>cmd_Quantity := q\<rparr>) w1 = (Inr False, w2)" "w_db w2 = w_db w1"
    unfolding retry_answer_def by (metis prod.collapse)
  have "safety_stock (put_safety_stock (cmd_Quantity cmd) (w_now w) r) = cmd_Quantity cmd" by (simp add: put_safety_stock_def)
  with run(1) w2 stored_quantities(3) [OF db] show ?thesis by auto
qed


theorem SetSafetyStock_divergent_replay_witness:
  "\<exists>w1 w2 r'. SetSafetyStock (sample_receipt\<lparr>cmd_CommandID := ''c3'', cmd_Quantity := 2\<rparr>) sample_stocked = (Inr True, w1) \<and>
     SetSafetyStock (sample_receipt\<lparr>cmd_CommandID := ''c3'', cmd_Quantity := 9\<rparr>) w1 = (Inr False, w2) \<and>
     map_of (balances (w_db w2)) (''A'', 1) = Some r' \<and> safety_stock r' = 2"
proof -
  let ?cmd = "sample_receipt\<lparr>cmd_CommandID := ''c3'', cmd_Quantity := 2\<rparr>"
  have "list_all (\<lambda>kr. int64_range (on_hand (snd kr) + 2) \<and> int64_range (version (snd kr) + 1)) (balances (w_db sample_stocked)) \<and>
      \<not> has_command (w_db sample_stocked) ''c3'' \<and> has_warehouse (w_db sample_stocked) 1" by code_simp
  then have new: "new_command ?cmd (w_db sample_stocked)"
    by (auto simp: new_command_def sample_receipt_def Validate_def varchar_def char_length_def list_all_iff
        dest!: map_of_SomeD)
  have "map_of (balances (w_db sample_stocked)) (''A'', 1) \<noteq> None" by code_simp
  then obtain r where r: "map_of (balances (w_db sample_stocked)) (command_key ?cmd) = Some r"
    by (auto simp: sample_receipt_def)
  have q: "0 \<le> cmd_Quantity ?cmd" "int64_range (cmd_Quantity ?cmd)" "(0 :: int) \<le> 9" by (simp_all add: int64_range_def)
  from SetSafetyStock_divergent_replay [OF quiet_samples(2) reachable_inv [OF sample_reachable(2)] new q(1,2) r q(3)]
  show ?thesis by (auto simp: sample_receipt_def)
qed

end
