(* ===== verification/Go_Strings.thy ===== *)
theory Go_Strings
  imports Go_Values
begin

text \<open>
  \<open>strings.ToLower\<close> and \<open>strings.EqualFold\<close> as the configuration uses them, to compare with ASCII words.
  Apart from the ASCII letters, exactly the code points that lower or fold to an ASCII letter matter:
  U+0130 lowers to \<open>i\<close>, U+212A to \<open>k\<close>; U+017F folds with \<open>s\<close> and U+212A with \<open>k\<close>. Every other code point
  is left as it is, which no comparison with an ASCII word can observe.
\<close>

definition lower_char :: "char \<Rightarrow> char" where
  "lower_char c =
     (let n = of_char c :: nat in if 65 \<le> n \<and> n \<le> 90 then char_of (n + 32) else c)"

fun strings_ToLower :: "string \<Rightarrow> string" where
  "strings_ToLower [] = []"
| "strings_ToLower (c # s) =
     (if c = CHR 0xC4 \<and> s \<noteq> [] \<and> hd s = CHR 0xB0 then CHR ''i'' # strings_ToLower (tl s)
      else if c = CHR 0xE2 \<and> length s \<ge> 2 \<and> take 2 s = [CHR 0x84, CHR 0xAA] then
        CHR ''k'' # strings_ToLower (drop 2 s)
      else lower_char c # strings_ToLower s)"

fun fold_case :: "string \<Rightarrow> string" where
  "fold_case [] = []"
| "fold_case (c # s) =
     (if c = CHR 0xC5 \<and> s \<noteq> [] \<and> hd s = CHR 0xBF then CHR ''s'' # fold_case (tl s)
      else if c = CHR 0xE2 \<and> length s \<ge> 2 \<and> take 2 s = [CHR 0x84, CHR 0xAA] then
        CHR ''k'' # fold_case (drop 2 s)
      else lower_char c # fold_case s)"

definition strings_EqualFold :: "string \<Rightarrow> string \<Rightarrow> bool" where
  "strings_EqualFold s t \<longleftrightarrow> fold_case s = fold_case t"

fun strings_Join :: "string list \<Rightarrow> string \<Rightarrow> string" where
  "strings_Join [] sep = ''''"
| "strings_Join [s] sep = s"
| "strings_Join (s # t # ss) sep = s @ sep @ strings_Join (t # ss) sep"

text \<open>\<open>fmt.Sprintf("%v", ss)\<close> of a slice of strings.\<close>

definition format_slice :: "string list \<Rightarrow> string" where
  "format_slice ss = ''['' @ strings_Join ss '' '' @ '']''"

lemma fold_case_lower:
  assumes "\<forall>c \<in> set s. (of_char c :: nat) < 128"
  shows "strings_ToLower s = map lower_char s" "fold_case s = map lower_char s"
proof -
  have "(of_char (CHR 0xC4) :: nat) = 196" "(of_char (CHR 0xC5) :: nat) = 197" "(of_char (CHR 0xE2) :: nat) = 226"
    by simp_all
  then have "CHR 0xC4 \<notin> set s" "CHR 0xC5 \<notin> set s" "CHR 0xE2 \<notin> set s" using assms by force+
  then show "strings_ToLower s = map lower_char s" "fold_case s = map lower_char s"
    by (induction s) auto
qed

lemma fold_examples:
  "strings_EqualFold ''production'' ''PROduction''" "\<not> strings_EqualFold ''prod'' ''production''"
  "strings_EqualFold ''staging'' (CHR 0xC5 # CHR 0xBF # ''taging'')"
  "strings_ToLower (CHR 0xC4 # CHR 0xB0 # ''NFO'') = ''info''"
  by code_simp+

end
