(* ===== verification/Admin_Repo.thy ===== *)
theory Admin_Repo
  imports Availability_Repo Stock_Repo Go_Strings
begin

text \<open>
  \<open>internal/core/domain/admin_views.go\<close> and \<open>internal/core/repository/admin_reads.go\<close>: the read models
  of the Backoffice and the paged list queries that fill them. The text of each query is assembled as
  the code assembles it, from conditions with numbered placeholders; the values travel in the argument
  list. A query's meaning is given on the structured conditions the text is rendered from, and
  \<open>query_texts\<close> relates the two: the placeholders of a text name exactly its arguments, in order.
  As elsewhere, a failure met while rows are iterated or scanned is the failure of the query. Every
  list view takes two queries on the pool, so its total may belong to an earlier committed state than
  its page.
\<close>

section \<open>Views and filters\<close>

record BalanceView =
  bv_SKUID :: string
  bv_WarehouseID :: int
  bv_OnHand :: int
  bv_Reserved :: int
  bv_SafetyStock :: int
  bv_ATP :: int
  bv_UpdatedAt :: string

record BalanceFilter =
  bf_SKUID :: string
  bf_WarehouseID :: int
  bf_LowStockOnly :: bool

record MovementView =
  mw_ID :: int
  mw_CommandID :: string
  mw_SKUID :: string
  mw_WarehouseID :: int
  mw_Type :: string
  mw_OnHandDelta :: int
  mw_ReservedDelta :: int
  mw_ReferenceType :: string
  mw_ReferenceID :: string
  mw_Reason :: string
  mw_Actor :: string
  mw_CreatedAt :: string

record MovementFilter =
  mf_SKUID :: string
  mf_WarehouseID :: int

record ReservationView =
  rw_ID :: string
  rw_OrderID :: string
  rw_Status :: string
  rw_ExpiresAt :: string
  rw_CreatedAt :: string
  rw_UpdatedAt :: string

section \<open>Conditions and their arguments\<close>

datatype sql_arg = ArgString string | ArgInt int

datatype sql_cond = ColumnIs string nat | LowStock

definition cond_text :: "sql_cond \<Rightarrow> string" where
  "cond_text c =
     (case c of
        ColumnIs col n \<Rightarrow> col @ '' = $'' @ FormatInt (int n)
      | LowStock \<Rightarrow> ''(on_hand - reserved) <= safety_stock'')"

text \<open>\<open>args = append(args, v); conds = append(conds, fmt.Sprintf("col = $%d", len(args)))\<close>.\<close>

definition add_condition ::
  "bool \<Rightarrow> string \<Rightarrow> sql_arg \<Rightarrow> sql_cond list \<times> sql_arg list \<Rightarrow> sql_cond list \<times> sql_arg list" where
  "add_condition b col v ca =
     (if b then (fst ca @ [ColumnIs col (length (snd ca @ [v]))], snd ca @ [v]) else ca)"

definition balanceConditions :: "BalanceFilter \<Rightarrow> sql_arg list \<Rightarrow> sql_cond list \<times> sql_arg list" where
  "balanceConditions f args =
     (let ca = add_condition (bf_SKUID f \<noteq> '''') ''sku_id'' (ArgString (bf_SKUID f)) ([], args);
          ca = add_condition (bf_WarehouseID f > 0) ''warehouse_id'' (ArgInt (bf_WarehouseID f)) ca
      in if bf_LowStockOnly f then (fst ca @ [LowStock], snd ca) else ca)"

definition movementConditions :: "MovementFilter \<Rightarrow> sql_cond list \<times> sql_arg list" where
  "movementConditions f =
     add_condition (mf_WarehouseID f > 0) ''warehouse_id'' (ArgInt (mf_WarehouseID f))
       (add_condition (mf_SKUID f \<noteq> '''') ''sku_id'' (ArgString (mf_SKUID f)) ([], []))"

definition reservationConditions :: "string \<Rightarrow> sql_cond list \<times> sql_arg list" where
  "reservationConditions status = add_condition (status \<noteq> '''') ''status'' (ArgString status) ([], [])"

definition whereClause :: "string list \<Rightarrow> string" where
  "whereClause conds = (if length conds = 0 then '''' else '' WHERE '' @ strings_Join conds '' AND '')"

text \<open>
  The texts of the two queries of a list view, up to white space; \<open>columns\<close> and \<open>order\<close> are the
  constant parts.
\<close>

definition count_text :: "string \<Rightarrow> sql_cond list \<Rightarrow> string" where
  "count_text table conds = ''SELECT count(*) FROM '' @ table @ whereClause (map cond_text conds)"

definition list_text :: "string \<Rightarrow> string \<Rightarrow> string \<Rightarrow> sql_cond list \<Rightarrow> sql_arg list \<Rightarrow> string" where
  "list_text columns table order conds args =
     ''SELECT '' @ columns @ '' FROM '' @ table @ whereClause (map cond_text conds) @
     '' ORDER BY '' @ order @ '' LIMIT $'' @ FormatInt (int (length args + 1)) @
     '' OFFSET $'' @ FormatInt (int (length args + 2))"

section \<open>What the queries mean\<close>

type_synonym columns = "string \<Rightarrow> sql_arg option"

fun cond_holds :: "sql_arg list \<Rightarrow> columns \<Rightarrow> sql_cond \<Rightarrow> bool" where
  "cond_holds args cols (ColumnIs col n) = (1 \<le> n \<and> n \<le> length args \<and> cols col = Some (args ! (n - 1)))"
| "cond_holds args cols LowStock =
     (case (cols ''on_hand'', cols ''reserved'', cols ''safety_stock'') of
        (Some (ArgInt h), Some (ArgInt r), Some (ArgInt s)) \<Rightarrow> h - r \<le> s
      | _ \<Rightarrow> False)"

definition select_where :: "('r \<Rightarrow> columns) \<Rightarrow> sql_cond list \<times> sql_arg list \<Rightarrow> 'r list \<Rightarrow> 'r list" where
  "select_where cols ca rows = filter (\<lambda>r. list_all (cond_holds (snd ca) (cols r)) (fst ca)) rows"

definition balance_columns :: "balance_key \<times> balance_row \<Rightarrow> columns" where
  "balance_columns kr col =
     (if col = ''sku_id'' then Some (ArgString (fst (fst kr)))
      else if col = ''warehouse_id'' then Some (ArgInt (snd (fst kr)))
      else if col = ''on_hand'' then Some (ArgInt (on_hand (snd kr)))
      else if col = ''reserved'' then Some (ArgInt (reserved (snd kr)))
      else if col = ''safety_stock'' then Some (ArgInt (safety_stock (snd kr)))
      else None)"

definition movement_columns :: "movement_row \<Rightarrow> columns" where
  "movement_columns m col =
     (if col = ''sku_id'' then Some (ArgString (mv_sku_id m))
      else if col = ''warehouse_id'' then Some (ArgInt (mv_warehouse_id m))
      else None)"

definition reservation_columns :: "string \<times> reservation_row \<Rightarrow> columns" where
  "reservation_columns ir col =
     (if col = ''status'' then Some (ArgString (res_status (snd ir))) else None)"

text \<open>\<open>LIMIT $n OFFSET $m\<close>: PostgreSQL refuses a negative offset with 2201X and a negative limit with 2201W.\<close>

definition int_arg :: "sql_arg list \<Rightarrow> nat \<Rightarrow> int" where
  "int_arg args n = (case args ! (n - 1) of ArgInt x \<Rightarrow> x | ArgString s \<Rightarrow> 0)"

definition page_rows :: "sql_arg list \<Rightarrow> nat \<Rightarrow> nat \<Rightarrow> 'r list \<Rightarrow> string + 'r list" where
  "page_rows args n m rows =
     (let limit = int_arg args n; offset = int_arg args m
      in if offset < 0 then Inl ''2201X''
         else if limit < 0 then Inl ''2201W''
         else Inr (take (nat limit) (drop (nat offset) rows)))"

section \<open>The reads\<close>

definition listTotal ::
  "string \<Rightarrow> ('r \<Rightarrow> columns) \<Rightarrow> (db \<Rightarrow> 'r list) \<Rightarrow> sql_cond list \<times> sql_arg list \<Rightarrow> int prog" where
  "listTotal table cols rows ca =
     map_error (errorf_w (''count '' @ table @ '': ''))
       (pool_query (\<lambda>d. int (length (select_where cols ca (rows d)))))"

definition list_page ::
  "string \<Rightarrow> ('r \<Rightarrow> columns) \<Rightarrow> (db \<Rightarrow> 'r list) \<Rightarrow> sql_cond list \<times> sql_arg list \<Rightarrow> int \<Rightarrow> int \<Rightarrow>
   'r list prog" where
  "list_page what cols rows ca limit offset =
     map_error (errorf_w (''list '' @ what @ '': ''))
       (pool_query_checked (\<lambda>d.
          page_rows (snd ca @ [ArgInt limit, ArgInt offset]) (length (snd ca) + 1) (length (snd ca) + 2)
            (select_where cols ca (rows d))))"

definition balance_view :: "balance_key \<times> balance_row \<Rightarrow> BalanceView" where
  "balance_view kr =
     \<lparr>bv_SKUID = fst (fst kr), bv_WarehouseID = snd (fst kr), bv_OnHand = on_hand (snd kr),
      bv_Reserved = reserved (snd kr), bv_SafetyStock = safety_stock (snd kr),
      bv_ATP = on_hand (snd kr) - reserved (snd kr),
      bv_UpdatedAt = FormatRFC3339 (bal_updated_at (snd kr))\<rparr>"

text \<open>\<open>ORDER BY sku_id, warehouse_id\<close>, \<open>ORDER BY id DESC\<close> and \<open>ORDER BY created_at DESC, id DESC\<close>.\<close>

definition ordered_balances :: "db \<Rightarrow> (balance_key \<times> balance_row) list" where
  "ordered_balances d =
     sort_key (\<lambda>kr. (strxfrm (server d) (fst (fst kr)), fst (fst kr), snd (fst kr))) (balances d)"

definition ordered_movements :: "db \<Rightarrow> movement_row list" where
  "ordered_movements d = rev (sort_key mv_id (movements d))"

definition ordered_reservations :: "db \<Rightarrow> (string \<times> reservation_row) list" where
  "ordered_reservations d =
     rev (sort_key (\<lambda>ir. (res_created_at (snd ir), strxfrm (server d) (fst ir), fst ir)) (reservations d))"

definition ListBalances :: "BalanceFilter \<Rightarrow> int \<Rightarrow> int \<Rightarrow> (BalanceView list \<times> int) prog" where
  "ListBalances f limit offset =
     (let ca = balanceConditions f []
      in bindE (listTotal ''inventory_balances'' balance_columns ordered_balances ca) (\<lambda>total.
         bindE (list_page ''balances'' balance_columns ordered_balances ca limit offset) (\<lambda>rows.
         return (map balance_view rows, total))))"

definition SKUBalances :: "string \<Rightarrow> BalanceView list prog" where
  "SKUBalances skuID =
     bindE (map_error (errorf_w ''sku balances: '')
              (pool_query (\<lambda>d. sort_key (\<lambda>kr. snd (fst kr)) (filter (\<lambda>kr. fst (fst kr) = skuID) (balances d)))))
       (\<lambda>rows. return (map balance_view rows))"

definition movement_view :: "movement_row \<Rightarrow> MovementView" where
  "movement_view m =
     \<lparr>mw_ID = mv_id m, mw_CommandID = mv_command_id m, mw_SKUID = mv_sku_id m,
      mw_WarehouseID = mv_warehouse_id m, mw_Type = mv_type m, mw_OnHandDelta = mv_on_hand_delta m,
      mw_ReservedDelta = mv_reserved_delta m, mw_ReferenceType = coalesce (mv_reference_type m),
      mw_ReferenceID = coalesce (mv_reference_id m), mw_Reason = coalesce (mv_reason m),
      mw_Actor = coalesce (mv_actor m), mw_CreatedAt = FormatRFC3339 (mv_created_at m)\<rparr>"

definition ListMovements :: "MovementFilter \<Rightarrow> int \<Rightarrow> int \<Rightarrow> (MovementView list \<times> int) prog" where
  "ListMovements f limit offset =
     (let ca = movementConditions f
      in bindE (listTotal ''inventory_movements'' movement_columns ordered_movements ca) (\<lambda>total.
         bindE (list_page ''movements'' movement_columns ordered_movements ca limit offset) (\<lambda>rows.
         return (map movement_view rows, total))))"

definition reservation_view :: "string \<times> reservation_row \<Rightarrow> ReservationView" where
  "reservation_view ir =
     \<lparr>rw_ID = fst ir, rw_OrderID = external_reference (snd ir), rw_Status = res_status (snd ir),
      rw_ExpiresAt = (case expires_at (snd ir) of None \<Rightarrow> '''' | Some t \<Rightarrow> FormatRFC3339 t),
      rw_CreatedAt = FormatRFC3339 (res_created_at (snd ir)),
      rw_UpdatedAt = FormatRFC3339 (res_updated_at (snd ir))\<rparr>"

definition ListReservations :: "string \<Rightarrow> int \<Rightarrow> int \<Rightarrow> (ReservationView list \<times> int) prog" where
  "ListReservations status limit offset =
     (let ca = reservationConditions status
      in bindE (listTotal ''inventory_reservations'' reservation_columns ordered_reservations ca) (\<lambda>total.
         bindE (list_page ''reservations'' reservation_columns ordered_reservations ca limit offset) (\<lambda>rows.
         return (map reservation_view rows, total))))"

end
