(* ===== verification/Admin_Views.thy ===== *)
theory Admin_Views
  imports Admin_Repo
begin

text \<open>
  What the Backoffice lists show: which rows a filter selects, that the pages of a list are a
  partition of it, and that a query's text never contains a caller's value.
\<close>

section \<open>What the filters select\<close>

definition balance_selected :: "BalanceFilter \<Rightarrow> balance_key \<times> balance_row \<Rightarrow> bool" where
  "balance_selected f kr \<longleftrightarrow>
     (bf_SKUID f = '''' \<or> fst (fst kr) = bf_SKUID f) \<and>
     (bf_WarehouseID f \<le> 0 \<or> snd (fst kr) = bf_WarehouseID f) \<and>
     (bf_LowStockOnly f \<longrightarrow> row_atp (snd kr) = 0)"

definition movement_selected :: "MovementFilter \<Rightarrow> movement_row \<Rightarrow> bool" where
  "movement_selected f m \<longleftrightarrow>
     (mf_SKUID f = '''' \<or> mv_sku_id m = mf_SKUID f) \<and>
     (mf_WarehouseID f \<le> 0 \<or> mv_warehouse_id m = mf_WarehouseID f)"

definition reservation_selected :: "string \<Rightarrow> string \<times> reservation_row \<Rightarrow> bool" where
  "reservation_selected status ir \<longleftrightarrow> status = '''' \<or> res_status (snd ir) = status"

lemma low_stock_atp: "on_hand r - reserved r \<le> safety_stock r \<longleftrightarrow> row_atp r = 0"
  by (auto simp: row_atp_def)

lemma select_balances:
  "select_where balance_columns (balanceConditions f []) rows = filter (balance_selected f) rows"
  unfolding select_where_def
  by (rule filter_cong [OF refl])
     (auto simp: balanceConditions_def Let_def add_condition_def balance_columns_def balance_selected_def
       low_stock_atp nth_append)

lemma select_movements:
  "select_where movement_columns (movementConditions f) rows = filter (movement_selected f) rows"
  unfolding select_where_def
  by (rule filter_cong [OF refl])
     (auto simp: movementConditions_def add_condition_def movement_columns_def movement_selected_def nth_append)

lemma select_reservations:
  "select_where reservation_columns (reservationConditions status) rows =
     filter (reservation_selected status) rows"
  unfolding select_where_def
  by (rule filter_cong [OF refl])
     (auto simp: reservationConditions_def add_condition_def reservation_columns_def reservation_selected_def)

section \<open>Pages\<close>

definition page_of :: "int \<Rightarrow> int \<Rightarrow> 'r list \<Rightarrow> 'r list" where
  "page_of limit offset rows = take (nat limit) (drop (nat offset) rows)"

lemma page_rows_args:
  "page_rows (args @ [ArgInt limit, ArgInt offset]) (length args + 1) (length args + 2) rows =
     (if offset < 0 then Inl ''2201X'' else if limit < 0 then Inl ''2201W''
      else Inr (page_of limit offset rows))"
  by (simp add: page_rows_def int_arg_def nth_append page_of_def)

text \<open>The pages of a list, one after the other, are the list.\<close>

lemma pages_prefix: "concat (map (\<lambda>p. take n (drop (p * n) xs)) [0..<k]) = take (k * n) xs"
proof (induction k)
  case 0
  then show ?case by simp
next
  case (Suc k)
  have "take (k * n) xs @ take n (drop (k * n) xs) = take (k * n + n) xs"
    by (simp add: take_add)
  then show ?case using Suc by (simp add: add.commute)
qed

lemma pages_complete:
  assumes "length xs \<le> k * nat limit"
  shows "concat (map (\<lambda>p. page_of limit (int p * limit) xs) [0..<k]) = xs"
proof -
  have "page_of limit (int p * limit) xs = take (nat limit) (drop (p * nat limit) xs)" for p
    by (simp add: page_of_def nat_mult_distrib)
  then show ?thesis using pages_prefix [of "nat limit" xs k] assms by simp
qed

section \<open>The lists of a quiet world\<close>

lemma pool_query_checked_quiet [quiet_simps]:
  "w_script w = [] \<Longrightarrow>
   pool_query_checked f w = (case f (w_db w) of Inl code \<Rightarrow> (Inl (PgError code), w) | Inr x \<Rightarrow> (Inr x, w))"
  by (simp add: pool_query_checked_def bindE_def fail_def return_def quiet_simps split: sum.split)

lemma listTotal_quiet [quiet_simps]:
  "w_script w = [] \<Longrightarrow>
   listTotal table cols rows ca w = (Inr (int (length (select_where cols ca (rows (w_db w))))), w)"
  by (simp add: listTotal_def map_error_def quiet_simps)

lemma list_page_quiet [quiet_simps]:
  "w_script w = [] \<Longrightarrow>
   list_page what cols rows ca limit offset w =
     (if offset < 0 then Inl (errorf_w (''list '' @ what @ '': '') (PgError ''2201X''))
      else if limit < 0 then Inl (errorf_w (''list '' @ what @ '': '') (PgError ''2201W''))
      else Inr (page_of limit offset (select_where cols ca (rows (w_db w)))), w)"
  unfolding list_page_def page_rows_args by (simp add: map_error_def quiet_simps)

lemma lists_quiet:
  assumes "w_script w = []" "0 \<le> limit" "0 \<le> offset"
  shows "ListBalances f limit offset w =
      (Inr (map balance_view (page_of limit offset (filter (balance_selected f) (ordered_balances (w_db w)))),
            int (length (filter (balance_selected f) (ordered_balances (w_db w))))), w)"
    and "ListMovements g limit offset w =
      (Inr (map movement_view (page_of limit offset (filter (movement_selected g) (ordered_movements (w_db w)))),
            int (length (filter (movement_selected g) (ordered_movements (w_db w))))), w)"
    and "ListReservations s limit offset w =
      (Inr (map reservation_view
              (page_of limit offset (filter (reservation_selected s) (ordered_reservations (w_db w)))),
            int (length (filter (reservation_selected s) (ordered_reservations (w_db w))))), w)"
  using assms
  by (simp_all add: ListBalances_def ListMovements_def ListReservations_def Let_def bindE_def return_def quiet_simps
      select_balances select_movements select_reservations)

lemma SKUBalances_quiet:
  "w_script w = [] \<Longrightarrow>
   SKUBalances s w =
     (Inr (map balance_view (sort_key (\<lambda>kr. snd (fst kr)) (filter (\<lambda>kr. fst (fst kr) = s) (balances (w_db w))))), w)"
  by (simp add: SKUBalances_def bindE_def map_error_def return_def quiet_simps)

section \<open>Query texts\<close>

text \<open>The placeholders of a query text: the number after every \<open>$\<close>.\<close>

fun placeholders :: "string \<Rightarrow> nat list" where
  "placeholders [] = []"
| "placeholders (c # s) =
     (if c = CHR ''$'' then digits_value (takeWhile is_digit s) # placeholders s else placeholders s)"

lemma placeholders_append:
  assumes "t = [] \<or> \<not> is_digit (hd t)"
  shows "placeholders (s @ t) = placeholders s @ placeholders t"
proof (induction s)
  case Nil
  then show ?case by simp
next
  case (Cons c s)
  have "takeWhile is_digit (s @ t) = takeWhile is_digit s"
    using assms by (cases t) (auto simp: takeWhile_append takeWhile_tail, metis takeWhile_eq_all_conv)
  with Cons show ?case by simp
qed

lemma placeholders_free: "CHR ''$'' \<notin> set s \<Longrightarrow> placeholders (s @ t) = placeholders t"
  by (induction s) auto

lemma placeholders_number:
  "t = [] \<or> \<not> is_digit (hd t) \<Longrightarrow> placeholders (CHR ''$'' # FormatInt (int n) @ t) = n # placeholders t"
proof -
  assume t: "t = [] \<or> \<not> is_digit (hd t)"
  have num: "FormatInt (int n) = format_nat n" by (simp add: FormatInt_def)
  have "takeWhile is_digit (format_nat n @ t) = format_nat n"
    using t format_nat_digits [of n] by (cases t) (auto simp: takeWhile_append)
  moreover have "CHR ''$'' \<notin> set (format_nat n)"
    using format_nat_digits [of n] by (auto simp: is_digit_def)
  ultimately show ?thesis
    by (simp add: num digits_value_format_nat placeholders_free)
qed

text \<open>A list of conditions whose placeholders are, in order, the numbers of its arguments.\<close>

fun cond_places :: "sql_cond \<Rightarrow> nat list" where
  "cond_places (ColumnIs col n) = [n]"
| "cond_places LowStock = []"

definition plain :: "string \<Rightarrow> bool" where
  "plain s \<longleftrightarrow> CHR ''$'' \<notin> set s"

definition numbered :: "sql_cond list \<times> sql_arg list \<Rightarrow> bool" where
  "numbered ca \<longleftrightarrow>
     concat (map cond_places (fst ca)) = [1..<length (snd ca) + 1] \<and>
     (\<forall>col n. ColumnIs col n \<in> set (fst ca) \<longrightarrow> plain col)"

lemma numbered_start: "numbered ([], [])"
  by (simp add: numbered_def)

lemma numbered_add: "numbered ca \<Longrightarrow> plain col \<Longrightarrow> numbered (add_condition b col v ca)"
  by (auto simp: numbered_def add_condition_def)

lemma numbered_low_stock: "numbered ca \<Longrightarrow> numbered (fst ca @ [LowStock], snd ca)"
  by (auto simp: numbered_def)

lemma numbered_filters:
  "numbered (balanceConditions f [])" "numbered (movementConditions g)" "numbered (reservationConditions s)"
  unfolding balanceConditions_def movementConditions_def reservationConditions_def Let_def
  by (auto intro!: numbered_add numbered_start numbered_low_stock simp: plain_def)

lemma cond_text_places:
  assumes "\<forall>col n. c = ColumnIs col n \<longrightarrow> plain col" "t = [] \<or> \<not> is_digit (hd t)"
  shows "placeholders (cond_text c @ t) = cond_places c @ placeholders t"
proof (cases c)
  case (ColumnIs col n)
  then have "CHR ''$'' \<notin> set (col @ '' = '')" using assms(1) by (auto simp: plain_def)
  from placeholders_free [OF this, of "CHR ''$'' # FormatInt (int n) @ t"] placeholders_number [OF assms(2), of n]
  show ?thesis by (simp add: ColumnIs cond_text_def)
next
  case LowStock
  then show ?thesis by (simp add: cond_text_def)
qed

lemma join_places:
  assumes "\<forall>c \<in> set conds. \<forall>col n. c = ColumnIs col n \<longrightarrow> plain col" "t = [] \<or> \<not> is_digit (hd t)"
  shows "placeholders (strings_Join (map cond_text conds) '' AND '' @ t) =
    concat (map cond_places conds) @ placeholders t"
  using assms(1)
proof (induction conds rule: induct_list012)
  case 1
  then show ?case by simp
next
  case (2 c)
  then show ?case using cond_text_places [OF _ assms(2), of c] by simp
next
  case (3 c c' conds)
  have "\<forall>col n. c = ColumnIs col n \<longrightarrow> plain col" using "3.prems" by simp
  from cond_text_places [OF this, of "'' AND '' @ strings_Join (map cond_text (c' # conds)) '' AND '' @ t"] 3
  show ?case by (simp add: is_digit_def)
qed

lemma where_places:
  assumes "numbered ca" "t = [] \<or> \<not> is_digit (hd t)"
  shows "placeholders (whereClause (map cond_text (fst ca)) @ t) = [1..<length (snd ca) + 1] @ placeholders t"
proof -
  have "\<forall>c \<in> set (fst ca). \<forall>col n. c = ColumnIs col n \<longrightarrow> plain col"
    using assms(1) by (auto simp: numbered_def)
  from join_places [OF this assms(2)] assms(1) show ?thesis
    by (cases "fst ca") (simp_all add: numbered_def whereClause_def del: upt_Suc)
qed

text \<open>The placeholders of both texts name exactly the arguments, in order.\<close>

lemma query_texts:
  assumes "numbered ca" "plain columns" "plain table" "plain order"
  shows "placeholders (count_text table (fst ca)) = [1..<length (snd ca) + 1]"
    and "placeholders (list_text columns table order (fst ca) (snd ca)) =
      [1..<length (snd ca @ [ArgInt limit, ArgInt offset]) + 1]"
proof -
  have head: "CHR ''$'' \<notin> set (''SELECT count(*) FROM '' @ table)"
    "CHR ''$'' \<notin> set (''SELECT '' @ columns @ '' FROM '' @ table)"
    "CHR ''$'' \<notin> set ('' ORDER BY '' @ order @ '' LIMIT '')" "CHR ''$'' \<notin> set '' OFFSET ''"
    using assms(2-4) by (auto simp: plain_def)
  show "placeholders (count_text table (fst ca)) = [1..<length (snd ca) + 1]"
    using placeholders_free [OF head(1)] where_places [OF assms(1), of "[]"] by (simp add: count_text_def)
  let ?n = "length (snd ca)"
  have off: "placeholders ('' OFFSET $'' @ FormatInt (int (?n + 2))) = [?n + 2]"
    using placeholders_free [OF head(4), of "CHR ''$'' # FormatInt (int (?n + 2))"]
      placeholders_number [of "[]" "?n + 2"] by simp
  have tail: "placeholders ('' ORDER BY '' @ order @ '' LIMIT $'' @ FormatInt (int (?n + 1)) @
      '' OFFSET $'' @ FormatInt (int (?n + 2))) = [?n + 1, ?n + 2]"
    using placeholders_free [OF head(3), of "CHR ''$'' # FormatInt (int (?n + 1)) @ '' OFFSET $'' @ FormatInt (int (?n + 2))"]
      placeholders_number [of "'' OFFSET $'' @ FormatInt (int (?n + 2))" "?n + 1"] off
    by (simp add: is_digit_def)
  show "placeholders (list_text columns table order (fst ca) (snd ca)) =
      [1..<length (snd ca @ [ArgInt limit, ArgInt offset]) + 1]"
    using placeholders_free [OF head(2)] where_places [OF assms(1), of "'' ORDER BY '' @ order @ '' LIMIT $'' @
        FormatInt (int (?n + 1)) @ '' OFFSET $'' @ FormatInt (int (?n + 2))"] tail
    by (simp add: list_text_def is_digit_def)
qed

text \<open>A text depends on which filters are set, not on their values.\<close>

lemma conditions_shape:
  assumes "(bf_SKUID f = '''') = (bf_SKUID g = '''')" "(bf_WarehouseID f > 0) = (bf_WarehouseID g > 0)"
    "bf_LowStockOnly f = bf_LowStockOnly g"
  shows "fst (balanceConditions f []) = fst (balanceConditions g [])"
    "length (snd (balanceConditions f [])) = length (snd (balanceConditions g []))"
  using assms by (simp_all add: balanceConditions_def add_condition_def Let_def)

end
