(* ===== verification/Admin_Logic.thy ===== *)
theory Admin_Logic
  imports Admin_Views Reservation_Logic Stock_Safety
begin

text \<open>
  \<open>internal/logic/v1/admin.go\<close>: the logic of the protected Backoffice surface. Reads pass through with
  a span; commands are validated, delegated to the transactional \<open>StockCommander\<close> and counted. Its
  two ports are the locales \<open>admin_reader\<close> and \<open>stock_commander\<close>, interpreted on the repositories.
\<close>

section \<open>Ports and labels\<close>

record StockCommander =
  sc_ReceiveStock :: "StockCommand \<Rightarrow> bool prog"
  sc_AdjustOnHand :: "StockCommand \<Rightarrow> bool prog"
  sc_SetSafetyStock :: "StockCommand \<Rightarrow> bool prog"

record AdminReader =
  ar_ListBalances :: "BalanceFilter \<Rightarrow> int \<Rightarrow> int \<Rightarrow> (BalanceView list \<times> int) prog"
  ar_SKUBalances :: "string \<Rightarrow> BalanceView list prog"
  ar_ListMovements :: "MovementFilter \<Rightarrow> int \<Rightarrow> int \<Rightarrow> (MovementView list \<times> int) prog"
  ar_ListReservations :: "string \<Rightarrow> int \<Rightarrow> int \<Rightarrow> (ReservationView list \<times> int) prog"

record AdminService =
  as_reads :: AdminReader
  as_commands :: StockCommander

definition opListBalances :: string where "opListBalances = ''admin_list_balances''"
definition opSKUBalances :: string where "opSKUBalances = ''admin_sku_balances''"
definition opListMovements :: string where "opListMovements = ''admin_list_movements''"
definition opListReservations :: string where "opListReservations = ''admin_list_reservations''"
definition opReceiveStock :: string where "opReceiveStock = ''admin_receive_stock''"
definition opAdjustOnHand :: string where "opAdjustOnHand = ''admin_adjust_on_hand''"

definition cmdOutcomeApplied :: string where "cmdOutcomeApplied = ''applied''"
definition cmdOutcomeReplayed :: string where "cmdOutcomeReplayed = ''replayed''"
definition cmdOutcomeRejected :: string where "cmdOutcomeRejected = ''rejected''"
definition cmdOutcomeError :: string where "cmdOutcomeError = ''error''"

definition adminCommandCounter :: string where "adminCommandCounter = ''inventory.admin.command.total''"

definition recordAdminCommand :: "Context \<Rightarrow> string \<Rightarrow> string \<Rightarrow> unit prog" where
  "recordAdminCommand ctx operation outcome =
     emit (CounterAdd adminCommandCounter [(''operation'', operation), (''outcome'', outcome)])"

section \<open>The operations\<close>

text \<open>The body the four reads share: a span, the read, the span error and the wrapped error.\<close>

definition traced_read :: "Context \<Rightarrow> string \<Rightarrow> string \<Rightarrow> 'a prog \<Rightarrow> 'a prog" where
  "traced_read ctx operation pre read =
     with_span ctx operation (
       try_bind read
         (\<lambda>err. seq (recordSpanError ctx operation err) (fail (errorf_w pre err)))
         return)"

definition admin_ListBalances ::
  "AdminService \<Rightarrow> Context \<Rightarrow> BalanceFilter \<Rightarrow> int \<Rightarrow> int \<Rightarrow> (BalanceView list \<times> int) prog" where
  "admin_ListBalances s ctx f limit offset =
     traced_read ctx opListBalances ''list balances: '' (ar_ListBalances (as_reads s) f limit offset)"

definition admin_SKUBalances :: "AdminService \<Rightarrow> Context \<Rightarrow> string \<Rightarrow> BalanceView list prog" where
  "admin_SKUBalances s ctx skuID =
     traced_read ctx opSKUBalances ''sku balances: '' (ar_SKUBalances (as_reads s) skuID)"

definition admin_ListMovements ::
  "AdminService \<Rightarrow> Context \<Rightarrow> MovementFilter \<Rightarrow> int \<Rightarrow> int \<Rightarrow> (MovementView list \<times> int) prog" where
  "admin_ListMovements s ctx f limit offset =
     traced_read ctx opListMovements ''list movements: '' (ar_ListMovements (as_reads s) f limit offset)"

definition admin_ListReservations ::
  "AdminService \<Rightarrow> Context \<Rightarrow> string \<Rightarrow> int \<Rightarrow> int \<Rightarrow> (ReservationView list \<times> int) prog" where
  "admin_ListReservations s ctx status limit offset =
     traced_read ctx opListReservations ''list reservations: '' (ar_ListReservations (as_reads s) status limit offset)"

definition runCommand ::
  "Context \<Rightarrow> string \<Rightarrow> StockCommand \<Rightarrow> (StockCommand \<Rightarrow> bool prog) \<Rightarrow> bool prog" where
  "runCommand ctx operation cmd run =
     with_span ctx operation (
       case Validate cmd of
         Some err \<Rightarrow>
           seq (recordAdminCommand ctx operation cmdOutcomeRejected)
             (fail (Wrap2 (Sentinel ErrInvalidCommand) err))
       | None \<Rightarrow>
           try_bind (run cmd)
             (\<lambda>err. seq (seq (recordSpanError ctx operation err) (recordAdminCommand ctx operation cmdOutcomeError))
                (fail (errorf_w (operation @ '': '') err)))
             (\<lambda>applied.
                seq (recordAdminCommand ctx operation (if applied then cmdOutcomeApplied else cmdOutcomeReplayed))
                  (return applied)))"

definition admin_ReceiveStock :: "AdminService \<Rightarrow> Context \<Rightarrow> StockCommand \<Rightarrow> bool prog" where
  "admin_ReceiveStock s ctx cmd = runCommand ctx opReceiveStock cmd (sc_ReceiveStock (as_commands s))"

definition admin_AdjustOnHand :: "AdminService \<Rightarrow> Context \<Rightarrow> StockCommand \<Rightarrow> bool prog" where
  "admin_AdjustOnHand s ctx cmd = runCommand ctx opAdjustOnHand cmd (sc_AdjustOnHand (as_commands s))"

section \<open>What a call of the logic does\<close>

lemma trace_only_admin:
  "trace_only (recordSpanError ctx operation err)" "trace_only (recordAdminCommand ctx operation outcome)"
  unfolding recordSpanError_def recordAdminCommand_def recordBoundedSpanError_def setSpanOutcome_def
  by (intro trace_only_rules)+

lemma seq_skip: "seq skip m = m"
  by (simp add: fun_eq_iff bindE_def return_def)

lemma traced_read_run:
  obtains t q u t' where "read (w\<lparr>w_trace := t\<rparr>) = (q, u)"
    "traced_read ctx operation pre read w = (map_sum (errorf_w pre) id q, u\<lparr>w_trace := t'\<rparr>)"
proof -
  have "traced_read ctx operation pre read =
      with_span ctx operation (try_bind read
        (\<lambda>err. seq (recordSpanError ctx operation err) (fail (errorf_w pre err))) (\<lambda>x. seq skip (return x)))"
    by (simp add: traced_read_def seq_skip)
  then show ?thesis using that by (auto elim: service_run [rotated 2] intro: trace_only_admin trace_only_rules)
qed

lemma runCommand_run:
  assumes "Validate cmd = None"
  obtains t q u t' where "run cmd (w\<lparr>w_trace := t\<rparr>) = (q, u)"
    "runCommand ctx operation cmd run w = (map_sum (errorf_w (operation @ '': '')) id q, u\<lparr>w_trace := t'\<rparr>)"
  unfolding runCommand_def assms option.case
  by (erule service_run [rotated 2]) (auto intro: trace_only_admin trace_only_rules)

lemma runCommand_invalid:
  assumes "Validate cmd = Some err"
  obtains t where "runCommand ctx operation cmd run w = (Inl (Wrap2 (Sentinel ErrInvalidCommand) err), w\<lparr>w_trace := t\<rparr>)"
proof -
  have "\<exists>t. runCommand ctx operation cmd run w = (Inl (Wrap2 (Sentinel ErrInvalidCommand) err), w\<lparr>w_trace := t\<rparr>)"
    unfolding runCommand_def assms option.case
    by (auto simp: with_span_def startLogicSpan_def bindE_def emit_def defer_span_end_def recordAdminCommand_def fail_def)
  then show ?thesis using that by blast
qed

text \<open>Every command is counted exactly once, canceled ones too.\<close>

lemma counts_admin [counts_rules]:
  "counts adminCommandCounter (recordAdminCommand ctx operation outcome) 1"
  by (simp add: recordAdminCommand_def)

lemma runCommand_counted:
  assumes "emits_within {} (run cmd)"
  shows "meters adminCommandCounter (runCommand ctx operation cmd run) (\<lambda>_. 1)"
proof (cases "Validate cmd")
  case None
  show ?thesis
    unfolding runCommand_def None option.case
    by (intro meters_with_span meters_try assms meters_answer [OF counts_admin]
        meters_after [OF counts_seq [OF counts_recordSpanError counts_admin]]) simp_all
next
  case (Some err)
  show ?thesis
    unfolding runCommand_def Some option.case by (intro meters_with_span meters_after [OF counts_admin] refl)
qed

section \<open>What the logic relies on\<close>

text \<open>
  The contract of the commander: success, applied or replayed, means the ledger holds the command; the
  commander emits nothing. The contract of the reader: in a quiet world a list is a page of the rows
  its filter selects, with their number, and reading changes nothing.
\<close>

locale stock_commander =
  fixes sc :: StockCommander
  assumes receive_law: "concurrent w \<Longrightarrow> sc_ReceiveStock sc cmd w = (Inr b, w') \<Longrightarrow>
      db_inv (w_db w') \<and> db_guar (w_db w) (w_db w') \<and> recorded b cmd MovementReceive (cmd_Quantity cmd) (w_db w')"
    and adjust_law: "concurrent w \<Longrightarrow> sc_AdjustOnHand sc cmd w = (Inr b, w') \<Longrightarrow>
      db_inv (w_db w') \<and> db_guar (w_db w) (w_db w') \<and> recorded b cmd MovementAdjust (cmd_Quantity cmd) (w_db w')"
    and silent_law: "emits_within {} (sc_ReceiveStock sc cmd)" "emits_within {} (sc_AdjustOnHand sc cmd)"

locale admin_reader =
  fixes rd :: AdminReader
  assumes balances_law: "quiet w \<Longrightarrow> 0 \<le> limit \<Longrightarrow> 0 \<le> offset \<Longrightarrow> ar_ListBalances rd f limit offset w =
      (Inr (map balance_view (page_of limit offset (filter (balance_selected f) (ordered_balances (w_db w)))),
            int (length (filter (balance_selected f) (ordered_balances (w_db w))))), w)"
    and movements_law: "quiet w \<Longrightarrow> 0 \<le> limit \<Longrightarrow> 0 \<le> offset \<Longrightarrow> ar_ListMovements rd g limit offset w =
      (Inr (map movement_view (page_of limit offset (filter (movement_selected g) (ordered_movements (w_db w)))),
            int (length (filter (movement_selected g) (ordered_movements (w_db w))))), w)"
    and reservations_law: "quiet w \<Longrightarrow> 0 \<le> limit \<Longrightarrow> 0 \<le> offset \<Longrightarrow> ar_ListReservations rd s limit offset w =
      (Inr (map reservation_view
              (page_of limit offset (filter (reservation_selected s) (ordered_reservations (w_db w)))),
            int (length (filter (reservation_selected s) (ordered_reservations (w_db w))))), w)"
    and sku_law: "quiet w \<Longrightarrow> ar_SKUBalances rd sku w =
      (Inr (map balance_view (sort_key (\<lambda>kr. snd (fst kr)) (filter (\<lambda>kr. fst (fst kr) = sku) (balances (w_db w))))), w)"

context stock_commander
begin

lemma command_recorded:
  assumes "concurrent w" and "as_commands s = sc"
  shows "admin_ReceiveStock s ctx cmd w = (Inr b, w') \<Longrightarrow> Validate cmd = None \<and>
      db_inv (w_db w') \<and> db_guar (w_db w) (w_db w') \<and> recorded b cmd MovementReceive (cmd_Quantity cmd) (w_db w')"
    and "admin_AdjustOnHand s ctx cmd w = (Inr b, w') \<Longrightarrow> Validate cmd = None \<and>
      db_inv (w_db w') \<and> db_guar (w_db w) (w_db w') \<and> recorded b cmd MovementAdjust (cmd_Quantity cmd) (w_db w')"
proof -
  have run: "Validate cmd = None \<and>
      (\<exists>t u. run cmd (w\<lparr>w_trace := t\<rparr>) = (Inr b, u) \<and> w_db w' = w_db u \<and> concurrent (w\<lparr>w_trace := t\<rparr>))"
    if "runCommand ctx operation cmd run w = (Inr b, w')" for operation run
  proof (cases "Validate cmd")
    case None
    from runCommand_run [OF this, of run w ctx operation] obtain t q u t' where
      run: "run cmd (w\<lparr>w_trace := t\<rparr>) = (q, u)"
      and "runCommand ctx operation cmd run w = (map_sum (errorf_w (operation @ '': '')) id q, u\<lparr>w_trace := t'\<rparr>)"
      by metis
    with that have "q = Inr b" "w_db w' = w_db u" by (cases q; auto)+
    with run None assms(1) show ?thesis by auto
  next
    case (Some err)
    with that show ?thesis by (metis Inl_Inr_False prod.inject runCommand_invalid)
  qed
  show "Validate cmd = None \<and>
      db_inv (w_db w') \<and> db_guar (w_db w) (w_db w') \<and> recorded b cmd MovementReceive (cmd_Quantity cmd) (w_db w')"
    if "admin_ReceiveStock s ctx cmd w = (Inr b, w')"
    using run [OF that [unfolded admin_ReceiveStock_def]] receive_law assms(2) by fastforce
  show "Validate cmd = None \<and>
      db_inv (w_db w') \<and> db_guar (w_db w) (w_db w') \<and> recorded b cmd MovementAdjust (cmd_Quantity cmd) (w_db w')"
    if "admin_AdjustOnHand s ctx cmd w = (Inr b, w')"
    using run [OF that [unfolded admin_AdjustOnHand_def]] adjust_law assms(2) by fastforce
qed

lemma commands_counted:
  assumes "as_commands s = sc"
  shows "meters adminCommandCounter (admin_ReceiveStock s ctx cmd) (\<lambda>_. 1)"
    and "meters adminCommandCounter (admin_AdjustOnHand s ctx cmd) (\<lambda>_. 1)"
  unfolding admin_ReceiveStock_def admin_AdjustOnHand_def assms by (intro runCommand_counted silent_law)+

end

lemma traced_read_quiet:
  assumes "quiet w" "\<And>u. quiet u \<Longrightarrow> w_db u = w_db w \<Longrightarrow> read u = (Inr x, u)"
  shows "\<exists>w'. traced_read ctx operation pre read w = (Inr x, w') \<and> quiet w' \<and> w_db w' = w_db w"
proof (rule traced_read_run [of read w ctx operation pre])
  fix t r u t'
  assume "read (w\<lparr>w_trace := t\<rparr>) = (r, u)"
    and "traced_read ctx operation pre read w = (map_sum (errorf_w pre) id r, u\<lparr>w_trace := t'\<rparr>)"
  with assms(2) [of "w\<lparr>w_trace := t\<rparr>"] assms(1) show ?thesis by auto
qed

context admin_reader
begin

lemma lists_reported:
  assumes "quiet w" "as_reads s = rd" "0 \<le> limit" "0 \<le> offset"
  shows "\<exists>w'. admin_ListBalances s ctx f limit offset w =
      (Inr (map balance_view (page_of limit offset (filter (balance_selected f) (ordered_balances (w_db w)))),
            int (length (filter (balance_selected f) (ordered_balances (w_db w))))), w') \<and>
      quiet w' \<and> w_db w' = w_db w"
    and "\<exists>w'. admin_ListMovements s ctx g limit offset w =
      (Inr (map movement_view (page_of limit offset (filter (movement_selected g) (ordered_movements (w_db w)))),
            int (length (filter (movement_selected g) (ordered_movements (w_db w))))), w') \<and>
      quiet w' \<and> w_db w' = w_db w"
    and "\<exists>w'. admin_ListReservations s ctx st limit offset w =
      (Inr (map reservation_view
              (page_of limit offset (filter (reservation_selected st) (ordered_reservations (w_db w)))),
            int (length (filter (reservation_selected st) (ordered_reservations (w_db w))))), w') \<and>
      quiet w' \<and> w_db w' = w_db w"
    and "\<exists>w'. admin_SKUBalances s ctx sku w =
      (Inr (map balance_view (sort_key (\<lambda>kr. snd (fst kr)) (filter (\<lambda>kr. fst (fst kr) = sku) (balances (w_db w))))), w') \<and>
      quiet w' \<and> w_db w' = w_db w"
  unfolding admin_ListBalances_def admin_ListMovements_def admin_ListReservations_def admin_SKUBalances_def assms(2)
  by (rule traced_read_quiet [OF assms(1)],
      simp add: balances_law movements_law reservations_law sku_law assms(3,4))+

end

section \<open>The repositories provide both\<close>

definition stock_repository :: StockCommander where
  "stock_repository =
     \<lparr>sc_ReceiveStock = ReceiveStock, sc_AdjustOnHand = AdjustOnHand, sc_SetSafetyStock = SetSafetyStock\<rparr>"

definition admin_repository :: AdminReader where
  "admin_repository =
     \<lparr>ar_ListBalances = ListBalances, ar_SKUBalances = SKUBalances,
      ar_ListMovements = ListMovements, ar_ListReservations = ListReservations\<rparr>"

definition wired_admin :: AdminService where
  "wired_admin = \<lparr>as_reads = admin_repository, as_commands = stock_repository\<rparr>"

lemma wired_admin_sel [simp]: "as_reads wired_admin = admin_repository" "as_commands wired_admin = stock_repository"
  by (simp_all add: wired_admin_def)

lemma commands_silent: "emits_within {} (ReceiveStock cmd)" "emits_within {} (AdjustOnHand cmd)"
proof -
  have "emits_within {} (run_command cmd ty dh dr change)" if "emits_within {} change" for ty dh dr change
    unfolding run_command_def claimCommand_def by (intro emits_rules that)
  note run = this
  show "emits_within {} (ReceiveStock cmd)" "emits_within {} (AdjustOnHand cmd)"
    unfolding ReceiveStock_def AdjustOnHand_def receive_change_def adjust_change_def by (intro emits_rules run)+
qed

interpretation commander: stock_commander stock_repository
  by unfold_locales
    (simp_all add: stock_repository_def commands_silent concurrent_run [OF _ ReceiveStock_rule]
      concurrent_run [OF _ AdjustOnHand_rule])

interpretation views: admin_reader admin_repository
  by unfold_locales (simp_all add: admin_repository_def quiet_def lists_quiet SKUBalances_quiet)

end
