(* ===== verification/Go_Text.thy ===== *)
theory Go_Text
  imports Go_Values
begin

text \<open>
  Reading numbers and printing errors: \<open>strconv.ParseInt(s, 10, 64)\<close> and the \<open>Error()\<close> text of the
  error values. The text of a driver error is foreign and a parameter.
\<close>

section \<open>strconv.ParseInt\<close>

text \<open>An optional sign, at least one decimal digit, and a value that fits 64 bits; anything else is an error.\<close>

definition ParseInt64 :: "string \<Rightarrow> int option" where
  "ParseInt64 s =
     (let signed = (s \<noteq> [] \<and> (hd s = CHR ''-'' \<or> hd s = CHR ''+''));
          ds = (if signed then tl s else s);
          v = (if signed \<and> hd s = CHR ''-'' then - int (digits_value ds) else int (digits_value ds))
      in if ds = [] \<or> \<not> list_all is_digit ds then None
         else if int64_range v then Some v else None)"

lemma format_nat_no_sign: "hd (format_nat n) \<noteq> CHR ''-'' \<and> hd (format_nat n) \<noteq> CHR ''+''"
proof -
  have "is_digit (hd (format_nat n))"
    using format_nat_digits [of n] format_nat_nonempty [of n] by simp
  then show ?thesis by (auto simp: is_digit_def)
qed

lemma ParseInt64_FormatInt: "int64_range x \<Longrightarrow> ParseInt64 (FormatInt x) = Some x"
proof -
  assume x: "int64_range x"
  have digits: "list_all is_digit (format_nat n)" for n using format_nat_digits by (simp add: list_all_iff)
  show ?thesis
  proof (cases "x < 0")
    case True
    with x digits show ?thesis
      by (simp add: ParseInt64_def FormatInt_def Let_def format_nat_nonempty digits_value_format_nat)
  next
    case False
    with x digits format_nat_no_sign show ?thesis
      by (simp add: ParseInt64_def FormatInt_def Let_def format_nat_nonempty digits_value_format_nat)
  qed
qed

lemma ParseInt64_range: "ParseInt64 s = Some x \<Longrightarrow> int64_range x"
  by (auto simp: ParseInt64_def Let_def split: if_splits)

lemma ParseInt64_examples:
  "ParseInt64 ''+7'' = Some 7" "ParseInt64 ''007'' = Some 7" "ParseInt64 '''' = None"
  "ParseInt64 ''-'' = None" "ParseInt64 ''1_000'' = None"
  by (simp_all add: ParseInt64_def Let_def digits_value_def is_digit_def int64_range_def)

section \<open>Error()\<close>

fun sentinel_text :: "sentinel \<Rightarrow> string" where
  "sentinel_text ErrInvalidCommand = ''invalid stock command''"
| "sentinel_text ErrCommandConflict = ''command_id already applied with a different payload''"
| "sentinel_text ErrInsufficientOnHand = ''adjustment would violate balance invariants''"
| "sentinel_text ErrBalanceNotFound = ''no balance row for sku/warehouse''"
| "sentinel_text ErrInsufficientStock = ''insufficient stock to reserve''"
| "sentinel_text ErrUnknownSKU = ''sku has no balance row in any warehouse''"
| "sentinel_text ErrIdempotencyConflict = ''reservation or order id reused with a different request''"
| "sentinel_text ErrInvalidTransition = ''reservation status does not allow this transition''"
| "sentinel_text ErrReservationNotFound = ''reservation not found''"
| "sentinel_text ErrConcurrencyConflict = ''concurrent transaction conflict''"
| "sentinel_text ErrNonPositiveQuantity = ''basket line quantity must be positive''"
| "sentinel_text errOrderRefTaken = ''order external_reference already claimed''"
| "sentinel_text ErrNoRows = ''no rows in result set''"
| "sentinel_text Canceled = ''context canceled''"

fun Error :: "(string \<Rightarrow> string) \<Rightarrow> goerr \<Rightarrow> string" where
  "Error pg (Sentinel s) = sentinel_text s"
| "Error pg (ErrorsNew msg) = msg"
| "Error pg (PgError code) = pg code"
| "Error pg (InsufficientStockError shortages) =
     ''insufficient stock for '' @ FormatInt (int (length shortages)) @ '' line(s)''"
| "Error pg (UnknownSKUError ids) =
     FormatInt (int (length ids)) @ '' sku(s) have no balance row in any warehouse''"
| "Error pg (Wrapf pre e post) = pre @ Error pg e @ post"
| "Error pg (Wrap2 a b) = Error pg a @ '': '' @ Error pg b"

end
