(* ===== verification/Admin_Http.thy ===== *)
theory Admin_Http
  imports Admin_Logic Go_Text
begin

text \<open>
  \<open>internal/web/v1/router.go\<close>: the protected HTTP surface. The Gin context is the record of what the
  handlers read from it; a handler answers with one JSON response. Foreign and therefore parameters
  are the two authentication middlewares of \<open>authmw\<close>, the page parsing of \<open>httpx\<close> and the JSON decoder;
  the \<open>binding:"required"\<close> tags are the code's own and are written out, a required field being one
  that is not the zero value of its type. \<open>httpx\<close>'s envelope is the record of the call's arguments.
\<close>

section \<open>Requests, responses and what is foreign\<close>

record http_request =
  hr_Query :: "string \<Rightarrow> string"
  hr_Param :: "string \<Rightarrow> string"
  hr_CtxUserID :: string
  hr_Body :: string
  hr_Context :: Context

record balanceJSON =
  bj_sku_id :: string
  bj_warehouse_id :: int
  bj_on_hand :: int
  bj_reserved :: int
  bj_safety_stock :: int
  bj_atp :: int
  bj_updated_at :: string

record movementJSON =
  mj_id :: int
  mj_command_id :: string
  mj_sku_id :: string
  mj_warehouse_id :: int
  mj_type :: string
  mj_on_hand_delta :: int
  mj_reserved_delta :: int
  mj_reference_type :: string
  mj_reference_id :: string
  mj_reason :: string
  mj_actor :: string
  mj_created_at :: string

record reservationJSON =
  rj_id :: string
  rj_order_id :: string
  rj_status :: string
  rj_expires_at :: string
  rj_created_at :: string
  rj_updated_at :: string

record receiptRequest =
  rc_CommandID :: string
  rc_SKUID :: string
  rc_WarehouseID :: int
  rc_Quantity :: int
  rc_Reason :: string

record adjustmentRequest =
  aj_CommandID :: string
  aj_SKUID :: string
  aj_WarehouseID :: int
  aj_Delta :: int
  aj_Reason :: string

datatype httpx_code =
    CodeUnauthorized | CodeValidation | CodeNotFound | CodeIdempotencyConflict | CodeStockUnavailable | CodeInternal

datatype http_body =
    BalancePage "balanceJSON list" int int int
  | BalanceItems "balanceJSON list"
  | MovementPage "movementJSON list" int int int
  | ReservationPage "reservationJSON list" int int int
  | CommandOutcome string bool

datatype http_response = RespondError nat httpx_code string | RespondJSON nat http_body

record Httpx =
  hx_ParsePage :: "http_request \<Rightarrow> int \<times> int"
  hx_Offset :: "int \<Rightarrow> int \<Rightarrow> int"
  hx_DecodeReceipt :: "string \<Rightarrow> receiptRequest option"
  hx_DecodeAdjustment :: "string \<Rightarrow> adjustmentRequest option"
  hx_PgText :: "string \<Rightarrow> string"

record adminLogic =
  lg_ListBalances :: "Context \<Rightarrow> BalanceFilter \<Rightarrow> int \<Rightarrow> int \<Rightarrow> (BalanceView list \<times> int) prog"
  lg_SKUBalances :: "Context \<Rightarrow> string \<Rightarrow> BalanceView list prog"
  lg_ListMovements :: "Context \<Rightarrow> MovementFilter \<Rightarrow> int \<Rightarrow> int \<Rightarrow> (MovementView list \<times> int) prog"
  lg_ListReservations :: "Context \<Rightarrow> string \<Rightarrow> int \<Rightarrow> int \<Rightarrow> (ReservationView list \<times> int) prog"
  lg_ReceiveStock :: "Context \<Rightarrow> StockCommand \<Rightarrow> bool prog"
  lg_AdjustOnHand :: "Context \<Rightarrow> StockCommand \<Rightarrow> bool prog"

type_synonym handler = "http_request \<Rightarrow> world \<Rightarrow> http_response \<times> world"
type_synonym middleware = "http_request \<Rightarrow> http_response + http_request"

section \<open>Helpers\<close>

definition backofficeRole :: string where "backofficeRole = ''backoffice_admin''"

definition actorSub :: "http_request \<Rightarrow> http_response + string" where
  "actorSub c =
     (if hr_CtxUserID c = '''' then Inl (RespondError 401 CodeUnauthorized ''Authentication required'')
      else Inr (hr_CtxUserID c))"

definition respondAdminError :: "Httpx \<Rightarrow> goerr \<Rightarrow> http_response" where
  "respondAdminError hx err =
     (if errors_Is err ErrInvalidCommand then RespondError 400 CodeValidation (Error (hx_PgText hx) err)
      else if errors_Is err ErrCommandConflict then
        RespondError 409 CodeIdempotencyConflict ''command_id was already used with a different payload''
      else if errors_Is err ErrInsufficientOnHand then
        RespondError 409 CodeStockUnavailable
          ''adjustment would violate balance invariants (on_hand >= reserved >= 0)''
      else if errors_Is err ErrBalanceNotFound then
        RespondError 404 CodeNotFound ''no balance row for that sku and warehouse''
      else RespondError 500 CodeInternal ''Internal server error'')"

text \<open>\<open>x, err := logic(...); if err != nil { respondAdminError(c, err); return }\<close> and then the response.\<close>

definition respond_with :: "Httpx \<Rightarrow> 'a prog \<Rightarrow> ('a \<Rightarrow> http_response) \<Rightarrow> world \<Rightarrow> http_response \<times> world" where
  "respond_with hx m k w =
     (case m w of (Inl err, w') \<Rightarrow> (respondAdminError hx err, w') | (Inr x, w') \<Rightarrow> (k x, w'))"

definition respondCommand :: "string \<Rightarrow> bool \<Rightarrow> http_response" where
  "respondCommand commandID applied = RespondJSON (if \<not> applied then 200 else 201) (CommandOutcome commandID applied)"

definition balance_json :: "BalanceView \<Rightarrow> balanceJSON" where
  "balance_json b =
     \<lparr>bj_sku_id = bv_SKUID b, bj_warehouse_id = bv_WarehouseID b, bj_on_hand = bv_OnHand b,
      bj_reserved = bv_Reserved b, bj_safety_stock = bv_SafetyStock b, bj_atp = bv_ATP b,
      bj_updated_at = bv_UpdatedAt b\<rparr>"

definition toBalanceJSON :: "BalanceView list \<Rightarrow> balanceJSON list" where
  "toBalanceJSON items = map balance_json items"

definition movement_json :: "MovementView \<Rightarrow> movementJSON" where
  "movement_json m =
     \<lparr>mj_id = mw_ID m, mj_command_id = mw_CommandID m, mj_sku_id = mw_SKUID m,
      mj_warehouse_id = mw_WarehouseID m, mj_type = mw_Type m, mj_on_hand_delta = mw_OnHandDelta m,
      mj_reserved_delta = mw_ReservedDelta m, mj_reference_type = mw_ReferenceType m,
      mj_reference_id = mw_ReferenceID m, mj_reason = mw_Reason m, mj_actor = mw_Actor m,
      mj_created_at = mw_CreatedAt m\<rparr>"

definition reservation_json :: "ReservationView \<Rightarrow> reservationJSON" where
  "reservation_json v =
     \<lparr>rj_id = rw_ID v, rj_order_id = rw_OrderID v, rj_status = rw_Status v,
      rj_expires_at = rw_ExpiresAt v, rj_created_at = rw_CreatedAt v, rj_updated_at = rw_UpdatedAt v\<rparr>"

text \<open>
  The \<open>warehouse_id\<close> parameter of the two list handlers: absent means no filter (0), and a value that
  is not a positive integer is refused.
\<close>

definition warehouse_query :: "http_request \<Rightarrow> http_response + int" where
  "warehouse_query c =
     (let raw = hr_Query c ''warehouse_id''
      in if raw \<noteq> '''' then
           (case ParseInt64 raw of
              None \<Rightarrow> Inl (RespondError 400 CodeValidation ''warehouse_id must be a positive integer'')
            | Some i \<Rightarrow>
                (if i \<le> 0 then Inl (RespondError 400 CodeValidation ''warehouse_id must be a positive integer'')
                 else Inr i))
         else Inr 0)"

section \<open>The handlers\<close>

definition handle_ListBalances :: "Httpx \<Rightarrow> adminLogic \<Rightarrow> handler" where
  "handle_ListBalances hx lg c w =
     (let (page, pageSize) = hx_ParsePage hx c
      in case warehouse_query c of
           Inl resp \<Rightarrow> (resp, w)
         | Inr i \<Rightarrow>
             respond_with hx
               (lg_ListBalances lg (hr_Context c)
                  \<lparr>bf_SKUID = hr_Query c ''sku_id'', bf_WarehouseID = i,
                   bf_LowStockOnly = (hr_Query c ''low_stock'' = ''true'')\<rparr>
                  pageSize (hx_Offset hx page pageSize))
               (\<lambda>(items, total). RespondJSON 200 (BalancePage (toBalanceJSON items) page pageSize total)) w)"

definition handle_SKUBalances :: "Httpx \<Rightarrow> adminLogic \<Rightarrow> handler" where
  "handle_SKUBalances hx lg c w =
     respond_with hx (lg_SKUBalances lg (hr_Context c) (hr_Param c ''skuId''))
       (\<lambda>items.
          if length items = 0 then RespondError 404 CodeNotFound ''SKU has no balance row in any warehouse''
          else RespondJSON 200 (BalanceItems (toBalanceJSON items))) w"

definition handle_ListMovements :: "Httpx \<Rightarrow> adminLogic \<Rightarrow> handler" where
  "handle_ListMovements hx lg c w =
     (let (page, pageSize) = hx_ParsePage hx c
      in case warehouse_query c of
           Inl resp \<Rightarrow> (resp, w)
         | Inr i \<Rightarrow>
             respond_with hx
               (lg_ListMovements lg (hr_Context c)
                  \<lparr>mf_SKUID = hr_Query c ''sku_id'', mf_WarehouseID = i\<rparr>
                  pageSize (hx_Offset hx page pageSize))
               (\<lambda>(items, total). RespondJSON 200 (MovementPage (map movement_json items) page pageSize total)) w)"

definition validReservationStatuses :: "string list" where
  "validReservationStatuses = [''reserved'', ''committed'', ''released'', ''expired'']"

definition handle_ListReservations :: "Httpx \<Rightarrow> adminLogic \<Rightarrow> handler" where
  "handle_ListReservations hx lg c w =
     (let (page, pageSize) = hx_ParsePage hx c;
          status = hr_Query c ''status''
      in if status \<noteq> '''' \<and> status \<notin> set validReservationStatuses
         then (RespondError 400 CodeValidation ''status must be one of reserved, committed, released, expired'', w)
         else
           respond_with hx
             (lg_ListReservations lg (hr_Context c) status pageSize (hx_Offset hx page pageSize))
             (\<lambda>(items, total). RespondJSON 200 (ReservationPage (map reservation_json items) page pageSize total)) w)"

text \<open>\<open>ShouldBindJSON\<close>: decoding, then the required fields.\<close>

definition bind_receipt :: "Httpx \<Rightarrow> string \<Rightarrow> receiptRequest option" where
  "bind_receipt hx body =
     (case hx_DecodeReceipt hx body of
        None \<Rightarrow> None
      | Some r \<Rightarrow>
          (if rc_CommandID r \<noteq> '''' \<and> rc_SKUID r \<noteq> '''' \<and> rc_WarehouseID r \<noteq> 0 \<and> rc_Quantity r \<noteq> 0
           then Some r else None))"

definition bind_adjustment :: "Httpx \<Rightarrow> string \<Rightarrow> adjustmentRequest option" where
  "bind_adjustment hx body =
     (case hx_DecodeAdjustment hx body of
        None \<Rightarrow> None
      | Some r \<Rightarrow>
          (if aj_CommandID r \<noteq> '''' \<and> aj_SKUID r \<noteq> '''' \<and> aj_WarehouseID r \<noteq> 0 \<and> aj_Delta r \<noteq> 0 \<and>
              aj_Reason r \<noteq> ''''
           then Some r else None))"

definition receipt_command :: "receiptRequest \<Rightarrow> string \<Rightarrow> StockCommand" where
  "receipt_command r sub =
     \<lparr>cmd_CommandID = rc_CommandID r, cmd_SKUID = rc_SKUID r, cmd_WarehouseID = rc_WarehouseID r,
      cmd_Quantity = rc_Quantity r, cmd_Reason = rc_Reason r, cmd_Actor = sub\<rparr>"

definition adjustment_command :: "adjustmentRequest \<Rightarrow> string \<Rightarrow> StockCommand" where
  "adjustment_command r sub =
     \<lparr>cmd_CommandID = aj_CommandID r, cmd_SKUID = aj_SKUID r, cmd_WarehouseID = aj_WarehouseID r,
      cmd_Quantity = aj_Delta r, cmd_Reason = aj_Reason r, cmd_Actor = sub\<rparr>"

definition handle_ReceiveStock :: "Httpx \<Rightarrow> adminLogic \<Rightarrow> handler" where
  "handle_ReceiveStock hx lg c w =
     (case actorSub c of
        Inl resp \<Rightarrow> (resp, w)
      | Inr sub \<Rightarrow>
          (case bind_receipt hx (hr_Body c) of
             None \<Rightarrow>
               (RespondError 400 CodeValidation ''command_id, sku_id, warehouse_id and quantity are required'', w)
           | Some req \<Rightarrow>
               (if rc_Quantity req \<le> 0 then (RespondError 400 CodeValidation ''quantity must be > 0'', w)
                else
                  respond_with hx (lg_ReceiveStock lg (hr_Context c) (receipt_command req sub))
                    (\<lambda>applied. respondCommand (rc_CommandID req) applied) w)))"

definition handle_AdjustOnHand :: "Httpx \<Rightarrow> adminLogic \<Rightarrow> handler" where
  "handle_AdjustOnHand hx lg c w =
     (case actorSub c of
        Inl resp \<Rightarrow> (resp, w)
      | Inr sub \<Rightarrow>
          (case bind_adjustment hx (hr_Body c) of
             None \<Rightarrow>
               (RespondError 400 CodeValidation ''command_id, sku_id, warehouse_id, delta and reason are required'', w)
           | Some req \<Rightarrow>
               respond_with hx (lg_AdjustOnHand lg (hr_Context c) (adjustment_command req sub))
                 (\<lambda>applied. respondCommand (aj_CommandID req) applied) w))"

section \<open>Routing\<close>

datatype http_method = GET | POST

text \<open>The middlewares run in order; the first that answers ends the request.\<close>

fun run_chain :: "middleware list \<Rightarrow> handler \<Rightarrow> handler" where
  "run_chain [] h c w = h c w"
| "run_chain (mw # mws) h c w = (case mw c of Inl resp \<Rightarrow> (resp, w) | Inr c' \<Rightarrow> run_chain mws h c' w)"

definition mount :: "Httpx \<Rightarrow> adminLogic \<Rightarrow> middleware list \<Rightarrow> (http_method \<times> string \<times> handler) list" where
  "mount hx lg authMW =
     map (\<lambda>(meth, path, h). (meth, ''/inventory/v1/protected'' @ path, run_chain authMW h))
       [(GET, ''/balances'', handle_ListBalances hx lg),
        (GET, ''/balances/:skuId'', handle_SKUBalances hx lg),
        (GET, ''/movements'', handle_ListMovements hx lg),
        (GET, ''/reservations'', handle_ListReservations hx lg),
        (POST, ''/receipts'', handle_ReceiveStock hx lg),
        (POST, ''/adjustments'', handle_AdjustOnHand hx lg)]"

definition RegisterRoutes ::
  "Httpx \<Rightarrow> adminLogic \<Rightarrow> middleware \<Rightarrow> (string \<Rightarrow> middleware) \<Rightarrow> (http_method \<times> string \<times> handler) list" where
  "RegisterRoutes hx lg jwt require_role = mount hx lg [jwt, require_role backofficeRole]"

text \<open>The logic the handlers are wired to.\<close>

definition logic_of :: "AdminService \<Rightarrow> adminLogic" where
  "logic_of s =
     \<lparr>lg_ListBalances = admin_ListBalances s, lg_SKUBalances = admin_SKUBalances s,
      lg_ListMovements = admin_ListMovements s, lg_ListReservations = admin_ListReservations s,
      lg_ReceiveStock = admin_ReceiveStock s, lg_AdjustOnHand = admin_AdjustOnHand s\<rparr>"

end
