(* ===== verification/Admin_Contract.thy ===== *)
theory Admin_Contract
  imports Admin_Http Error_Classes Quiet_Commands
begin

text \<open>
  What a client of the protected HTTP routes can rely on, composed from the handlers, the admin logic
  and the repositories.
\<close>

section \<open>The chain in front of a handler\<close>

text \<open>A middleware that ends a request does so with an error envelope.\<close>

definition rejects_with_error :: "middleware \<Rightarrow> bool" where
  "rejects_with_error mw \<longleftrightarrow> (\<forall>c resp. mw c = Inl resp \<longrightarrow> (\<exists>st code msg. resp = RespondError st code msg))"

definition handlers :: "Httpx \<Rightarrow> adminLogic \<Rightarrow> handler list" where
  "handlers hx lg =
     [handle_ListBalances hx lg, handle_SKUBalances hx lg, handle_ListMovements hx lg,
      handle_ListReservations hx lg, handle_ReceiveStock hx lg, handle_AdjustOnHand hx lg]"

lemma run_protected:
  "run_chain [jwt, require] h c w =
     (case jwt c of Inl resp \<Rightarrow> (resp, w)
      | Inr c1 \<Rightarrow> (case require c1 of Inl resp \<Rightarrow> (resp, w) | Inr c2 \<Rightarrow> h c2 w))"
  by (simp split: sum.split)

lemma registered_route:
  assumes "(meth, path, h) \<in> set (RegisterRoutes hx lg jwt require)"
  obtains g where "g \<in> set (handlers hx lg)" "h = run_chain [jwt, require backofficeRole] g"
    "meth = POST \<Longrightarrow> path = ''/inventory/v1/protected/receipts'' \<and> g = handle_ReceiveStock hx lg \<or>
       path = ''/inventory/v1/protected/adjustments'' \<and> g = handle_AdjustOnHand hx lg"
  using assms that unfolding RegisterRoutes_def mount_def handlers_def by auto

lemma passed_chain:
  assumes "rejects_with_error jwt" "rejects_with_error require"
    and "run_chain [jwt, require] g c w = (RespondJSON st body, w')"
  obtains c1 c2 where "jwt c = Inr c1" "require c1 = Inr c2" "g c2 w = (RespondJSON st body, w')"
  using assms unfolding rejects_with_error_def by (force simp: run_protected split: sum.splits)

section \<open>Commands\<close>

lemma runCommand_quiet:
  assumes "quiet w" "Validate cmd = None"
    and "\<And>u. quiet u \<Longrightarrow> w_db u = w_db w \<Longrightarrow> \<exists>u'. run cmd u = (q, u') \<and> quiet u' \<and> R (w_db u')"
  shows "\<exists>w'. runCommand ctx operation cmd run w = (map_sum (errorf_w (operation @ '': '')) id q, w') \<and>
    quiet w' \<and> R (w_db w')"
proof (rule runCommand_run [OF assms(2), of run w ctx operation])
  fix t x u t'
  assume "run cmd (w\<lparr>w_trace := t\<rparr>) = (x, u)"
    and "runCommand ctx operation cmd run w = (map_sum (errorf_w (operation @ '': '')) id x, u\<lparr>w_trace := t'\<rparr>)"
  with assms(3) [of "w\<lparr>w_trace := t\<rparr>"] assms(1) show ?thesis by auto
qed

lemma logic_of_sel [simp]:
  "lg_ListBalances (logic_of s) = admin_ListBalances s" "lg_SKUBalances (logic_of s) = admin_SKUBalances s"
  "lg_ListMovements (logic_of s) = admin_ListMovements s"
  "lg_ListReservations (logic_of s) = admin_ListReservations s"
  "lg_ReceiveStock (logic_of s) = admin_ReceiveStock s" "lg_AdjustOnHand (logic_of s) = admin_AdjustOnHand s"
  by (simp_all add: logic_of_def)

lemma stock_repository_sel [simp]:
  "sc_ReceiveStock stock_repository = ReceiveStock" "sc_AdjustOnHand stock_repository = AdjustOnHand"
  by (simp_all add: stock_repository_def)

lemma actorSub_Inr: "actorSub c = Inr sub \<longleftrightarrow> sub = hr_CtxUserID c \<and> sub \<noteq> ''''"
  by (auto simp: actorSub_def)

lemma bind_receipt_SomeD:
  "bind_receipt hx body = Some r \<Longrightarrow> hx_DecodeReceipt hx body = Some r \<and> rc_CommandID r \<noteq> '''' \<and> rc_SKUID r \<noteq> '''' \<and>
     rc_WarehouseID r \<noteq> 0 \<and> rc_Quantity r \<noteq> 0"
  by (auto simp: bind_receipt_def split: option.splits if_splits)

lemma bind_adjustment_SomeD:
  "bind_adjustment hx body = Some r \<Longrightarrow> hx_DecodeAdjustment hx body = Some r \<and> aj_CommandID r \<noteq> '''' \<and>
     aj_SKUID r \<noteq> '''' \<and> aj_WarehouseID r \<noteq> 0 \<and> aj_Delta r \<noteq> 0 \<and> aj_Reason r \<noteq> ''''"
  by (auto simp: bind_adjustment_def split: option.splits if_splits)

lemma respond_with_JSON:
  assumes "respond_with hx m k w = (RespondJSON st body, w')"
  obtains x where "m w = (Inr x, w')" "k x = RespondJSON st body"
  using assms by (auto simp: respond_with_def respondAdminError_def split: prod.splits sum.splits if_splits)

text \<open>A command that answered success came from an authenticated subject and is in the ledger under it.\<close>

lemma receipt_audited:
  assumes "concurrent w" "handle_ReceiveStock hx (logic_of wired_admin) c w = (RespondJSON st body, w')"
  shows "\<exists>r b. hx_DecodeReceipt hx (hr_Body c) = Some r \<and> 0 < rc_Quantity r \<and>
    body = CommandOutcome (rc_CommandID r) b \<and> st = (if b then 201 else 200) \<and> hr_CtxUserID c \<noteq> '''' \<and>
    db_inv (w_db w') \<and> db_guar (w_db w) (w_db w') \<and>
    recorded b (receipt_command r (hr_CtxUserID c)) MovementReceive (rc_Quantity r) (w_db w')"
proof -
  from assms(2) obtain sub r where r: "actorSub c = Inr sub" "bind_receipt hx (hr_Body c) = Some r" "0 < rc_Quantity r"
    and resp: "respond_with hx (admin_ReceiveStock wired_admin (hr_Context c) (receipt_command r sub))
      (\<lambda>applied. respondCommand (rc_CommandID r) applied) w = (RespondJSON st body, w')"
    by (auto simp: handle_ReceiveStock_def actorSub_def split: if_splits option.splits)
  from resp obtain b where run: "admin_ReceiveStock wired_admin (hr_Context c) (receipt_command r sub) w = (Inr b, w')"
    and b: "respondCommand (rc_CommandID r) b = RespondJSON st body" by (rule respond_with_JSON)
  have "cmd_Quantity (receipt_command r sub) = rc_Quantity r" by (simp add: receipt_command_def)
  with commander.command_recorded(1) [OF assms(1) wired_admin_sel(2) run] b r bind_receipt_SomeD [OF r(2)] show ?thesis
    by (intro exI [of _ r] exI [of _ b]) (auto simp: respondCommand_def actorSub_Inr)
qed

lemma adjustment_audited:
  assumes "concurrent w" "handle_AdjustOnHand hx (logic_of wired_admin) c w = (RespondJSON st body, w')"
  shows "\<exists>r b. hx_DecodeAdjustment hx (hr_Body c) = Some r \<and> aj_Delta r \<noteq> 0 \<and> aj_Reason r \<noteq> '''' \<and>
    body = CommandOutcome (aj_CommandID r) b \<and> st = (if b then 201 else 200) \<and> hr_CtxUserID c \<noteq> '''' \<and>
    db_inv (w_db w') \<and> db_guar (w_db w) (w_db w') \<and>
    recorded b (adjustment_command r (hr_CtxUserID c)) MovementAdjust (aj_Delta r) (w_db w')"
proof -
  from assms(2) obtain sub r where r: "actorSub c = Inr sub" "bind_adjustment hx (hr_Body c) = Some r"
    and resp: "respond_with hx (admin_AdjustOnHand wired_admin (hr_Context c) (adjustment_command r sub))
      (\<lambda>applied. respondCommand (aj_CommandID r) applied) w = (RespondJSON st body, w')"
    by (auto simp: handle_AdjustOnHand_def actorSub_def split: if_splits option.splits)
  from resp obtain b where run: "admin_AdjustOnHand wired_admin (hr_Context c) (adjustment_command r sub) w = (Inr b, w')"
    and b: "respondCommand (aj_CommandID r) b = RespondJSON st body" by (rule respond_with_JSON)
  have "cmd_Quantity (adjustment_command r sub) = aj_Delta r" by (simp add: adjustment_command_def)
  with commander.command_recorded(2) [OF assms(1) wired_admin_sel(2) run] b r bind_adjustment_SomeD [OF r(2)] show ?thesis
    by (intro exI [of _ r] exI [of _ b]) (auto simp: respondCommand_def actorSub_Inr)
qed

section \<open>Errors\<close>

definition not_invalid :: "goerr \<Rightarrow> bool" where
  "not_invalid e \<longleftrightarrow> \<not> errors_Is e ErrInvalidCommand"

interpretation other: error_class not_invalid
  by unfold_locales (auto simp: not_invalid_def repository_sentinels_def)

text \<open>The error responses of the handlers, by status.\<close>

definition listed_errors :: "(nat \<times> httpx_code \<times> string) list" where
  "listed_errors =
     [(401, CodeUnauthorized, ''Authentication required''),
      (400, CodeValidation, ''warehouse_id must be a positive integer''),
      (400, CodeValidation, ''status must be one of reserved, committed, released, expired''),
      (400, CodeValidation, ''command_id, sku_id, warehouse_id and quantity are required''),
      (400, CodeValidation, ''quantity must be > 0''),
      (400, CodeValidation, ''command_id, sku_id, warehouse_id, delta and reason are required''),
      (404, CodeNotFound, ''SKU has no balance row in any warehouse''),
      (404, CodeNotFound, ''no balance row for that sku and warehouse''),
      (409, CodeIdempotencyConflict, ''command_id was already used with a different payload''),
      (409, CodeStockUnavailable, ''adjustment would violate balance invariants (on_hand >= reserved >= 0)''),
      (500, CodeInternal, ''Internal server error'')]"

text \<open>The one response that carries an error's text: the client's own invalid command.\<close>

definition validation_error :: "http_response \<Rightarrow> bool" where
  "validation_error resp \<longleftrightarrow>
     (\<exists>cmd msg. Validate cmd = Some (ErrorsNew msg) \<and>
        resp = RespondError 400 CodeValidation (''invalid stock command: '' @ msg))"

definition allowed_error :: "http_response \<Rightarrow> bool" where
  "allowed_error resp \<longleftrightarrow>
     (\<exists>st code msg. resp = RespondError st code msg \<and> (st, code, msg) \<in> set listed_errors) \<or> validation_error resp"

lemma respond_listed: "not_invalid e \<Longrightarrow> allowed_error (respondAdminError hx e)"
  by (auto simp: respondAdminError_def not_invalid_def allowed_error_def listed_errors_def)

lemma Validate_text: "Validate cmd = Some err \<Longrightarrow> \<exists>msg. err = ErrorsNew msg"
  by (auto simp: Validate_def split: if_splits)

lemma runCommand_listed:
  assumes "answers not_invalid (run cmd)" "faults_in not_invalid w"
    and "runCommand ctx operation cmd run w = (Inl e, w')"
  shows "allowed_error (respondAdminError hx e)"
proof (cases "Validate cmd")
  case None
  from runCommand_run [OF None, of run w ctx operation] obtain t q u t' where
    run: "run cmd (w\<lparr>w_trace := t\<rparr>) = (q, u)"
    and eq: "runCommand ctx operation cmd run w = (map_sum (errorf_w (operation @ '': '')) id q, u\<lparr>w_trace := t'\<rparr>)"
    by metis
  from eq assms(3) obtain e0 where q: "q = Inl e0" "e = errorf_w (operation @ '': '') e0" by (cases q) auto
  have "not_invalid e0" using triple_Inl [OF assms(1) _ run [unfolded q(1)]] assms(2) by simp
  then show ?thesis using q(2) by (intro respond_listed) (simp add: not_invalid_def)
next
  case (Some err)
  from runCommand_invalid [OF Some, of ctx operation run w] assms(3)
  have "e = Wrap2 (Sentinel ErrInvalidCommand) err" by (metis Inl_inject prod.inject)
  with Validate_text [OF Some] Some show ?thesis
    by (auto simp: respondAdminError_def allowed_error_def validation_error_def)
qed

lemma traced_read_listed:
  assumes "answers not_invalid read" "faults_in not_invalid w"
    and "traced_read ctx operation pre read w = (Inl e, w')"
  shows "allowed_error (respondAdminError hx e)"
proof -
  obtain t q u t' where run: "read (w\<lparr>w_trace := t\<rparr>) = (q, u)"
    and eq: "traced_read ctx operation pre read w = (map_sum (errorf_w pre) id q, u\<lparr>w_trace := t'\<rparr>)"
    by (rule traced_read_run [of read w ctx operation pre])
  from eq assms(3) obtain e0 where q: "q = Inl e0" "e = errorf_w pre e0" by (cases q) auto
  have "not_invalid e0" using triple_Inl [OF assms(1) _ run [unfolded q(1)]] assms(2) by simp
  then show ?thesis using q(2) by (intro respond_listed) (simp add: not_invalid_def)
qed

lemma checked_answers: "answers not_invalid (pool_query_checked p)"
  unfolding pool_query_checked_def by (intro other.class_rules other.in_class)

lemma listTotal_answers: "answers not_invalid (listTotal table cols rows ca)"
  unfolding listTotal_def by (intro other.class_rules other.in_class)

lemma list_page_answers: "answers not_invalid (list_page what cols rows ca limit offset)"
  unfolding list_page_def by (intro other.class_rules checked_answers other.in_class)

lemma reads_answer:
  "answers not_invalid (ListBalances f limit offset)" "answers not_invalid (SKUBalances s)"
  "answers not_invalid (ListMovements g limit offset)" "answers not_invalid (ListReservations st limit offset)"
proof -
  note lists = listTotal_answers list_page_answers
  show "answers not_invalid (ListBalances f limit offset)"
    "answers not_invalid (ListMovements g limit offset)" "answers not_invalid (ListReservations st limit offset)"
    unfolding ListBalances_def ListMovements_def ListReservations_def Let_def
    by (intro other.class_rules lists)+
  show "answers not_invalid (SKUBalances s)"
    unfolding SKUBalances_def by (intro other.class_rules other.in_class)
qed

lemma admin_repository_sel [simp]:
  "ar_ListBalances admin_repository = ListBalances" "ar_SKUBalances admin_repository = SKUBalances"
  "ar_ListMovements admin_repository = ListMovements" "ar_ListReservations admin_repository = ListReservations"
  by (simp_all add: admin_repository_def)

lemma logic_listed:
  assumes "faults_in not_invalid w"
  shows "admin_ListBalances wired_admin ctx f limit offset w = (Inl e, w') \<Longrightarrow> allowed_error (respondAdminError hx e)"
    and "admin_SKUBalances wired_admin ctx s w = (Inl e, w') \<Longrightarrow> allowed_error (respondAdminError hx e)"
    and "admin_ListMovements wired_admin ctx g limit offset w = (Inl e, w') \<Longrightarrow> allowed_error (respondAdminError hx e)"
    and "admin_ListReservations wired_admin ctx st limit offset w = (Inl e, w') \<Longrightarrow> allowed_error (respondAdminError hx e)"
    and "admin_ReceiveStock wired_admin ctx cmd w = (Inl e, w') \<Longrightarrow> allowed_error (respondAdminError hx e)"
    and "admin_AdjustOnHand wired_admin ctx cmd w = (Inl e, w') \<Longrightarrow> allowed_error (respondAdminError hx e)"
  using assms
  by (auto simp: admin_ListBalances_def admin_SKUBalances_def admin_ListMovements_def admin_ListReservations_def
      admin_ReceiveStock_def admin_AdjustOnHand_def reads_answer other.command_answers
      elim!: traced_read_listed [rotated 2] runCommand_listed [rotated 2])

lemma respond_with_listed:
  assumes "respond_with hx m k w = (RespondError st code msg, w')"
    and "\<And>e u. m w = (Inl e, u) \<Longrightarrow> allowed_error (respondAdminError hx e)"
    and "\<And>x. k x = RespondError st code msg \<Longrightarrow> allowed_error (RespondError st code msg)"
  shows "allowed_error (RespondError st code msg)"
proof (cases "m w")
  case (Pair q u)
  show ?thesis
  proof (cases q)
    case (Inl e)
    then have "respondAdminError hx e = RespondError st code msg"
      using assms(1) Pair by (simp add: respond_with_def)
    with assms(2) Pair Inl show ?thesis by metis
  next
    case (Inr x)
    with assms(1,3) Pair show ?thesis by (auto simp: respond_with_def)
  qed
qed

lemma handlers_listed:
  assumes w: "faults_in not_invalid w" and g: "g \<in> set (handlers hx (logic_of wired_admin))"
    and run: "g c w = (RespondError st code msg, w')"
  shows "allowed_error (RespondError st code msg)"
proof -
  note hs = handle_ListBalances_def handle_SKUBalances_def handle_ListMovements_def handle_ListReservations_def
    handle_ReceiveStock_def handle_AdjustOnHand_def
  have direct: "(s, co, m) \<in> set listed_errors \<Longrightarrow> allowed_error (RespondError s co m)" for s co m
    by (auto simp: allowed_error_def)
  from g consider "g = handle_ListBalances hx (logic_of wired_admin)" | "g = handle_SKUBalances hx (logic_of wired_admin)"
    | "g = handle_ListMovements hx (logic_of wired_admin)" | "g = handle_ListReservations hx (logic_of wired_admin)"
    | "g = handle_ReceiveStock hx (logic_of wired_admin)" | "g = handle_AdjustOnHand hx (logic_of wired_admin)"
    by (auto simp: handlers_def)
  then show ?thesis
    by cases
       (use run in \<open>auto simp: hs warehouse_query_def actorSub_def Let_def listed_errors_def respondCommand_def
          intro: direct elim!: respond_with_listed intro: logic_listed [OF w]
          split: prod.splits option.splits if_splits\<close>)
qed

section \<open>Receipts and lists of a quiet world\<close>

lemma handled_receipt:
  assumes "actorSub c = Inr sub" "bind_receipt hx (hr_Body c) = Some r" "0 < rc_Quantity r" "quiet w"
    and "Validate (receipt_command r sub) = None"
    and "\<And>u. quiet u \<Longrightarrow> w_db u = w_db w \<Longrightarrow>
      \<exists>u'. ReceiveStock (receipt_command r sub) u = (Inr b, u') \<and> quiet u' \<and> R (w_db u')"
  shows "\<exists>w'. handle_ReceiveStock hx (logic_of wired_admin) c w = (respondCommand (rc_CommandID r) b, w') \<and>
    quiet w' \<and> R (w_db w')"
  using runCommand_quiet [where run = ReceiveStock and R = R and ctx = "hr_Context c" and operation = opReceiveStock,
      OF assms(4,5,6)] assms(1-3)
  by (auto simp: handle_ReceiveStock_def respond_with_def admin_ReceiveStock_def)

lemma received:
  assumes "quiet w" "db_inv (w_db w)" "new_command cmd (w_db w)" "0 < cmd_Quantity cmd" "int64_range (cmd_Quantity cmd)"
  shows "\<exists>w' m. ReceiveStock cmd w = (Inr True, w') \<and> quiet w' \<and>
    (\<forall>k. on_hand_of (w_db w') k = on_hand_of (w_db w) k + (if k = command_key cmd then cmd_Quantity cmd else 0) \<and>
       reserved_of (w_db w') k = reserved_of (w_db w) k) \<and>
    select_movement (cmd_CommandID cmd) (w_db w') = Some m \<and> same_command cmd MovementReceive (cmd_Quantity cmd) m"
proof -
  let ?m = "command_movement cmd MovementReceive (cmd_Quantity cmd) (w_seq w) (w_now w)"
  from ReceiveStock_new [OF assms] obtain w' r where run: "ReceiveStock cmd w = (Inr True, w')" "quiet w'"
    and r: "on_hand r = on_hand_of (w_db w) (command_key cmd) + cmd_Quantity cmd"
      "reserved r = reserved_of (w_db w) (command_key cmd)"
    and db: "apply_writes [WMovement ?m, WBalance (command_key cmd) r] (w_db w) = w_db w'" by metis
  have id: "mv_command_id ?m = cmd_CommandID cmd" by (simp add: command_movement_def)
  have "select_movement (cmd_CommandID cmd) (w_db w') = Some ?m"
    using select_appended [of "w_db w" ?m "command_key cmd" r] assms(3) unfolding db id by (simp add: new_command_def)
  moreover have "same_command cmd MovementReceive (cmd_Quantity cmd) ?m"
    by (simp add: same_command_def command_movement_def coalesce_def)
  ultimately show ?thesis using stored_quantities [OF db] run r by auto
qed

lemma received_again:
  assumes "quiet w" "new_command cmd d" "0 < cmd_Quantity cmd"
    and "select_movement (cmd_CommandID cmd) (w_db w) = Some m" "same_command cmd MovementReceive (cmd_Quantity cmd) m"
  shows "\<exists>w'. ReceiveStock cmd w = (Inr False, w') \<and> quiet w' \<and> w_db w' = w_db w"
proof -
  have cmd: "Validate cmd = None" "varchar_assign 64 (cmd_Reason cmd) \<noteq> None" using assms(2) by (simp_all add: new_command_def)
  from run_command_known [OF assms(1) cmd _ assms(4), of MovementReceive "cmd_Quantity cmd" "receive_change cmd"] assms(3,5)
  show ?thesis by (simp add: ReceiveStock_def cmd command_types_def)
qed

text \<open>The balances a request asks for, and a page of them as the handler answers it.\<close>

definition requested_filter :: "http_request \<Rightarrow> int \<Rightarrow> BalanceFilter" where
  "requested_filter c i =
     \<lparr>bf_SKUID = hr_Query c ''sku_id'', bf_WarehouseID = i, bf_LowStockOnly = (hr_Query c ''low_stock'' = ''true'')\<rparr>"

definition requested_balances :: "http_request \<Rightarrow> int \<Rightarrow> db \<Rightarrow> balanceJSON list" where
  "requested_balances c i d =
     toBalanceJSON (map balance_view (filter (balance_selected (requested_filter c i)) (ordered_balances d)))"

lemma page_of_map: "page_of limit offset (map f xs) = map f (page_of limit offset xs)"
  by (simp add: page_of_def take_map drop_map)

lemma handled_balances:
  assumes "quiet w" "warehouse_query c = Inr i" "hx_ParsePage hx c = (page, psize)"
    and "0 \<le> psize" "0 \<le> hx_Offset hx page psize"
  shows "\<exists>w'. handle_ListBalances hx (logic_of wired_admin) c w =
      (RespondJSON 200 (BalancePage (page_of psize (hx_Offset hx page psize) (requested_balances c i (w_db w)))
         page psize (int (length (requested_balances c i (w_db w))))), w') \<and> w_db w' = w_db w"
proof -
  from views.lists_reported(1) [OF assms(1) wired_admin_sel(1) assms(4,5), of "hr_Context c" "requested_filter c i"]
  obtain w' where "admin_ListBalances wired_admin (hr_Context c) (requested_filter c i) psize (hx_Offset hx page psize) w =
      (Inr (map balance_view (page_of psize (hx_Offset hx page psize)
          (filter (balance_selected (requested_filter c i)) (ordered_balances (w_db w)))),
        int (length (filter (balance_selected (requested_filter c i)) (ordered_balances (w_db w))))), w')"
    "w_db w' = w_db w" by blast
  then show ?thesis
    by (simp add: handle_ListBalances_def assms(2,3) respond_with_def requested_balances_def toBalanceJSON_def
        page_of_map requested_filter_def)
qed

text \<open>\<open>low_stock=true\<close> lists exactly the balances nothing more can be promised from.\<close>

lemma low_stock_listed:
  assumes "hr_Query c ''low_stock'' = ''true''" "hr_Query c ''sku_id'' = ''''" "distinct (map fst (balances d))"
  shows "map (\<lambda>b. (bj_sku_id b, bj_warehouse_id b)) (requested_balances c 0 d) =
    filter (\<lambda>k. \<exists>r. map_of (balances d) k = Some r \<and> row_atp r = 0) (map fst (ordered_balances d))"
proof -
  have "map_of (balances d) (fst kr) = Some (snd kr)" if "kr \<in> set (ordered_balances d)" for kr
    using that assms(3) by (auto simp: ordered_balances_def)
  then have "filter (balance_selected (requested_filter c 0)) (ordered_balances d) =
      filter (\<lambda>kr. \<exists>r. map_of (balances d) (fst kr) = Some r \<and> row_atp r = 0) (ordered_balances d)"
    by (intro filter_cong refl) (auto simp: balance_selected_def requested_filter_def assms(1,2))
  then show ?thesis
    by (simp add: requested_balances_def toBalanceJSON_def balance_json_def balance_view_def comp_def filter_map)
qed

end
