(* ===== verification/Admin_Properties.thy ===== *)
theory Admin_Properties
  imports Admin_Contract Sample_Runs
begin

text \<open>The properties of the protected HTTP surface, from the routes down to the committed state.\<close>

section \<open>Samples\<close>

text \<open>A concrete page parser and decoder, an authenticator and a role check.\<close>

definition sample_httpx :: Httpx where
  "sample_httpx =
     \<lparr>hx_ParsePage = (\<lambda>c. (1, 20)), hx_Offset = (\<lambda>page psize. (page - 1) * psize),
      hx_DecodeReceipt = (\<lambda>body.
        if body = ''receipt''
        then Some \<lparr>rc_CommandID = ''c1'', rc_SKUID = ''A'', rc_WarehouseID = 1, rc_Quantity = 10, rc_Reason = ''''\<rparr>
        else None),
      hx_DecodeAdjustment = (\<lambda>body. None), hx_PgText = (\<lambda>code. code)\<rparr>"

definition sample_http_request :: http_request where
  "sample_http_request =
     \<lparr>hr_Query = (\<lambda>k. if k = ''low_stock'' then ''true'' else ''''), hr_Param = (\<lambda>k. ''''), hr_CtxUserID = '''',
      hr_Body = ''receipt'', hr_Context = \<lparr>ctx_recording = True\<rparr>\<rparr>"

definition sample_jwt :: middleware where
  "sample_jwt c = Inr (c\<lparr>hr_CtxUserID := ''ops''\<rparr>)"

definition sample_role :: "string \<Rightarrow> middleware" where
  "sample_role role c =
     (if role = ''backoffice_admin'' then Inr c else Inl (RespondError 403 CodeUnauthorized ''forbidden''))"

lemma sample_middlewares: "rejects_with_error sample_jwt" "rejects_with_error (sample_role r)"
  by (auto simp: rejects_with_error_def sample_jwt_def sample_role_def)

text \<open>The receipt of the sample body is \<open>sample_receipt\<close>.\<close>

lemma sample_body:
  "bind_receipt sample_httpx ''receipt'' =
     Some \<lparr>rc_CommandID = ''c1'', rc_SKUID = ''A'', rc_WarehouseID = 1, rc_Quantity = 10, rc_Reason = ''''\<rparr>"
  "receipt_command \<lparr>rc_CommandID = ''c1'', rc_SKUID = ''A'', rc_WarehouseID = 1, rc_Quantity = 10, rc_Reason = ''''\<rparr>
     ''ops'' = sample_receipt"
  by (simp_all add: bind_receipt_def sample_httpx_def receipt_command_def sample_receipt_def)

lemma sample_new: "new_command sample_receipt (w_db sample_start)"
  by (simp add: new_command_def sample_receipt_def sample_start_def migrated_def Validate_def varchar_def char_length_def
      has_command_def has_warehouse_def)

section \<open>Commands\<close>

text \<open>
  C31. Stock commands are authenticated and audited. When a POST route answers success, in any
  concurrent world and whatever the driver does, both middlewares have let the request through, the
  body decodes to a receipt of a positive quantity or to an adjustment by a non-zero delta with a reason,
  the status is 201 for a command that was applied and 200 for a replay, and the ledger of the
  committed state holds a movement with the id, the SKU, the warehouse, the quantity or delta and the
  reason of exactly that body, whose actor is the verified subject of the token. When the command was applied, a
  reason of more than 64 characters is held as its first 64, and all it has beyond them are blanks.
\<close>

theorem admin_command_audited:
  assumes "concurrent w" and "(POST, path, h) \<in> set (RegisterRoutes hx (logic_of wired_admin) jwt require)"
    and "rejects_with_error jwt" and "rejects_with_error (require backofficeRole)"
    and "h c w = (RespondJSON st body, w')"
  shows "\<exists>c1 c2 b. jwt c = Inr c1 \<and> require backofficeRole c1 = Inr c2 \<and> hr_CtxUserID c2 \<noteq> '''' \<and>
    st = (if b then 201 else 200) \<and> db_inv (w_db w') \<and> db_guar (w_db w) (w_db w') \<and>
    (path = ''/inventory/v1/protected/receipts'' \<and>
       (\<exists>r. hx_DecodeReceipt hx (hr_Body c2) = Some r \<and> 0 < rc_Quantity r \<and>
         body = CommandOutcome (rc_CommandID r) b \<and>
         recorded b
           \<lparr>cmd_CommandID = rc_CommandID r, cmd_SKUID = rc_SKUID r, cmd_WarehouseID = rc_WarehouseID r,
            cmd_Quantity = rc_Quantity r, cmd_Reason = rc_Reason r, cmd_Actor = hr_CtxUserID c2\<rparr>
           MovementReceive (rc_Quantity r) (w_db w')) \<or>
     path = ''/inventory/v1/protected/adjustments'' \<and>
       (\<exists>r. hx_DecodeAdjustment hx (hr_Body c2) = Some r \<and> aj_Delta r \<noteq> 0 \<and> aj_Reason r \<noteq> '''' \<and>
         body = CommandOutcome (aj_CommandID r) b \<and>
         recorded b
           \<lparr>cmd_CommandID = aj_CommandID r, cmd_SKUID = aj_SKUID r, cmd_WarehouseID = aj_WarehouseID r,
            cmd_Quantity = aj_Delta r, cmd_Reason = aj_Reason r, cmd_Actor = hr_CtxUserID c2\<rparr>
           MovementAdjust (aj_Delta r) (w_db w')))"
proof -
  from assms(2) obtain g where h: "h = run_chain [jwt, require backofficeRole] g"
    and g: "path = ''/inventory/v1/protected/receipts'' \<and> g = handle_ReceiveStock hx (logic_of wired_admin) \<or>
      path = ''/inventory/v1/protected/adjustments'' \<and> g = handle_AdjustOnHand hx (logic_of wired_admin)"
    by (rule registered_route) blast
  from assms(5) [unfolded h] obtain c1 c2 where c: "jwt c = Inr c1" "require backofficeRole c1 = Inr c2"
    "g c2 w = (RespondJSON st body, w')" by (rule passed_chain [OF assms(3,4)])
  from g show ?thesis
  proof
    assume "path = ''/inventory/v1/protected/receipts'' \<and> g = handle_ReceiveStock hx (logic_of wired_admin)"
    with receipt_audited [OF assms(1), of hx c2] c show ?thesis unfolding receipt_command_def by metis
  next
    assume "path = ''/inventory/v1/protected/adjustments'' \<and> g = handle_AdjustOnHand hx (logic_of wired_admin)"
    with adjustment_audited [OF assms(1), of hx c2] c show ?thesis unfolding adjustment_command_def by metis
  qed
qed

text \<open>The sample request, through the registered route: its row is in the ledger, field by field.\<close>

theorem admin_command_audited_witness:
  "\<exists>w'. run_chain [sample_jwt, sample_role backofficeRole] (handle_ReceiveStock sample_httpx (logic_of wired_admin))
       sample_http_request sample_start = (RespondJSON 201 (CommandOutcome ''c1'' True), w') \<and>
     recorded True
       \<lparr>cmd_CommandID = ''c1'', cmd_SKUID = ''A'', cmd_WarehouseID = 1, cmd_Quantity = 10,
        cmd_Reason = '''', cmd_Actor = ''ops''\<rparr> MovementReceive 10 (w_db w')"
proof -
  let ?h = "run_chain [sample_jwt, sample_role backofficeRole] (handle_ReceiveStock sample_httpx (logic_of wired_admin))"
  let ?c = "sample_http_request\<lparr>hr_CtxUserID := ''ops''\<rparr>"
  have pass: "sample_jwt sample_http_request = Inr ?c" "sample_role backofficeRole ?c = Inr ?c"
    by (simp_all add: sample_jwt_def sample_role_def backofficeRole_def)
  have "fst (handle_ReceiveStock sample_httpx (logic_of wired_admin) ?c sample_start) =
      RespondJSON 201 (CommandOutcome ''c1'' True)" by code_simp
  then obtain w' where run: "?h sample_http_request sample_start = (RespondJSON 201 (CommandOutcome ''c1'' True), w')"
    by (cases "handle_ReceiveStock sample_httpx (logic_of wired_admin) ?c sample_start")
       (simp add: pass del: run_chain.simps add: run_protected)
  have route: "(POST, ''/inventory/v1/protected/receipts'', ?h) \<in>
      set (RegisterRoutes sample_httpx (logic_of wired_admin) sample_jwt sample_role)"
    by (simp add: RegisterRoutes_def mount_def)
  from admin_command_audited [OF sample_concurrent(1) route sample_middlewares run] pass run show ?thesis
    by (auto simp: sample_httpx_def sample_http_request_def)
qed

text \<open>
  C32. Receipts are idempotent over HTTP. In a quiet world, posting a receipt under a new command id
  answers 201 and adds exactly its quantity to this balance; posting it again answers 200 with
  \<open>applied: false\<close> and changes nothing.
\<close>

theorem receipt_retry:
  assumes "quiet w" and "db_inv (w_db w)" and "bind_receipt hx (hr_Body c) = Some r" and "hr_CtxUserID c \<noteq> ''''"
    and "0 < rc_Quantity r" and "int64_range (rc_Quantity r)"
    and "new_command (receipt_command r (hr_CtxUserID c)) (w_db w)"
  shows "\<exists>w1 w2. handle_ReceiveStock hx (logic_of wired_admin) c w =
      (RespondJSON 201 (CommandOutcome (rc_CommandID r) True), w1) \<and>
    (\<forall>k. on_hand_of (w_db w1) k = on_hand_of (w_db w) k + (if k = (rc_SKUID r, rc_WarehouseID r) then rc_Quantity r else 0) \<and>
       reserved_of (w_db w1) k = reserved_of (w_db w) k) \<and>
    handle_ReceiveStock hx (logic_of wired_admin) c w1 =
      (RespondJSON 200 (CommandOutcome (rc_CommandID r) False), w2) \<and> w_db w2 = w_db w1"
proof -
  let ?cmd = "receipt_command r (hr_CtxUserID c)"
  let ?R = "\<lambda>d. (\<forall>k. on_hand_of d k = on_hand_of (w_db w) k + (if k = command_key ?cmd then cmd_Quantity ?cmd else 0) \<and>
       reserved_of d k = reserved_of (w_db w) k) \<and>
    (\<exists>m. select_movement (cmd_CommandID ?cmd) d = Some m \<and> same_command ?cmd MovementReceive (cmd_Quantity ?cmd) m)"
  have sub: "actorSub c = Inr (hr_CtxUserID c)" and q: "0 < cmd_Quantity ?cmd" "int64_range (cmd_Quantity ?cmd)"
    and v: "Validate ?cmd = None"
    using assms(4-7) by (simp_all add: actorSub_def receipt_command_def new_command_def)
  have "\<exists>u'. ReceiveStock ?cmd u = (Inr True, u') \<and> quiet u' \<and> ?R (w_db u')" if "quiet u" "w_db u = w_db w" for u
    using received [of u ?cmd] that assms(2,7) q by auto
  from handled_receipt [where R = ?R and b = True, OF sub assms(3,5,1) v this] obtain w1 where
    w1: "handle_ReceiveStock hx (logic_of wired_admin) c w = (respondCommand (rc_CommandID r) True, w1)" "quiet w1"
    and R: "?R (w_db w1)" by blast
  have "\<exists>u'. ReceiveStock ?cmd u = (Inr False, u') \<and> quiet u' \<and> w_db u' = w_db w1"
    if "quiet u" "w_db u = w_db w1" for u
    using R received_again [OF that(1) assms(7) q(1)] that(2) by auto
  from handled_receipt [where R = "\<lambda>d. d = w_db w1" and b = False, OF sub assms(3,5) w1(2) v this] obtain w2 where
    "handle_ReceiveStock hx (logic_of wired_admin) c w1 = (respondCommand (rc_CommandID r) False, w2)" "w_db w2 = w_db w1"
    by blast
  with w1 R show ?thesis by (auto simp: respondCommand_def receipt_command_def)
qed

theorem receipt_retry_witness:
  "\<exists>w1 w2. handle_ReceiveStock sample_httpx (logic_of wired_admin) (sample_http_request\<lparr>hr_CtxUserID := ''ops''\<rparr>) sample_start =
       (RespondJSON 201 (CommandOutcome ''c1'' True), w1) \<and> on_hand_of (w_db w1) (''A'', 1) = 10 \<and>
     handle_ReceiveStock sample_httpx (logic_of wired_admin) (sample_http_request\<lparr>hr_CtxUserID := ''ops''\<rparr>) w1 =
       (RespondJSON 200 (CommandOutcome ''c1'' False), w2) \<and> w_db w2 = w_db w1"
proof -
  let ?c = "sample_http_request\<lparr>hr_CtxUserID := ''ops''\<rparr>"
  let ?r = "\<lparr>rc_CommandID = ''c1'', rc_SKUID = ''A'', rc_WarehouseID = 1, rc_Quantity = 10, rc_Reason = ''''\<rparr>"
  have c: "bind_receipt sample_httpx (hr_Body ?c) = Some ?r" "hr_CtxUserID ?c \<noteq> ''''"
    "new_command (receipt_command ?r (hr_CtxUserID ?c)) (w_db sample_start)"
    using sample_new by (simp_all add: sample_body sample_http_request_def)
  have q: "0 < rc_Quantity ?r" "int64_range (rc_Quantity ?r)" by (simp_all add: int64_range_def)
  have start: "on_hand_of (w_db sample_start) (''A'', 1) = 0"
    by (simp add: sample_start_def migrated_def on_hand_of_def)
  from receipt_retry [OF quiet_samples(1) reachable_inv [OF sample_reachable(1)] c(1,2) q c(3)] start
  show ?thesis by auto
qed

section \<open>Errors\<close>

text \<open>
  C33. Nothing internal leaks. Whatever the driver fails with, every error response of the protected
  routes is the middleware's own, or one of eleven fixed responses, or a 400 that quotes the
  validation error of the client's own command; no SQL, driver or internal error text is answered.
  The hypothesis on the driver is that its errors do not wrap this service's validation sentinel.
\<close>

theorem admin_errors_listed:
  assumes "(meth, path, h) \<in> set (RegisterRoutes hx (logic_of wired_admin) jwt require)"
    and "faults_in (\<lambda>e. \<not> errors_Is e ErrInvalidCommand) w" and "h c w = (RespondError st code msg, w')"
  shows "(jwt c = Inl (RespondError st code msg) \<or>
     (\<exists>c1. jwt c = Inr c1 \<and> require backofficeRole c1 = Inl (RespondError st code msg))) \<and> w' = w \<or>
    (st, code, msg) \<in> set listed_errors \<or>
    st = 400 \<and> code = CodeValidation \<and>
      (\<exists>cmd txt. Validate cmd = Some (ErrorsNew txt) \<and> msg = ''invalid stock command: '' @ txt)"
proof -
  have "faults_in not_invalid w" using assms(2) by (simp add: not_invalid_def [abs_def])
  note listed = handlers_listed [OF this]
  from assms(1) obtain g where g: "g \<in> set (handlers hx (logic_of wired_admin))"
    and h: "h = run_chain [jwt, require backofficeRole] g" by (rule registered_route)
  show ?thesis
  proof (cases "\<exists>c1 c2. jwt c = Inr c1 \<and> require backofficeRole c1 = Inr c2")
    case True
    then obtain c1 c2 where c: "jwt c = Inr c1" "require backofficeRole c1 = Inr c2" by blast
    with assms(3) have "g c2 w = (RespondError st code msg, w')" by (simp add: h)
    from listed [OF g this] show ?thesis by (auto simp: allowed_error_def validation_error_def)
  next
    case False
    with assms(3) show ?thesis by (auto simp: h run_protected split: sum.splits)
  qed
qed

text \<open>An adjustment whose body cannot be decoded.\<close>

theorem admin_errors_listed_witness:
  "\<exists>w'. run_chain [sample_jwt, sample_role backofficeRole] (handle_AdjustOnHand sample_httpx (logic_of wired_admin))
       sample_http_request sample_start =
     (RespondError 400 CodeValidation ''command_id, sku_id, warehouse_id, delta and reason are required'', w') \<and>
   (400, CodeValidation, ''command_id, sku_id, warehouse_id, delta and reason are required'') \<in> set listed_errors"
proof -
  let ?h = "run_chain [sample_jwt, sample_role backofficeRole] (handle_AdjustOnHand sample_httpx (logic_of wired_admin))"
  let ?msg = "''command_id, sku_id, warehouse_id, delta and reason are required''"
  have run: "?h sample_http_request sample_start = (RespondError 400 CodeValidation ?msg, sample_start)"
    by (simp add: sample_jwt_def sample_role_def backofficeRole_def handle_AdjustOnHand_def actorSub_def
        bind_adjustment_def sample_httpx_def)
  have route: "(POST, ''/inventory/v1/protected/adjustments'', ?h) \<in>
      set (RegisterRoutes sample_httpx (logic_of wired_admin) sample_jwt sample_role)"
    by (simp add: RegisterRoutes_def mount_def)
  have "faults_in (\<lambda>e. \<not> errors_Is e ErrInvalidCommand) sample_start"
    by (simp add: faults_in_def sample_start_def)
  from admin_errors_listed [OF route this run] have "(400, CodeValidation, ?msg) \<in> set listed_errors"
    by (auto simp: sample_jwt_def sample_role_def backofficeRole_def)
  with run show ?thesis by blast
qed

section \<open>Lists\<close>

text \<open>What the requests for the first pages of one list have in common.\<close>

definition asks_pages :: "Httpx \<Rightarrow> (nat \<Rightarrow> http_request) \<Rightarrow> http_request \<Rightarrow> int \<Rightarrow> nat \<Rightarrow> bool" where
  "asks_pages hx cs c psize k \<longleftrightarrow>
     (\<forall>p < k. hr_Query (cs p) = hr_Query c \<and> hx_ParsePage hx (cs p) = (int p + 1, psize) \<and>
        hx_Offset hx (int p + 1) psize = int p * psize)"

text \<open>
  C34. Paging is a partition. In a quiet world the requests for the pages 1 to k of the balances list
  are answered with consecutive slices of one list, each with the list's length as the total, and k
  pages that are enough for the total show every row exactly once. That list holds the balances the
  filters select in SKU and warehouse order; with \<open>low_stock=true\<close> and no other filter these are exactly
  the balances from which nothing more can be promised to a reservation.
\<close>

theorem balances_paged:
  assumes "quiet w" and "db_inv (w_db w)" and "asks_pages hx cs c psize k" and "0 < psize"
    and "warehouse_query c = Inr i"
    and "length (requested_balances c i (w_db w)) \<le> k * nat psize"
  shows "\<exists>pages. concat pages = requested_balances c i (w_db w) \<and> length pages = k \<and>
    (\<forall>p < k. \<exists>w'. handle_ListBalances hx (logic_of wired_admin) (cs p) w =
       (RespondJSON 200 (BalancePage (pages ! p) (int p + 1) psize (int (length (requested_balances c i (w_db w))))), w') \<and>
       w_db w' = w_db w) \<and>
    (hr_Query c ''low_stock'' = ''true'' \<and> hr_Query c ''sku_id'' = '''' \<and> i = 0 \<longrightarrow>
       map (\<lambda>b. (bj_sku_id b, bj_warehouse_id b)) (requested_balances c i (w_db w)) =
         filter (\<lambda>key. \<exists>r. map_of (balances (w_db w)) key = Some r \<and> row_atp r = 0)
           (map fst (ordered_balances (w_db w))))"
proof -
  let ?all = "requested_balances c i (w_db w)"
  let ?pages = "map (\<lambda>p. page_of psize (int p * psize) ?all) [0..<k]"
  have "\<exists>w'. handle_ListBalances hx (logic_of wired_admin) (cs p) w =
      (RespondJSON 200 (BalancePage (?pages ! p) (int p + 1) psize (int (length ?all))), w') \<and> w_db w' = w_db w"
    if p: "p < k" for p
  proof -
    from assms(3) p have a: "hr_Query (cs p) = hr_Query c" "hx_ParsePage hx (cs p) = (int p + 1, psize)"
      "hx_Offset hx (int p + 1) psize = int p * psize" by (auto simp: asks_pages_def)
    have q: "warehouse_query (cs p) = Inr i" "requested_balances (cs p) i = requested_balances c i"
      using assms(5) by (auto simp: warehouse_query_def requested_balances_def requested_filter_def a(1))
    show ?thesis using handled_balances [OF assms(1) q(1) a(2)] assms(4) p by (simp add: a(3) q(2))
  qed
  moreover have "concat ?pages = ?all" by (rule pages_complete [OF assms(6)])
  moreover have "distinct (map fst (balances (w_db w)))" using db_invD(1) [OF assms(2)] by (simp add: balances_ok_def)
  ultimately show ?thesis using low_stock_listed by (intro exI [of _ ?pages]) auto
qed

text \<open>The only balance of the sample has stock, so its low-stock list is empty, also as one page.\<close>

theorem balances_paged_witness:
  "\<exists>w'. handle_ListBalances sample_httpx (logic_of wired_admin) sample_http_request sample_stocked =
     (RespondJSON 200 (BalancePage [] 1 20 0), w') \<and> w_db w' = w_db sample_stocked"
proof -
  have q: "warehouse_query sample_http_request = Inr 0"
    by (simp add: warehouse_query_def sample_http_request_def)
  have none: "requested_balances sample_http_request 0 (w_db sample_stocked) = []" by code_simp
  have asks: "asks_pages sample_httpx (\<lambda>_. sample_http_request) sample_http_request 20 1"
    by (simp add: asks_pages_def sample_httpx_def)
  from balances_paged [OF quiet_samples(2) reachable_inv [OF sample_reachable(2)] asks _ q] none
  show ?thesis by auto
qed

end
