(* ===== verification/Go_Duration.thy ===== *)
theory Go_Duration
  imports Go_Values
begin

text \<open>
  \<open>time.ParseDuration\<close> of Go's standard library, which the configuration reads its timeouts with: the
  scanner of its terms, the overflow checks on \<open>uint64\<close>, and the \<open>float64\<close> arithmetic of a fraction,
  rounded to 53 bits, ties to even. A duration is a number of nanoseconds.
\<close>

section \<open>float64\<close>

text \<open>A positive \<open>float64\<close> is a quotient of integers; its magnitudes here need no exponent limits.\<close>

function bit_count :: "int \<Rightarrow> int" where
  "bit_count x = (if x \<le> 0 then 0 else 1 + bit_count (x div 2))"
  by auto
termination by (relation "measure nat") auto

declare bit_count.simps [simp del]

definition round_even :: "int \<Rightarrow> int \<Rightarrow> int" where
  "round_even n d =
     (let m = n div d; r = n mod d
      in if 2 * r > d \<or> (2 * r = d \<and> odd m) then m + 1 else m)"

definition float64 :: "int \<times> int \<Rightarrow> int \<times> int" where
  "float64 x =
     (let (p, q) = x
      in if p \<le> 0 then (0, 1)
         else
           (let k = bit_count p - bit_count q;
                above = (if k \<ge> 0 then p \<ge> q * 2 ^ nat k else p * 2 ^ nat (- k) \<ge> q);
                e = (if above then k else k - 1) - 52
            in if e \<ge> 0 then (round_even p (q * 2 ^ nat e) * 2 ^ nat e, 1)
               else (round_even (p * 2 ^ nat (- e)) q, 2 ^ nat (- e))))"

text \<open>\<open>uint64(float64(f) * (float64(unit) / scale))\<close>; \<open>scale\<close> is a power of ten and exact.\<close>

definition fraction_nanos :: "int \<Rightarrow> int \<Rightarrow> int \<Rightarrow> int" where
  "fraction_nanos f unit_ns scale =
     (let (a, b) = float64 (f, 1);
          (c, d) = float64 (unit_ns, scale);
          (n, m) = float64 (a * c, b * d)
      in n div m)"

section \<open>The scanner\<close>

definition digit_of :: "char \<Rightarrow> int" where
  "digit_of c = of_char c - 48"

fun leadingInt :: "int \<Rightarrow> string \<Rightarrow> (int \<times> string) option" where
  "leadingInt x [] = Some (x, [])"
| "leadingInt x (c # s) =
     (if \<not> is_digit c then Some (x, c # s)
      else if x > 922337203685477580 then None
      else (let y = x * 10 + digit_of c in if y > 9223372036854775808 then None else leadingInt y s))"

text \<open>Digits that no longer fit are consumed and ignored.\<close>

fun leadingFraction :: "int \<Rightarrow> int \<Rightarrow> bool \<Rightarrow> string \<Rightarrow> int \<times> int \<times> string" where
  "leadingFraction x scale overflow [] = (x, scale, [])"
| "leadingFraction x scale overflow (c # s) =
     (if \<not> is_digit c then (x, scale, c # s)
      else if overflow then leadingFraction x scale True s
      else if x > 922337203685477580 then leadingFraction x scale True s
      else
        (let y = x * 10 + digit_of c
         in if y > 9223372036854775808 then leadingFraction x scale True s
            else leadingFraction y (scale * 10) False s))"

text \<open>\<open>(\.[0-9]*)?\<close>: the fraction, its scale, whether it has a digit, and what follows.\<close>

definition fraction_part :: "string \<Rightarrow> int \<times> int \<times> bool \<times> string" where
  "fraction_part s =
     (if s \<noteq> [] \<and> hd s = CHR ''.''
      then (let (f, scale, t) = leadingFraction 0 1 False (tl s) in (f, scale, length t \<noteq> length (tl s), t))
      else (0, 1, False, s))"

definition unit_map :: "string \<Rightarrow> int option" where
  "unit_map u =
     (if u = ''ns'' then Some 1
      else if u = ''us'' \<or> u = [CHR 0xC2, CHR 0xB5, CHR 0x73] \<or> u = [CHR 0xCE, CHR 0xBC, CHR 0x73] then Some 1000
      else if u = ''ms'' then Some 1000000
      else if u = ''s'' then Some 1000000000
      else if u = ''m'' then Some 60000000000
      else if u = ''h'' then Some 3600000000000
      else None)"

definition in_unit :: "char \<Rightarrow> bool" where
  "in_unit c \<longleftrightarrow> \<not> (c = CHR ''.'' \<or> is_digit c)"

text \<open>One term \<open>[0-9]*(\.[0-9]*)?unit\<close>: its nanoseconds and what follows it.\<close>

definition duration_term :: "string \<Rightarrow> (int \<times> string) option" where
  "duration_term s =
     (if s = [] \<or> in_unit (hd s) then None
      else
        (case leadingInt 0 s of
           None \<Rightarrow> None
         | Some (v, s1) \<Rightarrow>
             (let pre = length s1 \<noteq> length s;
                  (f, scale, post, s2) = fraction_part s1;
                  u = takeWhile in_unit s2
              in if \<not> pre \<and> \<not> post then None
                 else if u = [] then None
                 else
                   (case unit_map u of
                      None \<Rightarrow> None
                    | Some unit_ns \<Rightarrow>
                        (if v > 9223372036854775808 div unit_ns then None
                         else
                           (let w = v * unit_ns + (if f > 0 then fraction_nanos f unit_ns scale else 0)
                            in if w > 9223372036854775808 then None else Some (w, drop (length u) s2)))))))"

lemma leadingInt_length: "leadingInt x s = Some (v, t) \<Longrightarrow> length t \<le> length s"
  by (induction x s rule: leadingInt.induct) (auto simp: Let_def split: if_splits)

lemma leadingFraction_length: "leadingFraction x scale ov s = (f, sc, t) \<Longrightarrow> length t \<le> length s"
  by (induction x scale ov s rule: leadingFraction.induct) (auto simp: Let_def split: if_splits)

lemma fraction_part_length: "fraction_part s = (f, sc, post, t) \<Longrightarrow> length t \<le> length s"
  using leadingFraction_length [of 0 1 False "tl s"]
  by (cases s) (fastforce simp: fraction_part_def split: if_splits prod.splits)+

text \<open>A term is never empty, so the loop over the terms ends.\<close>

lemma duration_term_length:
  assumes "duration_term s = Some (w, t)"
  shows "length t < length s"
proof -
  from assms obtain v s1 where i: "leadingInt 0 s = Some (v, s1)"
    by (auto simp: duration_term_def split: if_splits option.splits)
  obtain f sc post s2 where x: "fraction_part s1 = (f, sc, post, s2)" by (cases "fraction_part s1")
  have "takeWhile in_unit s2 \<noteq> []" "t = drop (length (takeWhile in_unit s2)) s2"
    using assms i x by (auto simp: duration_term_def Let_def split: if_splits option.splits)
  then have "length t < length s2" by (cases s2) auto
  with fraction_part_length [OF x] leadingInt_length [OF i] show ?thesis by simp
qed

text \<open>The sum of the terms; \<open>d += v\<close> is on \<open>uint64\<close>.\<close>

function duration_terms :: "int \<Rightarrow> string \<Rightarrow> int option" where
  "duration_terms d s =
     (if s = [] then Some d
      else
        (case duration_term s of
           None \<Rightarrow> None
         | Some (w, t) \<Rightarrow>
             (let d' = (d + w) mod 2 ^ 64
              in if d' > 9223372036854775808 then None else duration_terms d' t)))"
  by auto
termination by (relation "measure (length \<circ> snd)") (auto dest: duration_term_length)

declare duration_terms.simps [simp del]

definition ParseDuration :: "string \<Rightarrow> int option" where
  "ParseDuration s =
     (let signed = (s \<noteq> [] \<and> (hd s = CHR ''-'' \<or> hd s = CHR ''+''));
          neg = (signed \<and> hd s = CHR ''-'');
          s1 = (if signed then tl s else s)
      in if s1 = ''0'' then Some 0
         else if s1 = [] then None
         else
           (case duration_terms 0 s1 of
              None \<Rightarrow> None
            | Some d \<Rightarrow>
                (if neg then Some (- d)
                 else if d > 9223372036854775807 then None else Some d)))"

section \<open>Facts\<close>

lemma duration_terms_range:
  "0 \<le> d \<Longrightarrow> d \<le> 9223372036854775808 \<Longrightarrow> duration_terms d s = Some x \<Longrightarrow> 0 \<le> x \<and> x \<le> 9223372036854775808"
proof (induction d s rule: duration_terms.induct)
  case (1 d s)
  show ?case
  proof (cases "s = []")
    case True
    with 1 show ?thesis by (simp add: duration_terms.simps)
  next
    case False
    with "1.prems" obtain w t where t: "duration_term s = Some (w, t)"
      by (auto simp: duration_terms.simps [of d s] split: option.splits)
    from "1.IH" [OF False t refl refl] "1.prems"(3) False t show ?thesis
      by (simp add: duration_terms.simps [of d s] Let_def split: if_splits)
  qed
qed

lemma ParseDuration_range: "ParseDuration s = Some d \<Longrightarrow> int64_range d"
  using duration_terms_range [of 0]
  by (fastforce simp: ParseDuration_def int64_range_def Let_def split: if_splits option.splits)

lemma ParseDuration_examples:
  "ParseDuration ''45s'' = Some 45000000000"
  "ParseDuration ''1m30s'' = Some 90000000000"
  "ParseDuration ''1.5h'' = Some 5400000000000"
  "ParseDuration ''-.5s'' = Some (- 500000000)"
  "ParseDuration ''0'' = Some 0"
  "ParseDuration ''10'' = None"
  "ParseDuration '''' = None"
  "ParseDuration ''s'' = None"
  "ParseDuration ''3d'' = None"
  by code_simp+

text \<open>Eighteen nines round up to a full second.\<close>

lemma ParseDuration_rounds: "ParseDuration ''0.999999999999999999s'' = Some 1000000000"
  by code_simp

end
