(* ===== verification/Go_Url.thy ===== *)
theory Go_Url
  imports Go_Values
begin

text \<open>
  Percent-encoding as \<open>net/url\<close> does it, in the four modes a DSN needs, and its inverse. A string is a
  sequence of bytes.
\<close>

datatype encoding = encodePath | encodeHost | encodeUserPassword | encodeQueryComponent

definition is_ascii_alnum :: "char \<Rightarrow> bool" where
  "is_ascii_alnum c \<longleftrightarrow>
     (let n = of_char c :: nat in (65 \<le> n \<and> n \<le> 90) \<or> (97 \<le> n \<and> n \<le> 122) \<or> (48 \<le> n \<and> n \<le> 57))"

definition shouldEscape :: "char \<Rightarrow> encoding \<Rightarrow> bool" where
  "shouldEscape c mode =
     (if is_ascii_alnum c then False
      else if mode = encodeHost \<and> c \<in> set (''!$&()*+,;=:[]<>'' @ [CHR 0x27, CHR 0x22]) then False
      else if c \<in> set ''-_.~'' then False
      else if c \<in> set ''$&+,/:;=?@'' then
        (case mode of
           encodePath \<Rightarrow> c = CHR ''?''
         | encodeUserPassword \<Rightarrow> c \<in> set ''@/?:''
         | encodeQueryComponent \<Rightarrow> True
         | encodeHost \<Rightarrow> True)
      else True)"

definition upperhex :: "nat \<Rightarrow> char" where
  "upperhex n = (if n < 10 then char_of (48 + n) else char_of (55 + n))"

definition escape_char :: "encoding \<Rightarrow> char \<Rightarrow> string" where
  "escape_char mode c =
     (if c = CHR '' '' \<and> mode = encodeQueryComponent then ''+''
      else if shouldEscape c mode then
        (let n = of_char c :: nat in [CHR ''%'', upperhex (n div 16), upperhex (n mod 16)])
      else [c])"

definition escape :: "string \<Rightarrow> encoding \<Rightarrow> string" where
  "escape s mode = concat (map (escape_char mode) s)"

section \<open>The inverse\<close>

definition unhex :: "char \<Rightarrow> nat option" where
  "unhex c =
     (let n = of_char c :: nat
      in if 48 \<le> n \<and> n \<le> 57 then Some (n - 48)
         else if 97 \<le> n \<and> n \<le> 102 then Some (n - 87)
         else if 65 \<le> n \<and> n \<le> 70 then Some (n - 55)
         else None)"

fun unescape :: "encoding \<Rightarrow> string \<Rightarrow> string option" where
  "unescape mode [] = Some []"
| "unescape mode (c # s) =
     (if c = CHR ''%'' then
        (case s of
           a # b # t \<Rightarrow>
             (case (unhex a, unhex b) of
                (Some x, Some y) \<Rightarrow> map_option (\<lambda>r. char_of (16 * x + y) # r) (unescape mode t)
              | _ \<Rightarrow> None)
         | _ \<Rightarrow> None)
      else
        map_option (\<lambda>r. (if c = CHR ''+'' \<and> mode = encodeQueryComponent then CHR '' '' else c) # r) (unescape mode s))"

lemma of_char_less: "(of_char c :: nat) < 256"
  by (metis of_char_mod_256 mod_less_divisor zero_less_numeral)

lemma unhex_upperhex: "n < 16 \<Longrightarrow> unhex (upperhex n) = Some n"
  by (auto simp: unhex_def upperhex_def Let_def of_char_of)

lemma unescape_escape_char: "unescape mode (escape_char mode c @ s) = map_option ((#) c) (unescape mode s)"
proof (cases "c = CHR '' '' \<and> mode = encodeQueryComponent")
  case True
  then show ?thesis by (simp add: escape_char_def)
next
  case plain: False
  show ?thesis
  proof (cases "shouldEscape c mode")
    case True
    let ?n = "of_char c :: nat"
    have "?n div 16 < 16" by (rule less_mult_imp_div_less) (simp add: of_char_less)
    then have "unhex (upperhex (?n div 16)) = Some (?n div 16)" "unhex (upperhex (?n mod 16)) = Some (?n mod 16)"
      by (simp_all add: unhex_upperhex)
    moreover have "16 * (?n div 16) + ?n mod 16 = ?n" by simp
    ultimately show ?thesis using True plain by (simp add: escape_char_def Let_def)
  next
    case False
    have "shouldEscape (CHR ''%'') mode" 
      by (cases mode) (simp_all add: shouldEscape_def is_ascii_alnum_def)
    moreover have "shouldEscape (CHR ''+'') encodeQueryComponent"
      by (simp add: shouldEscape_def is_ascii_alnum_def)
    ultimately show ?thesis using False plain by (auto simp: escape_char_def)
  qed
qed

lemma unescape_escape: "unescape mode (escape s mode) = Some s"
  by (induction s) (simp_all add: escape_def unescape_escape_char)

text \<open>A byte that a mode escapes does not occur in escaped text, other than in an escape sequence.\<close>

lemma escape_excludes:
  assumes "shouldEscape c mode" "c \<noteq> CHR ''%''" "\<not> is_ascii_alnum c" "c \<noteq> CHR ''+''"
  shows "c \<notin> set (escape s mode)"
proof -
  have hex: "n < 16 \<Longrightarrow> is_ascii_alnum (upperhex n)" for n
    by (auto simp: is_ascii_alnum_def upperhex_def Let_def of_char_of)
  have "c \<notin> set (escape_char mode x)" for x
  proof -
    have "(of_char x :: nat) div 16 < 16" by (rule less_mult_imp_div_less) (simp add: of_char_less)
    with hex have "is_ascii_alnum (upperhex ((of_char x :: nat) div 16))" "is_ascii_alnum (upperhex ((of_char x :: nat) mod 16))"
      by simp_all
    with assms show ?thesis by (auto simp: escape_char_def Let_def)
  qed
  then show ?thesis by (auto simp: escape_def)
qed

end
