(* ===== verification/Config.thy ===== *)
theory Config
  imports Go_Duration Go_Strings Go_Text Go_Url
begin

text \<open>
  \<open>config/config.go\<close> and \<open>internal/core/database.go\<close>: reading the configuration from the environment, its validation and the database
  DSN. The environment is a parameter: what \<open>os.Getenv\<close> answers after \<open>godotenv.Load\<close> has filled in the
  variables of a \<open>.env\<close> file that are not set, with the empty string for a variable that is not set.
  \<open>strconv.Atoi\<close> is \<open>ParseInt64\<close> on the 64-bit platforms the service is built for. A \<open>time.Duration\<close> is a
  number of nanoseconds.
\<close>

section \<open>The configuration\<close>

definition defaultServiceName :: string where "defaultServiceName = ''unknown''"

record GRPCConfig =
  g_Port :: string

record ServiceConfig =
  s_Name :: string
  s_Port :: string
  s_Version :: string
  s_Env :: string

record ProfilingConfig =
  p_Enabled :: bool
  p_Endpoint :: string
  p_ServiceName :: string

record LoggingConfig =
  l_Level :: string
  l_Format :: string

record DatabaseConfig =
  db_Host :: string
  db_Port :: string
  db_Name :: string
  db_User :: string
  db_Password :: string
  db_PasswordFile :: string
  db_SSLMode :: string
  db_MaxConnections :: int
  db_MaxConnLifetime :: int
  db_HealthCheckPeriod :: int
  db_PoolMode :: string
  db_PoolerType :: string

record Config =
  c_Service :: ServiceConfig
  c_GRPC :: GRPCConfig
  c_Profiling :: ProfilingConfig
  c_Logging :: LoggingConfig
  c_Database :: DatabaseConfig
  c_ShutdownTimeout :: int
  c_OIDCStaffIssuer :: string
  c_OIDCAudience :: string
  c_OIDCStaffJWKSURL :: string
  c_ReadinessDrainDelay :: int

section \<open>The DSN\<close>

definition net_JoinHostPort :: "string \<Rightarrow> string \<Rightarrow> string" where
  "net_JoinHostPort host port =
     (if CHR '':'' \<in> set host then ''['' @ host @ '']:'' @ port else host @ '':'' @ port)"

text \<open>\<open>url.URL.String()\<close> for the fields \<open>BuildDSN\<close> sets; the host is never empty and the path starts with a slash.\<close>

definition BuildDSN :: "DatabaseConfig \<Rightarrow> string" where
  "BuildDSN c =
     ''postgresql://'' @
     escape (db_User c) encodeUserPassword @ '':'' @ escape (db_Password c) encodeUserPassword @ ''@'' @
     escape (net_JoinHostPort (db_Host c) (db_Port c)) encodeHost @
     escape (''/'' @ db_Name c) encodePath @
     ''?sslmode='' @ escape (db_SSLMode c) encodeQueryComponent"

section \<open>Environment variables\<close>

type_synonym environment = "string \<Rightarrow> string"

definition getEnv :: "environment \<Rightarrow> string \<Rightarrow> string \<Rightarrow> string" where
  "getEnv env k defaultValue = (if env k \<noteq> '''' then env k else defaultValue)"

definition getEnvBool :: "environment \<Rightarrow> string \<Rightarrow> bool \<Rightarrow> bool" where
  "getEnvBool env k defaultValue =
     (if env k = '''' then defaultValue
      else (let v = strings_ToLower (env k) in v = ''true'' \<or> v = ''1'' \<or> v = ''yes''))"

definition getEnvInt :: "environment \<Rightarrow> string \<Rightarrow> int \<Rightarrow> int" where
  "getEnvInt env k defaultValue =
     (if env k = '''' then defaultValue
      else (case ParseInt64 (env k) of None \<Rightarrow> defaultValue | Some n \<Rightarrow> n))"

text \<open>
  \<open>int(d.Seconds())\<close> truncates towards zero. \<open>Seconds\<close> is a \<open>float64\<close>, exact to well below a nanosecond up
  to the few minutes that are compared here; a larger duration is out of every limit either way.
\<close>

definition whole_seconds :: "int \<Rightarrow> int" where
  "whole_seconds d = (if d < 0 then - ((- d) div 1000000000) else d div 1000000000)"

definition getEnvDurationSecondsWithMax :: "environment \<Rightarrow> string \<Rightarrow> int \<Rightarrow> int \<Rightarrow> int" where
  "getEnvDurationSecondsWithMax env k defaultValueSeconds maxSeconds =
     (if env k = '''' then defaultValueSeconds
      else
        (case ParseDuration (env k) of
           None \<Rightarrow> defaultValueSeconds
         | Some timeout \<Rightarrow>
             (let seconds = whole_seconds timeout
              in if seconds \<le> 0 \<or> seconds > maxSeconds then defaultValueSeconds else seconds)))"

definition getEnvDurationSeconds :: "environment \<Rightarrow> string \<Rightarrow> int \<Rightarrow> int" where
  "getEnvDurationSeconds env k defaultValueSeconds =
     (if env k = '''' then defaultValueSeconds
      else
        (case ParseDuration (env k) of
           None \<Rightarrow> defaultValueSeconds
         | Some timeout \<Rightarrow>
             (let seconds = whole_seconds timeout
              in if seconds \<le> 0 \<or> seconds > 60 then defaultValueSeconds else seconds)))"

definition getEnvOptionalDuration :: "environment \<Rightarrow> string \<Rightarrow> int" where
  "getEnvOptionalDuration env k =
     (case ParseDuration (env k) of None \<Rightarrow> 0 | Some d \<Rightarrow> if d < 0 then 0 else d)"

section \<open>Load\<close>

definition Load :: "environment \<Rightarrow> Config" where
  "Load env =
     \<lparr>c_Service =
        \<lparr>s_Name = getEnv env ''SERVICE_NAME'' defaultServiceName,
         s_Port = getEnv env ''PORT'' ''8080'',
         s_Version = getEnv env ''VERSION'' ''dev'',
         s_Env = getEnv env ''ENV'' ''development''\<rparr>,
      c_GRPC = \<lparr>g_Port = getEnv env ''GRPC_PORT'' ''9090''\<rparr>,
      c_Profiling =
        \<lparr>p_Enabled = getEnvBool env ''PROFILING_ENABLED'' True,
         p_Endpoint = getEnv env ''PYROSCOPE_ENDPOINT'' ''http://pyroscope.monitoring.svc.cluster.local:4040'',
         p_ServiceName = getEnv env ''SERVICE_NAME'' defaultServiceName\<rparr>,
      c_Logging =
        \<lparr>l_Level = getEnv env ''LOG_LEVEL'' ''info'',
         l_Format = getEnv env ''LOG_FORMAT'' ''json''\<rparr>,
      c_Database =
        \<lparr>db_Host = getEnv env ''DB_HOST'' '''',
         db_Port = getEnv env ''DB_PORT'' ''5432'',
         db_Name = getEnv env ''DB_NAME'' '''',
         db_User = getEnv env ''DB_USER'' '''',
         db_Password = getEnv env ''DB_PASSWORD'' '''',
         db_PasswordFile = getEnv env ''DB_PASSWORD_FILE'' '''',
         db_SSLMode = getEnv env ''DB_SSLMODE'' ''disable'',
         db_MaxConnections = getEnvInt env ''DB_POOL_MAX_CONNECTIONS'' 25,
         db_MaxConnLifetime = getEnvOptionalDuration env ''DB_POOL_MAX_CONN_LIFETIME'',
         db_HealthCheckPeriod = getEnvOptionalDuration env ''DB_POOL_HEALTH_CHECK_PERIOD'',
         db_PoolMode = getEnv env ''DB_POOL_MODE'' '''',
         db_PoolerType = getEnv env ''DB_POOLER_TYPE'' ''''\<rparr>,
      c_ShutdownTimeout = getEnvDurationSeconds env ''SHUTDOWN_TIMEOUT'' 10,
      c_OIDCStaffIssuer = getEnv env ''OIDC_STAFF_ISSUER'' ''https://id.duynh.me/realms/duynhlab-staff'',
      c_OIDCAudience = getEnv env ''OIDC_AUDIENCE'' ''duynhlab-platform'',
      c_OIDCStaffJWKSURL = getEnv env ''OIDC_STAFF_JWKS_URL'' '''',
      c_ReadinessDrainDelay = getEnvDurationSecondsWithMax env ''READINESS_DRAIN_DELAY'' 5 30\<rparr>"

section \<open>Validation\<close>

fun contains :: "string list \<Rightarrow> string \<Rightarrow> bool" where
  "contains [] item = False"
| "contains (s # ss) item = (if strings_EqualFold s item then True else contains ss item)"

text \<open>A message is appended if a check fails.\<close>

definition complain :: "bool \<Rightarrow> string \<Rightarrow> string list" where
  "complain b msg = (if b then [msg] else [])"

definition validEnvs :: "string list" where
  "validEnvs = [''development'', ''dev'', ''staging'', ''stage'', ''production'', ''prod'']"

definition validateService :: "Config \<Rightarrow> string list" where
  "validateService c =
     (let s = c_Service c
      in complain (s_Name s = '''' \<or> s_Name s = defaultServiceName)
           ''SERVICE_NAME is required (e.g., 'inventory')'' @
         complain (s_Port s = '''') ''PORT is required (e.g., '8080')'' @
         complain (ParseInt64 (s_Port s) = None) (''PORT must be a valid number, got: '' @ s_Port s) @
         complain (\<not> contains validEnvs (s_Env s))
           (''ENV must be one of '' @ format_slice validEnvs @ '', got: '' @ s_Env s))"

definition validateGRPC :: "Config \<Rightarrow> string list" where
  "validateGRPC c =
     (let port = g_Port (c_GRPC c)
      in complain (port = '''') ''GRPC_PORT is required (e.g., '9090')'' @
         complain (ParseInt64 port = None) (''GRPC_PORT must be a valid number, got: '' @ port))"

definition validateProfiling :: "Config \<Rightarrow> string list" where
  "validateProfiling c =
     (let p = c_Profiling c
      in if \<not> p_Enabled p then []
         else
           complain (p_Endpoint p = '''') ''PYROSCOPE_ENDPOINT is required when profiling is enabled'' @
           complain (p_ServiceName p = '''' \<or> p_ServiceName p = defaultServiceName)
             ''SERVICE_NAME is required for profiling (used in Pyroscope UI)'')"

definition validLogLevels :: "string list" where
  "validLogLevels = [''debug'', ''info'', ''warn'', ''error'']"

definition validLogFormats :: "string list" where
  "validLogFormats = [''json'', ''console'']"

definition validateLogging :: "Config \<Rightarrow> string list" where
  "validateLogging c =
     (let l = c_Logging c
      in complain (\<not> contains validLogLevels (strings_ToLower (l_Level l)))
           (''LOG_LEVEL must be one of '' @ format_slice validLogLevels @ '', got: '' @ l_Level l) @
         complain (\<not> contains validLogFormats (strings_ToLower (l_Format l)))
           (''LOG_FORMAT must be one of '' @ format_slice validLogFormats @ '', got: '' @ l_Format l))"

definition validSSLModes :: "string list" where
  "validSSLModes = [''disable'', ''prefer'', ''require'', ''verify-ca'', ''verify-full'']"

definition validateDatabase :: "Config \<Rightarrow> string list" where
  "validateDatabase c =
     (let d = c_Database c
      in if db_Host d = '''' then []
         else
           complain (db_Name d = '''') ''DB_NAME is required when DB_HOST is set'' @
           complain (db_User d = '''') ''DB_USER is required when DB_HOST is set'' @
           complain (db_Password d = '''' \<and> db_PasswordFile d = '''')
             ''DB_PASSWORD or DB_PASSWORD_FILE is required when DB_HOST is set'' @
           complain (db_Port d \<noteq> '''' \<and> ParseInt64 (db_Port d) = None)
             (''DB_PORT must be a valid number, got: '' @ db_Port d) @
           complain (\<not> contains validSSLModes (db_SSLMode d))
             (''DB_SSLMODE must be one of '' @ format_slice validSSLModes @ '', got: '' @ db_SSLMode d))"

definition validation_failure :: "string list \<Rightarrow> goerr option" where
  "validation_failure errs =
     (if length errs > 0
      then Some (ErrorsNew (''configuration validation failed:'' @ [CHR 0x0A] @ ''  - '' @
             strings_Join errs ([CHR 0x0A] @ ''  - '')))
      else None)"

definition Config_Validate :: "Config \<Rightarrow> goerr option" where
  "Config_Validate c =
     validation_failure
       (validateService c @ validateGRPC c @ validateProfiling c @ validateLogging c @ validateDatabase c)"

definition ValidateForSubcommand :: "Config \<Rightarrow> goerr option" where
  "ValidateForSubcommand c =
     validation_failure
       (complain (db_Host (c_Database c) = '''') ''DB_HOST is required (subcommands connect to the database)'' @
        validateDatabase c)"

definition IsDevelopment :: "Config \<Rightarrow> bool" where
  "IsDevelopment c = (let env = strings_ToLower (s_Env (c_Service c)) in env = ''development'' \<or> env = ''dev'')"

definition IsProduction :: "Config \<Rightarrow> bool" where
  "IsProduction c = (let env = strings_ToLower (s_Env (c_Service c)) in env = ''production'' \<or> env = ''prod'')"

definition GetShutdownTimeoutDuration :: "Config \<Rightarrow> int" where
  "GetShutdownTimeoutDuration c = wrap64 (c_ShutdownTimeout c * 1000000000)"

definition GetReadinessDrainDelayDuration :: "Config \<Rightarrow> int" where
  "GetReadinessDrainDelayDuration c = wrap64 (c_ReadinessDrainDelay c * 1000000000)"

section \<open>The connection pool\<close>

text \<open>\<open>internal/core/database.go\<close>: what \<open>dbx.NewPool\<close> is called with.\<close>

record pool_config =
  pc_DSN :: string
  pc_MaxConns :: int
  pc_PasswordFile :: string
  pc_MaxConnLifetime :: int
  pc_HealthCheckPeriod :: int

definition Connect :: "Config \<Rightarrow> pool_config" where
  "Connect cfg =
     \<lparr>pc_DSN = BuildDSN (c_Database cfg) @ ''&lock_timeout=3s&statement_timeout=10s'',
      pc_MaxConns = db_MaxConnections (c_Database cfg),
      pc_PasswordFile = db_PasswordFile (c_Database cfg),
      pc_MaxConnLifetime = db_MaxConnLifetime (c_Database cfg),
      pc_HealthCheckPeriod = db_HealthCheckPeriod (c_Database cfg)\<rparr>"

end
