(* ===== verification/Process_Main.thy ===== *)
theory Process_Main
  imports Config Admin_Http "HOL-Library.Char_ord" "HOL-Library.List_Lexorder"
begin

text \<open>
  \<open>cmd/main.go\<close>: the life of the process, from its arguments to its exit.
  What the process does to its surroundings is a history of actions, each with the time it began at, in
  nanoseconds. What the surroundings answer, and how long that takes, is the record \<open>platform\<close>: the
  command line and environment, the driver, \<open>migratex\<close>, \<open>obsx\<close>, \<open>authmw\<close>, the listeners, the two servers.
  \<open>logger.Fatal\<close> logs and exits with status 1, without running deferred calls; a panic runs them. Of a
  log record the model keeps level and message. A goroutine's first steps are taken where it is started.
\<close>

section \<open>Actions and programs\<close>

datatype level = Info | Warn | LevelError

datatype shutdown_outcome = OutcomeGraceful | OutcomeError

datatype action =
    Logged level string
  | MigrateRun string
  | SeedPoolOpened string
  | SeedExec string
  | SeedPoolClosed
  | PoolOpened pool_config
  | PoolClosed
  | TelemetryStarted
  | ProfilingStarted
  | ProfilingStopped
  | GrpcListening string
  | VerifierBuilt string string string
  | ReleaseMode
  | HttpListening string
  | ProcessStarted
  | SignalReceived
  | ShuttingDownStored
  | GrpcNotServing
  | Slept int
  | HttpShutdown int
  | GrpcGracefulStop
  | GrpcForceStop
  | GrpcStopped
  | ProcessStopped shutdown_outcome
  | TelemetryShutdown int

datatype process_end = Panicked string | Exited string

record machine =
  m_clock :: int
  m_history :: "(int \<times> action) list"

type_synonym 'a proc = "machine \<Rightarrow> (process_end + 'a) \<times> machine"

definition p_return :: "'a \<Rightarrow> 'a proc" where
  "p_return x = (\<lambda>s. (Inr x, s))"

definition p_bind :: "'a proc \<Rightarrow> ('a \<Rightarrow> 'b proc) \<Rightarrow> 'b proc" where
  "p_bind m k = (\<lambda>s. case m s of (Inl e, s') \<Rightarrow> (Inl e, s') | (Inr x, s') \<Rightarrow> k x s')"

abbreviation p_seq :: "unit proc \<Rightarrow> 'a proc \<Rightarrow> 'a proc" where
  "p_seq m n \<equiv> p_bind m (\<lambda>_. n)"

definition act :: "action \<Rightarrow> int \<Rightarrow> unit proc" where
  "act a d = (\<lambda>s. (Inr (), s\<lparr>m_clock := m_clock s + d, m_history := m_history s @ [(m_clock s, a)]\<rparr>))"

text \<open>A step that takes the time \<open>d\<close> and appends \<open>h\<close> to the history.\<close>

definition step_by :: "machine \<Rightarrow> int \<Rightarrow> (int \<times> action) list \<Rightarrow> machine" where
  "step_by s d h = s\<lparr>m_clock := m_clock s + d, m_history := m_history s @ h\<rparr>"

lemma step_by_simps [simp]:
  "m_clock (step_by s d h) = m_clock s + d" "m_history (step_by s d h) = m_history s @ h"
  "step_by (step_by s d h) d' h' = step_by s (d + d') (h @ h')"
  by (simp_all add: step_by_def add.assoc)

lemma act_step: "act a d s = (Inr (), step_by s d [(m_clock s, a)])"
  by (simp add: act_def step_by_def)

lemma bind_run: "m s = (Inr x, s1) \<Longrightarrow> p_bind m k s = k x s1"
  by (simp add: p_bind_def)

lemma p_seq_act [simp]: "p_seq (act a d) m s = m (step_by s d [(m_clock s, a)])"
  by (rule bind_run [OF act_step])

definition slog :: "level \<Rightarrow> string \<Rightarrow> unit proc" where
  "slog l msg = act (Logged l msg) 0"

definition wait :: "int \<Rightarrow> unit proc" where
  "wait d = (\<lambda>s. (Inr (), s\<lparr>m_clock := m_clock s + d\<rparr>))"

definition fatal :: "string \<Rightarrow> 'a proc" where
  "fatal msg = p_seq (slog LevelError msg) (\<lambda>s. (Inl (Exited msg), s))"

definition go_panic :: "string \<Rightarrow> 'a proc" where
  "go_panic msg = (\<lambda>s. (Inl (Panicked msg), s))"

text \<open>\<open>defer d()\<close> followed by the rest of the function.\<close>

definition p_defer :: "unit proc \<Rightarrow> 'a proc \<Rightarrow> 'a proc" where
  "p_defer d m =
     (\<lambda>s. case m s of
        (Inl (Exited msg), s') \<Rightarrow> (Inl (Exited msg), s')
      | (r, s') \<Rightarrow> (case d s' of (Inl e, s'') \<Rightarrow> (Inl e, s'') | (Inr _, s'') \<Rightarrow> (r, s'')))"

section \<open>The surroundings\<close>

record platform =
  pf_Args :: "string list"
  pf_Env :: environment
  pf_PgText :: "string \<Rightarrow> string"
  pf_Migrate :: "string \<Rightarrow> goerr option"
  pf_ParseConfig :: "string \<Rightarrow> goerr option"
  pf_NewSeedPool :: "string \<Rightarrow> goerr option"
  pf_ReadDir :: "goerr + string list"
  pf_ReadFile :: "string \<Rightarrow> goerr + string"
  pf_Exec :: "nat \<Rightarrow> string \<Rightarrow> goerr option"
  pf_NewPool :: "pool_config \<Rightarrow> goerr option"
  pf_SetupObservability :: "goerr option"
  pf_SetupProfiling :: "goerr option"
  pf_StopProfiling :: "goerr option \<times> int"
  pf_ListenGRPC :: "string \<Rightarrow> goerr option"
  pf_NewVerifier :: "string \<Rightarrow> string \<Rightarrow> string \<Rightarrow> goerr option"
  pf_ListenHTTP :: "string \<Rightarrow> bool"
  pf_ServeHTTP :: "goerr option"
  pf_ServeGRPC :: "goerr option"
  pf_UntilSignal :: int
  pf_ShutdownHTTP :: "int \<Rightarrow> goerr option \<times> int"
  pf_GracefulStop :: "int option"
  pf_ForceStop :: int
  pf_ClosePool :: int
  pf_ClosePoolAgain :: int
  pf_ShutdownTelemetry :: "int \<Rightarrow> goerr option \<times> int"

text \<open>
  \<open>pf_Exec n sql\<close> is the answer to the \<open>n\<close>th execution of a seed run. \<open>pf_ListenHTTP\<close> tells whether the port
  can be bound; \<open>pf_ServeHTTP\<close> and \<open>pf_ServeGRPC\<close> are errors the servers return before the signal, other
  than \<open>http.ErrServerClosed\<close>. \<open>pf_GracefulStop\<close> is the time the graceful stop takes, \<open>None\<close> if the timer
  of the select wins; \<open>pf_ForceStop\<close> is the time it needs to return after a hard stop. \<open>pf_ClosePool\<close> is the time the close of the pool takes at the end of the
  shutdown, \<open>pf_ClosePoolAgain\<close> that of the deferred second close. A pair of an error
  and a number is an answer and the time it takes.
\<close>

section \<open>Subcommands\<close>

definition strings_HasSuffix :: "string \<Rightarrow> string \<Rightarrow> bool" where
  "strings_HasSuffix s t = (length t \<le> length s \<and> drop (length s - length t) s = t)"

fun apply_seeds :: "platform \<Rightarrow> nat \<Rightarrow> string list \<Rightarrow> goerr option proc" where
  "apply_seeds pf n [] = p_return None"
| "apply_seeds pf n (name # names) =
     (case pf_ReadFile pf (''sql/'' @ name) of
        Inl readErr \<Rightarrow> p_return (Some (errorf_w (''read seed '' @ name @ '': '') readErr))
      | Inr b \<Rightarrow>
          p_seq (act (SeedExec b) 0)
            (case pf_Exec pf n b of
               Some execErr \<Rightarrow> p_return (Some (errorf_w (''apply seed '' @ name @ '': '') execErr))
             | None \<Rightarrow> apply_seeds pf (Suc n) names))"

definition applySeed :: "platform \<Rightarrow> Config \<Rightarrow> goerr option proc" where
  "applySeed pf cfg =
     (let dsn = BuildDSN (c_Database cfg)
      in case pf_ParseConfig pf dsn of
           Some err \<Rightarrow> p_return (Some (errorf_w ''parse seed DSN: '' err))
         | None \<Rightarrow>
             (case pf_NewSeedPool pf dsn of
                Some err \<Rightarrow> p_return (Some (errorf_w ''connect for seed: '' err))
              | None \<Rightarrow>
                  p_seq (act (SeedPoolOpened dsn) 0)
                    (p_defer (act SeedPoolClosed 0)
                      (case pf_ReadDir pf of
                         Inl err \<Rightarrow> p_return (Some (errorf_w ''read seed dir: '' err))
                       | Inr entries \<Rightarrow>
                           apply_seeds pf 0 (sort (filter (\<lambda>e. strings_HasSuffix e ''.up.sql'') entries))))))"

definition backfill_retired :: string where
  "backfill_retired =
     ''`backfill` was retired in RFC-0021 phase 4 '' @ [CHR 0xE2, CHR 0x80, CHR 0x94] @ '' its source column '' @
     ''products.stock_quantity no longer exists, and the cross-service grant is '' @
     ''revoked. Recover a balance at inventory: `seed` (dev only) or an explicit '' @
     ''RECEIVE movement.''"

definition seed_refused :: string where
  "seed_refused =
     ''seed refused '' @ [CHR 0xE2, CHR 0x80, CHR 0x94] @ '' demo data is dev-only (ENV must be development)''"

definition runSubcommand :: "platform \<Rightarrow> string \<Rightarrow> Config \<Rightarrow> bool proc" where
  "runSubcommand pf cmd cfg =
     (if cmd = ''migrate'' then
        p_seq (act (MigrateRun (BuildDSN (c_Database cfg))) 0)
          (case pf_Migrate pf (BuildDSN (c_Database cfg)) of
             Some err \<Rightarrow> fatal ''Schema migration failed''
           | None \<Rightarrow> p_seq (slog Info ''Schema migrations applied'') (p_return True))
      else if cmd = ''seed'' then
        (if \<not> IsDevelopment cfg then fatal seed_refused
         else
           p_bind (applySeed pf cfg) (\<lambda>err.
             if err \<noteq> None then fatal ''Demo seed failed''
             else p_seq (slog Info ''Demo seed data applied'') (p_return True)))
      else if cmd = ''backfill'' then fatal backfill_retired
      else p_return False)"

section \<open>Serving\<close>

definition startGRPC :: "platform \<Rightarrow> Config \<Rightarrow> unit proc" where
  "startGRPC pf cfg =
     (let addr = '':'' @ g_Port (c_GRPC cfg)
      in case pf_ListenGRPC pf addr of
           Some err \<Rightarrow> fatal ''Failed to listen for gRPC''
         | None \<Rightarrow> p_seq (act (GrpcListening addr) 0) (slog Info ''Starting gRPC server''))"

text \<open>The two probes: HTTP status and the value of \<open>status\<close> in the JSON answer.\<close>

definition health_probe :: "nat \<times> string" where
  "health_probe = (200, ''ok'')"

definition ready_probe :: "bool \<Rightarrow> goerr option \<Rightarrow> nat \<times> string" where
  "ready_probe isShuttingDown ping =
     (if isShuttingDown then (503, ''shutting_down'')
      else if ping \<noteq> None then (503, ''db_unavailable'')
      else (200, ''ok''))"

datatype http_middleware = HttpLogging | HttpRecovery

record http_server =
  hs_Addr :: string
  hs_Use :: "http_middleware list"
  hs_Health :: "nat \<times> string"
  hs_Ready :: "bool \<Rightarrow> goerr option \<Rightarrow> nat \<times> string"
  hs_Routes :: "(http_method \<times> string \<times> handler) list"
  hs_ReadHeaderTimeout :: int
  hs_ReadTimeout :: int
  hs_IdleTimeout :: int

definition setupServer ::
  "Config \<Rightarrow> Httpx \<Rightarrow> adminLogic \<Rightarrow> middleware \<Rightarrow> (string \<Rightarrow> middleware) \<Rightarrow> http_server proc" where
  "setupServer cfg hx lg jwt require_role =
     p_seq (if \<not> IsDevelopment cfg then act ReleaseMode 0 else p_return ())
       (p_return
         \<lparr>hs_Addr = '':'' @ s_Port (c_Service cfg), hs_Use = [HttpLogging, HttpRecovery],
          hs_Health = health_probe, hs_Ready = ready_probe,
          hs_Routes = RegisterRoutes hx lg jwt require_role, hs_ReadHeaderTimeout = 10000000000, hs_ReadTimeout = 15000000000,
          hs_IdleTimeout = 60000000000\<rparr>)"

definition otelShutdownTimeout :: int where "otelShutdownTimeout = 5000000000"

definition shutdownTelemetry :: "platform \<Rightarrow> int \<Rightarrow> goerr option proc" where
  "shutdownTelemetry pf timeout =
     (case pf_ShutdownTelemetry pf timeout of
        (err, took) \<Rightarrow> p_seq (act (TelemetryShutdown timeout) took) (p_return err))"

definition stop_http :: "platform \<Rightarrow> int \<Rightarrow> shutdown_outcome proc" where
  "stop_http pf shutdownTimeout =
     (case pf_ShutdownHTTP pf shutdownTimeout of
        (err, took) \<Rightarrow>
          p_seq (act (HttpShutdown shutdownTimeout) took)
            (if err \<noteq> None then p_seq (slog LevelError ''HTTP server shutdown error'') (p_return OutcomeError)
             else p_seq (slog Info ''HTTP server shutdown complete'') (p_return OutcomeGraceful)))"

definition stop_grpc :: "platform \<Rightarrow> shutdown_outcome \<Rightarrow> shutdown_outcome proc" where
  "stop_grpc pf outcome =
     p_seq (act GrpcGracefulStop (case pf_GracefulStop pf of Some t \<Rightarrow> t | None \<Rightarrow> 10000000000))
       (if pf_GracefulStop pf \<noteq> None then
          p_seq (act GrpcStopped 0) (p_seq (slog Info ''gRPC server shutdown complete'') (p_return outcome))
        else
          p_seq (act GrpcForceStop (pf_ForceStop pf))
            (p_seq (act GrpcStopped 0)
              (p_seq (slog Warn ''gRPC server force-stopped after graceful timeout'') (p_return OutcomeError))))"

definition start_http :: "platform \<Rightarrow> http_server \<Rightarrow> unit proc" where
  "start_http pf srv =
     p_seq (slog Info ''Starting inventory service'')
       (if \<not> pf_ListenHTTP pf (hs_Addr srv) then slog LevelError ''Failed to start server''
        else
          p_seq (act (HttpListening (hs_Addr srv)) 0)
            (if pf_ServeHTTP pf \<noteq> None then slog LevelError ''Failed to start server'' else p_return ()))"

definition readiness_drain :: "Config \<Rightarrow> unit proc" where
  "readiness_drain cfg =
     (let drainDelay = GetReadinessDrainDelayDuration cfg
      in if drainDelay > 0
         then p_seq (slog Info ''Readiness drain delay started'') (act (Slept drainDelay) drainDelay)
         else p_return ())"

definition flush_telemetry :: "platform \<Rightarrow> bool \<Rightarrow> unit proc" where
  "flush_telemetry pf tp =
     (if tp then
        p_bind (shutdownTelemetry pf otelShutdownTimeout) (\<lambda>err.
          if err \<noteq> None then slog LevelError ''OpenTelemetry shutdown error''
          else slog Info ''OpenTelemetry shutdown complete'')
      else p_return ())"

text \<open>What follows \<open><-sigCtx.Done()\<close>.\<close>

definition drain :: "platform \<Rightarrow> Config \<Rightarrow> bool \<Rightarrow> unit proc" where
  "drain pf cfg tp =
     p_seq (slog Info ''Shutdown signal received'')
     (p_seq (act ShuttingDownStored 0)
     (p_seq (act GrpcNotServing 0)
     (p_seq (readiness_drain cfg)
     (p_seq (slog Info ''Shutting down server...'')
     (p_bind (stop_http pf (GetShutdownTimeoutDuration cfg)) (\<lambda>outcome.
     (p_bind (stop_grpc pf outcome) (\<lambda>outcome.
     (p_seq (act PoolClosed (pf_ClosePool pf))
     (p_seq (slog Info ''Database pool closed'')
     (p_seq (act (ProcessStopped outcome) 0)
     (p_seq (flush_telemetry pf tp)
     (slog Info ''Graceful shutdown complete'')))))))))))))"

definition runGracefulShutdown :: "platform \<Rightarrow> Config \<Rightarrow> http_server \<Rightarrow> bool \<Rightarrow> unit proc" where
  "runGracefulShutdown pf cfg srv tp =
     p_seq (start_http pf srv)
     (p_seq (act ProcessStarted 0)
     (p_seq (wait (pf_UntilSignal pf))
       (if pf_ServeGRPC pf \<noteq> None then fatal ''gRPC server error''
        else p_seq (act SignalReceived 0) (drain pf cfg tp))))"

section \<open>main\<close>

definition start_telemetry :: "platform \<Rightarrow> bool proc" where
  "start_telemetry pf =
     (if pf_SetupObservability pf \<noteq> None
      then p_seq (slog Warn ''Failed to initialize OpenTelemetry'') (p_return False)
      else p_seq (act TelemetryStarted 0) (p_seq (slog Info ''OpenTelemetry initialized'') (p_return True)))"

definition with_profiling :: "platform \<Rightarrow> Config \<Rightarrow> unit proc \<Rightarrow> unit proc" where
  "with_profiling pf cfg body =
     (if p_Enabled (c_Profiling cfg) then
        (if pf_SetupProfiling pf \<noteq> None then p_seq (slog Warn ''Failed to initialize profiling'') body
         else
           p_seq (act ProfilingStarted 0)
           (p_seq (slog Info ''Profiling initialized'')
             (p_defer
               (case pf_StopProfiling pf of (err, took) \<Rightarrow>
                 p_seq (act ProfilingStopped took)
                   (if err \<noteq> None then slog LevelError ''Profiling shutdown error'' else p_return ()))
               body)))
      else p_seq (slog Info ''Profiling disabled (PROFILING_ENABLED=false)'') body)"

definition serve :: "platform \<Rightarrow> Httpx \<Rightarrow> middleware \<Rightarrow> (string \<Rightarrow> middleware) \<Rightarrow> Config \<Rightarrow> unit proc" where
  "serve pf hx jwt require_role cfg =
     (case Config_Validate cfg of
        Some err \<Rightarrow> go_panic (''Configuration validation failed: '' @ Error (pf_PgText pf) err)
      | None \<Rightarrow>
          p_seq (slog Info ''Service starting'')
            (if pf_NewPool pf (Connect cfg) \<noteq> None then fatal ''Failed to connect to database''
             else
               p_seq (act (PoolOpened (Connect cfg)) 0)
                 (p_defer (act PoolClosed (pf_ClosePoolAgain pf))
                   (p_seq (slog Info ''Database connection pool established'')
                     (p_bind (start_telemetry pf) (\<lambda>tp.
                       with_profiling pf cfg
                         (p_seq (startGRPC pf cfg)
                           (if pf_NewVerifier pf (c_OIDCStaffIssuer cfg) (c_OIDCAudience cfg) (c_OIDCStaffJWKSURL cfg) \<noteq> None
                            then fatal ''JWKS verifier init failed''
                            else
                              p_seq (act (VerifierBuilt (c_OIDCStaffIssuer cfg) (c_OIDCAudience cfg) (c_OIDCStaffJWKSURL cfg)) 0)
                                (p_bind (setupServer cfg hx (logic_of wired_admin) jwt require_role)
                                  (\<lambda>srv. runGracefulShutdown pf cfg srv tp))))))))))"

definition main :: "platform \<Rightarrow> Httpx \<Rightarrow> middleware \<Rightarrow> (string \<Rightarrow> middleware) \<Rightarrow> unit proc" where
  "main pf hx jwt require_role =
     (let cfg = Load (pf_Env pf)
      in if length (pf_Args pf) > 1 then
           (case ValidateForSubcommand cfg of
              Some err \<Rightarrow> go_panic (''Configuration validation failed: '' @ Error (pf_PgText pf) err)
            | None \<Rightarrow>
                p_bind (runSubcommand pf (pf_Args pf ! 1) cfg) (\<lambda>done.
                  if done then p_return () else serve pf hx jwt require_role cfg))
         else serve pf hx jwt require_role cfg)"

end
