(* ===== verification/Process_Lifecycle.thy ===== *)
theory Process_Lifecycle
  imports Process_Main
begin

text \<open>
  The life cycle a process is allowed: an abstract specification of which action may follow which history,
  and the proof that the histories of \<open>main\<close> are among them. Programs are composed with one rule per
  construct; the facts a rule carries are actions that have happened, which later ones cannot undo.
\<close>

section \<open>The specification\<close>

definition subcommand :: "platform \<Rightarrow> string option" where
  "subcommand pf = (if length (pf_Args pf) > 1 then Some (pf_Args pf ! 1) else None)"

text \<open>The configuration may serve; with arguments, they are not those of a subcommand and the database part is complete.\<close>

definition may_serve :: "platform \<Rightarrow> bool" where
  "may_serve pf \<longleftrightarrow>
     Config_Validate (Load (pf_Env pf)) = None \<and>
     (case subcommand pf of
        None \<Rightarrow> True
      | Some c \<Rightarrow> c \<notin> {''migrate'', ''seed'', ''backfill''} \<and> ValidateForSubcommand (Load (pf_Env pf)) = None)"

definition may_run :: "platform \<Rightarrow> string \<Rightarrow> bool" where
  "may_run pf c \<longleftrightarrow> subcommand pf = Some c \<and> ValidateForSubcommand (Load (pf_Env pf)) = None"

fun allowed :: "platform \<Rightarrow> action set \<Rightarrow> action \<Rightarrow> bool" where
  "allowed pf h (MigrateRun dsn) \<longleftrightarrow> may_run pf ''migrate'' \<and> dsn = BuildDSN (c_Database (Load (pf_Env pf)))"
| "allowed pf h (SeedPoolOpened dsn) \<longleftrightarrow>
     may_run pf ''seed'' \<and> IsDevelopment (Load (pf_Env pf)) \<and> dsn = BuildDSN (c_Database (Load (pf_Env pf)))"
| "allowed pf h (SeedExec sql) \<longleftrightarrow> SeedPoolOpened (BuildDSN (c_Database (Load (pf_Env pf)))) \<in> h"
| "allowed pf h (PoolOpened c) \<longleftrightarrow> may_serve pf \<and> c = Connect (Load (pf_Env pf))"
| "allowed pf h (GrpcListening addr) \<longleftrightarrow> PoolOpened (Connect (Load (pf_Env pf))) \<in> h"
| "allowed pf h (VerifierBuilt iss aud jwks) \<longleftrightarrow> iss = c_OIDCStaffIssuer (Load (pf_Env pf))"
| "allowed pf h (HttpListening addr) \<longleftrightarrow>
     (\<exists>a. GrpcListening a \<in> h) \<and> (\<exists>aud jwks. VerifierBuilt (c_OIDCStaffIssuer (Load (pf_Env pf))) aud jwks \<in> h)"
| "allowed pf h ShuttingDownStored \<longleftrightarrow> SignalReceived \<in> h"
| "allowed pf h (HttpShutdown t) \<longleftrightarrow> ShuttingDownStored \<in> h \<and> GrpcNotServing \<in> h"
| "allowed pf h GrpcGracefulStop \<longleftrightarrow> (\<exists>t. HttpShutdown t \<in> h)"
| "allowed pf h GrpcForceStop \<longleftrightarrow> GrpcGracefulStop \<in> h"
| "allowed pf h GrpcStopped \<longleftrightarrow> GrpcGracefulStop \<in> h"
| "allowed pf h PoolClosed \<longleftrightarrow> PoolOpened (Connect (Load (pf_Env pf))) \<in> h \<and> GrpcStopped \<in> h"
| "allowed pf h (ProcessStopped r) \<longleftrightarrow> PoolClosed \<in> h"
| "allowed pf h (TelemetryShutdown t) \<longleftrightarrow> (\<exists>r. ProcessStopped r \<in> h) \<and> TelemetryStarted \<in> h"
| "allowed pf h a \<longleftrightarrow> True"

inductive life :: "platform \<Rightarrow> action list \<Rightarrow> bool" for pf where
  life_Nil: "life pf []"
| life_snoc: "life pf h \<Longrightarrow> allowed pf (set h) a \<Longrightarrow> life pf (h @ [a])"

inductive_simps life_snoc_iff: "life pf (h @ [a])"

text \<open>A life is prefix-closed, so a claim about it is a claim about every moment of the process.\<close>

lemma life_prefix: "life pf (h @ t) \<Longrightarrow> life pf h"
proof (induction t rule: rev_induct)
  case (snoc a t)
  from snoc.prems have "life pf ((h @ t) @ [a])" by simp
  then have "life pf (h @ t)" by (simp only: life_snoc_iff)
  then show ?case by (rule snoc.IH)
qed simp

lemma life_before:
  assumes "life pf (h @ a # t)"
  shows "life pf h" "allowed pf (set h) a"
proof -
  from assms have "life pf ((h @ [a]) @ t)" by simp
  from life_prefix [OF this] show "life pf h" "allowed pf (set h) a" by (auto simp: life_snoc_iff)
qed

lemma life_split:
  assumes "life pf h" "a \<in> set h"
  obtains h1 h2 where "h = h1 @ a # h2" "life pf h1" "allowed pf (set h1) a"
proof -
  from split_list [OF assms(2)] obtain h1 h2 where h: "h = h1 @ a # h2" by blast
  show thesis by (rule that [OF h]) (use life_before [of pf h1 a h2] assms(1) h in simp_all)
qed

section \<open>Proof rules\<close>

definition acts :: "machine \<Rightarrow> action list" where
  "acts s = map snd (m_history s)"

lemma acts_simps [simp]:
  "acts (s\<lparr>m_clock := c\<rparr>) = acts s" "acts (step_by s d h) = acts s @ map snd h"
  "map snd (m_history s) = acts s" "snd ` set (m_history s) = set (acts s)"
  by (simp_all add: acts_def step_by_def)

text \<open>
  \<open>lives pf F m G\<close>: run after a life in which the actions \<open>F\<close> have happened, \<open>m\<close> prolongs the life and
  does not panic, and if it returns \<open>x\<close> the actions \<open>G x\<close> have happened as well.
\<close>

definition lives :: "platform \<Rightarrow> action set \<Rightarrow> 'a proc \<Rightarrow> ('a \<Rightarrow> action set) \<Rightarrow> bool" where
  "lives pf F m G \<longleftrightarrow>
     (\<forall>s r s'. life pf (acts s) \<longrightarrow> F \<subseteq> set (acts s) \<longrightarrow> m s = (r, s') \<longrightarrow>
        life pf (acts s') \<and> set (acts s) \<subseteq> set (acts s') \<and>
        (case r of Inl e \<Rightarrow> \<exists>msg. e = Exited msg | Inr x \<Rightarrow> G x \<subseteq> set (acts s')))"

lemma livesI:
  assumes "\<And>s r s'. life pf (acts s) \<Longrightarrow> F \<subseteq> set (acts s) \<Longrightarrow> m s = (r, s') \<Longrightarrow>
    life pf (acts s') \<and> set (acts s) \<subseteq> set (acts s') \<and>
    (case r of Inl e \<Rightarrow> \<exists>msg. e = Exited msg | Inr x \<Rightarrow> G x \<subseteq> set (acts s'))"
  shows "lives pf F m G"
  using assms unfolding lives_def by blast

lemma livesD:
  assumes "lives pf F m G" "life pf (acts s)" "F \<subseteq> set (acts s)" "m s = (r, s')"
  shows "life pf (acts s')" "set (acts s) \<subseteq> set (acts s')"
    "case r of Inl e \<Rightarrow> \<exists>msg. e = Exited msg | Inr x \<Rightarrow> G x \<subseteq> set (acts s')"
  using assms unfolding lives_def by blast+

lemma lives_return: "G x \<subseteq> F \<Longrightarrow> lives pf F (p_return x) G"
  by (rule livesI) (auto simp: p_return_def)

lemma lives_wait: "lives pf F (wait d) (\<lambda>_. {})"
  by (rule livesI) (auto simp: wait_def)

lemma lives_act:
  assumes "\<And>h. F \<subseteq> h \<Longrightarrow> allowed pf h a"
  shows "lives pf F (act a d) (\<lambda>_. {a})"
  using assms by (intro livesI) (auto simp: act_step life_snoc)

lemma lives_bind:
  assumes m: "lives pf F m H" and k: "\<And>x. lives pf (H x \<union> F) (k x) G"
  shows "lives pf F (p_bind m k) G"
proof (rule livesI)
  fix s r s'
  assume s: "life pf (acts s)" "F \<subseteq> set (acts s)" and run: "p_bind m k s = (r, s')"
  obtain r1 s1 where r1: "m s = (r1, s1)" by fastforce
  note m1 = livesD [OF m s r1]
  show "life pf (acts s') \<and> set (acts s) \<subseteq> set (acts s') \<and>
      (case r of Inl e \<Rightarrow> \<exists>msg. e = Exited msg | Inr x \<Rightarrow> G x \<subseteq> set (acts s'))"
  proof (cases r1)
    case (Inl e)
    with run m1 r1 show ?thesis by (auto simp: p_bind_def)
  next
    case (Inr x)
    with run r1 have k1: "k x s1 = (r, s')" by (simp add: p_bind_def)
    have "H x \<union> F \<subseteq> set (acts s1)" using m1(2,3) Inr s by auto
    from livesD [OF k m1(1) this k1] m1(2) show ?thesis by blast
  qed
qed

lemma lives_weaken:
  assumes "lives pf F m G" "F \<subseteq> F'" "\<And>x. G' x \<subseteq> G x \<union> F'"
  shows "lives pf F' m G'"
proof (rule livesI)
  fix s r s'
  assume s: "life pf (acts s)" "F' \<subseteq> set (acts s)" and run: "m s = (r, s')"
  from assms(2) s(2) have "F \<subseteq> set (acts s)" by blast
  from livesD [OF assms(1) s(1) this run] s(2) assms(3)
  show "life pf (acts s') \<and> set (acts s) \<subseteq> set (acts s') \<and>
      (case r of Inl e \<Rightarrow> \<exists>msg. e = Exited msg | Inr x \<Rightarrow> G' x \<subseteq> set (acts s'))"
    by (cases r) (simp_all, blast)
qed

lemma lives_if: "(b \<Longrightarrow> lives pf F m G) \<Longrightarrow> (\<not> b \<Longrightarrow> lives pf F n G) \<Longrightarrow> lives pf F (if b then m else n) G"
  by simp

lemma lives_log: "lives pf F (slog l msg) (\<lambda>_. {})"
  unfolding slog_def by (rule lives_weaken [OF lives_act]) auto

lemma lives_fatal: "lives pf F (fatal msg) G"
proof -
  have "lives pf F (slog LevelError msg) (\<lambda>_. {})" by (rule lives_log)
  moreover have "lives pf F' (\<lambda>s. (Inl (Exited msg), s)) G" for F' by (rule livesI) auto
  ultimately show ?thesis unfolding fatal_def by (rule lives_bind)
qed

lemma lives_defer:
  assumes m: "lives pf F m G" and d: "\<And>x. lives pf (G x \<union> F) d (\<lambda>_. {})"
  shows "lives pf F (p_defer d m) G"
proof (rule livesI)
  fix s r s'
  assume s: "life pf (acts s)" "F \<subseteq> set (acts s)" and run: "p_defer d m s = (r, s')"
  obtain r1 s1 where r1: "m s = (r1, s1)" by fastforce
  note m1 = livesD [OF m s r1]
  show "life pf (acts s') \<and> set (acts s) \<subseteq> set (acts s') \<and>
      (case r of Inl e \<Rightarrow> \<exists>msg. e = Exited msg | Inr x \<Rightarrow> G x \<subseteq> set (acts s'))"
  proof (cases r1)
    case (Inl e)
    with m1(3) obtain msg where "r1 = Inl (Exited msg)" by auto
    with run r1 m1 show ?thesis by (auto simp: p_defer_def)
  next
    case (Inr x)
    obtain r2 s2 where r2: "d s1 = (r2, s2)" by fastforce
    have "G x \<union> F \<subseteq> set (acts s1)" using m1(2,3) Inr s by auto
    note d2 = livesD [OF d m1(1) this r2]
    show ?thesis
    proof (cases r2)
      case (Inl e)
      with run r1 r2 Inr have "r = Inl e" "s' = s2" by (auto simp: p_defer_def)
      with d2 m1 Inl show ?thesis by auto
    next
      case ok: (Inr u)
      with run r1 r2 Inr have "r = Inr x" "s' = s2" by (auto simp: p_defer_def)
      with d2 m1 Inr show ?thesis by auto
    qed
  qed
qed

text \<open>The rules in the form the programs need them: a first step that acts or logs, and last steps.\<close>

lemma lives_then_act:
  assumes "\<And>h. F \<subseteq> h \<Longrightarrow> allowed pf h a" "lives pf (insert a F) m G"
  shows "lives pf F (p_seq (act a d) m) G"
  by (rule lives_bind [OF lives_act]) (use assms in auto)

lemma lives_then_log: "lives pf F m G \<Longrightarrow> lives pf F (p_seq (slog l msg) m) G"
  by (rule lives_bind [OF lives_log]) simp

lemma lives_last_act: "(\<And>h. F \<subseteq> h \<Longrightarrow> allowed pf h a) \<Longrightarrow> (\<And>x. G x \<subseteq> insert a F) \<Longrightarrow> lives pf F (act a d) G"
  by (rule lives_weaken [OF lives_act]) auto

lemma lives_last_log: "(\<And>x. G x \<subseteq> F) \<Longrightarrow> lives pf F (slog l msg) G"
  by (rule lives_weaken [OF lives_log]) auto

lemmas lives_rules = lives_then_act lives_then_log lives_if lives_return lives_last_act lives_last_log lives_fatal

section \<open>The programs\<close>

lemma start_http_lives:
  assumes "GrpcListening a \<in> F" "VerifierBuilt (c_OIDCStaffIssuer (Load (pf_Env pf))) aud jwks \<in> F"
  shows "lives pf F (start_http pf srv) (\<lambda>_. {})"
  unfolding start_http_def by (intro lives_rules) (use assms in auto)

lemma stop_http_lives:
  assumes "ShuttingDownStored \<in> F" "GrpcNotServing \<in> F"
  shows "lives pf F (stop_http pf t) (\<lambda>_. {HttpShutdown t})"
  unfolding stop_http_def by (auto split: prod.split intro!: lives_rules) (use assms in auto)

lemma stop_grpc_lives:
  assumes "HttpShutdown t \<in> F"
  shows "lives pf F (stop_grpc pf r) (\<lambda>_. {GrpcStopped})"
  unfolding stop_grpc_def by (intro lives_rules) (use assms in auto)

lemma shutdownTelemetry_lives:
  assumes "ProcessStopped r \<in> F" "TelemetryStarted \<in> F"
  shows "lives pf F (shutdownTelemetry pf t) (\<lambda>_. {})"
  unfolding shutdownTelemetry_def by (auto split: prod.split intro!: lives_rules) (use assms in auto)

lemma drain_lives:
  assumes "SignalReceived \<in> F" "PoolOpened (Connect (Load (pf_Env pf))) \<in> F" "tp \<Longrightarrow> TelemetryStarted \<in> F"
  shows "lives pf F (drain pf cfg tp) (\<lambda>_. {GrpcStopped})"
proof -
  have delay: "lives pf F' (readiness_drain cfg) (\<lambda>_. {})" for F'
    unfolding readiness_drain_def Let_def by (intro lives_rules) auto
  have flush: "lives pf F' (flush_telemetry pf tp) (\<lambda>_. {})" if "ProcessStopped r \<in> F'" "F \<subseteq> F'" for F' r
    unfolding flush_telemetry_def
    by (intro lives_if lives_bind [OF shutdownTelemetry_lives] lives_rules) (use that assms(3) in auto)
  show ?thesis
    unfolding drain_def
    by (intro lives_then_act lives_then_log lives_bind [OF delay] lives_bind [OF stop_http_lives]
        lives_bind [OF stop_grpc_lives] lives_bind [OF flush] lives_last_log; (use assms in auto)?)
qed

abbreviation verifier_of :: "Config \<Rightarrow> action" where
  "verifier_of c \<equiv> VerifierBuilt (c_OIDCStaffIssuer c) (c_OIDCAudience c) (c_OIDCStaffJWKSURL c)"

lemma runGracefulShutdown_lives:
  assumes "GrpcListening a \<in> F" "verifier_of (Load (pf_Env pf)) \<in> F" "PoolOpened (Connect (Load (pf_Env pf))) \<in> F"
    "tp \<Longrightarrow> TelemetryStarted \<in> F"
  shows "lives pf F (runGracefulShutdown pf cfg srv tp) (\<lambda>_. {GrpcStopped})"
  unfolding runGracefulShutdown_def
  by (intro lives_bind [OF start_http_lives [OF assms(1,2)]] lives_then_act lives_bind [OF lives_wait] lives_if
      lives_fatal drain_lives) (use assms in auto)

lemma start_telemetry_lives: "lives pf F (start_telemetry pf) (\<lambda>tp. if tp then {TelemetryStarted} else {})"
  unfolding start_telemetry_def by (intro lives_rules) auto

lemma startGRPC_lives:
  assumes "PoolOpened (Connect (Load (pf_Env pf))) \<in> F"
  shows "lives pf F (startGRPC pf cfg) (\<lambda>_. {GrpcListening ('':'' @ g_Port (c_GRPC cfg))})"
  unfolding startGRPC_def Let_def by (auto split: option.split intro!: lives_rules) (use assms in auto)

lemma setupServer_lives: "lives pf F (setupServer cfg hx lg jwt rr) (\<lambda>_. {})"
  unfolding setupServer_def by (rule lives_bind [where H = "\<lambda>_. {}"]) (intro lives_rules, auto)+

lemma with_profiling_lives: "lives pf F m G \<Longrightarrow> lives pf F (with_profiling pf cfg m) G"
proof -
  assume m: "lives pf F m G"
  have stop: "lives pf F' (case pf_StopProfiling pf of (err, took) \<Rightarrow> p_seq (act ProfilingStopped took)
      (if err \<noteq> None then slog LevelError ''Profiling shutdown error'' else p_return ())) (\<lambda>_. {})" for F'
    by (cases "pf_StopProfiling pf", simp only: prod.case) (intro lives_rules; simp)
  have "lives pf F' m G" if "F \<subseteq> F'" for F' by (rule lives_weaken [OF m that]) auto
  then show ?thesis
    unfolding with_profiling_def
    by (intro lives_if lives_then_log lives_then_act lives_defer stop) auto
qed

lemma serve_lives:
  assumes "may_serve pf"
  shows "lives pf {} (serve pf hx jwt require_role (Load (pf_Env pf))) (\<lambda>_. {})"
proof -
  let ?c = "Load (pf_Env pf)" and ?F = "{PoolOpened (Connect (Load (pf_Env pf)))}"
  have http: "lives pf F (p_bind (setupServer ?c hx lg jwt rr) (\<lambda>srv. runGracefulShutdown pf ?c srv tp)) (\<lambda>_. {GrpcStopped})"
    if "GrpcListening a \<in> F" "verifier_of ?c \<in> F" "?F \<subseteq> F" "tp \<Longrightarrow> TelemetryStarted \<in> F" for F hx lg jwt rr tp a
    by (rule lives_bind [OF setupServer_lives runGracefulShutdown_lives]) (use that in auto)
  have verifier: "lives pf F (if pf_NewVerifier pf iss aud jwks \<noteq> None then fatal ''JWKS verifier init failed''
      else p_seq (act (verifier_of ?c) 0)
        (p_bind (setupServer ?c hx lg jwt rr) (\<lambda>srv. runGracefulShutdown pf ?c srv tp))) (\<lambda>_. {GrpcStopped})"
    if "GrpcListening a \<in> F" "?F \<subseteq> F" "tp \<Longrightarrow> TelemetryStarted \<in> F" for F hx lg jwt rr tp a iss aud jwks
    by (intro lives_if lives_fatal lives_then_act http) (use that in auto)
  have profiled: "lives pf F (with_profiling pf ?c (p_seq (startGRPC pf ?c)
      (if pf_NewVerifier pf iss aud jwks \<noteq> None then fatal ''JWKS verifier init failed''
       else p_seq (act (verifier_of ?c) 0)
         (p_bind (setupServer ?c hx lg jwt rr) (\<lambda>srv. runGracefulShutdown pf ?c srv tp))))) (\<lambda>_. {GrpcStopped})"
    if "?F \<subseteq> F" "tp \<Longrightarrow> TelemetryStarted \<in> F" for F hx lg jwt rr tp iss aud jwks
    by (intro with_profiling_lives lives_bind [OF startGRPC_lives] verifier) (use that in auto)
  have rest: "lives pf ?F (p_bind (start_telemetry pf) (\<lambda>tp. with_profiling pf ?c (p_seq (startGRPC pf ?c)
      (if pf_NewVerifier pf iss aud jwks \<noteq> None then fatal ''JWKS verifier init failed''
       else p_seq (act (verifier_of ?c) 0)
         (p_bind (setupServer ?c hx lg jwt rr) (\<lambda>srv. runGracefulShutdown pf ?c srv tp)))))) (\<lambda>_. {GrpcStopped})" for hx lg jwt rr iss aud jwks
    by (intro lives_bind [OF start_telemetry_lives] profiled) auto
  have close: "lives pf (G x \<union> ?F) (act PoolClosed (pf_ClosePoolAgain pf)) (\<lambda>_. {})" if "G x = {GrpcStopped}" for G and x :: unit
    by (intro lives_last_act) (use that in auto)
  have valid: "Config_Validate ?c = None" using assms by (simp add: may_serve_def)
  have all: "lives pf ?F (p_defer (act PoolClosed (pf_ClosePoolAgain pf)) (p_seq (slog Info ''Database connection pool established'')
      (p_bind (start_telemetry pf) (\<lambda>tp. with_profiling pf ?c (p_seq (startGRPC pf ?c)
      (if pf_NewVerifier pf iss aud jwks \<noteq> None then fatal ''JWKS verifier init failed''
       else p_seq (act (verifier_of ?c) 0)
         (p_bind (setupServer ?c hx lg jwt rr) (\<lambda>srv. runGracefulShutdown pf ?c srv tp)))))))) (\<lambda>_. {GrpcStopped})"
    for hx lg jwt rr iss aud jwks
    by (intro lives_defer lives_then_log rest close) simp
  have "lives pf {} (serve pf hx jwt require_role ?c) (\<lambda>_. {GrpcStopped})"
    unfolding serve_def valid option.case
    by (intro lives_then_log lives_if lives_fatal lives_then_act all) (use assms in auto)
  then show ?thesis by (rule lives_weaken) auto
qed

lemma apply_seeds_lives:
  "SeedPoolOpened (BuildDSN (c_Database (Load (pf_Env pf)))) \<in> F \<Longrightarrow> lives pf F (apply_seeds pf n names) (\<lambda>_. {})"
proof (induction names arbitrary: n F)
  case Nil
  show ?case by (simp add: lives_return)
next
  case (Cons name names)
  show ?case
    by (auto split: sum.split option.split intro!: lives_return lives_then_act Cons.IH) (use Cons.prems in auto)
qed

lemma applySeed_lives:
  assumes "may_run pf ''seed''" "IsDevelopment (Load (pf_Env pf))"
  shows "lives pf {} (applySeed pf (Load (pf_Env pf))) (\<lambda>_. {})"
proof -
  have close: "lives pf F (act SeedPoolClosed 0) (\<lambda>_. {})" for F by (rule lives_last_act) auto
  have body: "lives pf {SeedPoolOpened (BuildDSN (c_Database (Load (pf_Env pf))))}
      (case pf_ReadDir pf of
         Inl err \<Rightarrow> p_return (Some (errorf_w ''read seed dir: '' err))
       | Inr entries \<Rightarrow> apply_seeds pf 0 (sort (filter (\<lambda>e. strings_HasSuffix e ''.up.sql'') entries))) (\<lambda>_. {})"
    by (auto split: sum.split intro!: lives_return apply_seeds_lives)
  show ?thesis
    unfolding applySeed_def Let_def
    by (auto split: option.split intro!: lives_return lives_then_act lives_defer [OF body close] simp: assms)
qed

lemma runSubcommand_lives:
  assumes "may_run pf cmd"
  shows "lives pf {} (runSubcommand pf cmd (Load (pf_Env pf))) (\<lambda>_. {})"
proof -
  let ?c = "Load (pf_Env pf)"
  have migrate: "lives pf {} (p_seq (act (MigrateRun (BuildDSN (c_Database ?c))) 0)
      (case pf_Migrate pf (BuildDSN (c_Database ?c)) of
         Some err \<Rightarrow> fatal ''Schema migration failed''
       | None \<Rightarrow> p_seq (slog Info ''Schema migrations applied'') (p_return True))) (\<lambda>_. {})"
    if "cmd = ''migrate''"
  proof (rule lives_then_act)
    show "allowed pf h (MigrateRun (BuildDSN (c_Database ?c)))" for h using assms that by simp
    show "lives pf {MigrateRun (BuildDSN (c_Database ?c))} (case pf_Migrate pf (BuildDSN (c_Database ?c)) of
         Some err \<Rightarrow> fatal ''Schema migration failed''
       | None \<Rightarrow> p_seq (slog Info ''Schema migrations applied'') (p_return True)) (\<lambda>_. {})"
      by (cases "pf_Migrate pf (BuildDSN (c_Database ?c))")
        (simp_all add: lives_fatal lives_then_log lives_return)
  qed
  have seed: "lives pf {} (p_bind (applySeed pf ?c) (\<lambda>err.
      if err \<noteq> None then fatal ''Demo seed failed''
      else p_seq (slog Info ''Demo seed data applied'') (p_return True))) (\<lambda>_. {})"
    if "cmd = ''seed''" "\<not> \<not> IsDevelopment ?c"
  proof (rule lives_bind [OF applySeed_lives])
    show "may_run pf ''seed''" "IsDevelopment ?c" using assms that by simp_all
  qed (simp add: lives_fatal lives_then_log lives_return)
  show ?thesis
    unfolding runSubcommand_def by (intro lives_if migrate seed lives_fatal) (simp_all add: lives_return)
qed


section \<open>The whole process\<close>

definition boot :: machine where
  "boot = \<lparr>m_clock = 0, m_history = []\<rparr>"

lemma acts_boot [simp]: "acts boot = []"
  by (simp add: boot_def acts_def)

lemma subcommand_done:
  assumes "cmd \<in> {''migrate'', ''seed'', ''backfill''}" "runSubcommand pf cmd c s = (Inr b, s')"
  shows b
proof -
  have fatal_ne: "fatal msg s1 \<noteq> (Inr b1, s2)" for msg s1 s2 and b1 :: bool
    by (simp add: fatal_def slog_def)
  have logged: "p_seq (slog l msg) (p_return True) s1 = (Inr b1, s2) \<Longrightarrow> b1" for l msg s1 s2 and b1 :: bool
    by (simp add: slog_def p_return_def)
  from assms show ?thesis
    by (auto simp: runSubcommand_def p_bind_def [of "applySeed pf c"] fatal_ne simp del: not_None_eq
        split: option.splits if_splits prod.splits sum.splits dest: logged)
qed

lemma lives_boot: "lives pf {} m G \<Longrightarrow> life pf (acts (snd (m boot)))"
  using livesD(1) [of pf "{}" m G boot] by (cases "m boot") (simp add: life_Nil)

lemma main_life: "life pf (acts (snd (main pf hx jwt require_role boot)))"
proof -
  let ?c = "Load (pf_Env pf)"
  have quiet: "life pf (acts (snd (go_panic msg boot)))" for msg by (simp add: go_panic_def life_Nil)
  have served: "life pf (acts (snd (serve pf hx jwt require_role ?c boot)))"
    if "subcommand pf = None \<or> (\<exists>cmd. subcommand pf = Some cmd \<and> cmd \<notin> {''migrate'', ''seed'', ''backfill''} \<and>
      ValidateForSubcommand ?c = None)"
  proof (cases "Config_Validate ?c")
    case None
    with that have "may_serve pf" by (auto simp: may_serve_def)
    from lives_boot [OF serve_lives [OF this]] show ?thesis .
  next
    case (Some err)
    then show ?thesis by (simp add: serve_def quiet)
  qed
  show ?thesis
  proof (cases "length (pf_Args pf) > 1")
    case False
    then show ?thesis using served by (simp add: main_def subcommand_def)
  next
    case True
    let ?cmd = "pf_Args pf ! 1"
    from True have cmd: "subcommand pf = Some ?cmd" by (simp add: subcommand_def)
    show ?thesis
    proof (cases "ValidateForSubcommand ?c")
      case (Some err)
      with True show ?thesis by (simp add: main_def Let_def quiet)
    next
      case valid: None
      have main: "main pf hx jwt require_role boot =
          p_bind (runSubcommand pf ?cmd ?c) (\<lambda>done. if done then p_return () else serve pf hx jwt require_role ?c) boot"
        using True valid by (simp add: main_def Let_def)
      show ?thesis
      proof (cases "?cmd \<in> {''migrate'', ''seed'', ''backfill''}")
        case False
        then have "runSubcommand pf ?cmd ?c = p_return False" by (simp add: runSubcommand_def)
        with main have "main pf hx jwt require_role boot = serve pf hx jwt require_role ?c boot"
          by (simp add: p_bind_def p_return_def)
        with served cmd valid False show ?thesis by simp
      next
        case sub: True
        have "may_run pf ?cmd" using cmd valid by (simp add: may_run_def)
        from lives_boot [OF runSubcommand_lives [OF this]]
        have "life pf (acts (snd (runSubcommand pf ?cmd ?c boot)))" .
        moreover have "snd (main pf hx jwt require_role boot) = snd (runSubcommand pf ?cmd ?c boot)"
          using subcommand_done [OF sub, of pf ?c boot] unfolding main p_bind_def p_return_def
          by (auto split: prod.split sum.split)
        ultimately show ?thesis by simp
      qed
    qed
  qed
qed

section \<open>Consequences\<close>

lemma allowed_mono: "allowed pf h a \<Longrightarrow> h \<subseteq> h' \<Longrightarrow> allowed pf h' a"
  by (cases a) auto

lemma life_allowed: "life pf h \<Longrightarrow> a \<in> set h \<Longrightarrow> allowed pf (set h) a"
  by (erule (1) life_split) (auto intro: allowed_mono)

text \<open>Once the history contains an action, it contains everything the action requires.\<close>

lemma life_requires:
  assumes "life pf h"
  shows "GrpcListening a \<in> set h \<Longrightarrow> PoolOpened (Connect (Load (pf_Env pf))) \<in> set h"
    and "PoolOpened c \<in> set h \<Longrightarrow> may_serve pf \<and> c = Connect (Load (pf_Env pf))"
    and "SeedPoolOpened dsn \<in> set h \<Longrightarrow> may_run pf ''seed'' \<and> IsDevelopment (Load (pf_Env pf))"
    and "PoolClosed \<in> set h \<Longrightarrow> GrpcStopped \<in> set h"
    and "GrpcStopped \<in> set h \<Longrightarrow> GrpcGracefulStop \<in> set h"
    and "GrpcGracefulStop \<in> set h \<Longrightarrow> \<exists>t. HttpShutdown t \<in> set h"
    and "HttpShutdown t \<in> set h \<Longrightarrow> ShuttingDownStored \<in> set h \<and> GrpcNotServing \<in> set h"
  using life_allowed [OF assms] by fastforce+

lemma seed_excludes_serving: "may_run pf ''seed'' \<Longrightarrow> \<not> may_serve pf"
  by (simp add: may_run_def may_serve_def)

lemma environments_exclusive: "IsDevelopment c \<Longrightarrow> \<not> IsProduction c"
  by (auto simp: IsDevelopment_def IsProduction_def Let_def)

section \<open>The order of the seed files\<close>

lemma apply_seeds_order:
  assumes "apply_seeds pf n names s = (Inr None, s')"
  shows "\<exists>texts. acts s' = acts s @ map SeedExec texts \<and>
    list_all2 (\<lambda>name b. pf_ReadFile pf (''sql/'' @ name) = Inr b) names texts"
  using assms
proof (induction names arbitrary: n s)
  case Nil
  then show ?case by (simp add: p_return_def)
next
  case (Cons name names)
  let ?f = "''sql/'' @ name"
  show ?case
  proof (cases "pf_ReadFile pf ?f")
    case (Inl err)
    with Cons.prems show ?thesis by (simp add: p_return_def)
  next
    case (Inr b)
    let ?s = "step_by s 0 [(m_clock s, SeedExec b)]"
    have run: "(case pf_Exec pf n b of
          Some execErr \<Rightarrow> p_return (Some (errorf_w (''apply seed '' @ name @ '': '') execErr))
        | None \<Rightarrow> apply_seeds pf (Suc n) names) ?s = (Inr None, s')"
      using Cons.prems unfolding apply_seeds.simps Inr sum.case p_seq_act .
    have "apply_seeds pf (Suc n) names ?s = (Inr None, s')"
    proof (cases "pf_Exec pf n b")
      case None
      from run show ?thesis unfolding None option.case .
    next
      case (Some err)
      from run show ?thesis unfolding Some option.case by (simp add: p_return_def)
    qed
    from Cons.IH [OF this] obtain texts where texts: "acts s' = acts ?s @ map SeedExec texts"
      "list_all2 (\<lambda>name b. pf_ReadFile pf (''sql/'' @ name) = Inr b) names texts" by blast
    have "acts s' = acts s @ map SeedExec (b # texts)"
      unfolding texts(1) by simp
    moreover have "list_all2 (\<lambda>name b. pf_ReadFile pf (''sql/'' @ name) = Inr b) (name # names) (b # texts)"
      using Inr texts(2) by (rule list_all2_Cons [THEN iffD2, OF conjI])
    ultimately show ?thesis by blast
  qed
qed

end
