(* ===== verification/Config_Properties.thy ===== *)
theory Config_Properties
  imports Config
begin

text \<open>
  What a configuration that was loaded and accepted guarantees to the rest of the program, and that the
  DSN carries the credentials unchanged.
\<close>

section \<open>Bounds of the timeouts\<close>

lemma seconds_between:
  assumes "1 \<le> dflt" "dflt \<le> hi"
  shows "1 \<le> getEnvDurationSecondsWithMax env k dflt hi \<and> getEnvDurationSecondsWithMax env k dflt hi \<le> hi"
  using assms by (simp add: getEnvDurationSecondsWithMax_def Let_def split: option.split)

lemma getEnvDurationSeconds_max: "getEnvDurationSeconds env k dflt = getEnvDurationSecondsWithMax env k dflt 60"
  by (simp add: getEnvDurationSeconds_def getEnvDurationSecondsWithMax_def)

lemma getEnvOptionalDuration_nonneg: "0 \<le> getEnvOptionalDuration env k \<and> int64_range (getEnvOptionalDuration env k)"
  using ParseDuration_range [of "env k"]
  by (auto simp: getEnvOptionalDuration_def int64_range_def split: option.split)

lemma loaded_timeouts:
  "1 \<le> c_ShutdownTimeout (Load env) \<and> c_ShutdownTimeout (Load env) \<le> 60 \<and>
   1 \<le> c_ReadinessDrainDelay (Load env) \<and> c_ReadinessDrainDelay (Load env) \<le> 30 \<and>
   GetShutdownTimeoutDuration (Load env) = c_ShutdownTimeout (Load env) * 1000000000 \<and>
   GetReadinessDrainDelayDuration (Load env) = c_ReadinessDrainDelay (Load env) * 1000000000"
proof -
  have t: "1 \<le> c_ShutdownTimeout (Load env)" "c_ShutdownTimeout (Load env) \<le> 60"
    "1 \<le> c_ReadinessDrainDelay (Load env)" "c_ReadinessDrainDelay (Load env) \<le> 30"
    using seconds_between [of 10 60 env "''SHUTDOWN_TIMEOUT''"] seconds_between [of 5 30 env "''READINESS_DRAIN_DELAY''"]
    by (simp_all add: Load_def getEnvDurationSeconds_max)
  moreover from t have "GetShutdownTimeoutDuration (Load env) = c_ShutdownTimeout (Load env) * 1000000000"
    "GetReadinessDrainDelayDuration (Load env) = c_ReadinessDrainDelay (Load env) * 1000000000"
    unfolding GetShutdownTimeoutDuration_def GetReadinessDrainDelayDuration_def
    by (auto intro!: wrap64_id simp: int64_range_def)
  ultimately show ?thesis by blast
qed

section \<open>Environments\<close>

definition ascii :: "string \<Rightarrow> bool" where
  "ascii w \<longleftrightarrow> (\<forall>c \<in> set w. (of_char c :: nat) < 128)"

lemma ascii_simps [simp]: "ascii []" "ascii (c # w) \<longleftrightarrow> (of_char c :: nat) < 128 \<and> ascii w"
  by (simp_all add: ascii_def)

lemma lower_char_fixed [simp]: "lower_char (CHR 0xC4) = CHR 0xC4" "lower_char (CHR 0xC5) = CHR 0xC5"
  "lower_char (CHR 0xE2) = CHR 0xE2"
  by (simp_all add: lower_char_def)

lemma fold_case_ToLower:
  assumes "fold_case e = w" "ascii w" "CHR ''s'' \<notin> set w" "CHR ''k'' \<notin> set w"
  shows "strings_ToLower e = w"
  using assms
proof (induction e arbitrary: w rule: fold_case.induct)
  case 1
  then show ?case by simp
next
  case (2 c s)
  have no: "\<not> (c = CHR 0xC5 \<and> s \<noteq> [] \<and> hd s = CHR 0xBF)"
    "\<not> (c = CHR 0xE2 \<and> length s \<ge> 2 \<and> take 2 s = [CHR 0x84, CHR 0xAA])"
    using "2.prems" by (auto split: if_splits)
  then have w: "w = lower_char c # fold_case s" using "2.prems"(1) by (simp only: fold_case.simps if_False)
  then have "c \<noteq> CHR 0xC4" using "2.prems"(2) by auto
  with "2.IH"(3) [OF no refl] w "2.prems" no show ?case by (auto simp del: fold_case.simps)
qed

text \<open>The first letter of an environment tells the three groups apart.\<close>

lemma first_letters:
  assumes "fold_case e = CHR ''s'' # w"
  shows "strings_ToLower e \<noteq> CHR ''p'' # v" "strings_ToLower e \<noteq> CHR ''d'' # v"
  using assms by (cases e; auto split: if_splits)+

definition staging :: "Config \<Rightarrow> bool" where
  "staging c \<longleftrightarrow> contains [''staging'', ''stage''] (s_Env (c_Service c))"

lemma fold_ascii_words:
  "fold_case ''development'' = ''development''" "fold_case ''dev'' = ''dev''" "fold_case ''staging'' = ''staging''"
  "fold_case ''stage'' = ''stage''" "fold_case ''production'' = ''production''" "fold_case ''prod'' = ''prod''"
  by (simp_all add: lower_char_def)

lemma one_environment:
  assumes "contains validEnvs (s_Env (c_Service c))"
  shows "(IsDevelopment c \<and> \<not> IsProduction c \<and> \<not> staging c) \<or> (\<not> IsDevelopment c \<and> IsProduction c \<and> \<not> staging c) \<or>
    (\<not> IsDevelopment c \<and> \<not> IsProduction c \<and> staging c)"
proof -
  let ?e = "s_Env (c_Service c)"
  have st: "staging c \<longleftrightarrow> fold_case ?e = ''staging'' \<or> fold_case ?e = ''stage''"
    by (auto simp: staging_def strings_EqualFold_def fold_ascii_words simp del: fold_case.simps)
  from assms have "fold_case ?e \<in> {''development'', ''dev'', ''production'', ''prod''} \<or> staging c"
    unfolding st by (auto simp: validEnvs_def strings_EqualFold_def fold_ascii_words simp del: fold_case.simps split: if_splits)
  then show ?thesis
  proof
    assume f: "fold_case ?e \<in> {''development'', ''dev'', ''production'', ''prod''}"
    have "strings_ToLower ?e = fold_case ?e" by (rule fold_case_ToLower [OF refl]) (use f in auto)
    with f show ?thesis by (auto simp: IsDevelopment_def IsProduction_def st)
  next
    assume s: "staging c"
    then obtain w where "fold_case ?e = CHR ''s'' # w" unfolding st by auto
    from first_letters [OF this] s show ?thesis by (auto simp: IsDevelopment_def IsProduction_def)
  qed
qed

section \<open>Accepted configurations\<close>

lemma complain_Nil [simp]: "complain b msg = [] \<longleftrightarrow> \<not> b"
  by (simp add: complain_def)

lemma validation_failure_None [simp]: "validation_failure errs = None \<longleftrightarrow> errs = []"
  by (simp add: validation_failure_def)

lemma accepted:
  assumes "Config_Validate c = None"
  shows "validateService c = []" "validateGRPC c = []" "validateProfiling c = []" "validateLogging c = []"
    "validateDatabase c = []"
  using assms by (simp_all add: Config_Validate_def)

text \<open>
  C35. What an accepted configuration guarantees. If the configuration loaded from an environment passes
  validation, the service has a name of its own, both ports are 64-bit decimal numbers, the environment
  is exactly one of development, staging and production, and a database host comes with a name, a user
  and a credential, so that the migrate and seed subcommands accept it too. Whatever the environment
  holds, the shutdown timeout is between 1 and 60 seconds, the drain delay between 1 and 30, and
  converting them to durations does not overflow.
\<close>

theorem config_accepted:
  assumes "Config_Validate (Load env) = None" and "c = Load env"
  shows "s_Name (c_Service c) = env ''SERVICE_NAME'' \<and> s_Name (c_Service c) \<notin> {'''', ''unknown''} \<and>
    ParseInt64 (s_Port (c_Service c)) \<noteq> None \<and> ParseInt64 (g_Port (c_GRPC c)) \<noteq> None \<and>
    length (filter id [IsDevelopment c, staging c, IsProduction c]) = 1 \<and>
    (db_Host (c_Database c) = '''' \<or> ValidateForSubcommand c = None \<and>
       db_Name (c_Database c) \<noteq> '''' \<and> db_User (c_Database c) \<noteq> '''' \<and>
       (db_Password (c_Database c), db_PasswordFile (c_Database c)) \<noteq> ('''', '''')) \<and>
    1 \<le> c_ShutdownTimeout c \<and> c_ShutdownTimeout c \<le> 60 \<and>
    1 \<le> c_ReadinessDrainDelay c \<and> c_ReadinessDrainDelay c \<le> 30 \<and>
    GetShutdownTimeoutDuration c = c_ShutdownTimeout c * 1000000000 \<and>
    GetReadinessDrainDelayDuration c = c_ReadinessDrainDelay c * 1000000000"
proof -
  note ok = accepted [OF assms(1) [folded assms(2)]]
  have name: "s_Name (c_Service c) \<notin> {'''', ''unknown''}" and port: "ParseInt64 (s_Port (c_Service c)) \<noteq> None"
    and envs: "contains validEnvs (s_Env (c_Service c))"
    using ok(1) by (auto simp: validateService_def Let_def defaultServiceName_def)
  have grpc: "ParseInt64 (g_Port (c_GRPC c)) \<noteq> None" using ok(2) by (auto simp: validateGRPC_def Let_def)
  have env_name: "s_Name (c_Service c) = env ''SERVICE_NAME''"
    using name unfolding assms(2) by (auto simp: Load_def getEnv_def defaultServiceName_def split: if_splits)
  have db: "db_Host (c_Database c) = '''' \<or> ValidateForSubcommand c = None \<and>
      db_Name (c_Database c) \<noteq> '''' \<and> db_User (c_Database c) \<noteq> '''' \<and>
      (db_Password (c_Database c), db_PasswordFile (c_Database c)) \<noteq> ('''', '''')"
    using ok(5) unfolding ValidateForSubcommand_def validateDatabase_def Let_def by (auto split: if_splits)
  have one: "length (filter id [IsDevelopment c, staging c, IsProduction c]) = 1"
    using one_environment [OF envs] by auto
  note t = loaded_timeouts [of env, folded assms(2)]
  with name env_name port grpc one db show ?thesis by simp
qed

text \<open>A production environment with a timeout that is out of range and one that is not.\<close>

definition sample_env :: environment where
  "sample_env k =
     (if k = ''SERVICE_NAME'' then ''inventory'' else if k = ''ENV'' then ''Production''
      else if k = ''SHUTDOWN_TIMEOUT'' then ''90s'' else if k = ''READINESS_DRAIN_DELAY'' then ''1500ms''
      else if k = ''DB_HOST'' then ''db'' else if k = ''DB_NAME'' then ''inventory''
      else if k = ''DB_USER'' then ''svc'' else if k = ''DB_PASSWORD'' then ''p@ss'' else '''')"

theorem config_accepted_witness:
  "length (filter id [IsDevelopment (Load sample_env), staging (Load sample_env), IsProduction (Load sample_env)]) = 1 \<and>
   IsProduction (Load sample_env) \<and> c_ShutdownTimeout (Load sample_env) = 10 \<and> c_ReadinessDrainDelay (Load sample_env) = 1"
proof -
  have ok: "Config_Validate (Load sample_env) = None" by code_simp
  have "IsProduction (Load sample_env) \<and>
      c_ShutdownTimeout (Load sample_env) = 10 \<and> c_ReadinessDrainDelay (Load sample_env) = 1" by code_simp
  with config_accepted [OF ok refl] show ?thesis by (intro conjI) (elim conjE, assumption)+
qed

section \<open>The DSN\<close>

text \<open>
  How \<open>net/url\<close> takes the DSN apart again: the query after the first \<open>?\<close>, the authority up to the first
  \<open>/\<close>, the user information up to the last \<open>@\<close> of it, and the password after its first \<open>:\<close>. (Of a host,
  \<open>url.Parse\<close> refuses percent-encoded ASCII bytes; no valid host name or address has any.)
\<close>

definition split_last :: "char \<Rightarrow> string \<Rightarrow> string \<times> string" where
  "split_last c s =
     (let after = rev (takeWhile (\<lambda>x. x \<noteq> c) (rev s)) in (take (length s - length after - 1) s, after))"

definition split_first :: "char \<Rightarrow> string \<Rightarrow> string \<times> string" where
  "split_first c s = (let before = takeWhile (\<lambda>x. x \<noteq> c) s in (before, drop (length before + 1) s))"

fun split_on :: "char \<Rightarrow> string \<Rightarrow> string list" where
  "split_on c [] = [[]]"
| "split_on c (x # s) =
     (if x = c then [] # split_on c s
      else (case split_on c s of [] \<Rightarrow> [[x]] | w # ws \<Rightarrow> (x # w) # ws))"

definition read_query :: "string \<Rightarrow> (string option \<times> string option) list" where
  "read_query q =
     map (\<lambda>p. let (k, v) = split_first (CHR ''='') p
               in (unescape encodeQueryComponent k, unescape encodeQueryComponent v)) (split_on (CHR ''&'') q)"

definition read_dsn :: "string \<Rightarrow> string option list \<times> (string option \<times> string option) list" where
  "read_dsn s =
     (let (main, query) = split_first (CHR ''?'') (drop 13 s);
          (authority, path) = split_first (CHR ''/'') main;
          (userinfo, host) = split_last (CHR ''@'') authority;
          (user, password) = split_first (CHR '':'') userinfo
      in ([unescape encodeUserPassword user, unescape encodeUserPassword password, unescape encodeHost host,
           unescape encodePath path], read_query query))"

lemma split_on_at: "c \<notin> set s \<Longrightarrow> split_on c (s @ c # t) = s # split_on c t"
  by (induction s) auto

lemma split_on_none: "c \<notin> set s \<Longrightarrow> split_on c s = [s]"
  by (induction s) auto

lemma takeWhile_at: "c \<notin> set s \<Longrightarrow> takeWhile (\<lambda>x. x \<noteq> c) (s @ c # t) = s"
  by (induction s) auto

lemma split_first_at: "c \<notin> set s \<Longrightarrow> split_first c (s @ c # t) = (s, t)"
  by (simp add: split_first_def takeWhile_at)

lemma split_last_at: "c \<notin> set t \<Longrightarrow> split_last c (s @ c # t) = (s, t)"
  using takeWhile_at [of c "rev t" "rev s"] by (simp add: split_last_def)

lemma escaped_separators:
  "CHR ''?'' \<notin> set (escape s encodeUserPassword)" "CHR ''/'' \<notin> set (escape s encodeUserPassword)"
  "CHR '':'' \<notin> set (escape s encodeUserPassword)"
  "CHR ''?'' \<notin> set (escape s encodeHost)" "CHR ''/'' \<notin> set (escape s encodeHost)" "CHR ''@'' \<notin> set (escape s encodeHost)"
  "CHR ''?'' \<notin> set (escape s encodePath)" "CHR ''&'' \<notin> set (escape s encodeQueryComponent)"
  by (intro escape_excludes; simp add: shouldEscape_def is_ascii_alnum_def)+

lemma escape_slash: "escape (''/'' @ s) encodePath = ''/'' @ escape s encodePath"
  by (simp add: escape_def escape_char_def shouldEscape_def is_ascii_alnum_def)

lemma read_query_sslmode:
  "read_query (''sslmode='' @ escape m encodeQueryComponent @ rest) =
     (Some ''sslmode'', Some m) # (if rest = [] then [] else read_query (tl rest))"
  if "rest = [] \<or> hd rest = CHR ''&''"
proof -
  have no: "CHR ''&'' \<notin> set (''sslmode='' @ escape m encodeQueryComponent)"
    by (simp add: escaped_separators)
  have pair: "split_first (CHR ''='') (''sslmode='' @ s) = (''sslmode'', s)" for s by (simp add: split_first_def)
  have name: "unescape encodeQueryComponent ''sslmode'' = Some ''sslmode''" by simp
  show ?thesis
  proof (cases rest)
    case Nil
    then show ?thesis
      using split_on_none [OF no] pair name by (simp add: read_query_def unescape_escape)
  next
    case (Cons x r)
    with that have rest: "rest = CHR ''&'' # r" by simp
    show ?thesis
      using split_on_at [OF no, of r] pair name by (simp add: read_query_def unescape_escape rest)
  qed
qed

lemma read_dsn_BuildDSN:
  "read_dsn (BuildDSN c @ rest) =
     ([Some (db_User c), Some (db_Password c), Some (net_JoinHostPort (db_Host c) (db_Port c)), Some (db_Name c)],
      read_query (''sslmode='' @ escape (db_SSLMode c) encodeQueryComponent @ rest))"
proof -
  let ?u = "escape (db_User c) encodeUserPassword" and ?p = "escape (db_Password c) encodeUserPassword"
  let ?h = "escape (net_JoinHostPort (db_Host c) (db_Port c)) encodeHost" and ?n = "escape (db_Name c) encodePath"
  let ?q = "''sslmode='' @ escape (db_SSLMode c) encodeQueryComponent @ rest"
  have dsn: "BuildDSN c @ rest = ''postgresql://'' @ ((?u @ CHR '':'' # ?p @ CHR ''@'' # ?h @ CHR ''/'' # ?n) @ CHR ''?'' # ?q)"
    unfolding BuildDSN_def escape_slash by simp
  have main: "split_first (CHR ''?'') ((?u @ CHR '':'' # ?p @ CHR ''@'' # ?h @ CHR ''/'' # ?n) @ CHR ''?'' # ?q) =
      (?u @ CHR '':'' # ?p @ CHR ''@'' # ?h @ CHR ''/'' # ?n, ?q)"
    by (rule split_first_at) (simp add: escaped_separators)
  have authority: "split_first (CHR ''/'') (?u @ CHR '':'' # ?p @ CHR ''@'' # ?h @ CHR ''/'' # ?n) =
      (?u @ CHR '':'' # ?p @ CHR ''@'' # ?h, ?n)"
    using split_first_at [of "CHR ''/''" "?u @ CHR '':'' # ?p @ CHR ''@'' # ?h" ?n] by (simp add: escaped_separators)
  have userinfo: "split_last (CHR ''@'') (?u @ CHR '':'' # ?p @ CHR ''@'' # ?h) = (?u @ CHR '':'' # ?p, ?h)"
    using split_last_at [of "CHR ''@''" ?h "?u @ CHR '':'' # ?p"] by (simp add: escaped_separators)
  have user: "split_first (CHR '':'') (?u @ CHR '':'' # ?p) = (?u, ?p)"
    by (rule split_first_at) (simp add: escaped_separators)
  have "drop 13 (BuildDSN c @ rest) = (?u @ CHR '':'' # ?p @ CHR ''@'' # ?h @ CHR ''/'' # ?n) @ CHR ''?'' # ?q"
    unfolding dsn by simp
  then show ?thesis
    unfolding read_dsn_def by (simp only: main) (simp add: authority userinfo user unescape_escape)
qed

text \<open>
  C36. Credentials survive the DSN. Whatever bytes the configured user, password, host, database name and
  SSL mode consist of, reading the DSN that \<open>BuildDSN\<close> renders for the migrations gives exactly them back,
  and so does reading the DSN the pool is opened with, which adds the two session timeouts and nothing
  else; no character of a rotated password can change the host, the database or a parameter.
\<close>

theorem dsn_roundtrip:
  "read_dsn (BuildDSN (c_Database cfg)) =
     ([Some (db_User (c_Database cfg)), Some (db_Password (c_Database cfg)),
       Some (net_JoinHostPort (db_Host (c_Database cfg)) (db_Port (c_Database cfg))), Some (db_Name (c_Database cfg))],
      [(Some ''sslmode'', Some (db_SSLMode (c_Database cfg)))]) \<and>
   read_dsn (pc_DSN (Connect cfg)) =
     (fst (read_dsn (BuildDSN (c_Database cfg))),
      [(Some ''sslmode'', Some (db_SSLMode (c_Database cfg))), (Some ''lock_timeout'', Some ''3s''),
       (Some ''statement_timeout'', Some ''10s'')]) \<and>
   take 13 (pc_DSN (Connect cfg)) = ''postgresql://''"
proof (intro conjI)
  have timeouts: "read_query ''lock_timeout=3s&statement_timeout=10s'' =
      [(Some ''lock_timeout'', Some ''3s''), (Some ''statement_timeout'', Some ''10s'')]" by code_simp
  have bare: "read_dsn (BuildDSN (c_Database cfg)) =
     ([Some (db_User (c_Database cfg)), Some (db_Password (c_Database cfg)),
       Some (net_JoinHostPort (db_Host (c_Database cfg)) (db_Port (c_Database cfg))), Some (db_Name (c_Database cfg))],
      [(Some ''sslmode'', Some (db_SSLMode (c_Database cfg)))])"
    using read_dsn_BuildDSN [of "c_Database cfg" "[]"] read_query_sslmode [of "[]"] by simp
  then show "read_dsn (BuildDSN (c_Database cfg)) = \<dots>" .
  show "read_dsn (pc_DSN (Connect cfg)) =
     (fst (read_dsn (BuildDSN (c_Database cfg))),
      [(Some ''sslmode'', Some (db_SSLMode (c_Database cfg))), (Some ''lock_timeout'', Some ''3s''),
       (Some ''statement_timeout'', Some ''10s'')])"
    unfolding bare Connect_def pool_config.select_convs read_dsn_BuildDSN
    by (subst read_query_sslmode) (simp_all add: timeouts)
  show "take 13 (pc_DSN (Connect cfg)) = ''postgresql://''" by (simp add: Connect_def BuildDSN_def)
qed

lemma dsn_example:
  "BuildDSN (c_Database (Load sample_env)) = ''postgresql://svc:p%40ss@db:5432/inventory?sslmode=disable''"
  by code_simp

end
