(* ===== verification/Process_Shutdown.thy ===== *)
theory Process_Shutdown
  imports Process_Lifecycle Config_Properties
begin

text \<open>
  What happens between the signal and the return of \<open>main\<close>, and how long it takes: the steps of the shutdown with
  what each adds to the clock and the history, and rules that carry a bound from the signal through the rest
  of \<open>main\<close>, its deferred calls included.
\<close>

section \<open>What is relied on\<close>

text \<open>
  What is documented of the calls: \<open>http.Server.Shutdown\<close> and the exporter return when their context
  expires, up to a delay \<open>\<delta>\<close> for scheduling; the graceful stop is waited for at most 10 seconds; a hard stop
  makes it return within \<open>\<delta>\<close>.
\<close>

definition prompt :: "platform \<Rightarrow> int \<Rightarrow> bool" where
  "prompt pf \<delta> \<longleftrightarrow>
     (\<forall>t \<ge> 0. snd (pf_ShutdownHTTP pf t) \<le> t + \<delta> \<and> snd (pf_ShutdownTelemetry pf t) \<le> t + \<delta>) \<and>
     (case pf_GracefulStop pf of Some t \<Rightarrow> t \<le> 10000000000 | None \<Rightarrow> True) \<and> 0 \<le> pf_ForceStop pf \<and> pf_ForceStop pf \<le> \<delta>"

definition finished_cleanly :: "platform \<Rightarrow> Config \<Rightarrow> bool" where
  "finished_cleanly pf c \<longleftrightarrow>
     fst (pf_ShutdownHTTP pf (GetShutdownTimeoutDuration c)) = None \<and> pf_GracefulStop pf \<noteq> None"

text \<open>The steps of the shutdown, with what each adds to the history and the clock.\<close>

lemma step_by_none: "step_by s 0 [] = s"
  by (simp add: step_by_def)

lemma seq_log_run: "p_seq (slog l msg) m s = m (step_by s 0 [(m_clock s, Logged l msg)])"
  unfolding slog_def by (rule p_seq_act)

lemma log_run: "slog l msg s = (Inr (), step_by s 0 [(m_clock s, Logged l msg)])"
  unfolding slog_def by (rule act_step)

lemmas runs = p_seq_act seq_log_run log_run act_step p_return_def

lemma return_run: "\<exists>h. p_return x s = (Inr x, step_by s 0 h)"
  using step_by_none [of s, symmetric] unfolding p_return_def by blast

lemma start_http_step: "\<exists>h. start_http pf srv s = (Inr (), step_by s 0 h) \<and> SignalReceived \<notin> snd ` set h"
proof (cases "pf_ListenHTTP pf (hs_Addr srv)")
  case True
  then show ?thesis
    by (cases "pf_ServeHTTP pf") (auto simp: start_http_def runs)
qed (auto simp: start_http_def runs)

lemma stop_http_step:
  "\<exists>h. stop_http pf t s =
     (Inr (if fst (pf_ShutdownHTTP pf t) = None then OutcomeGraceful else OutcomeError),
      step_by s (snd (pf_ShutdownHTTP pf t)) ((m_clock s, HttpShutdown t) # h))"
  by (auto simp: stop_http_def runs split: prod.split)

lemma stop_grpc_step:
  "\<exists>h. stop_grpc pf r s =
     (Inr (if pf_GracefulStop pf = None then OutcomeError else r),
      step_by s (case pf_GracefulStop pf of Some t \<Rightarrow> t | None \<Rightarrow> 10000000000 + pf_ForceStop pf) h)"
  by (auto simp: stop_grpc_def runs split: option.split)

lemma flush_step:
  "\<exists>h. flush_telemetry pf tp s =
     (Inr (), step_by s (if tp then snd (pf_ShutdownTelemetry pf otelShutdownTimeout) else 0) h)"
proof (cases tp)
  case False
  with return_run [of "()" s] show ?thesis by (simp add: flush_telemetry_def)
next
  case True
  obtain err took where t: "pf_ShutdownTelemetry pf otelShutdownTimeout = (err, took)" by fastforce
  have "shutdownTelemetry pf otelShutdownTimeout s =
      (Inr err, step_by s took [(m_clock s, TelemetryShutdown otelShutdownTimeout)])"
    by (simp add: shutdownTelemetry_def t runs)
  note run = bind_run [of "shutdownTelemetry pf otelShutdownTimeout" s, OF this]
  show ?thesis unfolding flush_telemetry_def if_P [OF True] run by (auto simp: runs t)
qed

lemma delay_step: "\<exists>h. readiness_drain cfg s = (Inr (), step_by s (max 0 (GetReadinessDrainDelayDuration cfg)) h)"
  using return_run [of "()" s] by (auto simp: readiness_drain_def runs Let_def max_def)

lemma drain_step:
  "\<exists>h t2 s2. drain pf cfg tp s = (Inr (), s2) \<and> (m_clock s, ShuttingDownStored) \<in> set (m_history s2) \<and>
    (m_clock s + max 0 (GetReadinessDrainDelayDuration cfg), HttpShutdown (GetShutdownTimeoutDuration cfg)) \<in> set (m_history s2) \<and>
    (t2, ProcessStopped (if finished_cleanly pf cfg then OutcomeGraceful else OutcomeError)) \<in> set (m_history s2) \<and>
    m_history s2 = m_history s @ h \<and>
    m_clock s2 = m_clock s + max 0 (GetReadinessDrainDelayDuration cfg) +
      snd (pf_ShutdownHTTP pf (GetShutdownTimeoutDuration cfg)) +
      (case pf_GracefulStop pf of Some t \<Rightarrow> t | None \<Rightarrow> 10000000000 + pf_ForceStop pf) + pf_ClosePool pf +
      (if tp then snd (pf_ShutdownTelemetry pf otelShutdownTimeout) else 0)"
proof -
  let ?d = "GetReadinessDrainDelayDuration cfg" and ?t = "GetShutdownTimeoutDuration cfg"
  let ?g = "case pf_GracefulStop pf of Some t \<Rightarrow> t | None \<Rightarrow> 10000000000 + pf_ForceStop pf"
  let ?http = "if fst (pf_ShutdownHTTP pf ?t) = None then OutcomeGraceful else OutcomeError" and ?f = "if tp then snd (pf_ShutdownTelemetry pf otelShutdownTimeout) else 0"
  let ?o = "if pf_GracefulStop pf = None then OutcomeError else ?http"
  have o: "?o = (if finished_cleanly pf cfg then OutcomeGraceful else OutcomeError)"
    by (simp add: finished_cleanly_def)
  define s0 where "s0 = step_by s 0 [(m_clock s, Logged Info ''Shutdown signal received''),
    (m_clock s, ShuttingDownStored), (m_clock s, GrpcNotServing)]"
  from delay_step obtain h1 where h1: "readiness_drain cfg s0 = (Inr (), step_by s0 (max 0 ?d) h1)" by blast
  define s1 where "s1 = step_by s0 (max 0 ?d) (h1 @ [(m_clock s0 + max 0 ?d, Logged Info ''Shutting down server...'')])"
  from stop_http_step obtain h2 where h2: "stop_http pf ?t s1 =
      (Inr ?http, step_by s1 (snd (pf_ShutdownHTTP pf ?t)) ((m_clock s1, HttpShutdown ?t) # h2))" by blast
  define s2 where "s2 = step_by s1 (snd (pf_ShutdownHTTP pf ?t)) ((m_clock s1, HttpShutdown ?t) # h2)"
  from stop_grpc_step obtain h3 where h3: "stop_grpc pf ?http s2 = (Inr ?o, step_by s2 ?g h3)" by blast
  define s3 where "s3 = step_by s2 (?g + pf_ClosePool pf) (h3 @ [(m_clock s2 + ?g, PoolClosed),
    (m_clock s2 + ?g + pf_ClosePool pf, Logged Info ''Database pool closed''),
    (m_clock s2 + ?g + pf_ClosePool pf, ProcessStopped ?o)])"
  from flush_step obtain h4 where h4: "flush_telemetry pf tp s3 = (Inr (), step_by s3 ?f h4)" by blast
  define s4 where "s4 = step_by s3 ?f (h4 @ [(m_clock s3 + ?f, Logged Info ''Graceful shutdown complete'')])"
  have last: "p_seq (flush_telemetry pf tp) (slog Info ''Graceful shutdown complete'') s3 = (Inr (), s4)"
    unfolding bind_run [of "flush_telemetry pf tp" s3, OF h4] log_run s4_def by simp
  define K where "K = (\<lambda>outcome. p_seq (act PoolClosed (pf_ClosePool pf))
      (p_seq (slog Info ''Database pool closed'')
      (p_seq (act (ProcessStopped outcome) 0)
      (p_seq (flush_telemetry pf tp)
      (slog Info ''Graceful shutdown complete'')))))"
  have k: "K ?o (step_by s2 ?g h3) = (Inr (), s4)"
    unfolding last [symmetric] unfolding K_def p_seq_act seq_log_run s3_def by (simp add: add.assoc)
  let ?rest = "p_bind (stop_http pf ?t) (\<lambda>outcome. p_bind (stop_grpc pf outcome) K)"
  have "drain pf cfg tp s = p_seq (readiness_drain cfg) (p_seq (slog Info ''Shutting down server...'') ?rest) s0"
    unfolding drain_def K_def p_seq_act seq_log_run s0_def by simp
  also have "\<dots> = ?rest s1"
    unfolding bind_run [of "readiness_drain cfg" s0, OF h1] seq_log_run s1_def by simp
  also have "\<dots> = p_bind (stop_grpc pf ?http) K s2"
    unfolding bind_run [of "stop_http pf ?t" s1, OF h2] s2_def ..
  also have "\<dots> = (Inr (), s4)"
    unfolding bind_run [of "stop_grpc pf ?http" s2, OF h3] by (rule k)
  finally have "drain pf cfg tp s = (Inr (), s4)" .
  moreover have "(m_clock s, ShuttingDownStored) \<in> set (m_history s4)"
    "(m_clock s + max 0 ?d, HttpShutdown ?t) \<in> set (m_history s4)"
    "(m_clock s2 + ?g + pf_ClosePool pf, ProcessStopped ?o) \<in> set (m_history s4)"
    by (simp_all only: s4_def s3_def step_by_simps set_append Un_iff list.set)
      (simp_all add: s2_def s1_def s0_def)
  moreover have "\<exists>h. m_history s4 = m_history s @ h"
    by (simp only: s4_def s3_def s2_def s1_def s0_def step_by_simps append_assoc) blast
  moreover have "m_clock s4 = m_clock s + max 0 ?d + snd (pf_ShutdownHTTP pf ?t) + ?g + pf_ClosePool pf + ?f"
    by (simp only: s4_def s3_def s2_def s1_def s0_def step_by_simps add.assoc add_0 add_0_right)
  ultimately show ?thesis unfolding o by blast
qed

section \<open>From the signal to the end of main\<close>

text \<open>Programs that handle no signal, whatever they do and however they end.\<close>

definition deaf :: "'a proc \<Rightarrow> bool" where
  "deaf m \<longleftrightarrow> (\<forall>s. \<exists>h. m_history (snd (m s)) = m_history s @ h \<and> SignalReceived \<notin> snd ` set h)"

lemma deafI: "(\<And>s. \<exists>h. m_history (snd (m s)) = m_history s @ h \<and> SignalReceived \<notin> snd ` set h) \<Longrightarrow> deaf m"
  unfolding deaf_def by blast

lemma deafE:
  assumes "deaf m" "m s = (r, s')"
  obtains h where "m_history s' = m_history s @ h" "SignalReceived \<notin> snd ` set h"
  using assms unfolding deaf_def by (metis snd_conv)

lemma deaf_same: "(\<And>s. m_history (snd (m s)) = m_history s) \<Longrightarrow> deaf m"
  by (rule deafI) simp

lemma deaf_return: "deaf (p_return x)" and deaf_panic: "deaf (go_panic msg)" and deaf_exit: "deaf (\<lambda>s. (Inl e, s))"
  and deaf_wait: "deaf (wait d)"
  by (rule deaf_same, simp add: p_return_def go_panic_def wait_def)+

lemma deaf_act: "a \<noteq> SignalReceived \<Longrightarrow> deaf (act a d)"
  by (rule deafI) (auto simp: act_step)

lemma deaf_log: "deaf (slog l msg)"
  unfolding slog_def by (rule deaf_act) simp

lemma deaf_bind:
  assumes "deaf m" "\<And>x. deaf (k x)"
  shows "deaf (p_bind m k)"
proof (rule deafI)
  fix s
  obtain r s1 where m: "m s = (r, s1)" by fastforce
  from deafE [OF assms(1) m] obtain h where h: "m_history s1 = m_history s @ h" "SignalReceived \<notin> snd ` set h" .
  show "\<exists>h. m_history (snd (p_bind m k s)) = m_history s @ h \<and> SignalReceived \<notin> snd ` set h"
  proof (cases r)
    case (Inl e)
    with m h show ?thesis by (simp add: p_bind_def)
  next
    case (Inr x)
    obtain r' s' where "k x s1 = (r', s')" by fastforce
    moreover from deafE [OF assms(2) this] obtain h'
      where "m_history s' = m_history s1 @ h'" "SignalReceived \<notin> snd ` set h'" .
    ultimately show ?thesis using m h Inr by (auto simp: p_bind_def)
  qed
qed

lemma deaf_fatal: "deaf (fatal msg)"
  unfolding fatal_def by (intro deaf_bind deaf_log deaf_exit)

lemma deaf_defer:
  assumes "deaf d" "deaf m"
  shows "deaf (p_defer d m)"
proof (rule deafI)
  fix s
  obtain r s1 where m: "m s = (r, s1)" by fastforce
  from deafE [OF assms(2) m] obtain h where h: "m_history s1 = m_history s @ h" "SignalReceived \<notin> snd ` set h" .
  obtain r' s2 where d: "d s1 = (r', s2)" by fastforce
  from deafE [OF assms(1) d] obtain h' where h': "m_history s2 = m_history s1 @ h'" "SignalReceived \<notin> snd ` set h'" .
  have "snd (p_defer d m s) \<in> {s1, s2}"
    by (auto simp: p_defer_def m d split: sum.split process_end.split)
  with h h' show "\<exists>h. m_history (snd (p_defer d m s)) = m_history s @ h \<and> SignalReceived \<notin> snd ` set h" by auto
qed

lemma deaf_if: "deaf m \<Longrightarrow> deaf n \<Longrightarrow> deaf (if b then m else n)"
  by simp

lemma deaf_option: "deaf m \<Longrightarrow> (\<And>x. deaf (k x)) \<Longrightarrow> deaf (case v of None \<Rightarrow> m | Some x \<Rightarrow> k x)"
  by (cases v) simp_all

lemma deaf_sum: "(\<And>x. deaf (m x)) \<Longrightarrow> (\<And>x. deaf (k x)) \<Longrightarrow> deaf (case v of Inl x \<Rightarrow> m x | Inr x \<Rightarrow> k x)"
  by (cases v) simp_all

lemma deaf_pair: "(\<And>x y. deaf (k x y)) \<Longrightarrow> deaf (case v of (x, y) \<Rightarrow> k x y)"
  by (cases v) simp

lemmas deaf_rules = deaf_pair deaf_if deaf_option deaf_sum deaf_return deaf_panic deaf_act deaf_log deaf_bind deaf_fatal deaf_defer

lemma apply_seeds_deaf: "deaf (apply_seeds pf n names)"
proof (induction names arbitrary: n)
  case (Cons name names)
  then show ?case unfolding apply_seeds.simps by (intro deaf_rules) simp_all
qed (simp add: deaf_return)

lemma applySeed_deaf: "deaf (applySeed pf c)"
  unfolding applySeed_def Let_def by (intro deaf_rules apply_seeds_deaf) simp_all

lemma runSubcommand_deaf: "deaf (runSubcommand pf cmd c)"
  unfolding runSubcommand_def by (intro deaf_rules applySeed_deaf) simp_all

lemma start_telemetry_deaf: "deaf (start_telemetry pf)"
  unfolding start_telemetry_def by (intro deaf_rules) simp_all

lemma startGRPC_deaf: "deaf (startGRPC pf c)"
  unfolding startGRPC_def Let_def by (intro deaf_rules) simp_all

lemma setupServer_deaf: "deaf (setupServer c hx lg jwt rr)"
  unfolding setupServer_def by (intro deaf_rules) simp_all

text \<open>
  \<open>ending pf c D m\<close>: if a signal is handled while \<open>m\<close> runs, then \<open>m\<close> returns normally at most \<open>D\<close> after it, and the
  readiness probe, the shutdown of HTTP and the report come as they should.
\<close>

definition wound_up :: "platform \<Rightarrow> Config \<Rightarrow> int \<Rightarrow> (int \<times> action) set \<Rightarrow> bool" where
  "wound_up pf c t0 h \<longleftrightarrow>
     (t0, ShuttingDownStored) \<in> h \<and>
     (\<exists>t1 \<ge> t0 + 1000000000. (t1, HttpShutdown (GetShutdownTimeoutDuration c)) \<in> h) \<and>
     (\<exists>t2. (t2, ProcessStopped (if finished_cleanly pf c then OutcomeGraceful else OutcomeError)) \<in> h)"

lemma wound_up_mono: "wound_up pf c t0 h \<Longrightarrow> h \<subseteq> h' \<Longrightarrow> wound_up pf c t0 h'"
  unfolding wound_up_def by blast

definition ending :: "platform \<Rightarrow> Config \<Rightarrow> int \<Rightarrow> 'a proc \<Rightarrow> bool" where
  "ending pf c D m \<longleftrightarrow>
     (\<forall>s. \<exists>h. m_history (snd (m s)) = m_history s @ h \<and>
        (\<forall>t0. (t0, SignalReceived) \<in> set h \<longrightarrow>
           (\<exists>x. fst (m s) = Inr x) \<and> m_clock (snd (m s)) \<le> t0 + D \<and>
           wound_up pf c t0 (set (m_history (snd (m s))))))"

lemma endingD:
  assumes "ending pf c D m" "m s = (r, s')"
  shows "\<exists>h. m_history s' = m_history s @ h \<and> (\<forall>t0. (t0, SignalReceived) \<in> set h \<longrightarrow>
    (\<exists>x. r = Inr x) \<and> m_clock s' \<le> t0 + D \<and> wound_up pf c t0 (set (m_history s')))"
  using assms unfolding ending_def by (metis fst_conv snd_conv)

lemma endingE:
  assumes "ending pf c D m" "m s = (r, s')"
  obtains h where "m_history s' = m_history s @ h"
    "\<And>t0. (t0, SignalReceived) \<in> set h \<Longrightarrow> (\<exists>x. r = Inr x) \<and> m_clock s' \<le> t0 + D \<and> wound_up pf c t0 (set (m_history s'))"
  using endingD [OF assms] by blast

lemma endingI:
  assumes "\<And>s r s'. m s = (r, s') \<Longrightarrow> \<exists>h. m_history s' = m_history s @ h \<and>
    (\<forall>t0. (t0, SignalReceived) \<in> set h \<longrightarrow> (\<exists>x. r = Inr x) \<and> m_clock s' \<le> t0 + D \<and> wound_up pf c t0 (set (m_history s')))"
  shows "ending pf c D m"
  unfolding ending_def using assms by (metis prod.collapse)

lemma ending_deaf:
  assumes "deaf m"
  shows "ending pf c D m"
proof (rule endingI)
  fix s r s'
  assume "m s = (r, s')"
  from deafE [OF assms this] obtain h where "m_history s' = m_history s @ h" "SignalReceived \<notin> snd ` set h" .
  then show "\<exists>h. m_history s' = m_history s @ h \<and>
    (\<forall>t0. (t0, SignalReceived) \<in> set h \<longrightarrow> (\<exists>x. r = Inr x) \<and> m_clock s' \<le> t0 + D \<and> wound_up pf c t0 (set (m_history s')))"
    by force
qed

lemma ending_bind:
  assumes "deaf m" "\<And>x. ending pf c D (k x)"
  shows "ending pf c D (p_bind m k)"
proof (rule endingI)
  fix s r s'
  assume run: "p_bind m k s = (r, s')"
  obtain r1 s1 where m: "m s = (r1, s1)" by fastforce
  from deafE [OF assms(1) m] obtain h where h: "m_history s1 = m_history s @ h" "SignalReceived \<notin> snd ` set h" .
  show "\<exists>h. m_history s' = m_history s @ h \<and>
    (\<forall>t0. (t0, SignalReceived) \<in> set h \<longrightarrow> (\<exists>x. r = Inr x) \<and> m_clock s' \<le> t0 + D \<and> wound_up pf c t0 (set (m_history s')))"
  proof (cases r1)
    case (Inl e)
    with run m have "s' = s1" by (simp add: p_bind_def)
    with h show ?thesis by force
  next
    case (Inr x)
    with run m have "k x s1 = (r, s')" by (simp add: p_bind_def)
    from endingE [OF assms(2) this] obtain h' where h': "m_history s' = m_history s1 @ h'"
      "\<And>t0. (t0, SignalReceived) \<in> set h' \<Longrightarrow> (\<exists>x. r = Inr x) \<and> m_clock s' \<le> t0 + D \<and> wound_up pf c t0 (set (m_history s'))" by blast
    have "(t0, SignalReceived) \<in> set h'" if "(t0, SignalReceived) \<in> set (h @ h')" for t0
      using that h(2) by force
    with h'(2) have "\<forall>t0. (t0, SignalReceived) \<in> set (h @ h') \<longrightarrow>
        (\<exists>x. r = Inr x) \<and> m_clock s' \<le> t0 + D \<and> wound_up pf c t0 (set (m_history s'))" by blast
    moreover have "m_history s' = m_history s @ (h @ h')" using h(1) h'(1) by simp
    ultimately show ?thesis by blast
  qed
qed

lemma ending_if: "(b \<Longrightarrow> ending pf c D m) \<Longrightarrow> (\<not> b \<Longrightarrow> ending pf c D n) \<Longrightarrow> ending pf c D (if b then m else n)"
  by simp

text \<open>A deferred call that cannot fail adds its time.\<close>

lemma ending_defer:
  assumes "ending pf c D m" and "\<And>s. \<exists>h. d s = (Inr (), step_by s D' h) \<and> SignalReceived \<notin> snd ` set h"
  shows "ending pf c (D + D') (p_defer d m)"
proof (rule endingI)
  fix s r s'
  assume run: "p_defer d m s = (r, s')"
  obtain r1 s1 where m: "m s = (r1, s1)" by fastforce
  from endingE [OF assms(1) m] obtain h where h: "m_history s1 = m_history s @ h"
    "\<And>t0. (t0, SignalReceived) \<in> set h \<Longrightarrow> (\<exists>x. r1 = Inr x) \<and> m_clock s1 \<le> t0 + D \<and> wound_up pf c t0 (set (m_history s1))" by blast
  from assms(2) [of s1] obtain h' where d: "d s1 = (Inr (), step_by s1 D' h')" "SignalReceived \<notin> snd ` set h'" by blast
  show "\<exists>h. m_history s' = m_history s @ h \<and>
    (\<forall>t0. (t0, SignalReceived) \<in> set h \<longrightarrow> (\<exists>x. r = Inr x) \<and> m_clock s' \<le> t0 + (D + D') \<and> wound_up pf c t0 (set (m_history s')))"
  proof (cases "\<exists>msg. r1 = Inl (Exited msg)")
    case True
    with run m have "s' = s1" by (auto simp: p_defer_def)
    with h True show ?thesis by blast
  next
    case False
    with run m d(1) have s': "r = r1" "s' = step_by s1 D' h'"
      by (auto simp: p_defer_def split: sum.splits process_end.splits)
    have "(\<exists>x. r = Inr x) \<and> m_clock s' \<le> t0 + (D + D') \<and> wound_up pf c t0 (set (m_history s'))"
      if "(t0, SignalReceived) \<in> set (h @ h')" for t0
    proof -
      from that d(2) have "(t0, SignalReceived) \<in> set h" by force
      from h(2) [OF this] wound_up_mono [of pf c t0 "set (m_history s1)" "set (m_history s')"] show ?thesis by (simp add: s')
    qed
    moreover have "m_history s' = m_history s @ (h @ h')" using h(1) by (simp add: s'(2))
    ultimately show ?thesis by blast
  qed
qed


section \<open>The rules applied to main\<close>

lemma drain_deaf: "deaf (drain pf c tp)"
  unfolding drain_def readiness_drain_def Let_def stop_http_def stop_grpc_def flush_telemetry_def shutdownTelemetry_def
  by (intro deaf_rules) simp_all

definition shutdown_time :: "platform \<Rightarrow> int \<Rightarrow> int" where
  "shutdown_time pf \<delta> = 105000000000 + 3 * \<delta> + pf_ClosePool pf"

lemma drain_bounded:
  assumes "prompt pf \<delta>" and "c = Load env"
  obtains h s2 where "drain pf c tp s = (Inr (), s2)" "m_history s2 = m_history s @ h" "SignalReceived \<notin> snd ` set h"
    "m_clock s2 \<le> m_clock s + shutdown_time pf \<delta>" "wound_up pf c (m_clock s) (set (m_history s2))"
proof -
  from drain_step [of pf c tp s] obtain h t2 s2 where d: "drain pf c tp s = (Inr (), s2)"
    "(m_clock s, ShuttingDownStored) \<in> set (m_history s2)"
    "(m_clock s + max 0 (GetReadinessDrainDelayDuration c), HttpShutdown (GetShutdownTimeoutDuration c)) \<in> set (m_history s2)"
    "(t2, ProcessStopped (if finished_cleanly pf c then OutcomeGraceful else OutcomeError)) \<in> set (m_history s2)"
    "m_history s2 = m_history s @ h"
    "m_clock s2 = m_clock s + max 0 (GetReadinessDrainDelayDuration c) +
      snd (pf_ShutdownHTTP pf (GetShutdownTimeoutDuration c)) +
      (case pf_GracefulStop pf of Some t \<Rightarrow> t | None \<Rightarrow> 10000000000 + pf_ForceStop pf) + pf_ClosePool pf +
      (if tp then snd (pf_ShutdownTelemetry pf otelShutdownTimeout) else 0)" by blast
  note p = assms(1) [unfolded prompt_def]
  have delta: "0 \<le> \<delta>" using p by linarith
  have cfg: "1000000000 \<le> GetReadinessDrainDelayDuration c" "GetReadinessDrainDelayDuration c \<le> 30000000000"
    "GetShutdownTimeoutDuration c \<le> 60000000000" "0 \<le> GetShutdownTimeoutDuration c"
    using loaded_timeouts [of env] unfolding assms(2) by linarith+
  have http: "snd (pf_ShutdownHTTP pf (GetShutdownTimeoutDuration c)) \<le> GetShutdownTimeoutDuration c + \<delta>"
    using p cfg(4) by blast
  have grpc: "(case pf_GracefulStop pf of Some t \<Rightarrow> t | None \<Rightarrow> 10000000000 + pf_ForceStop pf) \<le> 10000000000 + \<delta>"
    using p delta by (auto split: option.splits)
  have otel: "(if tp then snd (pf_ShutdownTelemetry pf otelShutdownTimeout) else 0) \<le> 5000000000 + \<delta>"
    using p delta by (simp add: otelShutdownTimeout_def)
  have time: "m_clock s2 \<le> m_clock s + shutdown_time pf \<delta>"
    unfolding shutdown_time_def using d(6) http grpc otel cfg by linarith
  have "m_clock s + 1000000000 \<le> m_clock s + max 0 (GetReadinessDrainDelayDuration c)" using cfg by linarith
  with d(2,3,4) have wound: "wound_up pf c (m_clock s) (set (m_history s2))" unfolding wound_up_def by blast
  from deafE [OF drain_deaf d(1)] obtain h' where h': "m_history s2 = m_history s @ h'" "SignalReceived \<notin> snd ` set h'" .
  show thesis by (rule that [OF d(1) h' time wound])
qed

lemma runGracefulShutdown_ending:
  assumes "prompt pf \<delta>" and "c = Load env"
  shows "ending pf c (shutdown_time pf \<delta>) (runGracefulShutdown pf c srv tp)"
proof -
  have handled: "ending pf c (shutdown_time pf \<delta>) (p_seq (act SignalReceived 0) (drain pf c tp))"
  proof (rule endingI)
    fix s r s'
    assume run: "p_seq (act SignalReceived 0) (drain pf c tp) s = (r, s')"
    let ?s1 = "step_by s 0 [(m_clock s, SignalReceived)]"
    from drain_bounded [OF assms, of tp ?s1] obtain h s2 where d: "drain pf c tp ?s1 = (Inr (), s2)"
      "m_history s2 = m_history ?s1 @ h" "SignalReceived \<notin> snd ` set h"
      "m_clock s2 \<le> m_clock ?s1 + shutdown_time pf \<delta>" "wound_up pf c (m_clock ?s1) (set (m_history s2))" .
    from run d(1) have s': "r = Inr ()" "s' = s2" by simp_all
    have "t0 = m_clock s" if "(t0, SignalReceived) \<in> set ((m_clock s, SignalReceived) # h)" for t0
      using that d(3) by force
    with d(2,4,5) show "\<exists>h. m_history s' = m_history s @ h \<and>
        (\<forall>t0. (t0, SignalReceived) \<in> set h \<longrightarrow>
          (\<exists>x. r = Inr x) \<and> m_clock s' \<le> t0 + shutdown_time pf \<delta> \<and> wound_up pf c t0 (set (m_history s')))"
      unfolding s' by (intro exI [of _ "(m_clock s, SignalReceived) # h"]) auto
  qed
  show ?thesis
    unfolding runGracefulShutdown_def
    by (intro ending_bind ending_if handled ending_deaf deaf_fatal) (simp_all add: start_http_def deaf_rules deaf_wait)
qed

definition profiling_time :: "platform \<Rightarrow> Config \<Rightarrow> int" where
  "profiling_time pf c = (if p_Enabled (c_Profiling c) \<and> pf_SetupProfiling pf = None then snd (pf_StopProfiling pf) else 0)"

lemma with_profiling_ending:
  assumes m: "ending pf c D m"
  shows "ending pf c (D + profiling_time pf c) (with_profiling pf c m)"
proof -
  have stop: "\<exists>h. (case pf_StopProfiling pf of (err, took) \<Rightarrow> p_seq (act ProfilingStopped took)
        (if err \<noteq> None then slog LevelError ''Profiling shutdown error'' else p_return ())) s =
      (Inr (), step_by s (snd (pf_StopProfiling pf)) h) \<and> SignalReceived \<notin> snd ` set h" for s
    by (cases "pf_StopProfiling pf") (auto simp: runs simp del: not_None_eq)
  show ?thesis
  proof (cases "p_Enabled (c_Profiling c) \<and> pf_SetupProfiling pf = None")
    case True
    then have "profiling_time pf c = snd (pf_StopProfiling pf)" "p_Enabled (c_Profiling c)" "\<not> pf_SetupProfiling pf \<noteq> None"
      by (simp_all add: profiling_time_def)
    then show ?thesis
      unfolding with_profiling_def by (simp only: if_True if_False) (intro ending_bind deaf_act deaf_log ending_defer [OF m stop], simp)
  next
    case False
    then have "profiling_time pf c = 0" by (auto simp: profiling_time_def)
    then show ?thesis
      unfolding with_profiling_def by (intro ending_if ending_bind deaf_log) (use m False in simp_all)
  qed
qed

lemma serve_ending:
  assumes "prompt pf \<delta>" and "c = Load env"
  shows "ending pf c (shutdown_time pf \<delta> + profiling_time pf c + pf_ClosePoolAgain pf) (serve pf hx jwt require_role c)"
proof -
  have close: "\<exists>h. act PoolClosed t s = (Inr (), step_by s t h) \<and> SignalReceived \<notin> snd ` set h" for t s
    by (auto simp: act_step)
  show ?thesis
  proof (cases "Config_Validate c")
    case (Some err)
    then show ?thesis by (simp add: serve_def ending_deaf deaf_panic)
  next
    case None
    show ?thesis
      unfolding serve_def None option.case
      by (intro ending_bind ending_if ending_defer with_profiling_ending close deaf_log deaf_act ending_deaf [OF deaf_fatal]
          start_telemetry_deaf startGRPC_deaf setupServer_deaf runGracefulShutdown_ending [OF assms]) simp_all
  qed
qed

lemma main_ending:
  assumes "prompt pf \<delta>" and "c = Load (pf_Env pf)"
  shows "ending pf c (shutdown_time pf \<delta> + profiling_time pf c + pf_ClosePoolAgain pf) (main pf hx jwt require_role)"
proof -
  note serves = serve_ending [OF assms]
  have sub: "ending pf c D (p_bind (runSubcommand pf cmd c) (\<lambda>done. if done then p_return () else serve pf hx jwt require_role c))"
    if "ending pf c D (serve pf hx jwt require_role c)" for cmd D
    by (intro ending_bind runSubcommand_deaf ending_if that) (rule ending_deaf [OF deaf_return])
  show ?thesis
    unfolding main_def Let_def assms(2) [symmetric]
    by (intro ending_if) (auto intro: serves sub ending_deaf deaf_panic split: option.split)
qed

end
