(* ===== verification/Process_Properties.thy ===== *)
theory Process_Properties
  imports Process_Shutdown
begin

text \<open>
  The properties of the process: what must have happened before each of its actions, and that \<open>main\<close> returns in
  bounded time after the signal.
\<close>

section \<open>The order of things\<close>

text \<open>
  C37. The life of the process, at every moment of it and whatever its surroundings answer. A listener opens
  only if the whole configuration is valid, no subcommand was asked for, and the pool is connected with
  the configured DSN; the HTTP surface also has its token verifier. Seed data goes in only on request and
  only if \<open>ENV\<close>, up to case, is \<open>development\<close> or \<open>dev\<close>, so neither in production nor in staging or under any
  other name, and never in a process that serves. HTTP is shut down only when the
  readiness probe already fails, the pool is closed only when both servers have stopped, the outcome
  is reported after that, and telemetry is shut down only after the report, so that it is still exported.
\<close>

theorem process_lifecycle:
  assumes "acts (snd (main pf hx jwt require_role boot)) = h @ a # t" and "c = Load (pf_Env pf)"
  shows "(a = GrpcListening addr \<longrightarrow> may_serve pf \<and> PoolOpened (Connect c) \<in> set h) \<and>
    (a = HttpListening addr \<longrightarrow> may_serve pf \<and> PoolOpened (Connect c) \<in> set h \<and>
       (\<exists>aud jwks. VerifierBuilt (c_OIDCStaffIssuer c) aud jwks \<in> set h)) \<and>
    (a = SeedExec sql \<longrightarrow> may_run pf ''seed'' \<and> strings_ToLower (s_Env (c_Service c)) \<in> {''development'', ''dev''} \<and>
       \<not> IsProduction c \<and> (\<forall>p. PoolOpened p \<notin> set (h @ a # t))) \<and>
    (a = HttpShutdown d \<longrightarrow> GrpcNotServing \<in> set h \<and>
       ready_probe (ShuttingDownStored \<in> set h) ping = (503, ''shutting_down'')) \<and>
    (a = PoolClosed \<longrightarrow> GrpcStopped \<in> set h \<and> (\<exists>d. HttpShutdown d \<in> set h)) \<and>
    (a = ProcessStopped r \<longrightarrow> PoolClosed \<in> set h) \<and>
    (a = TelemetryShutdown d \<longrightarrow> (\<exists>r. ProcessStopped r \<in> set h))"
proof -
  have all: "life pf (h @ a # t)" using main_life [of pf hx jwt require_role] assms(1) by simp
  note before = life_before [OF all]
  note req = life_requires [OF before(1), folded assms(2)] and ok = before(2)
  have grpc: "may_serve pf \<and> PoolOpened (Connect c) \<in> set h" if "GrpcListening x \<in> set h" for x
    using that req(1,2) by blast
  have seed: "may_run pf ''seed'' \<and> IsDevelopment c" if "a = SeedExec sql"
    using ok req(3) unfolding that by simp
  show ?thesis
  proof (intro conjI impI)
    assume a: "a = GrpcListening addr"
    from ok show "PoolOpened (Connect c) \<in> set h" unfolding a assms(2) by simp
    with req(2) show "may_serve pf" by blast
  next
    assume a: "a = HttpListening addr"
    from ok obtain x where "GrpcListening x \<in> set h" unfolding a by auto
    from grpc [OF this] show "may_serve pf" "PoolOpened (Connect c) \<in> set h" by simp_all
    from ok show "\<exists>aud jwks. VerifierBuilt (c_OIDCStaffIssuer c) aud jwks \<in> set h" unfolding a assms(2) by simp
  next
    assume a: "a = SeedExec sql"
    from seed [OF a] show run: "may_run pf ''seed''" and "\<not> IsProduction c"
      using environments_exclusive by blast+
    from seed [OF a] show "strings_ToLower (s_Env (c_Service c)) \<in> {''development'', ''dev''}"
      by (simp add: IsDevelopment_def Let_def)
    from life_requires(2) [OF all] seed_excludes_serving [OF run]
    show "\<forall>p. PoolOpened p \<notin> set (h @ a # t)" by blast
  next
    assume a: "a = HttpShutdown d"
    from ok show "GrpcNotServing \<in> set h" "ready_probe (ShuttingDownStored \<in> set h) ping = (503, ''shutting_down'')"
      unfolding a by (simp_all add: ready_probe_def)
  next
    assume a: "a = PoolClosed"
    from ok show "GrpcStopped \<in> set h" unfolding a by simp
    from req(6) [OF req(5) [OF this]] show "\<exists>d. HttpShutdown d \<in> set h" .
  next
    assume a: "a = ProcessStopped r"
    from ok show "PoolClosed \<in> set h" unfolding a by simp
  next
    assume a: "a = TelemetryShutdown d"
    from ok show "\<exists>r. ProcessStopped r \<in> set h" unfolding a by simp
  qed
qed

section \<open>The shutdown ends\<close>

text \<open>
  C38. The process ends. Given that the calls keep their deadlines, \<open>main\<close> returns, without a panic or a fatal
  error, in bounded time after the signal, whatever the environment configures: at most 30 seconds of
  draining, 60 for HTTP, 10 for gRPC, 5 for telemetry, and what has no deadline in the code, which is the close of
  the pool, its deferred second close and, where profiling runs, the deferred stop of the profiler. Readiness fails
  as soon as the signal is handled and at least a second before HTTP is shut down, and the reported outcome
  is graceful exactly if HTTP was shut down in time and gRPC needed no hard stop.
\<close>

theorem shutdown_bounded:
  assumes "prompt pf \<delta>" and "c = Load (pf_Env pf)"
    and "main pf hx jwt require_role boot = (r, s')" and "(t0, SignalReceived) \<in> set (m_history s')"
  shows "r = Inr () \<and>
    m_clock s' \<le> t0 + 105000000000 + 3 * \<delta> + pf_ClosePool pf + pf_ClosePoolAgain pf +
      (if p_Enabled (c_Profiling c) \<and> pf_SetupProfiling pf = None then snd (pf_StopProfiling pf) else 0) \<and>
    (t0, ShuttingDownStored) \<in> set (m_history s') \<and>
    (\<exists>t1 \<ge> t0 + 1000000000. (t1, HttpShutdown (GetShutdownTimeoutDuration c)) \<in> set (m_history s')) \<and>
    (\<exists>t2. (t2, ProcessStopped (if finished_cleanly pf c then OutcomeGraceful else OutcomeError)) \<in> set (m_history s'))"
proof -
  from endingD [OF main_ending [OF assms(1,2)] assms(3)] obtain h where h: "m_history s' = m_history boot @ h"
    "\<forall>t0. (t0, SignalReceived) \<in> set h \<longrightarrow> (\<exists>x. r = Inr x) \<and>
      m_clock s' \<le> t0 + (shutdown_time pf \<delta> + profiling_time pf c + pf_ClosePoolAgain pf) \<and>
      wound_up pf c t0 (set (m_history s'))" by (elim exE conjE)
  have "(t0, SignalReceived) \<in> set h" using assms(4) h(1) by (simp add: boot_def)
  note ended = h(2) [rule_format, OF this]
  from ended have "\<exists>x. r = Inr x"
    and clock: "m_clock s' \<le> t0 + (shutdown_time pf \<delta> + profiling_time pf c + pf_ClosePoolAgain pf)"
    and wound: "wound_up pf c t0 (set (m_history s'))" by blast+
  then have "r = Inr ()" by simp
  moreover note wound [unfolded wound_up_def]
  moreover have "m_clock s' \<le> t0 + 105000000000 + 3 * \<delta> + pf_ClosePool pf + pf_ClosePoolAgain pf +
      (if p_Enabled (c_Profiling c) \<and> pf_SetupProfiling pf = None then snd (pf_StopProfiling pf) else 0)"
    using clock unfolding shutdown_time_def profiling_time_def by linarith
  ultimately show ?thesis by blast
qed

text \<open>A platform on which everything works, except that the graceful stop of gRPC does not return.\<close>

definition sample_platform :: platform where
  "sample_platform =
     \<lparr>pf_Args = [''inventory''], pf_Env = sample_env, pf_PgText = (\<lambda>c. c), pf_Migrate = (\<lambda>_. None),
      pf_ParseConfig = (\<lambda>_. None), pf_NewSeedPool = (\<lambda>_. None), pf_ReadDir = Inr [],
      pf_ReadFile = Inr, pf_Exec = (\<lambda>_ _. None), pf_NewPool = (\<lambda>_. None),
      pf_SetupObservability = None, pf_SetupProfiling = None, pf_StopProfiling = (None, 6),
      pf_ListenGRPC = (\<lambda>_. None), pf_NewVerifier = (\<lambda>_ _ _. None), pf_ListenHTTP = (\<lambda>_. True),
      pf_ServeHTTP = None, pf_ServeGRPC = None, pf_UntilSignal = 7,
      pf_ShutdownHTTP = (\<lambda>t. (None, 2)), pf_GracefulStop = None, pf_ForceStop = 3, pf_ClosePool = 4, pf_ClosePoolAgain = 5,
      pf_ShutdownTelemetry = (\<lambda>t. (None, 1))\<rparr>"

lemma sample_platform_sel [simp]:
  "pf_Env sample_platform = sample_env" "pf_Args sample_platform = [''inventory'']"
  "pf_NewPool sample_platform p = None" "pf_SetupObservability sample_platform = None"
  "pf_SetupProfiling sample_platform = None" "pf_StopProfiling sample_platform = (None, 6)"
  "pf_ListenGRPC sample_platform a = None" "pf_NewVerifier sample_platform b c d = None"
  "pf_ListenHTTP sample_platform a = True" "pf_ServeHTTP sample_platform = None" "pf_ServeGRPC sample_platform = None"
  "pf_UntilSignal sample_platform = 7" "pf_ShutdownHTTP sample_platform t = (None, 2)"
  "pf_GracefulStop sample_platform = None" "pf_ForceStop sample_platform = 3" "pf_ClosePool sample_platform = 4" "pf_ClosePoolAgain sample_platform = 5"
  "pf_ShutdownTelemetry sample_platform t = (None, 1)"
  by (simp_all add: sample_platform_def)

lemma sample_config [simp]:
  "Config_Validate (Load sample_env) = None" "IsDevelopment (Load sample_env) = False"
  "p_Enabled (c_Profiling (Load sample_env)) = True" "GetReadinessDrainDelayDuration (Load sample_env) = 1000000000"
  "s_Port (c_Service (Load sample_env)) = ''8080''"
  by code_simp+

lemma sample_run:
  "HttpListening '':8080'' \<in> set (acts (snd (main sample_platform hx jwt require_role boot))) \<and>
   (7, SignalReceived) \<in> set (m_history (snd (main sample_platform hx jwt require_role boot)))"
  unfolding main_def serve_def start_telemetry_def with_profiling_def startGRPC_def setupServer_def
    runGracefulShutdown_def start_http_def drain_def readiness_drain_def stop_http_def stop_grpc_def
    shutdownTelemetry_def flush_telemetry_def p_defer_def wait_def
  by (simp add: Let_def seq_log_run log_run act_step p_return_def p_bind_def boot_def)

lemmas sample_serves = sample_run [THEN conjunct1] and sample_signal = sample_run [THEN conjunct2]

theorem process_lifecycle_witness:
  "\<forall>hx jwt require_role. \<exists>h t. acts (snd (main sample_platform hx jwt require_role boot)) = h @ HttpListening '':8080'' # t \<and>
     may_serve sample_platform \<and> PoolOpened (Connect (Load sample_env)) \<in> set h"
proof (intro allI)
  fix hx jwt require_role
  from split_list [OF sample_serves] obtain h t where
    run: "acts (snd (main sample_platform hx jwt require_role boot)) = h @ HttpListening '':8080'' # t" by blast
  from process_lifecycle [OF run refl, of "'':8080''"] run
  show "\<exists>h t. acts (snd (main sample_platform hx jwt require_role boot)) = h @ HttpListening '':8080'' # t \<and>
     may_serve sample_platform \<and> PoolOpened (Connect (Load sample_env)) \<in> set h" by auto
qed

theorem shutdown_bounded_witness:
  "\<forall>hx jwt require_role. \<exists>s'. main sample_platform hx jwt require_role boot = (Inr (), s') \<and>
     m_clock s' \<le> 105000000031 \<and> (\<exists>t2. (t2, ProcessStopped OutcomeError) \<in> set (m_history s'))"
proof (intro allI)
  fix hx jwt require_role
  obtain r s' where run: "main sample_platform hx jwt require_role boot = (r, s')" by fastforce
  have "prompt sample_platform 3" by (simp add: prompt_def)
  moreover have "(7, SignalReceived) \<in> set (m_history s')" using sample_signal [of hx jwt require_role] run by simp
  ultimately show "\<exists>s'. main sample_platform hx jwt require_role boot = (Inr (), s') \<and>
     m_clock s' \<le> 105000000031 \<and> (\<exists>t2. (t2, ProcessStopped OutcomeError) \<in> set (m_history s'))"
    using shutdown_bounded [OF _ refl run, of 3 7] run by (simp add: finished_cleanly_def)
qed

end
