(* ===== verification/Seed_Data.thy ===== *)
theory Seed_Data
  imports Service_System
begin

text \<open>
  \<open>db/seed/sql\<close>: what the \<open>seed\<close> subcommand does to the database. The first file holds comments only; the
  second inserts a balance for each demo SKU in the default warehouse, unless one exists, in a single
  statement. It writes no movement, so it is the one writer that moves stock past the ledger.
\<close>

definition seed_values :: "(string \<times> int) list" where
  "seed_values =
     [(''1'', 50), (''2'', 30), (''3'', 25), (''4'', 40), (''5'', 20), (''6'', 15), (''7'', 35),
      (''8'', 18), (''9'', 28), (''10'', 60), (''11'', 75), (''12'', 120), (''13'', 38)]"

definition seed_row :: "int \<Rightarrow> int \<Rightarrow> balance_row" where
  "seed_row now q = \<lparr>on_hand = q, reserved = 0, safety_stock = 0, version = 1, bal_updated_at = now\<rparr>"

definition seed_rows :: "int \<Rightarrow> db \<Rightarrow> (balance_key \<times> balance_row) list" where
  "seed_rows now d =
     concat (map (\<lambda>(sku, q).
         map (\<lambda>(id, w). ((sku, id), seed_row now q)) (filter (\<lambda>(id, w). wh_code w = ''WH-DEFAULT'') (warehouses d)))
       seed_values)"

definition insert_new :: "balance_key \<times> balance_row \<Rightarrow> db \<Rightarrow> db" where
  "insert_new kr d =
     (case map_of (balances d) (fst kr) of
        Some _ \<Rightarrow> d
      | None \<Rightarrow> apply_write (WBalance (fst kr) (snd kr)) d)"

definition seed_stock :: "int \<Rightarrow> db \<Rightarrow> db" where
  "seed_stock now d = fold insert_new (seed_rows now d) d"

section \<open>What an inserted row is like\<close>

definition demo_row :: "db \<Rightarrow> balance_key \<times> balance_row \<Rightarrow> bool" where
  "demo_row d kr \<longleftrightarrow>
     has_warehouse d (snd (fst kr)) \<and> balance_range (snd kr) \<and> balance_check (snd kr) \<and> reserved (snd kr) = 0"

lemma seed_rows_demo: "kr \<in> set (seed_rows now d) \<Longrightarrow> demo_row d kr"
proof -
  assume "kr \<in> set (seed_rows now d)"
  then obtain sku q i w where kr: "kr = ((sku, i), seed_row now q)" "(sku, q) \<in> set seed_values" "(i, w) \<in> set (warehouses d)"
    by (auto simp: seed_rows_def)
  from kr(2) have "0 \<le> q \<and> q \<le> 120" by (auto simp: seed_values_def)
  moreover from kr(3) have "has_warehouse d i" by (force simp: has_warehouse_def map_of_eq_None_iff)
  ultimately show ?thesis
    unfolding kr(1) demo_row_def seed_row_def by (simp add: balance_range_def balance_check_def int64_range_def)
qed

lemma insert_new_keeps:
  "warehouses (insert_new kr d) = warehouses d" "reservations (insert_new kr d) = reservations d"
  "reservation_lines (insert_new kr d) = reservation_lines d" "movements (insert_new kr d) = movements d"
  "server (insert_new kr d) = server d"
  by (simp_all add: insert_new_def split: option.split)

lemma insert_new_lookup:
  "map_of (balances (insert_new kr d)) k =
     (if k = fst kr \<and> map_of (balances d) k = None then Some (snd kr) else map_of (balances d) k)"
  by (auto simp: insert_new_def update_conv split: option.split)

lemma fold_insert_keeps:
  "warehouses (fold insert_new krs d) = warehouses d" "reservations (fold insert_new krs d) = reservations d"
  "reservation_lines (fold insert_new krs d) = reservation_lines d" "movements (fold insert_new krs d) = movements d"
  "server (fold insert_new krs d) = server d"
  by (induction krs arbitrary: d) (simp_all add: insert_new_keeps)

lemma fold_insert_lookup:
  "map_of (balances (fold insert_new krs d)) k =
     (case map_of (balances d) k of Some r \<Rightarrow> Some r | None \<Rightarrow> map_of krs k)"
  by (induction krs arbitrary: d) (auto simp: insert_new_lookup split: option.split)

lemma seed_stock_lookup:
  "map_of (balances (seed_stock now d)) k =
     (case map_of (balances d) k of Some r \<Rightarrow> Some r | None \<Rightarrow> map_of (seed_rows now d) k)"
  by (simp add: seed_stock_def fold_insert_lookup)

lemma insert_new_known: "map_of (balances d) (fst kr) \<noteq> None \<Longrightarrow> insert_new kr d = d"
  by (auto simp: insert_new_def)

lemma fold_insert_known: "(\<forall>kr \<in> set krs. map_of (balances d) (fst kr) \<noteq> None) \<Longrightarrow> fold insert_new krs d = d"
  by (induction krs) (auto simp: insert_new_known)

lemma fold_insert_distinct: "distinct (map fst (balances d)) \<Longrightarrow> distinct (map fst (balances (fold insert_new krs d)))"
  by (induction krs arbitrary: d) (auto simp: insert_new_def distinct_update split: option.split)

section \<open>Seeding keeps the invariant\<close>

lemma seed_rows_again: "map fst (seed_rows now' (seed_stock now d)) = map fst (seed_rows now d)"
proof -
  have "warehouses (seed_stock now d) = warehouses d" by (simp add: seed_stock_def fold_insert_keeps)
  then show ?thesis by (simp add: seed_rows_def map_concat case_prod_beta comp_def)
qed

lemma seed_stock_idem: "seed_stock now' (seed_stock now d) = seed_stock now d"
proof -
  have "map_of (balances (seed_stock now d)) (fst kr) \<noteq> None" if "kr \<in> set (seed_rows now' (seed_stock now d))" for kr
  proof -
    from that have "fst kr \<in> fst ` set (seed_rows now d)"
      using seed_rows_again [of now' now d, THEN arg_cong [where f = set]] by auto
    then have "map_of (seed_rows now d) (fst kr) \<noteq> None" by (simp add: map_of_eq_None_iff)
    then show ?thesis by (auto simp: seed_stock_lookup split: option.split)
  qed
  then show ?thesis unfolding seed_stock_def [of now' "seed_stock now d"] by (intro fold_insert_known) blast
qed

lemma seed_stock_reserved: "reserved_of (seed_stock now d) k = reserved_of d k"
  using seed_rows_demo [of "(k, r)" now d for r]
  by (auto simp: reserved_of_def seed_stock_lookup demo_row_def split: option.split dest: map_of_SomeD)

lemma seed_stock_inv:
  assumes "db_inv d"
  shows "db_inv (seed_stock now d)"
proof -
  note keeps = fold_insert_keeps [of "seed_rows now d" d, folded seed_stock_def]
  have line_held: "line_held (seed_stock now d) k = line_held d k" for k
    by (simp add: fun_eq_iff line_held_def status_of_def keeps)
  have held: "held_qty (seed_stock now d) k = held_qty d k" for k
    by (simp add: held_qty_def line_held keeps)
  have moved: "moved_reserved (seed_stock now d) k = moved_reserved d k" for k by (simp add: moved_reserved_def keeps)
  have wh: "has_warehouse (seed_stock now d) w = has_warehouse d w" for w by (simp add: has_warehouse_def keeps)
  have row: "balance_range r \<and> balance_check r \<and> has_warehouse d (snd k)"
    if "map_of (balances (seed_stock now d)) k = Some r" for k r
  proof (cases "map_of (balances d) k")
    case None
    with that have "(k, r) \<in> set (seed_rows now d)" by (simp add: seed_stock_lookup map_of_SomeD)
    from seed_rows_demo [OF this] show ?thesis by (simp add: demo_row_def)
  next
    case (Some x)
    with that have "map_of (balances d) k = Some r" by (simp add: seed_stock_lookup)
    with db_invD(1) [OF assms] show ?thesis unfolding balances_ok_def by blast
  qed
  have distinct: "distinct (map fst (balances (seed_stock now d)))"
    using assms fold_insert_distinct unfolding seed_stock_def db_inv_def schema_ok_def balances_ok_def by blast
  have balances: "balances_ok (seed_stock now d)"
    unfolding balances_ok_def wh by (intro conjI allI impI distinct) (use row in blast)+
  have others: "reservations_ok (seed_stock now d) = reservations_ok d" "lines_ok (seed_stock now d) = lines_ok d"
    "movements_ok (seed_stock now d) = movements_ok d"
    by (simp_all only: reservations_ok_def lines_ok_def movements_ok_def keeps wh)
  from assms balances show ?thesis
    unfolding db_inv_def schema_ok_def others keeps held moved seed_stock_reserved by blast
qed

section \<open>Seeded stock\<close>

text \<open>What the statement inserts for a pair: nothing outside the default warehouse, one row in it for a demo SKU.\<close>

lemma map_of_column:
  "map_of (map (\<lambda>(i, w). ((sku, i), r)) ws) k = (if fst k = sku \<and> snd k \<in> fst ` set ws then Some r else None)"
  by (induction ws) (auto simp: prod_eq_iff)

lemma map_of_cross:
  "map_of (concat (map (\<lambda>(sku, q). map (\<lambda>(i, w). ((sku, i), f q)) ws) vs)) k =
     (if snd k \<in> fst ` set ws then map_option f (map_of vs (fst k)) else None)"
proof (induction vs)
  case (Cons v vs)
  obtain sku q where v: "v = (sku, q)" by fastforce
  show ?case using Cons.IH by (auto simp: v map_add_def map_of_column split: option.split)
qed simp

lemma seed_rows_lookup:
  assumes "distinct (map fst (warehouses d))"
  shows "map_of (seed_rows now d) k =
    (if map_option wh_code (map_of (warehouses d) (snd k)) = Some ''WH-DEFAULT''
     then map_option (seed_row now) (map_of seed_values (fst k)) else None)"
proof -
  have "snd k \<in> fst ` set (filter (\<lambda>(id, w). wh_code w = ''WH-DEFAULT'') (warehouses d)) \<longleftrightarrow>
      (\<exists>w. (snd k, w) \<in> set (warehouses d) \<and> wh_code w = ''WH-DEFAULT'')"
    by (force simp: image_iff)
  also have "\<dots> \<longleftrightarrow> map_option wh_code (map_of (warehouses d) (snd k)) = Some ''WH-DEFAULT''"
    unfolding map_of_eq_Some_iff [OF assms, symmetric] by auto
  finally show ?thesis unfolding seed_rows_def map_of_cross by simp
qed

text \<open>
  C39. Demo stock is off the ledger and nothing else is. Seeding a state the service can reach overwrites no
  balance and can be repeated without effect. Where a pair has no balance it creates one exactly if the
  warehouse is the one with code \<open>WH-DEFAULT\<close> and the SKU is one of the thirteen, with the quantity of the
  list on hand, nothing reserved and no safety stock. Whatever the service does afterwards, stock is not
  oversold and the reservations and their ledger entries agree as before; but the quantity on hand then
  exceeds the sum of the ledger, for ever, by that quantity, and by nothing for any other pair.
\<close>

theorem seeded_stock:
  assumes "reachable d" and "evolves (seed_stock now d) d'"
    and "created = (if map_of (balances d) k = None \<and>
        map_option wh_code (map_of (warehouses d) (snd k)) = Some ''WH-DEFAULT''
      then map_of [(''1'', 50), (''2'', 30), (''3'', 25), (''4'', 40), (''5'', 20), (''6'', 15), (''7'', 35),
        (''8'', 18), (''9'', 28), (''10'', 60), (''11'', 75), (''12'', 120), (''13'', 38)] (fst k)
      else None)"
  shows "(\<forall>r. map_of (balances d) k = Some r \<longrightarrow> map_of (balances (seed_stock now d)) k = Some r) \<and>
    (map_of (balances d) k = None \<longrightarrow>
       map_option (\<lambda>r. (on_hand r, reserved r, safety_stock r)) (map_of (balances (seed_stock now d)) k) =
       map_option (\<lambda>q. (q, 0, 0)) created) \<and>
    seed_stock now' (seed_stock now d) = seed_stock now d \<and> db_inv d' \<and>
    0 \<le> reserved_of d' k \<and> reserved_of d' k \<le> on_hand_of d' k \<and>
    reserved_of d' k = held_qty d' k \<and> reserved_of d' k = moved_reserved d' k \<and>
    on_hand_of d' k = moved_on_hand d' k + (case created of None \<Rightarrow> 0 | Some q \<Rightarrow> q)"
proof -
  let ?s = "seed_stock now d"
  have inv: "db_inv ?s" by (rule seed_stock_inv [OF reachable_inv [OF assms(1)]])
  from evolves_sound [OF assms(2) inv] have inv': "db_inv d'" and guar: "db_guar ?s d'" by blast+
  have created: "created = (if map_of (balances d) k = None \<and>
      map_option wh_code (map_of (warehouses d) (snd k)) = Some ''WH-DEFAULT'' then map_of seed_values (fst k) else None)"
    unfolding assms(3) seed_values_def ..
  have rows: "map_of (balances ?s) k =
      (case map_of (balances d) k of Some r \<Rightarrow> Some r | None \<Rightarrow> map_option (seed_row now) created)"
    unfolding seed_stock_lookup seed_rows_lookup [OF db_invD(7) [OF reachable_inv [OF assms(1)]]] created
    by (cases "map_of (balances d) k"; cases "map_option wh_code (map_of (warehouses d) (snd k)) = Some ''WH-DEFAULT''")
      (simp_all only: option.case if_True if_False simp_thms option.map option.distinct)
  have "on_hand_of ?s k = on_hand_of d k + (case created of None \<Rightarrow> 0 | Some q \<Rightarrow> q)"
    by (auto simp: on_hand_of_def rows seed_row_def created split: option.split)
  moreover have "moved_on_hand ?s k = moved_on_hand d k"
    by (simp add: moved_on_hand_def seed_stock_def fold_insert_keeps)
  moreover have "on_hand_of d k = moved_on_hand d k" by (rule reachable_on_hand [OF assms(1)])
  moreover have "on_hand_of d' k - moved_on_hand d' k = on_hand_of ?s k - moved_on_hand ?s k"
    using guar unfolding db_guar_def by blast
  ultimately have "on_hand_of d' k = moved_on_hand d' k + (case created of None \<Rightarrow> 0 | Some q \<Rightarrow> q)" by linarith
  moreover have "\<forall>r. map_of (balances d) k = Some r \<longrightarrow> map_of (balances ?s) k = Some r" by (simp add: rows)
  moreover have "map_of (balances d) k = None \<longrightarrow>
      map_option (\<lambda>r. (on_hand r, reserved r, safety_stock r)) (map_of (balances ?s) k) = map_option (\<lambda>q. (q, 0, 0)) created"
    by (simp add: rows option.map_comp comp_def seed_row_def)
  ultimately show ?thesis
    using inv' inv_balance_bounds [OF inv', of k] db_invD(5,6) [OF inv', of k] seed_stock_idem by blast
qed

text \<open>The migrated database, seeded: demo SKU 12 has its 120 units off the ledger, an unlisted SKU has no row.\<close>

theorem seeded_stock_witness:
  "\<forall>sv. on_hand_of (seed_stock 0 (migrated sv)) (''12'', 1) = 120 \<and>
     moved_on_hand (seed_stock 0 (migrated sv)) (''12'', 1) = 0 \<and>
     map_of (balances (seed_stock 0 (migrated sv))) (''14'', 1) = None \<and> db_inv (seed_stock 0 (migrated sv))"
proof
  fix sv
  have r: "reachable (migrated sv)" unfolding reachable_def using provisioned_migrated by blast
  have m: "moved_on_hand (seed_stock 0 (migrated sv)) (''12'', 1) = 0"
    by (simp add: moved_on_hand_def seed_stock_def fold_insert_keeps migrated_def)
  have "map_of (balances (migrated sv)) = Map.empty"
    "map_of (warehouses (migrated sv)) 1 = Some \<lparr>wh_code = ''WH-DEFAULT'', wh_name = ''Default warehouse'', wh_status = ''active''\<rparr>"
    by (simp_all add: migrated_def fun_eq_iff)
  with m seeded_stock [OF r rtranclp.rtrancl_refl refl, where now = 0 and k = "(''12'', 1)"]
    seeded_stock [OF r rtranclp.rtrancl_refl refl, where now = 0 and k = "(''14'', 1)"]
  show "on_hand_of (seed_stock 0 (migrated sv)) (''12'', 1) = 120 \<and>
     moved_on_hand (seed_stock 0 (migrated sv)) (''12'', 1) = 0 \<and>
     map_of (balances (seed_stock 0 (migrated sv))) (''14'', 1) = None \<and> db_inv (seed_stock 0 (migrated sv))" by simp
qed

end
