(* ===== verification/Actor_Backfill.thy ===== *)
theory Actor_Backfill
  imports Quiet_Commands
begin

text \<open>
  \<open>db/migrations/sql/000003_movement_actor.up.sql\<close>: the admin movements written before the column \<open>actor\<close>
  existed kept the actor in \<open>reference_id\<close>; the migration copies it. Nothing but the copy changes, it can
  be repeated, and a command of that time is still recognised as a replay afterwards, where without the
  copy it would be a conflict.
\<close>

definition backfill_movement :: "movement_row \<Rightarrow> movement_row" where
  "backfill_movement m =
     (if mv_reference_type m = Some ''admin'' \<and> mv_actor m = None then m\<lparr>mv_actor := mv_reference_id m\<rparr> else m)"

definition backfill_actor :: "db \<Rightarrow> db" where
  "backfill_actor d = d\<lparr>movements := map backfill_movement (movements d)\<rparr>"

lemma backfill_movement_sel [simp]:
  "mv_command_id (backfill_movement m) = mv_command_id m" "mv_sku_id (backfill_movement m) = mv_sku_id m"
  "mv_warehouse_id (backfill_movement m) = mv_warehouse_id m" "mv_type (backfill_movement m) = mv_type m"
  "mv_on_hand_delta (backfill_movement m) = mv_on_hand_delta m"
  "mv_reserved_delta (backfill_movement m) = mv_reserved_delta m" "mv_reason (backfill_movement m) = mv_reason m"
  "mv_key (backfill_movement m) = mv_key m"
  by (simp_all add: backfill_movement_def mv_key_def)

lemma backfill_keeps [simp]:
  "warehouses (backfill_actor d) = warehouses d" "balances (backfill_actor d) = balances d"
  "reservations (backfill_actor d) = reservations d" "reservation_lines (backfill_actor d) = reservation_lines d"
  "movements (backfill_actor d) = map backfill_movement (movements d)"
  by (simp_all add: backfill_actor_def)

lemma backfill_idem: "backfill_actor (backfill_actor d) = backfill_actor d"
  by (simp add: backfill_actor_def backfill_movement_def)

lemma backfill_ledger:
  "moved_on_hand (backfill_actor d) k = moved_on_hand d k" "moved_reserved (backfill_actor d) k = moved_reserved d k"
  by (simp_all add: moved_on_hand_def moved_reserved_def comp_def cong: if_cong)

theorem backfill_inv:
  assumes "db_inv d"
  shows "db_inv (backfill_actor d)"
proof -
  have obs: "reserved_of (backfill_actor d) k = reserved_of d k" "held_qty (backfill_actor d) k = held_qty d k" for k
  proof -
    have "line_held (backfill_actor d) k = line_held d k" by (simp add: fun_eq_iff line_held_def status_of_def)
    then show "held_qty (backfill_actor d) k = held_qty d k" by (simp add: held_qty_def)
  qed (simp add: reserved_of_def)
  have wh: "has_warehouse (backfill_actor d) w = has_warehouse d w" for w by (simp add: has_warehouse_def)
  have "movements_ok (backfill_actor d) = movements_ok d" by (simp add: movements_ok_def wh comp_def)
  moreover have "balances_ok (backfill_actor d) = balances_ok d" "reservations_ok (backfill_actor d) = reservations_ok d"
    "lines_ok (backfill_actor d) = lines_ok d"
    by (simp_all only: balances_ok_def reservations_ok_def lines_ok_def backfill_keeps wh)
  ultimately show ?thesis
    using assms unfolding db_inv_def schema_ok_def obs backfill_ledger backfill_keeps by blast
qed

text \<open>A movement as the first version of the admin commands wrote it.\<close>

definition old_movement :: "StockCommand \<Rightarrow> string \<Rightarrow> int \<Rightarrow> movement_row \<Rightarrow> bool" where
  "old_movement cmd ty dh m \<longleftrightarrow>
     mv_command_id m = cmd_CommandID cmd \<and> mv_sku_id m = cmd_SKUID cmd \<and> mv_warehouse_id m = cmd_WarehouseID cmd \<and>
     mv_type m = ty \<and> mv_on_hand_delta m = dh \<and> mv_reserved_delta m = 0 \<and>
     mv_reference_type m = Some ''admin'' \<and> mv_reference_id m = Some (cmd_Actor cmd) \<and> mv_actor m = None \<and>
     coalesce (mv_reason m) = cmd_Reason cmd"

lemma select_backfilled: "select_movement c (backfill_actor d) = map_option backfill_movement (select_movement c d)"
proof -
  have "find P (map backfill_movement ms) = map_option backfill_movement (find (\<lambda>m. P (backfill_movement m)) ms)"
    for P and ms by (induction ms) simp_all
  then show ?thesis by (simp add: select_movement_def)
qed

theorem backfill_replays:
  assumes w: "quiet w" and fits: "Validate cmd = None" "varchar_assign 64 (cmd_Reason cmd) \<noteq> None" "ty \<in> set command_types"
    and old: "select_movement (cmd_CommandID cmd) d = Some m" "old_movement cmd ty dh m"
  shows "w_db w = backfill_actor d \<Longrightarrow> fst (run_command cmd ty dh 0 change w) = Inr False"
    and "w_db w = d \<Longrightarrow> cmd_Actor cmd \<noteq> '''' \<Longrightarrow>
      fst (run_command cmd ty dh 0 change w) =
        Inl (errorf_w (''command '' @ cmd_CommandID cmd @ '': '') (Sentinel ErrCommandConflict))"
proof -
  assume "w_db w = backfill_actor d"
  with old have "select_movement (cmd_CommandID cmd) (w_db w) = Some (backfill_movement m)"
    by (simp add: select_backfilled)
  note run = run_command_known [OF w fits this, of dh change]
  have "same_command cmd ty dh (backfill_movement m)"
    using old(2) by (simp add: same_command_def old_movement_def) (simp add: backfill_movement_def coalesce_def)
  with run show "fst (run_command cmd ty dh 0 change w) = Inr False" by auto
next
  assume "w_db w = d" "cmd_Actor cmd \<noteq> ''''"
  with old have known: "select_movement (cmd_CommandID cmd) (w_db w) = Some m" and "\<not> same_command cmd ty dh m"
    by (simp_all add: same_command_def old_movement_def coalesce_def)
  with run_command_known [OF w fits known, of dh change]
  show "fst (run_command cmd ty dh 0 change w) =
      Inl (errorf_w (''command '' @ cmd_CommandID cmd @ '': '') (Sentinel ErrCommandConflict))"
    by auto
qed

end
