(* ===== verification/Lock_Acquisition.thy ===== *)
theory Lock_Acquisition
  imports Service_System
begin

text \<open>
  Which locks the six commands take, and in which order. \<open>Reserve\<close> claims its reservation id and then its
  order reference, locks the rows of its basket with one \<open>SELECT ... FOR UPDATE\<close> and only then updates them;
  \<open>Release\<close> and \<open>Commit\<close> lock the header and then, by updating them one by one, the rows of the lines they
  have read; a stock command claims its command id and then changes one row. All of them lock balance rows by
  one order, warehouse first and SKU by the server's collation second, whatever runs concurrently and
  wherever the transaction breaks off. The order of a run is read off the record \<open>w_locked\<close> that the calls
  of \<open>Pg_Session\<close> keep.
\<close>

section \<open>The order\<close>

definition lock_rank :: "pg_server \<Rightarrow> balance_key \<Rightarrow> int \<times> string \<times> string" where
  "lock_rank sv k = (snd k, strxfrm sv (fst k), fst k)"

lemma lock_rank_inject [simp]: "lock_rank sv k = lock_rank sv k' \<longleftrightarrow> k = k'"
  by (cases k; cases k') (auto simp: lock_rank_def)

definition in_lock_order :: "pg_server \<Rightarrow> balance_key list \<Rightarrow> bool" where
  "in_lock_order sv ks \<longleftrightarrow> sorted_wrt (<) (map (lock_rank sv) ks)"

lemma in_lock_orderI: "sorted (map (lock_rank sv) ks) \<Longrightarrow> distinct ks \<Longrightarrow> in_lock_order sv ks"
  by (simp add: in_lock_order_def strict_sorted_iff distinct_map inj_on_def)

lemma in_lock_order_distinct: "in_lock_order sv ks \<Longrightarrow> distinct ks"
  by (simp add: in_lock_order_def strict_sorted_iff distinct_map)

lemma in_lock_order_simps [simp]: "in_lock_order sv []" "in_lock_order sv [k]"
  by (simp_all add: in_lock_order_def)

lemma in_lock_order_prefix: "in_lock_order sv (ks @ ks') \<Longrightarrow> in_lock_order sv ks"
  by (simp add: in_lock_order_def sorted_wrt_append)

text \<open>The rows \<open>Reserve\<close> selects for update.\<close>

lemma reserve_locks_ordered:
  assumes "db_inv d"
  shows "in_lock_order (server d) (map fst (lock_rows wh skus d))"
proof (rule in_lock_orderI)
  have "map (lock_rank (server d)) (map fst (lock_rows wh skus d)) =
      map (\<lambda>((s, w), r). (w, strxfrm (server d) s, s)) (lock_rows wh skus d)"
    by (simp add: lock_rank_def case_prod_beta)
  then show "sorted (map (lock_rank (server d)) (map fst (lock_rows wh skus d)))"
    unfolding lock_rows_def by (simp only: sorted_sort_key)
  have "distinct (map fst (balances d))"
    using db_invD(1) [OF assms] by (simp add: balances_ok_def)
  then show "distinct (map fst (lock_rows wh skus d))"
    unfolding lock_rows_def by (simp add: distinct_map inj_on_def)
qed

text \<open>The rows of the lines \<open>Release\<close> and \<open>Commit\<close> read.\<close>

lemma transition_locks_ordered:
  assumes "db_inv d"
  shows "in_lock_order (server d) (map akey (select_lines rid d))"
proof (rule in_lock_orderI)
  have "map (lock_rank (server d)) (map akey (select_lines rid d)) = map (lock_order (server d)) (select_lines rid d)"
    by (simp add: lock_rank_def akey_def lock_order_def)
  then show "sorted (map (lock_rank (server d)) (map akey (select_lines rid d)))"
    unfolding select_lines_def by (simp only: sorted_sort_key)
  show "distinct (map akey (select_lines rid d))"
    using assms by (intro distinct_select_keys) (simp add: db_inv_def schema_ok_def)
qed

section \<open>The balance rows among the locks\<close>

fun balance_key_of :: "pg_lock \<Rightarrow> balance_key list" where
  "balance_key_of (LockBalance k) = [k]"
| "balance_key_of (LockReservation i) = []"
| "balance_key_of (LockOrderRef ref) = []"
| "balance_key_of (LockLine k) = []"
| "balance_key_of (LockCommand c) = []"

definition locked_keys :: "pg_lock list \<Rightarrow> balance_key list" where
  "locked_keys ls = concat (map balance_key_of ls)"

lemma locked_keys_append [simp]: "locked_keys (ls @ ks) = locked_keys ls @ locked_keys ks" "locked_keys [] = []"
  and locked_keys_Cons [simp]: "locked_keys (l # ls) = balance_key_of l @ locked_keys ls"
  by (simp_all add: locked_keys_def)

lemma set_locked_keys: "k \<in> set (locked_keys ls) \<longleftrightarrow> LockBalance k \<in> set ls"
proof (induction ls)
  case (Cons l ls)
  then show ?case by (cases l) (auto simp: locked_keys_def)
qed (simp add: locked_keys_def)

lemma locked_balances [simp]: "locked_keys (map LockBalance ks) = ks"
  by (induction ks) (simp_all add: locked_keys_def)

section \<open>Disciplined sequences of locks\<close>

text \<open>
  Entry locks come first: the reservation id, the order reference, the command id. Balance rows follow in
  their order. In between a reservation takes the locks of its own lines and ledger ids.
\<close>

fun lock_level :: "pg_server \<Rightarrow> pg_lock \<Rightarrow> nat \<times> int \<times> string \<times> string" where
  "lock_level sv (LockReservation i) = (0, 0, '''', '''')"
| "lock_level sv (LockOrderRef ref) = (1, 0, '''', '''')"
| "lock_level sv (LockCommand c) = (2, 0, '''', '''')"
| "lock_level sv (LockLine k) = (2, 0, '''', '''')"
| "lock_level sv (LockBalance k) = (3, lock_rank sv k)"

text \<open>Every new lock is beyond all that are held, but for those of a set that nobody else asks for.\<close>

definition climbing :: "pg_server \<Rightarrow> pg_lock set \<Rightarrow> pg_lock list \<Rightarrow> bool" where
  "climbing sv P ks \<longleftrightarrow>
     (\<forall>n < length ks. ks ! n \<in> set (take n ks) \<or> ks ! n \<in> P \<or>
        (\<forall>h \<in> set (take n ks). lock_level sv h < lock_level sv (ks ! n)))"

lemma climbing_Nil [simp]: "climbing sv P []"
  by (simp add: climbing_def)

lemma climbing_snoc:
  "climbing sv P (ks @ [l]) \<longleftrightarrow>
     climbing sv P ks \<and> (l \<in> set ks \<or> l \<in> P \<or> (\<forall>h \<in> set ks. lock_level sv h < lock_level sv l))"
  by (auto simp: climbing_def less_Suc_eq nth_append)

text \<open>The locks of a reservation's own rows for some SKUs: its lines, and its ids in the ledger.\<close>

definition ledger_prefixes :: "string list" where
  "ledger_prefixes = [''res:'', ''rel:'', ''cmt:'']"

definition own_locks :: "string \<Rightarrow> string set \<Rightarrow> pg_lock set" where
  "own_locks rid S =
     {LockLine (rid, s) | s. s \<in> S} \<union>
     {LockCommand (pre @ rid @ '':'' @ s) | pre s. pre \<in> set ledger_prefixes \<and> s \<in> S}"

lemma own_locks_mono: "S \<subseteq> T \<Longrightarrow> own_locks rid S \<subseteq> own_locks rid T"
  by (auto simp: own_locks_def)

lemma own_locksI:
  "s \<in> S \<Longrightarrow> LockLine (rid, s) \<in> own_locks rid S"
  "s \<in> S \<Longrightarrow> pre \<in> set ledger_prefixes \<Longrightarrow> LockCommand (pre @ rid @ '':'' @ s) \<in> own_locks rid S"
  by (auto simp: own_locks_def)

definition reservation_order :: "pg_server \<Rightarrow> string \<Rightarrow> pg_lock list \<Rightarrow> bool" where
  "reservation_order sv rid ks \<longleftrightarrow>
     climbing sv (own_locks rid UNIV) ks \<and> (ks \<noteq> [] \<longrightarrow> hd ks = LockReservation rid) \<and>
     (\<forall>l \<in> set ks. l = LockReservation rid \<or> (\<exists>ref. l = LockOrderRef ref) \<or> (\<exists>k. l = LockBalance k) \<or>
        l \<in> own_locks rid (fst ` set (locked_keys ks)))"

definition command_order :: "string \<Rightarrow> pg_lock list \<Rightarrow> bool" where
  "command_order c ks \<longleftrightarrow> ks = [] \<or> ks = [LockCommand c] \<or> (\<exists>k. ks = [LockCommand c, LockBalance k])"

lemma reservation_order_Nil [simp]: "reservation_order sv rid []"
  by (simp add: reservation_order_def)

lemma reservation_order_snoc:
  assumes "reservation_order sv rid ks" "ks \<noteq> []"
    and "l \<in> set ks \<or> l \<in> own_locks rid (fst ` set (locked_keys ks)) \<or>
      (\<exists>k. l = LockBalance k) \<and> (\<forall>h \<in> set ks. lock_level sv h < lock_level sv l)"
  shows "reservation_order sv rid (ks @ [l])"
proof -
  let ?S = "fst ` set (locked_keys ks)"
  have mono: "own_locks rid ?S \<subseteq> own_locks rid (fst ` set (locked_keys (ks @ [l])))"
    "own_locks rid ?S \<subseteq> own_locks rid UNIV" by (intro own_locks_mono; auto)+
  with assms show ?thesis unfolding reservation_order_def climbing_snoc by auto
qed

lemma below_balance:
  assumes "reservation_order sv rid ks" "\<forall>h \<in> set (locked_keys ks). lock_rank sv h < lock_rank sv k"
  shows "\<forall>l \<in> set ks. lock_level sv l < lock_level sv (LockBalance k)"
proof
  fix l
  assume "l \<in> set ks"
  with assms(2) show "lock_level sv l < lock_level sv (LockBalance k)" by (cases l) (auto simp: set_locked_keys)
qed

lemma reservation_order_balance:
  assumes "reservation_order sv rid ks" "ks \<noteq> []"
    and "k \<in> set (locked_keys ks) \<or> (\<forall>h \<in> set (locked_keys ks). lock_rank sv h < lock_rank sv k)"
  shows "reservation_order sv rid (ks @ [LockBalance k])"
  using assms below_balance [OF assms(1), of k] by (intro reservation_order_snoc) (auto simp: set_locked_keys)

lemma reservation_order_balances:
  assumes "reservation_order sv rid ks" "ks \<noteq> []" "in_lock_order sv (locked_keys ks @ bs)"
  shows "reservation_order sv rid (ks @ map LockBalance bs)"
  using assms(3)
proof (induction bs rule: rev_induct)
  case (snoc b bs)
  then have "in_lock_order sv (locked_keys ks @ bs)" using in_lock_order_prefix [of sv _ "[b]"] by simp
  with snoc.IH have IH: "reservation_order sv rid (ks @ map LockBalance bs)" .
  have "\<forall>h \<in> set (locked_keys (ks @ map LockBalance bs)). lock_rank sv h < lock_rank sv b"
    using snoc.prems by (auto simp: in_lock_order_def sorted_wrt_append)
  with reservation_order_balance [OF IH] assms(2) show ?case by simp
qed (use assms in simp)

lemma reservation_order_own:
  "reservation_order sv rid ks \<Longrightarrow> ks \<noteq> [] \<Longrightarrow> l \<in> own_locks rid (fst ` set (locked_keys ks)) \<Longrightarrow>
   reservation_order sv rid (ks @ [l])"
  by (rule reservation_order_snoc) simp_all

lemma reservation_order_header:
  assumes "reservation_order sv rid ks" "ks \<noteq> []"
  shows "reservation_order sv rid (ks @ [LockReservation rid])"
proof -
  have "LockReservation rid \<in> set ks" using assms unfolding reservation_order_def by (metis hd_in_set)
  with assms show ?thesis by (intro reservation_order_snoc) simp_all
qed

lemma reservation_order_entry:
  "reservation_order sv rid [LockReservation rid]"
  "reservation_order sv rid [LockReservation rid, LockOrderRef ref]"
  by (auto simp: reservation_order_def climbing_def less_Suc_eq)

section \<open>Assertions about the locks of the open transaction\<close>

text \<open>About its writes and the locks taken, among others that keep the invariant; and about the locks alone.\<close>

definition owning :: "db \<Rightarrow> (pg_write list \<Rightarrow> pg_lock list \<Rightarrow> bool) \<Rightarrow> world \<Rightarrow> bool" where
  "owning d0 Q w \<longleftrightarrow>
     base db_inv db_guar d0 w \<and> (\<exists>t. w_tx w = Some t \<and> Q (tx_writes t) (w_locked w))"

definition having :: "(pg_lock list \<Rightarrow> bool) \<Rightarrow> world \<Rightarrow> bool" where
  "having P w \<longleftrightarrow> P (w_locked w)"

lemma owning_mono: "owning d0 Q w \<Longrightarrow> (\<And>vs ks. Q vs ks \<Longrightarrow> R vs ks) \<Longrightarrow> owning d0 R w"
  unfolding owning_def by blast

lemma owning_having: "owning d0 Q w \<Longrightarrow> (\<And>vs ks. Q vs ks \<Longrightarrow> P ks) \<Longrightarrow> having P w"
  unfolding owning_def having_def by blast

lemma owning_world [simp]:
  "owning d0 Q (abort_tx w) = owning d0 Q w" "owning d0 Q (w\<lparr>w_seq := s\<rparr>) = owning d0 Q w"
proof -
  show "owning d0 Q (abort_tx w) = owning d0 Q w"
    by (cases "w_tx w") (simp_all add: owning_def base_def abort_tx_def)
  show "owning d0 Q (w\<lparr>w_seq := s\<rparr>) = owning d0 Q w" by (simp add: owning_def base_def)
qed

lemma locked_event: "next_event w = (fault, w1) \<Longrightarrow> w_locked w1 = w_locked w"
  by (auto simp: next_event_def split: list.splits)

lemma owning_stmt:
  assumes "\<And>d now x ws ls vs ks. Q vs ks \<Longrightarrow> db_inv d \<Longrightarrow> server d = server d0 \<Longrightarrow>
      f (apply_writes vs d) now = Inr (x, ws, ls) \<Longrightarrow>
      R x (vs @ ws) (ks @ ls @ concat (map (locks_taken (apply_writes vs d)) ws))"
  shows "triple (owning d0 Q) (tx_stmt f) (\<lambda>x. owning d0 (R x)) (\<lambda>_. owning d0 Q)"
proof -
  have event: "owning d0 Q w1" if "owning d0 Q w" "next_event w = (fault, w1)" for w w1 fault
    using that rg.next_event_step(1,2) [of d0 w fault w1] locked_event [OF that(2)] by (simp add: owning_def)
  show ?thesis
  proof (rule tripleI)
    fix w err w'
    assume P: "owning d0 Q w" and run: "tx_stmt f w = (Inl err, w')"
    obtain fault w1 where ev: "next_event w = (fault, w1)" by fastforce
    from event [OF P ev] run ev show "owning d0 Q w'"
      by (auto simp: tx_stmt_def split: fault.splits option.splits sum.splits if_splits)
  next
    fix w x w'
    assume P: "owning d0 Q w" and run: "tx_stmt f w = (Inr x, w')"
    obtain fault w1 where ev: "next_event w = (fault, w1)" by fastforce
    note o1 = event [OF P ev]
    from run ev obtain t ws ls where t: "w_tx w1 = Some t" "f (tx_view (w_db w1) t) (tx_now t) = Inr (x, ws, ls)"
      "w' = w1\<lparr>w_tx := Some (t\<lparr>tx_writes := tx_writes t @ ws, tx_locks := tx_locks t @ ls\<rparr>),
         w_locked := w_locked w1 @ ls @ concat (map (locks_taken (tx_view (w_db w1) t)) ws)\<rparr>"
      by (auto simp: tx_stmt_def split: fault.splits option.splits sum.splits if_splits)
    from o1 t(1) have q: "Q (tx_writes t) (w_locked w1)" "db_inv (w_db w1)" "server (w_db w1) = server d0"
      by (auto simp: owning_def base_def dest: db_guarD(1))
    from assms [OF q t(2) [unfolded tx_view_def]] o1 t(3) show "owning d0 (R x) w'"
      by (simp add: owning_def base_def tx_view_def)
  qed
qed

lemma owning_query:
  assumes "\<And>d vs ks. Q vs ks \<Longrightarrow> db_inv d \<Longrightarrow> server d = server d0 \<Longrightarrow> R (f (apply_writes vs d)) vs ks"
  shows "triple (owning d0 Q) (tx_query f) (\<lambda>x. owning d0 (R x)) (\<lambda>_. owning d0 Q)"
  unfolding tx_query_def by (rule owning_stmt) (use assms in auto)

text \<open>Calls that lock nothing.\<close>

abbreviation lockless :: "'a prog \<Rightarrow> bool" where
  "lockless m \<equiv> \<forall>P. triple (having P) m (\<lambda>_. having P) (\<lambda>_. having P)"

lemma lockless_calls:
  "lockless (return x)" "lockless (fail e)" "lockless (pool_query f)" "lockless (tx_query f)" "lockless tx_commit"
  "lockless rollback_now"
proof -
  show "lockless (return x)" "lockless (fail e)" by (simp_all add: triple_return triple_fail)
  show "lockless (pool_query f)"
    by (auto simp: triple_def having_def pool_query_def dest: locked_event split: prod.split fault.split)
  show "lockless (tx_query f)"
    by (auto simp: triple_def having_def tx_query_def tx_stmt_def abort_tx_def dest: locked_event
        split: prod.split fault.split option.split)
  show "lockless tx_commit"
    by (auto simp: triple_def having_def tx_commit_def tx_rollback_def dest: locked_event
        split: prod.split fault.split option.split)
  show "lockless rollback_now" by (simp add: triple_def having_def rollback_now_def tx_rollback_def)
qed

lemma lockless_scan_row: "lockless m \<Longrightarrow> lockless (scan_row m)"
  unfolding scan_row_def
  by (intro allI triple_bindE, erule spec) (auto simp: lockless_calls split: option.split)

lemma lockless_query: "lockless (query q f)"
  by (cases q) (simp_all add: query_def lockless_calls)

lemma lockless_load: "lockless (loadReservationLines q rid)"
  unfolding loadReservationLines_def by (intro allI triple_map_error lockless_query [rule_format])

lemma lockless_replay: "lockless (replayReservation q rid ref hash)"
  unfolding replayReservation_def
  by (rule allI, rule triple_bindE, rule triple_map_error, rule lockless_scan_row [OF lockless_query, rule_format])
     (auto intro: triple_bindE [OF lockless_load [rule_format]] simp: lockless_calls)

lemma having_rollback [simp]: "having P (tx_rollback w) = having P w"
  by (simp add: having_def tx_rollback_def)

section \<open>Reserve\<close>

text \<open>
  The stages of a reservation's transaction: nothing locked yet; its header claimed or locked and no
  balance; some balances locked. At the end only the discipline of the locks counts.
\<close>

definition fresh :: "pg_write list \<Rightarrow> pg_lock list \<Rightarrow> bool" where
  "fresh vs ks \<longleftrightarrow> vs = [] \<and> ks = []"

definition unlocked :: "pg_server \<Rightarrow> string \<Rightarrow> pg_write list \<Rightarrow> pg_lock list \<Rightarrow> bool" where
  "unlocked sv rid vs ks \<longleftrightarrow> write_balances vs = [] \<and> write_lines vs = [] \<and> locked_keys ks = [] \<and> ks \<noteq> [] \<and>
     reservation_order sv rid ks"

definition covering :: "pg_server \<Rightarrow> string \<Rightarrow> balance_key set \<Rightarrow> pg_write list \<Rightarrow> pg_lock list \<Rightarrow> bool" where
  "covering sv rid K vs ks \<longleftrightarrow> reservation_order sv rid ks \<and> ks \<noteq> [] \<and> K \<subseteq> set (locked_keys ks)"

abbreviation settled :: "pg_server \<Rightarrow> string \<Rightarrow> world \<Rightarrow> bool" where
  "settled sv rid \<equiv> having (reservation_order sv rid)"

lemma settled_intros:
  "owning d0 (unlocked sv rid) w \<Longrightarrow> settled sv rid w" "owning d0 (covering sv rid K) w \<Longrightarrow> settled sv rid w"
  "having (\<lambda>ks. ks = []) w \<Longrightarrow> settled sv rid w"
proof -
  show "owning d0 (unlocked sv rid) w \<Longrightarrow> settled sv rid w" by (erule owning_having) (simp add: unlocked_def)
  show "owning d0 (covering sv rid K) w \<Longrightarrow> settled sv rid w" by (erule owning_having) (simp add: covering_def)
  show "having (\<lambda>ks. ks = []) w \<Longrightarrow> settled sv rid w" by (simp add: having_def)
qed

lemma begin_owning:
  "triple (\<lambda>w. idle db_inv db_guar d0 w \<and> w_locked w = []) pool_begin (\<lambda>_. owning d0 fresh) (\<lambda>_. having (\<lambda>ks. ks = []))"
proof (rule tripleI)
  fix w e w'
  assume "idle db_inv db_guar d0 w \<and> w_locked w = []" "pool_begin w = (Inl e, w')"
  then show "having (\<lambda>ks. ks = []) w'"
    by (auto simp: pool_begin_def having_def dest: locked_event split: prod.splits fault.splits)
next
  fix w x w'
  assume P: "idle db_inv db_guar d0 w \<and> w_locked w = []" and run: "pool_begin w = (Inr x, w')"
  obtain fault w1 where ev: "next_event w = (fault, w1)" by fastforce
  from rg.next_event_step(1) [OF idle_base ev, of d0] P ev run locked_event [OF ev] show "owning d0 fresh w'"
    by (cases fault) (auto simp: pool_begin_def owning_def fresh_def base_def)
qed

lemma claim_owning:
  "triple (owning d0 fresh) (claimReservation req hash)
     (\<lambda>claimed. if claimed then owning d0 (unlocked sv (rq_ID req)) else having (\<lambda>ks. ks = []))
     (\<lambda>_. having (\<lambda>ks. ks = []))"
  unfolding claimReservation_def
proof (rule triple_try_bind)
  let ?R = "\<lambda>n :: nat. if n = 1 then unlocked sv (rq_ID req) else (\<lambda>vs ks. ks = [])"
  show "triple (owning d0 fresh) (tx_stmt (insert_reservation (rq_ID req) (rq_OrderID req) hash (rq_ExpiresAt req)))
      (\<lambda>n. owning d0 (?R n)) (\<lambda>_. owning d0 fresh)"
  proof (rule owning_stmt)
    fix d now n ws ls vs ks
    assume f: "fresh vs ks"
      and run: "insert_reservation (rq_ID req) (rq_OrderID req) hash (rq_ExpiresAt req) (apply_writes vs d) now = Inr (n, ws, ls)"
    show "?R n (vs @ ws) (ks @ ls @ concat (map (locks_taken (apply_writes vs d)) ws))"
      using run f reservation_order_entry(2) [of sv "rq_ID req"]
      by (auto simp: insert_reservation_def fresh_def unlocked_def locked_keys_def split: if_splits)
  qed
  show "triple (owning d0 (?R n)) (return (n = 1))
      (\<lambda>claimed. if claimed then owning d0 (unlocked sv (rq_ID req)) else having (\<lambda>ks. ks = [])) E" for n :: nat and E
    by (rule triple_return) (auto elim: owning_having)
qed (auto intro!: triple_fail elim!: owning_having simp: fresh_def)

lemma unlocked_query:
  "triple (owning d0 (unlocked sv rid)) (tx_query f) (\<lambda>_. owning d0 (unlocked sv rid)) (\<lambda>_. settled sv rid)"
  by (rule triple_weaken [OF owning_query [where Q = "unlocked sv rid" and R = "\<lambda>_. unlocked sv rid"]])
     (auto intro: settled_intros)

lemma lock_owning:
  "triple (owning d0 (unlocked (server d0) rid)) (lockWarehouseATP wh items)
     (\<lambda>m. owning d0 (covering (server d0) rid {(s, wh) | s. m s \<noteq> None}))
     (\<lambda>_. settled (server d0) rid)"
  unfolding lockWarehouseATP_def
proof (rule triple_bindE, rule triple_map_error)
  let ?R = "\<lambda>rows. covering (server d0) rid {(s, wh) | s. fill_atp rows Map.empty s \<noteq> None}"
  show "triple (owning d0 (unlocked (server d0) rid)) (tx_stmt (lock_balances wh (skuIDsOf items)))
      (\<lambda>rows. owning d0 (?R rows)) (\<lambda>_. settled (server d0) rid)"
  proof (rule triple_weaken [OF owning_stmt [where R = ?R]])
    fix d now rows ws ls vs ks
    assume u: "unlocked (server d0) rid vs ks" and d: "db_inv d" "server d = server d0"
      and run: "lock_balances wh (skuIDsOf items) (apply_writes vs d) now = Inr (rows, ws, ls)"
    let ?locked = "lock_rows wh (skuIDsOf items) d"
    have same: "lock_rows wh skus (apply_writes vs d) = lock_rows wh skus d" for skus
      using u by (simp add: lock_rows_def table_simps unlocked_def replay_def)
    from run have r: "rows = map (\<lambda>((s, w), r). (s, row_atp r)) ?locked" "ws = []"
      "ls = map LockBalance (map fst ?locked)"
      by (auto simp: lock_balances_def same Let_def)
    have "(s, wh) \<in> fst ` set ?locked" if "fill_atp rows Map.empty s \<noteq> None" for s
    proof -
      from that have "s \<in> fst ` set rows"
        by (auto simp: fill_atp_map map_of_eq_None_iff image_iff dest!: map_of_SomeD)
      then show ?thesis by (force simp: r(1) lock_rows_def)
    qed
    moreover have "reservation_order (server d0) rid (ks @ ls)"
      using u reserve_locks_ordered [OF d(1), of wh "skuIDsOf items"] d(2) unfolding r(3) unlocked_def
      by (intro reservation_order_balances) auto
    moreover have "locked_keys ls = map fst ?locked" unfolding r(3) by (rule locked_balances)
    ultimately show "?R rows (vs @ ws) (ks @ ls @ concat (map (locks_taken (apply_writes vs d)) ws))"
      using u by (auto simp: covering_def r(2) unlocked_def)
  qed (auto intro: settled_intros)
qed (rule triple_return)

lemma classify_having: "triple (having P) (classifyReservationFailure items short) B (\<lambda>_. having P)"
  unfolding classifyReservationFailure_def Let_def
  by (rule triple_try_bind [OF lockless_calls(4) [rule_format]]) (auto intro!: triple_fail)

lemma classify_settled:
  "(\<And>w. A w \<Longrightarrow> settled sv rid w) \<Longrightarrow> triple A (classifyReservationFailure items short) B (\<lambda>_. settled sv rid)"
  by (rule triple_pre [OF classify_having])

lemma shortages_none:
  "shortagesAgainst m items = [] \<Longrightarrow> it \<in> set items \<Longrightarrow> 0 < ln_Quantity it \<Longrightarrow> m (ln_SKUID it) \<noteq> None"
  by (induction m items rule: shortagesAgainst.induct) (auto simp: Let_def mget_def split: if_splits option.splits)

lemma chosen_owning:
  fixes m :: "string \<rightharpoonup> int" and wh :: int
  assumes pos: "\<forall>it \<in> set items. 0 < ln_Quantity it"
  defines "al \<equiv> map (\<lambda>it. \<lparr>al_SKUID = ln_SKUID it, al_WarehouseID = wh, al_Quantity = ln_Quantity it\<rparr>) items"
  shows "triple (owning d0 (covering sv rid {(s, wh) | s. m s \<noteq> None}))
    (if 0 < length (shortagesAgainst m items) then classifyReservationFailure items (shortagesAgainst m items)
     else return al)
    (\<lambda>al. owning d0 (covering sv rid (akey ` set al))) (\<lambda>_. settled sv rid)"
proof (cases "shortagesAgainst m items = []")
  case True
  then have "akey ` set al \<subseteq> {(s, wh) | s. m s \<noteq> None}"
    using shortages_none [OF True] pos by (auto simp: akey_def al_def)
  then have "covering sv rid (akey ` set al) vs ks" if "covering sv rid {(s, wh) | s. m s \<noteq> None} vs ks" for vs ks
    using that unfolding covering_def by (meson order_trans)
  with True show ?thesis by (auto intro!: triple_return elim: owning_mono)
next
  case False
  then show ?thesis by (auto intro!: classify_settled settled_intros(2))
qed

lemma allocate_owning:
  assumes pos: "\<forall>it \<in> set items. 0 < ln_Quantity it"
  shows "triple (owning d0 (unlocked (server d0) rid)) (allocateReservation items)
    (\<lambda>al. owning d0 (covering (server d0) rid (akey ` set al))) (\<lambda>_. settled (server d0) rid)"
  unfolding allocateReservation_def
proof (rule triple_bindE)
  show "triple (owning d0 (unlocked (server d0) rid)) (activeATPSnapshot items)
      (\<lambda>_. owning d0 (unlocked (server d0) rid)) (\<lambda>_. settled (server d0) rid)"
    unfolding activeATPSnapshot_def
    by (rule triple_bindE, rule triple_map_error, rule unlocked_query, rule triple_bindE, rule triple_map_error,
        rule unlocked_query) (rule triple_return)
  fix x :: "(int \<rightharpoonup> (string \<rightharpoonup> int)) \<times> int list"
  obtain byw ids where x: "x = (byw, ids)" by fastforce
  show "triple (owning d0 (unlocked (server d0) rid))
      (case x of (byWarehouse, activeIDs) \<Rightarrow>
        case choose_warehouse activeIDs byWarehouse items of
          None \<Rightarrow>
            (let base = (case activeIDs of [] \<Rightarrow> Map.empty | wh # _ \<Rightarrow> mget_map byWarehouse wh)
             in classifyReservationFailure items (shortagesAgainst base items))
        | Some chosen \<Rightarrow>
            bindE (lockWarehouseATP chosen items) (\<lambda>locked.
              let short = shortagesAgainst locked items
              in if length short > 0 then classifyReservationFailure items short
                 else
                   return (map (\<lambda>it. \<lparr>al_SKUID = ln_SKUID it, al_WarehouseID = chosen,
                                      al_Quantity = ln_Quantity it\<rparr>) items)))
      (\<lambda>al. owning d0 (covering (server d0) rid (akey ` set al))) (\<lambda>_. settled (server d0) rid)"
  proof (cases "choose_warehouse ids byw items")
    case None
    then show ?thesis by (auto simp: x Let_def intro!: classify_settled settled_intros(1))
  next
    case (Some wh)
    show ?thesis
      unfolding x prod.case Some option.case Let_def by (rule triple_bindE [OF lock_owning], rule chosen_owning [OF pos])
  qed
qed

lemma update_ws:
  "update_balance f k d = Inr (n, ws, ls) \<Longrightarrow> (ws = [] \<and> n = 0 \<or> (\<exists>r. ws = [WBalance k r]) \<and> n = 1) \<and> ls = []"
  by (auto simp: update_balance_def store_balance_def split: option.splits if_splits)

lemma movement_ws:
  "insert_movement False m d = Inr (n, ws, ls) \<Longrightarrow>
   \<exists>m'. ws = [WMovement m'] \<and> mv_command_id m' = mv_command_id m \<and> ls = []"
  by (auto simp: insert_movement_def stored_movement_kept(2) split: if_splits option.splits)

lemma movement_owning:
  assumes "\<And>vs ks m. Q vs ks \<Longrightarrow> Q (vs @ [WMovement m]) (ks @ [LockCommand c])" "\<And>vs ks. Q vs ks \<Longrightarrow> P ks"
  shows "triple (owning d0 Q) (insertReservationMovement c a ty dh dr rid reason) (\<lambda>_. owning d0 Q) (\<lambda>_. having P)"
  unfolding insertReservationMovement_def
proof (rule triple_map_error, rule triple_bindE)
  have "triple (owning d0 Q) (tx_stmt (\<lambda>d now. insert_movement False (m now) d)) (\<lambda>_. owning d0 Q) (\<lambda>_. owning d0 Q)"
    if "\<And>now. mv_command_id (m now) = c" for m
    by (rule owning_stmt) (use assms(1) that in \<open>auto dest!: movement_ws\<close>)
  then have "triple (owning d0 Q) (tx_stmt (\<lambda>d now. insert_movement False (m now) d)) (\<lambda>_. owning d0 Q) (\<lambda>_. having P)"
    if "\<And>now. mv_command_id (m now) = c" for m
    by (rule triple_weaken) (use that assms(2) in \<open>auto elim: owning_having\<close>)
  then show "triple (owning d0 Q) (tx_nextval (\<lambda>n. tx_stmt (\<lambda>d now. insert_movement False
        \<lparr>mv_id = n, mv_command_id = c, mv_sku_id = al_SKUID a, mv_warehouse_id = al_WarehouseID a,
         mv_type = ty, mv_on_hand_delta = dh, mv_reserved_delta = dr,
         mv_reference_type = Some ''reservation'', mv_reference_id = Some rid,
         mv_reason = if reason = '''' then None else Some reason, mv_actor = None,
         mv_created_at = now\<rparr> d))) (\<lambda>_. owning d0 Q) (\<lambda>_. having P)"
    by (intro triple_nextval) simp_all
qed (rule triple_return)

text \<open>A statement that locks one covered row or one of the reservation's own keys.\<close>

lemma covered_stmt:
  assumes "\<And>d now x ws ls. f d now = Inr (x, ws, ls) \<Longrightarrow>
      ls = [] \<and> (ws = [] \<or> (\<exists>v l. ws = [v] \<and> locks_taken d v = [l] \<and> (l \<in> LockBalance ` K \<or> l \<in> own_locks rid (fst ` K))))"
  shows "triple (owning d0 (covering sv rid K)) (tx_stmt f) (\<lambda>_. owning d0 (covering sv rid K)) (\<lambda>_. settled sv rid)"
proof (rule triple_weaken [OF owning_stmt [where Q = "covering sv rid K" and R = "\<lambda>_. covering sv rid K"]])
  fix d now x ws ls vs ks
  assume c: "covering sv rid K vs ks" and run: "f (apply_writes vs d) now = Inr (x, ws, ls)"
  have K: "own_locks rid (fst ` K) \<subseteq> own_locks rid (fst ` set (locked_keys ks))"
    using c unfolding covering_def by (intro own_locks_mono image_mono) simp
  have keys: "reservation_order sv rid (ks @ [LockBalance k])" if "k \<in> K" for k
    using c that unfolding covering_def by (intro reservation_order_balance) auto
  have own: "reservation_order sv rid (ks @ [l])" if "l \<in> own_locks rid (fst ` K)" for l
    using c that K unfolding covering_def by (intro reservation_order_own) auto
  show "covering sv rid K (vs @ ws) (ks @ ls @ concat (map (locks_taken (apply_writes vs d)) ws))"
    using assms [OF run] c keys own by (auto simp: covering_def)
qed (auto intro: settled_intros(2))

lemma apply_owning:
  "triple (owning d0 (covering sv rid (akey ` set al))) (applyReserve rid al)
     (\<lambda>_. owning d0 (covering sv rid (akey ` set al))) (\<lambda>_. settled sv rid)"
  unfolding applyReserve_def
proof (rule triple_for_each [where I = "\<lambda>_. owning d0 (covering sv rid (akey ` set al))"], intro triple_bindE triple_map_error)
  fix ys a zs
  let ?K = "akey ` set al"
  assume "al = ys @ a # zs"
  then have a: "(al_SKUID a, al_WarehouseID a) \<in> ?K" by (auto simp: akey_def)
  have s: "al_SKUID a \<in> fst ` ?K" by (rule image_eqI [OF _ a]) simp
  note own = own_locksI(1) [OF s] own_locksI(2) [OF s, of "''res:''"]
  show "triple (owning d0 (covering sv rid ?K))
      (tx_stmt (\<lambda>d now. update_balance (bump_reserved (al_Quantity a) now) (al_SKUID a, al_WarehouseID a) d))
      (\<lambda>_. owning d0 (covering sv rid ?K)) (\<lambda>_. settled sv rid)"
    by (rule covered_stmt) (use a in \<open>auto dest!: update_ws\<close>)
  show "triple (owning d0 (covering sv rid ?K))
      (tx_stmt (\<lambda>d now. insert_line rid (al_SKUID a) (al_WarehouseID a) (al_Quantity a) d))
      (\<lambda>_. owning d0 (covering sv rid ?K)) (\<lambda>_. settled sv rid)"
    by (rule covered_stmt) (use own(1) in \<open>auto simp: insert_line_def split: if_splits\<close>)
  have step: "covering sv rid ?K (vs @ [WMovement m]) (ks @ [LockCommand (''res:'' @ rid @ '':'' @ al_SKUID a)])"
    if c: "covering sv rid ?K vs ks" for vs ks m
  proof -
    have "own_locks rid (fst ` ?K) \<subseteq> own_locks rid (fst ` set (locked_keys ks))"
      using c unfolding covering_def by (intro own_locks_mono image_mono) simp
    then have "LockCommand (''res:'' @ rid @ '':'' @ al_SKUID a) \<in> own_locks rid (fst ` set (locked_keys ks))"
      using own(2) by (auto simp: ledger_prefixes_def)
    with c show ?thesis unfolding covering_def by (auto intro!: reservation_order_own)
  qed
  show "triple (owning d0 (covering sv rid ?K))
      (insertReservationMovement (''res:'' @ rid @ '':'' @ al_SKUID a) a MovementReserve 0 (al_Quantity a) rid '''')
      (\<lambda>_. owning d0 (covering sv rid ?K)) (\<lambda>_. settled sv rid)"
    by (rule movement_owning [where Q = "covering sv rid ?K"]) (fact step, simp add: covering_def)
qed

text \<open>The whole of \<open>Reserve\<close>.\<close>

lemma Reserve_owning:
  assumes "\<forall>it \<in> set (rq_Items req). 0 < ln_Quantity it"
  shows "triple (\<lambda>w. idle db_inv db_guar d0 w \<and> w_locked w = []) (Reserve req)
    (\<lambda>_. settled (server d0) (rq_ID req)) (\<lambda>_. settled (server d0) (rq_ID req))"
  unfolding Reserve_def Let_def
proof (rule triple_bindE, rule triple_map_error)
  let ?S = "\<lambda>_. settled (server d0) (rq_ID req)"
  show "triple (\<lambda>w. idle db_inv db_guar d0 w \<and> w_locked w = []) pool_begin (\<lambda>_. owning d0 fresh) ?S"
    by (rule triple_weaken [OF begin_owning]) (auto intro: settled_intros(3))
  let ?hash = "CanonicalHash (rq_Items req) (rq_DestinationRegion req)"
  let ?err = "\<lambda>err. if \<not> errors_Is err errOrderRefTaken then fail err
      else bindE rollback_now (\<lambda>_. try_bind (replayReservation QPool (rq_ID req) (rq_OrderID req) ?hash)
        (\<lambda>rerr. if errors_Is rerr ErrNoRows
           then fail (errorf_w (''order '' @ rq_OrderID req @ '' already reserved under another reservation id: '')
             (Sentinel ErrIdempotencyConflict)) else fail rerr) return)"
  let ?place = "bindE (allocateReservation (rq_Items req)) (\<lambda>allocations.
      bindE (applyReserve (rq_ID req) allocations) (\<lambda>_.
      bindE (map_error (\<lambda>err. errorf_w (''commit reserve '' @ rq_ID req @ '': '') (translateConcurrency err)) tx_commit)
        (\<lambda>_. return \<lparr>rr_ID = rq_ID req, rr_Status = ReservationReserved, rr_Allocations = allocations,
           rr_Replayed = False\<rparr>)))"
  have err: "triple (having (\<lambda>ks. ks = [])) (?err e) ?S ?S" for e
  proof (rule triple_pre [where P' = "settled (server d0) (rq_ID req)"])
    show "triple (settled (server d0) (rq_ID req)) (?err e) ?S ?S"
      by (auto intro!: triple_fail triple_bindE [OF lockless_calls(6) [rule_format]]
          triple_try_bind [OF lockless_replay [rule_format]] triple_return)
  qed (rule settled_intros(3))
  have commit: "triple (owning d0 (covering (server d0) (rq_ID req) K)) (map_error h tx_commit) ?S ?S" for K h
    by (rule triple_map_error, rule triple_pre [OF lockless_calls(5) [rule_format]], rule settled_intros(2))
  have place: "triple (owning d0 (unlocked (server d0) (rq_ID req))) ?place ?S ?S"
    by (rule triple_bindE [OF allocate_owning [OF assms]], rule triple_bindE [OF apply_owning], rule triple_bindE [OF commit],
        rule triple_return)
  have replay: "triple (having (\<lambda>ks. ks = [])) (replayReservation QTx (rq_ID req) (rq_OrderID req) ?hash) ?S ?S"
    by (rule triple_pre [OF lockless_replay [rule_format]], rule settled_intros(3))
  show "triple (owning d0 fresh) (defer_rollback (try_bind (claimReservation req ?hash) ?err
      (\<lambda>claimed. if \<not> claimed then replayReservation QTx (rq_ID req) (rq_OrderID req) ?hash else ?place))) ?S ?S"
    by (rule triple_defer_rollback, unfold having_rollback, rule triple_try_bind [OF claim_owning])
       (use place replay err in auto)
qed

section \<open>Release and Commit\<close>

text \<open>The rows of the first lines are locked, no others.\<close>

definition updated :: "pg_server \<Rightarrow> string \<Rightarrow> Allocation list \<Rightarrow> pg_write list \<Rightarrow> pg_lock list \<Rightarrow> bool" where
  "updated sv rid ys vs ks \<longleftrightarrow> reservation_order sv rid ks \<and> ks \<noteq> [] \<and> locked_keys ks = map akey ys"

lemma updated_settled: "owning d0 (updated sv rid ys) w \<Longrightarrow> settled sv rid w"
  by (erule owning_having) (simp add: updated_def)

lemma updated_next:
  assumes "in_lock_order sv (map akey (ys @ a # zs))" "updated sv rid ys vs ks"
  shows "updated sv rid (ys @ [a]) (vs @ ws) (ks @ [LockBalance (akey a)])"
proof -
  have "\<forall>h \<in> set (locked_keys ks). lock_rank sv h < lock_rank sv (akey a)"
    using assms by (auto simp: in_lock_order_def sorted_wrt_append updated_def)
  with assms(2) reservation_order_balance [of sv rid ks "akey a"] show ?thesis by (simp add: updated_def)
qed

lemma line_owning:
  assumes lines: "in_lock_order sv (map akey (ys @ a # zs))" and pre: "pre \<in> set ledger_prefixes"
  shows "triple (owning d0 (updated sv rid ys))
    (bindE (map_error h (tx_stmt (\<lambda>d now. update_balance (f now) (al_SKUID a, al_WarehouseID a) d)))
       (\<lambda>rows. if rows \<noteq> 1 then fail (err rows)
          else insertReservationMovement (pre @ rid @ '':'' @ al_SKUID a) a mt dh dr rid reason))
    (\<lambda>_. owning d0 (updated sv rid (ys @ [a]))) (\<lambda>_. settled sv rid)"
proof (rule triple_bindE, rule triple_map_error)
  let ?R = "\<lambda>n. if n = 1 then updated sv rid (ys @ [a]) else updated sv rid ys"
  show "triple (owning d0 (updated sv rid ys))
      (tx_stmt (\<lambda>d now. update_balance (f now) (al_SKUID a, al_WarehouseID a) d))
      (\<lambda>n. owning d0 (?R n)) (\<lambda>_. settled sv rid)"
  proof (rule triple_weaken [OF owning_stmt [where Q = "updated sv rid ys" and R = ?R]])
    fix d now n ws ls vs ks
    assume u: "updated sv rid ys vs ks"
      and run: "update_balance (f now) (al_SKUID a, al_WarehouseID a) (apply_writes vs d) = Inr (n, ws, ls)"
    from update_ws [OF run] updated_next [OF lines u] u
    show "?R n (vs @ ws) (ks @ ls @ concat (map (locks_taken (apply_writes vs d)) ws))"
      by (auto simp: akey_def)
  qed (auto intro: updated_settled)
  fix n :: nat
  have step: "updated sv rid (ys @ [a]) (vs @ [WMovement m]) (ks @ [LockCommand (pre @ rid @ '':'' @ al_SKUID a)])"
    if u: "updated sv rid (ys @ [a]) vs ks" for vs ks m
  proof -
    from u have "al_SKUID a \<in> fst ` set (locked_keys ks)" by (force simp: updated_def akey_def)
    from own_locksI(2) [OF this pre] u show ?thesis by (auto simp: updated_def intro!: reservation_order_own)
  qed
  have "triple (owning d0 (updated sv rid (ys @ [a])))
      (insertReservationMovement (pre @ rid @ '':'' @ al_SKUID a) a mt dh dr rid reason)
      (\<lambda>_. owning d0 (updated sv rid (ys @ [a]))) (\<lambda>_. settled sv rid)"
    by (rule movement_owning [where Q = "updated sv rid (ys @ [a])"], rule step, assumption) (simp add: updated_def)
  then show "triple (owning d0 (?R n)) (if n \<noteq> 1 then fail (err n)
        else insertReservationMovement (pre @ rid @ '':'' @ al_SKUID a) a mt dh dr rid reason)
      (\<lambda>_. owning d0 (updated sv rid (ys @ [a]))) (\<lambda>_. settled sv rid)"
    by (auto intro!: triple_fail updated_settled)
qed

lemma lines_owning:
  assumes line: "\<And>ys a zs. in_lock_order (server d0) (map akey (ys @ a # zs)) \<Longrightarrow>
    triple (owning d0 (updated (server d0) rid ys)) (line a)
      (\<lambda>_. owning d0 (updated (server d0) rid (ys @ [a]))) (\<lambda>_. settled (server d0) rid)"
    and rest: "triple (settled (server d0) rid) rest (\<lambda>_. settled (server d0) rid) (\<lambda>_. settled (server d0) rid)"
    and status: "\<And>ys. triple (owning d0 (updated (server d0) rid ys)) set_status
      (\<lambda>_. settled (server d0) rid) (\<lambda>_. settled (server d0) rid)"
  shows "triple (owning d0 (unlocked (server d0) rid))
    (bindE (loadReservationLines QTx rid) (\<lambda>lines. bindE (for_each line lines) (\<lambda>_. bindE set_status (\<lambda>_. rest))))
    (\<lambda>_. settled (server d0) rid) (\<lambda>_. settled (server d0) rid)"
proof (rule triple_bindE)
  let ?E = "\<lambda>_. settled (server d0) rid"
  let ?R = "\<lambda>lines vs ks. unlocked (server d0) rid vs ks \<and> in_lock_order (server d0) (map akey lines)"
  have loaded: "?R (select_lines rid (apply_writes vs d)) vs ks"
    if "unlocked (server d0) rid vs ks" "db_inv d" "server d = server d0" for vs ks d
  proof -
    have "select_lines rid (apply_writes vs d) = select_lines rid d"
      using that(1) by (simp add: select_lines_def lines_of_def table_simps unlocked_def replay_def)
    with that transition_locks_ordered [OF that(2), of rid] show ?thesis by simp
  qed
  have "triple (owning d0 (unlocked (server d0) rid)) (tx_query (select_lines rid))
      (\<lambda>lines. owning d0 (?R lines)) (\<lambda>_. owning d0 (unlocked (server d0) rid))"
    by (rule owning_query) (rule loaded)
  then have "triple (owning d0 (unlocked (server d0) rid)) (tx_query (select_lines rid)) (\<lambda>lines. owning d0 (?R lines)) ?E"
    by (rule triple_weaken) (auto intro: settled_intros(1))
  then show "triple (owning d0 (unlocked (server d0) rid)) (loadReservationLines QTx rid) (\<lambda>lines. owning d0 (?R lines)) ?E"
    unfolding loadReservationLines_def query_def querier.case by (rule triple_map_error)
  fix lines
  show "triple (owning d0 (?R lines)) (bindE (for_each line lines) (\<lambda>_. bindE set_status (\<lambda>_. rest))) ?E ?E"
  proof (rule triple_assume)
    show "in_lock_order (server d0) (map akey lines)" if "owning d0 (?R lines) w" for w
      using that by (auto simp: owning_def)
    assume o: "in_lock_order (server d0) (map akey lines)"
    have "triple (owning d0 (updated (server d0) rid [])) (for_each line lines)
        (\<lambda>_. owning d0 (updated (server d0) rid lines)) ?E"
      by (rule triple_for_each [where I = "\<lambda>ys. owning d0 (updated (server d0) rid ys)"], rule line) (use o in simp)
    then have "triple (owning d0 (updated (server d0) rid [])) (bindE (for_each line lines) (\<lambda>_. bindE set_status (\<lambda>_. rest))) ?E ?E"
      by (rule triple_bindE) (rule triple_bindE [OF status rest])
    then show "triple (owning d0 (?R lines)) (bindE (for_each line lines) (\<lambda>_. bindE set_status (\<lambda>_. rest))) ?E ?E"
      by (rule triple_pre) (auto elim!: owning_mono simp: unlocked_def updated_def)
  qed
qed

text \<open>The header: locked if it exists; an unknown reservation reads as the empty status and locks nothing.\<close>

lemma header_owning:
  "triple (owning d0 fresh) (try_bind (scan_row (tx_stmt (select_status_for_update rid)))
       (\<lambda>err. if \<not> errors_Is err ErrNoRows then fail (h err) else return '''') return)
     (\<lambda>status. if status = '''' then settled sv rid else owning d0 (unlocked sv rid)) (\<lambda>_. settled sv rid)"
  unfolding scan_row_def
proof (rule triple_try_bind)
  let ?R = "\<lambda>r :: string option. if r = None then fresh else unlocked sv rid"
  have "triple (owning d0 fresh) (tx_stmt (select_status_for_update rid)) (\<lambda>r. owning d0 (?R r)) (\<lambda>_. owning d0 fresh)"
    by (rule owning_stmt)
       (auto simp: select_status_for_update_def fresh_def unlocked_def reservation_order_entry split: option.splits)
  then have "triple (owning d0 fresh) (tx_stmt (select_status_for_update rid)) (\<lambda>r. owning d0 (?R r)) (\<lambda>_. settled sv rid)"
    by (rule triple_weaken) (auto elim: owning_having simp: fresh_def)
  then show "triple (owning d0 fresh) (bindE (tx_stmt (select_status_for_update rid))
      (\<lambda>r. case r of None \<Rightarrow> fail (Sentinel ErrNoRows) | Some x \<Rightarrow> return x))
      (\<lambda>_. owning d0 (unlocked sv rid)) (\<lambda>_. settled sv rid)"
    by (rule triple_bindE)
       (auto intro!: triple_return triple_fail elim: owning_having simp: fresh_def split: option.split)
qed (auto intro!: triple_return triple_fail settled_intros(1))

lemma status_owning:
  "triple (owning d0 (updated sv rid ys)) (tx_stmt (update_status rid tgt)) (\<lambda>_. settled sv rid) (\<lambda>_. settled sv rid)"
proof (rule triple_weaken [OF owning_stmt [where Q = "updated sv rid ys" and R = "\<lambda>_ vs ks. reservation_order sv rid ks"]])
  fix d now n ws ls vs ks
  assume "updated sv rid ys vs ks" and "update_status rid tgt (apply_writes vs d) now = Inr (n, ws, ls)"
  then show "reservation_order sv rid (ks @ ls @ concat (map (locks_taken (apply_writes vs d)) ws))"
    by (auto simp: update_status_def updated_def reservation_order_header split: option.splits if_splits)
qed (auto intro: updated_settled elim: owning_having)

lemma transition_owning:
  assumes line: "\<And>ys a zs. in_lock_order (server d0) (map akey (ys @ a # zs)) \<Longrightarrow>
    triple (owning d0 (updated (server d0) rid ys)) (line a)
      (\<lambda>_. owning d0 (updated (server d0) rid (ys @ [a]))) (\<lambda>_. settled (server d0) rid)"
    and unknown: "decide '''' \<noteq> Inr ''''"
  shows "triple (\<lambda>w. idle db_inv db_guar d0 w \<and> w_locked w = []) (transition rid tgt decide line)
    (\<lambda>_. settled (server d0) rid) (\<lambda>_. settled (server d0) rid)"
  unfolding transition_def
proof (rule triple_bindE, rule triple_map_error)
  let ?S = "\<lambda>_. settled (server d0) rid"
  show "triple (\<lambda>w. idle db_inv db_guar d0 w \<and> w_locked w = []) pool_begin (\<lambda>_. owning d0 fresh) ?S"
    by (rule triple_weaken [OF begin_owning]) (auto intro: settled_intros(3))
  let ?finish = "bindE (map_error (\<lambda>err. errorf_w (''commit transition '' @ rid @ '': '') (translateConcurrency err)) tx_commit)
      (\<lambda>_. return tgt)"
  let ?set = "map_error (\<lambda>err. errorf_w (''set reservation '' @ rid @ '' status: '') (translateConcurrency err))
      (tx_stmt (update_status rid tgt))"
  let ?proceed = "bindE (loadReservationLines QTx rid) (\<lambda>lines. bindE (for_each line lines) (\<lambda>_. bindE ?set (\<lambda>_. ?finish)))"
  have finish: "triple (settled (server d0) rid) ?finish ?S ?S"
    by (rule triple_bindE, rule triple_map_error, rule lockless_calls(5) [rule_format]) (rule triple_return)
  have proceed: "triple (owning d0 (unlocked (server d0) rid)) ?proceed ?S ?S"
    by (rule lines_owning, erule line, rule finish, rule triple_map_error, rule status_owning)
  have chosen: "triple (if s = '''' then settled (server d0) rid else owning d0 (unlocked (server d0) rid))
      (case decide s of Inl err \<Rightarrow> fail err | Inr done \<Rightarrow> if done \<noteq> '''' then return done else ?proceed) ?S ?S" for s
  proof (cases "s = ''''")
    case True
    with unknown show ?thesis by (auto intro!: triple_fail triple_return split: sum.split)
  next
    case False
    with proceed show ?thesis by (auto intro!: triple_fail triple_return settled_intros(1) split: sum.split)
  qed
  show "triple (owning d0 fresh) (defer_rollback (bindE
      (try_bind (scan_row (tx_stmt (select_status_for_update rid)))
        (\<lambda>err. if \<not> errors_Is err ErrNoRows
           then fail (errorf_w (''lock reservation '' @ rid @ '': '') (translateConcurrency err)) else return '''') return)
      (\<lambda>s. case decide s of Inl err \<Rightarrow> fail err | Inr done \<Rightarrow> if done \<noteq> '''' then return done else ?proceed))) ?S ?S"
    by (rule triple_defer_rollback, unfold having_rollback, rule triple_bindE [OF header_owning chosen])
qed

lemma Release_owning:
  "triple (\<lambda>w. idle db_inv db_guar d0 w \<and> w_locked w = []) (Release rid reason)
    (\<lambda>_. settled (server d0) rid) (\<lambda>_. settled (server d0) rid)"
  unfolding Release_def
proof (rule transition_owning)
  show "decide_release rid '''' \<noteq> Inr ''''" by (simp add: decide_release_def reservation_status_defs)
  show "triple (owning d0 (updated (server d0) rid ys)) (release_line rid reason a)
      (\<lambda>_. owning d0 (updated (server d0) rid (ys @ [a]))) (\<lambda>_. settled (server d0) rid)"
    if "in_lock_order (server d0) (map akey (ys @ a # zs))" for ys a zs
    unfolding release_line_def using that by (rule line_owning) (simp add: ledger_prefixes_def)
qed

lemma Commit_owning:
  "triple (\<lambda>w. idle db_inv db_guar d0 w \<and> w_locked w = []) (Commit rid)
    (\<lambda>_. settled (server d0) rid) (\<lambda>_. settled (server d0) rid)"
  unfolding Commit_def
proof (rule transition_owning)
  show "decide_commit rid '''' \<noteq> Inr ''''" by (simp add: decide_commit_def reservation_status_defs)
  show "triple (owning d0 (updated (server d0) rid ys)) (commit_line rid a)
      (\<lambda>_. owning d0 (updated (server d0) rid (ys @ [a]))) (\<lambda>_. settled (server d0) rid)"
    if "in_lock_order (server d0) (map akey (ys @ a # zs))" for ys a zs
    unfolding commit_line_def using that by (rule line_owning) (simp add: ledger_prefixes_def)
qed

section \<open>The stock commands\<close>

definition commanded :: "string \<Rightarrow> pg_write list \<Rightarrow> pg_lock list \<Rightarrow> bool" where
  "commanded c vs ks \<longleftrightarrow> ks = [LockCommand c]"

lemma command_order_intros:
  "owning d0 (commanded c) w \<Longrightarrow> having (command_order c) w" "having (\<lambda>ks. ks = []) w \<Longrightarrow> having (command_order c) w"
proof -
  show "owning d0 (commanded c) w \<Longrightarrow> having (command_order c) w"
    by (erule owning_having) (simp add: commanded_def command_order_def)
  show "having (\<lambda>ks. ks = []) w \<Longrightarrow> having (command_order c) w" by (simp add: having_def command_order_def)
qed

lemma command_claim_owning:
  "triple (owning d0 fresh) (claimCommand cmd ty dh dr)
     (\<lambda>claimed. if claimed then owning d0 (commanded (cmd_CommandID cmd)) else having (\<lambda>ks. ks = []))
     (\<lambda>_. having (\<lambda>ks. ks = []))"
  unfolding claimCommand_def
proof (rule triple_bindE, rule triple_map_error, rule triple_nextval)
  let ?c = "cmd_CommandID cmd"
  let ?R = "\<lambda>n :: nat. if n = 1 then commanded ?c else (\<lambda>vs ks. ks = [])"
  let ?m = "\<lambda>n now. \<lparr>mv_id = n, mv_command_id = ?c, mv_sku_id = cmd_SKUID cmd, mv_warehouse_id = cmd_WarehouseID cmd,
    mv_type = ty, mv_on_hand_delta = dh, mv_reserved_delta = dr, mv_reference_type = Some ''admin'',
    mv_reference_id = None, mv_reason = Some (cmd_Reason cmd), mv_actor = Some (cmd_Actor cmd), mv_created_at = now\<rparr>"
  show "triple (owning d0 fresh) (tx_stmt (\<lambda>d now. insert_movement True (?m n now) d))
      (\<lambda>rows. owning d0 (?R rows)) (\<lambda>_. having (\<lambda>ks. ks = []))" for n
  proof (rule triple_weaken [OF owning_stmt [where Q = fresh and R = ?R]])
    fix d now rows ws ls vs ks
    assume "fresh vs ks" and run: "insert_movement True (?m n now) (apply_writes vs d) = Inr (rows, ws, ls)"
    then show "?R rows (vs @ ws) (ks @ ls @ concat (map (locks_taken (apply_writes vs d)) ws))"
      by (auto simp: insert_movement_def fresh_def commanded_def stored_movement_kept(2) split: if_splits option.splits)
  qed (auto elim: owning_having simp: fresh_def)
  have stored: "triple (having (\<lambda>ks. ks = []))
      (bindE (tx_query (select_movement ?c)) (\<lambda>r. case r of None \<Rightarrow> fail (Sentinel ErrNoRows) | Some m \<Rightarrow> return m))
      (\<lambda>_. having (\<lambda>ks. ks = [])) (\<lambda>_. having (\<lambda>ks. ks = []))"
    by (rule triple_bindE [OF lockless_calls(4) [rule_format]]) (auto intro!: triple_return triple_fail split: option.split)
  show "triple (owning d0 (?R rows))
      (if rows = 1 then return True
       else bindE
         (map_error g (bindE (tx_query (select_movement ?c))
            (\<lambda>r. case r of None \<Rightarrow> fail (Sentinel ErrNoRows) | Some m \<Rightarrow> return m)))
         (\<lambda>m. if P m then fail err else return False))
      (\<lambda>claimed. if claimed then owning d0 (commanded ?c) else having (\<lambda>ks. ks = []))
      (\<lambda>_. having (\<lambda>ks. ks = []))" for rows g P err
  proof (cases "rows = 1")
    case False
    have "triple (having (\<lambda>ks. ks = []))
        (bindE (map_error g (bindE (tx_query (select_movement ?c))
            (\<lambda>r. case r of None \<Rightarrow> fail (Sentinel ErrNoRows) | Some m \<Rightarrow> return m)))
         (\<lambda>m. if P m then fail err else return False))
        (\<lambda>claimed. if claimed then owning d0 (commanded ?c) else having (\<lambda>ks. ks = []))
        (\<lambda>_. having (\<lambda>ks. ks = []))"
      by (rule triple_bindE [OF triple_map_error [OF stored]]) (auto intro!: triple_return triple_fail)
    then show ?thesis using False by (auto elim!: triple_pre owning_having)
  qed (auto intro: triple_return)
qed simp

text \<open>The change of the balance: one row.\<close>

lemma change_owning:
  assumes "\<And>d now n ws ls. f d now = Inr (n, ws, ls) \<Longrightarrow> ls = [] \<and> (ws = [] \<or> (\<exists>k r. ws = [WBalance k r]))"
  shows "triple (owning d0 (commanded c)) (tx_stmt f) (\<lambda>_. having (command_order c)) (\<lambda>_. having (command_order c))"
proof (rule triple_weaken [OF owning_stmt [where Q = "commanded c" and R = "\<lambda>_ vs ks. command_order c ks"]])
  fix d now n ws ls vs ks
  assume "commanded c vs ks" and run: "f (apply_writes vs d) now = Inr (n, ws, ls)"
  with assms [OF run] show "command_order c (ks @ ls @ concat (map (locks_taken (apply_writes vs d)) ws))"
    by (auto simp: command_order_def commanded_def)
qed (auto intro: command_order_intros(1) elim: owning_having)

lemma changes_owning:
  "triple (owning d0 (commanded c)) (receive_change cmd) (\<lambda>_. having (command_order c)) (\<lambda>_. having (command_order c))"
  "triple (owning d0 (commanded c)) (adjust_change cmd) (\<lambda>_. having (command_order c)) (\<lambda>_. having (command_order c))"
  "triple (owning d0 (commanded c)) (safety_change cmd) (\<lambda>_. having (command_order c)) (\<lambda>_. having (command_order c))"
  unfolding receive_change_def adjust_change_def safety_change_def
  by (rule triple_bindE, rule triple_map_error, rule change_owning,
      auto simp: upsert_on_hand_def store_balance_def dest!: update_ws intro: triple_return triple_fail
        split: if_splits option.splits)+

lemma run_command_owning:
  assumes "triple (owning d0 (commanded (cmd_CommandID cmd))) change
      (\<lambda>_. having (command_order (cmd_CommandID cmd))) (\<lambda>_. having (command_order (cmd_CommandID cmd)))"
  shows "triple (\<lambda>w. idle db_inv db_guar d0 w \<and> w_locked w = []) (run_command cmd ty dh dr change)
    (\<lambda>_. having (command_order (cmd_CommandID cmd))) (\<lambda>_. having (command_order (cmd_CommandID cmd)))"
  unfolding run_command_def
proof (rule triple_bindE, rule triple_map_error)
  let ?O = "\<lambda>_. having (command_order (cmd_CommandID cmd))"
  show "triple (\<lambda>w. idle db_inv db_guar d0 w \<and> w_locked w = []) pool_begin (\<lambda>_. owning d0 fresh) ?O"
    by (rule triple_weaken [OF begin_owning]) (auto intro: command_order_intros(2))
  have claim: "triple (owning d0 fresh) (claimCommand cmd ty dh dr)
     (\<lambda>claimed. if claimed then owning d0 (commanded (cmd_CommandID cmd)) else having (\<lambda>ks. ks = [])) ?O"
    by (rule triple_weaken [OF command_claim_owning]) (auto intro: command_order_intros(2))
  let ?finish = "bindE (map_error (errorf_w (''commit '' @ cmd_CommandID cmd @ '': '')) tx_commit) (\<lambda>_. return True)"
  have "triple (having (command_order (cmd_CommandID cmd))) ?finish ?O ?O"
    by (rule triple_bindE, rule triple_map_error, rule lockless_calls(5) [rule_format]) (rule triple_return)
  with assms have applied: "triple (owning d0 (commanded (cmd_CommandID cmd))) (bindE change (\<lambda>_. ?finish)) ?O ?O"
    by (rule triple_bindE)
  show "triple (owning d0 fresh) (defer_rollback (bindE (claimCommand cmd ty dh dr) (\<lambda>claimed.
      if \<not> claimed then return False else bindE change (\<lambda>_. ?finish)))) ?O ?O"
    by (rule triple_defer_rollback, unfold having_rollback, rule triple_bindE [OF claim])
       (use applied in \<open>auto intro!: triple_return command_order_intros(2)\<close>)
qed

section \<open>The locks of a run\<close>

text \<open>The six commands that change stock, run with their real bodies.\<close>

datatype stock_work =
    Placing ReservationRequest
  | Releasing string string
  | Committing string
  | Receiving StockCommand
  | Adjusting StockCommand
  | Buffering StockCommand

fun perform :: "stock_work \<Rightarrow> world \<Rightarrow> world" where
  "perform (Placing req) w = snd (Reserve req w)"
| "perform (Releasing rid reason) w = snd (Release rid reason w)"
| "perform (Committing rid) w = snd (Commit rid w)"
| "perform (Receiving cmd) w = snd (ReceiveStock cmd w)"
| "perform (Adjusting cmd) w = snd (AdjustOnHand cmd w)"
| "perform (Buffering cmd) w = snd (SetSafetyStock cmd w)"

text \<open>A basket of positive quantities, as the transport admits it; every other work.\<close>

fun accepted_work :: "stock_work \<Rightarrow> bool" where
  "accepted_work (Placing req) = (\<forall>it \<in> set (rq_Items req). 0 < ln_Quantity it)"
| "accepted_work _ = True"

fun work_order :: "pg_server \<Rightarrow> stock_work \<Rightarrow> pg_lock list \<Rightarrow> bool" where
  "work_order sv (Placing req) = reservation_order sv (rq_ID req)"
| "work_order sv (Releasing rid reason) = reservation_order sv rid"
| "work_order sv (Committing rid) = reservation_order sv rid"
| "work_order sv (Receiving cmd) = command_order (cmd_CommandID cmd)"
| "work_order sv (Adjusting cmd) = command_order (cmd_CommandID cmd)"
| "work_order sv (Buffering cmd) = command_order (cmd_CommandID cmd)"

lemma commands_owning:
  "triple (\<lambda>w. idle db_inv db_guar d0 w \<and> w_locked w = []) (ReceiveStock cmd)
    (\<lambda>_. having (command_order (cmd_CommandID cmd))) (\<lambda>_. having (command_order (cmd_CommandID cmd)))"
  "triple (\<lambda>w. idle db_inv db_guar d0 w \<and> w_locked w = []) (AdjustOnHand cmd)
    (\<lambda>_. having (command_order (cmd_CommandID cmd))) (\<lambda>_. having (command_order (cmd_CommandID cmd)))"
  "triple (\<lambda>w. idle db_inv db_guar d0 w \<and> w_locked w = []) (SetSafetyStock cmd)
    (\<lambda>_. having (command_order (cmd_CommandID cmd))) (\<lambda>_. having (command_order (cmd_CommandID cmd)))"
  unfolding ReceiveStock_def AdjustOnHand_def SetSafetyStock_def
  by (auto intro!: triple_fail run_command_owning changes_owning simp: having_def command_order_def split: option.split)

theorem perform_locks:
  assumes "concurrent w" "w_locked w = []" "accepted_work c"
  shows "work_order (server (w_db w)) c (w_locked (perform c w))"
proof -
  have P: "idle db_inv db_guar (w_db w) w \<and> w_locked w = []" using concurrent_idle [OF assms(1)] assms(2) by blast
  note runs = triple_snd [OF Reserve_owning P, unfolded having_def] triple_snd [OF Release_owning P, unfolded having_def]
    triple_snd [OF Commit_owning P, unfolded having_def] triple_snd [OF commands_owning(1) P, unfolded having_def]
    triple_snd [OF commands_owning(2) P, unfolded having_def] triple_snd [OF commands_owning(3) P, unfolded having_def]
  from assms(3) show ?thesis by (cases c) (simp_all add: runs)
qed

end
