(* ===== verification/Lock_Order.thy ===== *)
theory Lock_Order
  imports Lock_Acquisition Sample_Runs
begin

text \<open>
  Why concurrent commands do not deadlock. By \<open>Lock_Acquisition\<close> every run of the six commands takes its
  locks in a disciplined order. Here any number of such runs share one lock table: a state is reached by
  runs that begin, take their next lock when nobody else holds it, and end at any point, giving up what they
  hold. A run that waits for another always waits for a lock beyond all that it holds itself, so waiting
  never comes full circle. All locks of the model count: balance rows, reservation headers, order
  references, lines and ledger ids.
\<close>

section \<open>Runs\<close>

text \<open>
  The locks of a run of the real command, begun in any reachable state, among any other transactions and
  faults, in the order in which it takes them. A transaction that waits for a lock is represented by the run
  that takes this lock next, which is the one in which the holder gives it up unused; what the waiting
  statement does otherwise, such as inserting nothing because the key is taken by then, comes after the wait.
\<close>

inductive lock_run :: "pg_server \<Rightarrow> stock_work \<Rightarrow> pg_lock list \<Rightarrow> bool" where
  run: "concurrent w \<Longrightarrow> w_locked w = [] \<Longrightarrow> accepted_work c \<Longrightarrow> lock_run (server (w_db w)) c (w_locked (perform c w))"

inductive_cases lock_runE: "lock_run sv c ks"

lemma lock_run_order: "lock_run sv c ks \<Longrightarrow> work_order sv c ks"
  by (erule lock_runE) (simp add: perform_locks)

fun reservation_of :: "stock_work \<Rightarrow> string option" where
  "reservation_of (Placing req) = Some (rq_ID req)"
| "reservation_of (Releasing rid reason) = Some rid"
| "reservation_of (Committing rid) = Some rid"
| "reservation_of _ = None"

fun command_of :: "stock_work \<Rightarrow> string option" where
  "command_of (Receiving cmd) = Some (cmd_CommandID cmd)"
| "command_of (Adjusting cmd) = Some (cmd_CommandID cmd)"
| "command_of (Buffering cmd) = Some (cmd_CommandID cmd)"
| "command_of _ = None"

lemma work_order_cases:
  assumes "work_order sv c ks"
  obtains rid where "reservation_of c = Some rid" "reservation_order sv rid ks"
  | i where "reservation_of c = None" "command_of c = Some i" "command_order i ks"
  using assms by (cases c) auto

lemma work_order_Nil [simp]: "work_order sv c []"
  by (cases c) (simp_all add: command_order_def)

section \<open>The lock table\<close>

text \<open>A transaction under way: its command, the locks of its run, and how many of them it holds.\<close>

record locking =
  lk_work :: stock_work
  lk_seq :: "pg_lock list"
  lk_pos :: nat

definition holds :: "locking \<Rightarrow> pg_lock set" where
  "holds t = set (take (lk_pos t) (lk_seq t))"

definition wants :: "locking \<Rightarrow> pg_lock option" where
  "wants t = (if lk_pos t < length (lk_seq t) then Some (lk_seq t ! lk_pos t) else None)"

definition waits_for :: "locking list \<Rightarrow> (nat \<times> nat) set" where
  "waits_for ts =
     {(i, j). i < length ts \<and> j < length ts \<and> i \<noteq> j \<and> (\<exists>l. wants (ts ! i) = Some l \<and> l \<in> holds (ts ! j))}"

inductive lock_table :: "pg_server \<Rightarrow> locking list \<Rightarrow> bool" for sv where
  start: "lock_table sv []"
| enter: "lock_table sv ts \<Longrightarrow> lock_run sv c ks \<Longrightarrow>
    lock_table sv (ts @ [\<lparr>lk_work = c, lk_seq = ks, lk_pos = 0\<rparr>])"
| grant: "lock_table sv ts \<Longrightarrow> i < length ts \<Longrightarrow> wants (ts ! i) = Some l \<Longrightarrow>
    (\<forall>j < length ts. j \<noteq> i \<longrightarrow> l \<notin> holds (ts ! j)) \<Longrightarrow>
    lock_table sv (ts[i := (ts ! i)\<lparr>lk_pos := Suc (lk_pos (ts ! i))\<rparr>])"
| leave: "lock_table sv ts \<Longrightarrow> i < length ts \<Longrightarrow> lock_table sv (ts[i := (ts ! i)\<lparr>lk_seq := [], lk_pos := 0\<rparr>])"

lemma holds_grant:
  assumes "wants t = Some l"
  shows "holds (t\<lparr>lk_pos := Suc (lk_pos t)\<rparr>) = insert l (holds t)"
  using assms by (auto simp: holds_def wants_def take_Suc_conv_app_nth split: if_splits)

text \<open>Every run is disciplined, and no lock has two holders.\<close>

lemma lock_table_inv:
  assumes "lock_table sv ts"
  shows "(\<forall>t \<in> set ts. work_order sv (lk_work t) (lk_seq t)) \<and>
    (\<forall>i < length ts. \<forall>j < length ts. i \<noteq> j \<longrightarrow> holds (ts ! i) \<inter> holds (ts ! j) = {})"
  using assms
proof (induction rule: lock_table.induct)
  case (enter ts c ks)
  have "holds \<lparr>lk_work = c, lk_seq = ks, lk_pos = 0\<rparr> = {}" by (simp add: holds_def)
  with enter lock_run_order [OF enter.hyps(2)] show ?case by (auto simp: nth_append less_Suc_eq)
next
  case (grant ts i l)
  then have "\<forall>t \<in> set (ts[i := (ts ! i)\<lparr>lk_pos := Suc (lk_pos (ts ! i))\<rparr>]). work_order sv (lk_work t) (lk_seq t)"
    using set_update_subset_insert [of ts i] by fastforce
  with grant holds_grant [OF grant.hyps(3)] show ?case by (auto simp: nth_list_update)
next
  case (leave ts i)
  then have "\<forall>t \<in> set (ts[i := (ts ! i)\<lparr>lk_seq := [], lk_pos := 0\<rparr>]). work_order sv (lk_work t) (lk_seq t)"
    using set_update_subset_insert [of ts i] by fastforce
  moreover have "holds ((ts ! i)\<lparr>lk_seq := [], lk_pos := 0\<rparr>) = {}" by (simp add: holds_def)
  ultimately show ?case using leave by (auto simp: nth_list_update)
qed simp

section \<open>Waiting\<close>

text \<open>
  Ledger ids are one key space for reservations and stock commands. A stock command that stays out of the
  reservations' part of it, and SKUs without a colon, as the transport admits them, tell whose ledger id a
  string is.
\<close>

definition plain_keys :: "locking \<Rightarrow> bool" where
  "plain_keys t \<longleftrightarrow>
     (case command_of (lk_work t) of
        Some c \<Rightarrow> take 4 c \<notin> set ledger_prefixes
      | None \<Rightarrow> list_all (\<lambda>k. CHR '':'' \<notin> set (fst k)) (locked_keys (lk_seq t)))"

lemma last_separator:
  assumes "xs @ c # ys = xs' @ c # ys'" "c \<notin> set ys" "c \<notin> set ys'"
  shows "xs = xs'"
proof -
  have part: "takeWhile (\<lambda>x. x \<noteq> c) (rev (zs @ c # us)) = rev us" if "c \<notin> set us" for zs us :: "'a list"
  proof -
    have "takeWhile (\<lambda>x. x \<noteq> c) (rev us @ c # rev zs) = rev us"
      using that by (subst takeWhile_append2) auto
    then show ?thesis by simp
  qed
  from part [OF assms(2), of xs] part [OF assms(3), of xs'] assms(1) have "rev ys = rev ys'" by metis
  with assms(1) show ?thesis by simp
qed

lemma own_locks_owner:
  assumes "l \<in> own_locks rid S" "l \<in> own_locks rid' S'"
    and "\<forall>s \<in> S. CHR '':'' \<notin> set s" "\<forall>s \<in> S'. CHR '':'' \<notin> set s"
  shows "rid = rid'"
proof (cases l)
  case (LockCommand c)
  with assms(1) obtain pre s where c: "c = pre @ rid @ '':'' @ s" "pre \<in> set ledger_prefixes" "s \<in> S"
    by (auto simp: own_locks_def)
  from LockCommand assms(2) obtain pre' s' where c': "c = pre' @ rid' @ '':'' @ s'" "pre' \<in> set ledger_prefixes" "s' \<in> S'"
    by (auto simp: own_locks_def)
  from c(2) c'(2) have "length pre = length pre'" by (auto simp: ledger_prefixes_def)
  with c(1) c'(1) have "rid @ CHR '':'' # s = rid' @ CHR '':'' # s'" by (metis append_Cons append_Nil append_eq_append_conv)
  with assms(3,4) c(3) c'(3) show ?thesis by (intro last_separator [of rid _ s]) auto
qed (use assms(1,2) in \<open>auto simp: own_locks_def\<close>)

lemma reservation_own:
  "reservation_order sv rid ks \<Longrightarrow> l \<in> set ks \<Longrightarrow> l \<in> own_locks i S \<Longrightarrow> l \<in> own_locks rid (fst ` set (locked_keys ks))"
  unfolding reservation_order_def by (auto simp: own_locks_def)

text \<open>Nobody ever waits for one of a reservation's own locks: the header guards them.\<close>

lemma own_lock_free:
  assumes inv: "work_order sv (lk_work t) (lk_seq t)" "work_order sv (lk_work u) (lk_seq u)" "holds t \<inter> holds u = {}"
    and plain: "plain_keys t" "plain_keys u"
    and w: "wants t = Some l" "l \<in> holds u" and r: "reservation_of (lk_work t) = Some rid"
  shows "l \<notin> own_locks rid UNIV"
proof
  assume own: "l \<in> own_locks rid UNIV"
  from inv(1) r have order: "reservation_order sv rid (lk_seq t)" by (cases rule: work_order_cases) auto
  from w(1) have pos: "lk_pos t < length (lk_seq t)" "l = lk_seq t ! lk_pos t" by (auto simp: wants_def split: if_splits)
  then have "l \<in> set (lk_seq t)" by simp
  note l = reservation_own [OF order this own]
  have keys: "\<forall>s \<in> fst ` set (locked_keys (lk_seq t)). CHR '':'' \<notin> set s"
    using plain(1) r by (cases "lk_work t") (auto simp: plain_keys_def list_all_iff)
  have lu: "l \<in> set (lk_seq u)" using w(2) by (auto simp: holds_def dest: in_set_takeD)
  from inv(2) show False
  proof (cases rule: work_order_cases)
    case (1 rid')
    have keys': "\<forall>s \<in> fst ` set (locked_keys (lk_seq u)). CHR '':'' \<notin> set s"
      using plain(2) 1(1) by (cases "lk_work u") (auto simp: plain_keys_def list_all_iff)
    have "rid = rid'" by (rule own_locks_owner [OF l reservation_own [OF 1(2) lu own] keys keys'])
    have "hd (lk_seq u) = LockReservation rid'" "hd (lk_seq t) = LockReservation rid"
      using 1(2) order w(2) pos by (auto simp: reservation_order_def holds_def)
    moreover have "lk_pos u \<noteq> 0" "lk_seq u \<noteq> []" using w(2) by (cases "lk_pos u"; auto simp: holds_def)+
    moreover have "lk_pos t \<noteq> 0"
      using pos own calculation(2) by (cases "lk_seq t"; cases "lk_pos t") (auto simp: own_locks_def)
    ultimately have "LockReservation rid \<in> holds t" "LockReservation rid' \<in> holds u"
      using pos(1) by (metis hd_in_set hd_take holds_def length_greater_0_conv less_nat_zero_code neq0_conv take_eq_Nil)+
    with inv(3) \<open>rid = rid'\<close> show False by auto
  next
    case (2 i)
    have "take 4 i \<notin> set ledger_prefixes" using plain(2) 2(2) by (simp add: plain_keys_def)
    moreover have "l = LockCommand i" using 2(3) lu own by (auto simp: command_order_def own_locks_def)
    ultimately show False using own by (auto simp: own_locks_def ledger_prefixes_def)
  qed
qed

lemma wants_beyond_held:
  assumes "work_order sv (lk_work t) (lk_seq t)" "work_order sv (lk_work u) (lk_seq u)" "holds t \<inter> holds u = {}"
    and "plain_keys t" "plain_keys u" and w: "wants t = Some l" "l \<in> holds u" and h: "h \<in> holds t"
  shows "lock_level sv h < lock_level sv l"
proof -
  from w(1) have pos: "lk_pos t < length (lk_seq t)" "l = lk_seq t ! lk_pos t" by (auto simp: wants_def split: if_splits)
  have new: "l \<notin> set (take (lk_pos t) (lk_seq t))" using assms(3) w(2) by (auto simp: holds_def)
  from assms(1) show ?thesis
  proof (cases rule: work_order_cases)
    case (1 rid)
    have "l \<notin> own_locks rid UNIV" by (rule own_lock_free [OF assms(1-5) w 1(1)])
    with 1(2) pos new h show ?thesis by (auto simp: reservation_order_def climbing_def holds_def)
  next
    case (2 i)
    with pos new h show ?thesis by (auto simp: command_order_def holds_def less_Suc_eq)
  qed
qed

lemma waits_for_level:
  assumes inv: "\<forall>t \<in> set ts. work_order sv (lk_work t) (lk_seq t)"
      "\<forall>i < length ts. \<forall>j < length ts. i \<noteq> j \<longrightarrow> holds (ts ! i) \<inter> holds (ts ! j) = {}"
    and plain: "\<forall>t \<in> set ts. plain_keys t" and chain: "(i, j) \<in> (waits_for ts)\<^sup>+"
  shows "\<exists>l. wants (ts ! i) = Some l \<and>
    (\<forall>l' m. wants (ts ! j) = Some l' \<longrightarrow> (j, m) \<in> waits_for ts \<longrightarrow> lock_level sv l < lock_level sv l')"
  using chain
proof (induction rule: trancl_induct)
  case (base j)
  then obtain l where l: "wants (ts ! i) = Some l" "l \<in> holds (ts ! j)" by (auto simp: waits_for_def)
  have "lock_level sv l < lock_level sv l'" if "wants (ts ! j) = Some l'" "(j, m) \<in> waits_for ts" for l' m
    using that l(2) inv plain by (intro wants_beyond_held [of sv "ts ! j" "ts ! m"]) (auto simp: waits_for_def)
  with l(1) show ?case by blast
next
  case (step j k)
  from step.hyps(2) obtain l where l: "wants (ts ! j) = Some l" "l \<in> holds (ts ! k)" by (auto simp: waits_for_def)
  have "lock_level sv l < lock_level sv l'" if "wants (ts ! k) = Some l'" "(k, m) \<in> waits_for ts" for l' m
    using that l(2) inv plain by (intro wants_beyond_held [of sv "ts ! k" "ts ! m"]) (auto simp: waits_for_def)
  with l(1) step.IH step.hyps(2) show ?case by (meson less_trans)
qed

lemma finite_waits_for: "finite (waits_for ts)"
  by (rule finite_subset [of _ "{..< length ts} \<times> {..< length ts}"]) (auto simp: waits_for_def)

text \<open>
  C40. The commands never deadlock. Take any state of the lock table that runs of \<open>Reserve\<close> (of positive
  quantities), \<open>Release\<close>, \<open>Commit\<close> and the stock commands, each among arbitrary others and faults, can
  reach, with every lock of the model counted. If no stock command uses an id of the form a reservation's
  ledger rows have and no SKU of a reservation contains a colon, then no chain of waiting leads back to its
  start; and if a transaction waits, then one that is waited for does not wait itself.
\<close>

theorem no_lock_cycle:
  assumes "lock_table sv ts" and "\<forall>t \<in> set ts. plain_keys t"
  shows "acyclic (waits_for ts) \<and>
    (waits_for ts \<noteq> {} \<longrightarrow> (\<exists>j \<in> Range (waits_for ts). j \<notin> Domain (waits_for ts)))"
proof
  note inv = lock_table_inv [OF assms(1)]
  show acyclic: "acyclic (waits_for ts)"
    unfolding acyclic_def
  proof safe
    fix i
    assume cycle: "(i, i) \<in> (waits_for ts)\<^sup>+"
    then obtain m where "(i, m) \<in> waits_for ts" by (meson tranclD)
    with waits_for_level [OF conjunct1 [OF inv] conjunct2 [OF inv] assms(2) cycle] show False by blast
  qed
  show "waits_for ts \<noteq> {} \<longrightarrow> (\<exists>j \<in> Range (waits_for ts). j \<notin> Domain (waits_for ts))"
  proof
    assume "waits_for ts \<noteq> {}"
    then obtain i j where "(i, j) \<in> waits_for ts" by auto
    moreover have "wf ((waits_for ts)\<inverse>)" by (rule finite_acyclic_wf_converse [OF finite_waits_for acyclic])
    ultimately obtain z where "z \<in> Range (waits_for ts)" "\<And>y. (y, z) \<in> (waits_for ts)\<inverse> \<Longrightarrow> y \<notin> Range (waits_for ts)"
      by (metis RangeI wfE_min)
    then show "\<exists>j \<in> Range (waits_for ts). j \<notin> Domain (waits_for ts)" by blast
  qed
qed

section \<open>Samples\<close>

text \<open>Two runs can get anywhere in their sequences as long as they share no lock they hold.\<close>

lemma two_runs:
  assumes runs: "lock_run sv c ks" "lock_run sv c' ks'" and len: "n \<le> length ks" "m \<le> length ks'"
    and disjoint: "set (take n ks) \<inter> set (take m ks') = {}"
  shows "lock_table sv [\<lparr>lk_work = c, lk_seq = ks, lk_pos = n\<rparr>, \<lparr>lk_work = c', lk_seq = ks', lk_pos = m\<rparr>]"
proof -
  have start: "lock_table sv [\<lparr>lk_work = c, lk_seq = ks, lk_pos = 0\<rparr>, \<lparr>lk_work = c', lk_seq = ks', lk_pos = 0\<rparr>]"
    using lock_table.enter [OF lock_table.enter [OF lock_table.start runs(1)] runs(2)] by simp
  have first: "lock_table sv [\<lparr>lk_work = c, lk_seq = ks, lk_pos = n\<rparr>, \<lparr>lk_work = c', lk_seq = ks', lk_pos = 0\<rparr>]"
    using len(1)
  proof (induction n)
    case (Suc n)
    then show ?case
      using lock_table.grant [of sv "[\<lparr>lk_work = c, lk_seq = ks, lk_pos = n\<rparr>, \<lparr>lk_work = c', lk_seq = ks', lk_pos = 0\<rparr>]" 0 "ks ! n"]
      by (auto simp: wants_def holds_def less_Suc_eq)
  qed (rule start)
  show ?thesis
    using len(2) disjoint
  proof (induction m)
    case (Suc m)
    then have "lock_table sv [\<lparr>lk_work = c, lk_seq = ks, lk_pos = n\<rparr>, \<lparr>lk_work = c', lk_seq = ks', lk_pos = m\<rparr>]"
      "ks' ! m \<notin> set (take n ks)" by (auto simp: take_Suc_conv_app_nth)
    with Suc.prems show ?case
      using lock_table.grant [of sv "[\<lparr>lk_work = c, lk_seq = ks, lk_pos = n\<rparr>, \<lparr>lk_work = c', lk_seq = ks', lk_pos = m\<rparr>]" 1 "ks' ! m"]
      by (auto simp: wants_def holds_def less_Suc_eq)
  qed (rule first)
qed

text \<open>An adjustment, and the release of the sample reservation, begun in the same state.\<close>

definition sample_adjustment :: StockCommand where
  "sample_adjustment =
     \<lparr>cmd_CommandID = ''c2'', cmd_SKUID = ''A'', cmd_WarehouseID = 1, cmd_Quantity = 5, cmd_Reason = ''count'',
      cmd_Actor = ''ops''\<rparr>"

definition lock_start :: world where
  "lock_start = sample_reserved\<lparr>w_locked := []\<rparr>"

abbreviation run_at :: "stock_work \<Rightarrow> nat \<Rightarrow> locking" where
  "run_at c n \<equiv> \<lparr>lk_work = c, lk_seq = w_locked (perform c lock_start), lk_pos = n\<rparr>"

lemma sample_runs:
  "w_locked (perform (Adjusting sample_adjustment) lock_start) = [LockCommand ''c2'', LockBalance (''A'', 1)]"
  "w_locked (perform (Adjusting (sample_adjustment\<lparr>cmd_CommandID := ''rel:r1:A''\<rparr>)) lock_start) =
     [LockCommand ''rel:r1:A'', LockBalance (''A'', 1)]"
  "w_locked (perform (Releasing ''r1'' '''') lock_start) =
     [LockReservation ''r1'', LockBalance (''A'', 1), LockCommand ''rel:r1:A'', LockReservation ''r1'']"
  by code_simp+

lemma sample_lock_run:
  assumes "accepted_work c"
  shows "lock_run (server (w_db lock_start)) c (w_locked (perform c lock_start))"
proof (rule lock_run.run)
  show "concurrent lock_start" using sample_concurrent(3) by (simp add: lock_start_def concurrent_def)
  show "w_locked lock_start = []" by (simp add: lock_start_def)
qed fact

text \<open>The adjustment holds the row that the release waits for.\<close>

theorem no_lock_cycle_witness:
  "(1, 0) \<in> waits_for [run_at (Adjusting sample_adjustment) 2, run_at (Releasing ''r1'' '''') 1] \<and>
   acyclic (waits_for [run_at (Adjusting sample_adjustment) 2, run_at (Releasing ''r1'' '''') 1])"
proof
  show "(1, 0) \<in> waits_for [run_at (Adjusting sample_adjustment) 2, run_at (Releasing ''r1'' '''') 1]"
    by (simp add: sample_runs waits_for_def wants_def holds_def del: perform.simps)
  have reached: "lock_table (server (w_db lock_start))
      [run_at (Adjusting sample_adjustment) 2, run_at (Releasing ''r1'' '''') 1]"
    by (rule two_runs [OF sample_lock_run sample_lock_run]) (simp_all add: sample_runs del: perform.simps)
  have "\<forall>t \<in> set [run_at (Adjusting sample_adjustment) 2, run_at (Releasing ''r1'' '''') 1]. plain_keys t"
    by (simp add: plain_keys_def sample_runs sample_adjustment_def ledger_prefixes_def del: perform.simps)
  from no_lock_cycle [OF reached this]
  show "acyclic (waits_for [run_at (Adjusting sample_adjustment) 2, run_at (Releasing ''r1'' '''') 1])" by (rule conjunct1)
qed

text \<open>
  Without the hypothesis on ids the commands do deadlock: an adjustment under the id that the release of a
  reservation gives its ledger row holds this id and waits for the balance, which the release holds while
  it waits for the id.
\<close>

theorem shared_id_deadlocks:
  defines "ts \<equiv> [run_at (Adjusting (sample_adjustment\<lparr>cmd_CommandID := ''rel:r1:A''\<rparr>)) 1, run_at (Releasing ''r1'' '''') 2]"
  shows "lock_table (server (w_db lock_start)) ts \<and> (0, 1) \<in> waits_for ts \<and> (1, 0) \<in> waits_for ts"
proof -
  have "lock_table (server (w_db lock_start)) ts"
    unfolding ts_def by (rule two_runs [OF sample_lock_run sample_lock_run]) (simp_all add: sample_runs del: perform.simps)
  then show ?thesis by (simp add: ts_def sample_runs waits_for_def wants_def holds_def del: perform.simps)
qed

end
