(* ===== verification/Call_Bounds.thy ===== *)
theory Call_Bounds
  imports Grpc_Server Admin_Http
begin

text \<open>
  How many database calls an operation of the repositories makes at most, whatever fails and whatever
  runs concurrently. Every database call consumes one event of the world's script, so a program that,
  for every script, consumes at most \<open>n\<close> events makes at most \<open>n\<close> calls. One rule per construct; \<open>transition\<close>, whose loop runs over rows it has read, is
  followed through its first statements to bound their number.
\<close>

section \<open>Counting the calls of a program\<close>

definition used :: "nat \<Rightarrow> world \<Rightarrow> world \<Rightarrow> bool" where
  "used n w w' \<longleftrightarrow> (\<exists>j \<le> n. w_script w' = drop j (w_script w))"

text \<open>\<open>costs e n m\<close>: at most \<open>e\<close> database calls on the way to an error, at most \<open>n\<close> on the way to a value.\<close>

definition costs :: "nat \<Rightarrow> nat \<Rightarrow> 'a prog \<Rightarrow> bool" where
  "costs e n m \<longleftrightarrow> (\<forall>w. used (case fst (m w) of Inl _ \<Rightarrow> e | Inr _ \<Rightarrow> n) w (snd (m w)))"

definition returns :: "'a prog \<Rightarrow> 'a \<Rightarrow> bool" where
  "returns m x \<longleftrightarrow> (\<exists>w w'. m w = (Inr x, w'))"

lemma used_refl: "used n w w"
  unfolding used_def by (rule exI [of _ 0]) simp

lemma used_trans: "used a u v \<Longrightarrow> used b v w \<Longrightarrow> used (a + b) u w"
  unfolding used_def by (metis add.commute add_mono drop_drop)

lemma used_mono: "used a u v \<Longrightarrow> a \<le> b \<Longrightarrow> used b u v"
  unfolding used_def by (meson le_trans)

lemma used_world [simp]:
  "used n w (v\<lparr>w_tx := t\<rparr>) = used n w v" "used n w (v\<lparr>w_seq := s\<rparr>) = used n w v"
  "used n w (v\<lparr>w_db := d\<rparr>) = used n w v" "used n w (v\<lparr>w_trace := ts\<rparr>) = used n w v"
  "used n w (v\<lparr>w_locked := ks\<rparr>) = used n w v"
  "used n w (tx_rollback v) = used n w v" "used n w (abort_tx v) = used n w v"
  "used n (w\<lparr>w_seq := s\<rparr>) v = used n w v" "used n (w\<lparr>w_trace := ts\<rparr>) v = used n w v"
  by (simp_all add: used_def tx_rollback_def abort_tx_def)

lemma used_event: "next_event w = (fault, w1) \<Longrightarrow> used 1 w w1"
  unfolding used_def
  by (cases "w_script w") (auto simp: next_event_def intro: exI [of _ 0] exI [of _ "Suc 0"])

lemma costsI:
  "(\<And>w err w'. m w = (Inl err, w') \<Longrightarrow> used e w w') \<Longrightarrow>
   (\<And>w x w'. m w = (Inr x, w') \<Longrightarrow> used n w w') \<Longrightarrow> costs e n m"
  unfolding costs_def by (auto simp: prod_eq_iff split: sum.split)

lemma costs_Inl: "costs e n m \<Longrightarrow> m w = (Inl err, w') \<Longrightarrow> used e w w'"
  and costs_Inr: "costs e n m \<Longrightarrow> m w = (Inr x, w') \<Longrightarrow> used n w w'"
  unfolding costs_def by (metis fst_conv snd_conv sum.case)+

lemma costs_mono: "costs e n m \<Longrightarrow> e \<le> E \<Longrightarrow> n \<le> N \<Longrightarrow> costs E N m"
  by (rule costsI) (blast intro: used_mono dest: costs_Inl costs_Inr)+

named_theorems cost_rules \<open>one rule per construct: how many database calls a program makes\<close>

lemma costs_silent: "(\<And>w. w_script (snd (m w)) = w_script w) \<Longrightarrow> costs 0 0 m"
  by (simp add: costs_def used_def split: sum.split)

lemma costs_return [cost_rules]: "costs 0 0 (return x)"
  and costs_fail [cost_rules]: "costs 0 0 (fail err)"
  and costs_emit [cost_rules]: "costs 0 0 (emit t)"
  and costs_rollback_now [cost_rules]: "costs 0 0 rollback_now"
  by (rule costs_silent, simp add: return_def fail_def emit_def rollback_now_def tx_rollback_def)+

lemma costs_call:
  "costs 1 1 pool_begin" "costs 1 1 (tx_stmt f)" "costs 1 1 tx_commit" "costs 1 1 (pool_query g)"
proof -
  have ev: "used 1 w w1" if "next_event w = (fault, w1)" for w w1 fault by (rule used_event [OF that])
  show "costs 1 1 pool_begin" using ev by (auto simp: costs_def pool_begin_def split: prod.split fault.split)
  show "costs 1 1 (tx_stmt f)"
    using ev by (auto simp: costs_def tx_stmt_def split: prod.split fault.split option.split sum.split)
  show "costs 1 1 tx_commit"
    using ev by (auto simp: costs_def tx_commit_def split: prod.split fault.split option.split)
  show "costs 1 1 (pool_query g)" using ev by (auto simp: costs_def pool_query_def split: prod.split fault.split)
qed

lemma try_bindE:
  assumes "try_bind m h f w = (r, w')"
  obtains (failed) e u where "m w = (Inl e, u)" "h e u = (r, w')"
    | (went) x u where "m w = (Inr x, u)" "returns m x" "f x u = (r, w')"
  using assms by (cases "m w", cases "fst (m w)") (auto simp: try_bind_def returns_def)

lemma costs_try_returned:
  assumes m: "costs e n m" and h: "\<And>err. costs e1 n1 (h err)" and f: "\<And>x. returns m x \<Longrightarrow> costs e2 n2 (f x)"
  shows "costs (max (e + e1) (n + e2)) (max (e + n1) (n + n2)) (try_bind m h f)"
proof (rule costsI)
  fix w err w'
  assume "try_bind m h f w = (Inl err, w')"
  then show "used (max (e + e1) (n + e2)) w w'"
  proof (cases rule: try_bindE)
    case failed
    from used_trans [OF costs_Inl [OF m failed(1)] costs_Inl [OF h failed(2)]] show ?thesis by (rule used_mono) simp
  next
    case went
    from used_trans [OF costs_Inr [OF m went(1)] costs_Inl [OF f [OF went(2)] went(3)]] show ?thesis
      by (rule used_mono) simp
  qed
next
  fix w x w'
  assume "try_bind m h f w = (Inr x, w')"
  then show "used (max (e + n1) (n + n2)) w w'"
  proof (cases rule: try_bindE)
    case failed
    from used_trans [OF costs_Inl [OF m failed(1)] costs_Inr [OF h failed(2)]] show ?thesis by (rule used_mono) simp
  next
    case went
    from used_trans [OF costs_Inr [OF m went(1)] costs_Inr [OF f [OF went(2)] went(3)]] show ?thesis
      by (rule used_mono) simp
  qed
qed

text \<open>An error handler that only fails costs nothing on the way to a value.\<close>

lemma costs_impossible: "(\<And>w. \<exists>err w'. m w = (Inl err, w')) \<Longrightarrow> costs e n m \<Longrightarrow> costs e 0 m"
  by (rule costsI) (metis costs_Inl, metis prod.inject sum.distinct(1))

lemma bindE_returned:
  assumes m: "costs e n m" and f: "\<And>x. returns m x \<Longrightarrow> costs e2 n2 (f x)"
  shows "costs (max e (n + e2)) (n + n2) (bindE m f)"
proof (rule costsI)
  fix w err w'
  assume run: "bindE m f w = (Inl err, w')"
  show "used (max e (n + e2)) w w'"
  proof (cases "m w")
    case (Pair q u)
    show ?thesis
    proof (cases q)
      case (Inl a)
      with run Pair have "m w = (Inl err, w')" by (simp add: bindE_def)
      from costs_Inl [OF m this] show ?thesis by (rule used_mono) simp
    next
      case (Inr x)
      with run Pair have "returns m x" "f x u = (Inl err, w')" by (auto simp: bindE_def returns_def)
      from used_trans [OF costs_Inr [OF m Pair [unfolded Inr]] costs_Inl [OF f [OF this(1)] this(2)]]
      show ?thesis by (rule used_mono) simp
    qed
  qed
next
  fix w y w'
  assume run: "bindE m f w = (Inr y, w')"
  then obtain x u where "m w = (Inr x, u)" "f x u = (Inr y, w')" by (auto simp: bindE_def split: prod.splits sum.splits)
  moreover from this have "returns m x" by (auto simp: returns_def)
  ultimately show "used (n + n2) w w'" using used_trans costs_Inr [OF m] costs_Inr [OF f] by blast
qed

lemma costs_try_bind [cost_rules]:
  "costs e n m \<Longrightarrow> (\<And>err. costs e1 n1 (h err)) \<Longrightarrow> (\<And>x. costs e2 n2 (f x)) \<Longrightarrow>
   costs (max (e + e1) (n + e2)) (max (e + n1) (n + n2)) (try_bind m h f)"
  by (rule costs_try_returned)

lemma costs_bindE [cost_rules]:
  "costs e n m \<Longrightarrow> (\<And>x. costs e2 n2 (f x)) \<Longrightarrow> costs (max e (n + e2)) (n + n2) (bindE m f)"
  by (rule bindE_returned)

lemma costs_map_error [cost_rules]: "costs e n m \<Longrightarrow> costs e n (map_error g m)"
  by (rule costsI) (auto simp: map_error_def split: prod.splits sum.splits dest: costs_Inl costs_Inr)

lemma costs_left: "costs e n m \<Longrightarrow> costs (max e e2) (max n n2) m"
  and costs_right: "costs e2 n2 m \<Longrightarrow> costs (max e e2) (max n n2) m"
  by (erule costs_mono; simp)+

lemma costs_if [cost_rules]:
  "costs e1 n1 m1 \<Longrightarrow> costs e2 n2 m2 \<Longrightarrow> costs (max e1 e2) (max n1 n2) (if b then m1 else m2)"
  by (simp add: costs_left costs_right)

lemma costs_option [cost_rules]:
  "costs e1 n1 m \<Longrightarrow> (\<And>x. costs e2 n2 (f x)) \<Longrightarrow>
   costs (max e1 e2) (max n1 n2) (case r of None \<Rightarrow> m | Some x \<Rightarrow> f x)"
  by (cases r) (simp_all add: costs_left costs_right)

lemma costs_sum [cost_rules]:
  "(\<And>x. costs e1 n1 (g x)) \<Longrightarrow> (\<And>x. costs e2 n2 (f x)) \<Longrightarrow>
   costs (max e1 e2) (max n1 n2) (case r of Inl x \<Rightarrow> g x | Inr x \<Rightarrow> f x)"
  by (cases r) (simp_all add: costs_left costs_right)

lemma costs_nextval [cost_rules]:
  assumes "\<And>k. costs e n (f k)"
  shows "costs e n (tx_nextval f)"
  by (rule costsI) (auto simp: tx_nextval_def dest!: costs_Inl [OF assms] costs_Inr [OF assms])

lemma costs_defer [cost_rules]:
  assumes "costs e n m"
  shows "costs e n (defer_rollback m)" "costs e n (defer_span_end m)"
  by (rule costsI; auto simp: defer_rollback_def defer_span_end_def split: prod.splits
      dest: costs_Inl [OF assms] costs_Inr [OF assms])+

lemma costs_query [cost_rules]: "costs 1 1 (tx_query f)" "costs 1 1 (query q f)"
  unfolding tx_query_def query_def by (rule costs_call) (cases q; simp only: querier.case tx_query_def costs_call)

lemma costs_scan_row [cost_rules]: "costs e n m \<Longrightarrow> costs (max e n) n (scan_row m)"
  unfolding scan_row_def by (rule costs_mono [OF costs_bindE [OF _ costs_option [OF costs_fail costs_return]]]) auto

lemma costs_for_each:
  assumes "\<And>x. costs c c (f x)"
  shows "costs (c * length xs) (c * length xs) (for_each f xs)"
proof (induction xs)
  case (Cons x xs)
  from costs_bindE [OF assms Cons.IH, of x] show ?case by (auto intro: costs_mono)
qed (simp add: costs_return)

declare costs_call [cost_rules]

section \<open>The reservation commands\<close>

lemma load_costs [cost_rules]: "costs 1 1 (loadReservationLines q rid)"
  unfolding loadReservationLines_def by (intro cost_rules)

lemma movement_costs [cost_rules]: "costs 1 1 (insertReservationMovement c a ty dh dr rid reason)"
  unfolding insertReservationMovement_def by (rule costs_mono, (rule cost_rules)+) simp_all

lemma replay_costs [cost_rules]: "costs 2 2 (replayReservation q rid ref hash)"
  unfolding replayReservation_def by (rule costs_mono, (rule cost_rules)+) simp_all

lemma claim_costs [cost_rules]: "costs 1 1 (claimReservation req hash)"
  unfolding claimReservation_def by (rule costs_mono, (rule cost_rules)+) simp_all

lemma classify_costs [cost_rules]: "costs 1 0 (classifyReservationFailure items short)"
proof (rule costsI)
  fix w x w'
  assume "classifyReservationFailure items short w = (Inr x, w')"
  then show "used 0 w w'" by (auto simp: classifyReservationFailure_def Let_def fail_def elim!: try_bindE split: if_splits)
next
  have "costs 1 1 (classifyReservationFailure items short)"
    unfolding classifyReservationFailure_def Let_def by (rule costs_mono, (rule cost_rules)+) simp_all
  then show "used 1 w w'" if "classifyReservationFailure items short w = (Inl err, w')" for w err w'
    using that by (rule costs_Inl)
qed

lemma allocate_costs: "costs 4 3 (allocateReservation items)"
  unfolding allocateReservation_def activeATPSnapshot_def lockWarehouseATP_def Let_def case_prod_beta
  by (rule costs_mono, (rule cost_rules)+) simp_all

lemma bindE_returns: "returns (bindE m f) y \<Longrightarrow> \<exists>x. returns m x \<and> returns (f x) y"
  unfolding returns_def bindE_def by (fastforce split: prod.splits sum.splits)

lemma classify_returns: "\<not> returns (classifyReservationFailure items short) x"
  by (auto simp: returns_def classifyReservationFailure_def Let_def fail_def elim!: try_bindE split: if_splits)

lemma return_returns [simp]: "returns (return x) y \<longleftrightarrow> y = x"
  by (auto simp: returns_def return_def)

lemma allocate_returns: "returns (allocateReservation items) al \<Longrightarrow> length al = length items"
  unfolding allocateReservation_def
  by (auto simp: classify_returns Let_def dest!: bindE_returns split: option.splits if_splits)

lemma apply_costs: "costs (3 * length al) (3 * length al) (applyReserve rid al)"
  unfolding applyReserve_def by (rule costs_for_each, rule costs_mono, (rule cost_rules)+) simp_all

lemma Reserve_costs: "costs (6 + 3 * length (rq_Items req)) (6 + 3 * length (rq_Items req)) (Reserve req)"
proof -
  let ?n = "3 * length (rq_Items req)"
  have placed: "costs (4 + ?n) (4 + ?n) (bindE (allocateReservation (rq_Items req)) (\<lambda>al.
      bindE (applyReserve (rq_ID req) al) (\<lambda>_. bindE (map_error h tx_commit) (\<lambda>_. return (g al)))))" for h g
  proof (rule costs_mono, rule bindE_returned [OF allocate_costs])
    fix al
    assume "returns (allocateReservation (rq_Items req)) al"
    then have "costs ?n ?n (applyReserve (rq_ID req) al)" using apply_costs allocate_returns by metis
    then show "costs (1 + ?n) (1 + ?n)
        (bindE (applyReserve (rq_ID req) al) (\<lambda>_. bindE (map_error h tx_commit) (\<lambda>_. return (g al))))"
      by (rule costs_mono [OF costs_bindE [OF _ costs_bindE [OF costs_map_error [OF costs_call(3)] costs_return]]]) simp_all
  qed simp_all
  show ?thesis
    unfolding Reserve_def Let_def by (rule costs_mono, (rule placed | rule cost_rules)+) simp_all
qed

lemma Get_costs: "costs 2 2 (GetReservation rid)"
  unfolding GetReservation_def by (rule costs_mono, (rule cost_rules)+) simp_all

section \<open>The other repositories\<close>

lemma bindE_laws:
  "bindE (bindE m f) g = bindE m (\<lambda>x. bindE (f x) g)"
  "bindE (return x) f = f x" "bindE (fail err) f = fail err"
  "bindE (if b then m else n) f = (if b then bindE m f else bindE n f)"
  by (auto simp: fun_eq_iff bindE_def return_def fail_def split: prod.split sum.split)

text \<open>A command whose id is taken stops after one more read; only a new one changes the balance and commits.\<close>

lemma run_command_costs:
  assumes "costs 1 1 change"
  shows "costs 4 4 (run_command cmd ty dh dr change)"
  unfolding run_command_def claimCommand_def bindE_laws if_True if_False not_True_eq_False not_False_eq_True
  by (rule costs_mono, (rule assms cost_rules)+) simp_all

lemma command_costs: "costs 4 4 (ReceiveStock cmd)" "costs 4 4 (AdjustOnHand cmd)" "costs 4 4 (SetSafetyStock cmd)"
proof -
  have change: "costs 1 1 (receive_change cmd)" "costs 1 1 (adjust_change cmd)" "costs 1 1 (safety_change cmd)"
    unfolding receive_change_def adjust_change_def safety_change_def
    by (rule costs_mono, (rule cost_rules)+, simp_all)+
  show "costs 4 4 (ReceiveStock cmd)" "costs 4 4 (AdjustOnHand cmd)" "costs 4 4 (SetSafetyStock cmd)"
    unfolding ReceiveStock_def AdjustOnHand_def SetSafetyStock_def
    by (rule costs_mono, (rule run_command_costs change cost_rules)+, simp, simp)+
qed

lemma checked_costs [cost_rules]: "costs 1 1 (pool_query_checked f)"
  unfolding pool_query_checked_def by (rule costs_mono, (rule cost_rules)+) simp_all

lemma reader_costs [cost_rules]:
  "costs 1 1 (BatchATP skus)" "costs 2 2 (ActiveWarehouseBalances skus)" "costs 1 1 (TrackedSKUs skus)"
  unfolding BatchATP_def ActiveWarehouseBalances_def TrackedSKUs_def
  by (rule costs_mono, (rule cost_rules)+, simp_all)+

lemma view_costs:
  "costs 2 2 (ListBalances f limit offset)" "costs 1 1 (SKUBalances sku)"
  "costs 2 2 (ListMovements mf limit offset)" "costs 2 2 (ListReservations st limit offset)"
  unfolding ListBalances_def SKUBalances_def ListMovements_def ListReservations_def listTotal_def list_page_def Let_def
  by (rule costs_mono, (rule cost_rules)+, simp_all)+

section \<open>Release and Commit\<close>

text \<open>
  The loop of \<open>transition\<close> runs over the lines it has read. Up to that read the transaction has written
  nothing, so what it reads is a committed state that the state at the start has evolved to.
\<close>

definition unwritten :: "nat \<Rightarrow> world \<Rightarrow> world \<Rightarrow> bool" where
  "unwritten k w0 w \<longleftrightarrow>
     used k w0 w \<and> evolves (w_db w0) (w_db w) \<and>
     (\<forall>e \<in> set (w_script w). \<forall>d. evolves d (ev_others e d)) \<and>
     (\<forall>t. w_tx w = Some t \<longrightarrow> tx_writes t = [])"

definition seen_lines :: "string \<Rightarrow> world \<Rightarrow> Allocation list \<Rightarrow> bool" where
  "seen_lines rid w0 ls \<longleftrightarrow> ls = [] \<or> (\<exists>d. evolves (w_db w0) d \<and> ls = select_lines rid d)"

definition closed_within :: "string \<Rightarrow> world \<Rightarrow> world \<Rightarrow> bool" where
  "closed_within rid w0 w \<longleftrightarrow> (\<exists>ls. seen_lines rid w0 ls \<and> used (5 + 2 * length ls) w0 w)"

lemma unwritten_event:
  assumes "unwritten k w0 w" "next_event w = (fault, w1)"
  shows "unwritten (Suc k) w0 w1"
proof -
  have "used k w0 w" using assms(1) by (simp add: unwritten_def)
  from used_trans [OF this used_event [OF assms(2)]] have "used (Suc k) w0 w1" by simp
  moreover have "evolves (w_db w0) (w_db w1) \<and> (\<forall>e \<in> set (w_script w1). \<forall>d. evolves d (ev_others e d)) \<and> w_tx w1 = w_tx w"
    using assms by (cases "w_script w") (auto simp: unwritten_def next_event_def interfere_def intro: rtranclp_trans)
  ultimately show ?thesis using assms(1) by (simp add: unwritten_def)
qed

lemma unwritten_world [simp]:
  "unwritten k w0 (abort_tx w) = unwritten k w0 w" "unwritten k w0 (w\<lparr>w_locked := ks\<rparr>) = unwritten k w0 w"
  "unwritten k w0 (w\<lparr>w_tx := Some t\<rparr>) \<longleftrightarrow> unwritten k w0 (w\<lparr>w_tx := None\<rparr>) \<and> tx_writes t = []"
  by (auto simp: unwritten_def abort_tx_def)

lemma unwritten_close: "unwritten k w0 w \<Longrightarrow> unwritten k w0 (w\<lparr>w_tx := None\<rparr>)"
  by (simp add: unwritten_def)

lemma unwritten_begin: "triple (unwritten k w0) pool_begin (\<lambda>_. unwritten (Suc k) w0) (\<lambda>_. unwritten (Suc k) w0)"
  using unwritten_event [of k w0] unwritten_close [of "Suc k" w0]
  by (auto simp: triple_def pool_begin_def split: prod.split fault.split)

lemma unwritten_stmt:
  assumes "\<And>d now x ws ls. f d now = Inr (x, ws, ls) \<Longrightarrow> ws = [] \<and> R d x"
  shows "triple (unwritten k w0) (tx_stmt f)
    (\<lambda>x w. unwritten (Suc k) w0 w \<and> (\<exists>d. evolves (w_db w0) d \<and> R d x)) (\<lambda>_. unwritten (Suc k) w0)"
proof (rule tripleI)
  fix w err w'
  assume P: "unwritten k w0 w" and run: "tx_stmt f w = (Inl err, w')"
  obtain fault w1 where ev: "next_event w = (fault, w1)" by fastforce
  from unwritten_event [OF P ev] run ev show "unwritten (Suc k) w0 w'"
    by (auto simp: tx_stmt_def split: fault.splits option.splits sum.splits if_splits)
next
  fix w x w'
  assume P: "unwritten k w0 w" and run: "tx_stmt f w = (Inr x, w')"
  obtain fault w1 where ev: "next_event w = (fault, w1)" by fastforce
  note o1 = unwritten_event [OF P ev]
  from run ev obtain t ws ls ks where t: "w_tx w1 = Some t" "f (tx_view (w_db w1) t) (tx_now t) = Inr (x, ws, ls)"
    "w' = w1\<lparr>w_tx := Some (t\<lparr>tx_writes := tx_writes t @ ws, tx_locks := tx_locks t @ ls\<rparr>), w_locked := ks\<rparr>"
    by (auto simp: tx_stmt_def split: fault.splits option.splits sum.splits if_splits)
  have w: "tx_writes t = []" "evolves (w_db w0) (w_db w1)" using o1 t(1) by (simp_all add: unwritten_def)
  then have "tx_view (w_db w1) t = w_db w1" by (simp add: tx_view_def)
  with assms [of "w_db w1" "tx_now t" x ws ls] t w o1
  show "unwritten (Suc k) w0 w' \<and> (\<exists>d. evolves (w_db w0) d \<and> R d x)" by (auto intro: unwritten_close)
qed

lemma triple_costs: "costs e n m \<Longrightarrow> triple (used k w0) m (\<lambda>_. used (k + n) w0) (\<lambda>_. used (k + e) w0)"
  by (rule tripleI) (blast intro: used_trans dest: costs_Inl costs_Inr)+

lemma closed_withinI: "seen_lines rid w0 ls \<Longrightarrow> used k w0 w \<Longrightarrow> k \<le> 5 + 2 * length ls \<Longrightarrow> closed_within rid w0 w"
  unfolding closed_within_def by (blast intro: used_mono)

lemma closed_early: "unwritten k w0 w \<Longrightarrow> k \<le> 5 \<Longrightarrow> closed_within rid w0 w"
  by (rule closed_withinI [of rid w0 "[]"]) (simp_all add: unwritten_def seen_lines_def)

lemma closed_rollback [simp]: "closed_within rid w0 (tx_rollback w) = closed_within rid w0 w"
  by (simp add: closed_within_def)

lemma triple_sum:
  "(\<And>a. triple P (f a) Q E) \<Longrightarrow> (\<And>b. triple P (g b) Q E) \<Longrightarrow>
   triple P (case r of Inl a \<Rightarrow> f a | Inr b \<Rightarrow> g b) Q E"
  by (cases r) simp_all

lemma triple_if: "triple P m Q E \<Longrightarrow> triple P n Q E \<Longrightarrow> triple P (if b then m else n) Q E"
  by simp

lemma transition_calls:
  assumes line: "\<And>a. costs 2 2 (applyLine a)"
  shows "triple (unwritten 0 w0) (transition rid tgt decide applyLine)
    (\<lambda>_. closed_within rid w0) (\<lambda>_. closed_within rid w0)"
proof -
  let ?E = "\<lambda>_. closed_within rid w0"
  let ?loaded = "\<lambda>lines w. unwritten 3 w0 w \<and> (\<exists>d. evolves (w_db w0) d \<and> lines = select_lines rid d)"
  have header: "triple (unwritten 1 w0)
      (try_bind (scan_row (tx_stmt (select_status_for_update rid)))
         (\<lambda>err. if \<not> errors_Is err ErrNoRows then fail (g err) else return '''') return)
      (\<lambda>_. unwritten 2 w0) ?E" for g
  proof (rule triple_try_bind)
    have "triple (unwritten 1 w0) (tx_stmt (select_status_for_update rid)) (\<lambda>_. unwritten 2 w0) (\<lambda>_. unwritten 2 w0)"
      by (rule triple_weaken [OF unwritten_stmt [where R = "\<lambda>_ _. True"]])
         (auto simp: select_status_for_update_def numeral_2_eq_2 split: option.splits)
    then show "triple (unwritten 1 w0) (scan_row (tx_stmt (select_status_for_update rid)))
        (\<lambda>_. unwritten 2 w0) (\<lambda>_. unwritten 2 w0)"
      unfolding scan_row_def by (rule triple_bindE) (auto intro: triple_return triple_fail split: option.split)
  qed (auto intro!: triple_return triple_fail intro: closed_early)
  have load: "triple (unwritten 2 w0) (loadReservationLines QTx rid) ?loaded ?E"
    unfolding loadReservationLines_def query_def querier.case tx_query_def
    by (rule triple_map_error, rule triple_weaken [OF unwritten_stmt [where R = "\<lambda>d x. x = select_lines rid d"]])
       (auto intro: closed_early simp: numeral_3_eq_3 numeral_2_eq_2)
  have tail: "triple (?loaded lines)
      (bindE (for_each applyLine lines) (\<lambda>_. bindE (map_error h1 (tx_stmt (update_status rid tgt)))
         (\<lambda>_. bindE (map_error h2 tx_commit) (\<lambda>_. return tgt)))) ?E ?E" (is "triple _ ?m _ _") for lines h1 h2
  proof (rule triple_assume)
    fix w
    assume "?loaded lines w"
    then show "seen_lines rid w0 lines" by (auto simp: seen_lines_def)
  next
    assume seen: "seen_lines rid w0 lines"
    have "costs (2 + 2 * length lines) (2 + 2 * length lines) ?m"
      by (rule costs_mono, (rule costs_for_each line cost_rules)+) simp_all
    from triple_costs [OF this, of 3 w0] show "triple (?loaded lines) ?m ?E ?E"
      by (rule triple_weaken) (auto simp: unwritten_def intro: closed_withinI [OF seen])
  qed
  have begun: "triple (unwritten 0 w0) pool_begin (\<lambda>_. unwritten 1 w0) ?E"
    by (rule triple_weaken [OF unwritten_begin]) (auto intro: closed_early)
  show ?thesis
    unfolding transition_def
    by (rule triple_bindE [OF triple_map_error [OF begun]], rule triple_defer_rollback, unfold closed_rollback,
        rule triple_bindE [OF header], intro triple_sum triple_if triple_bindE [OF load] tail)
       (auto intro!: triple_return triple_fail intro: closed_early)
qed

lemma line_costs: "costs 2 2 (release_line rid reason a)" "costs 2 2 (commit_line rid a)"
  unfolding release_line_def commit_line_def by (rule costs_mono, (rule cost_rules)+, simp_all)+

text \<open>The lines of a reservation that was there at the start do not change.\<close>

lemma seen_bound:
  assumes c: "concurrent w" and cl: "closed_within rid w w'"
  obtains d where "evolves (w_db w) d" "status_of (w_db w) rid \<noteq> None \<longrightarrow> lines_of rid d = lines_of rid (w_db w)"
    "used (5 + 2 * length (lines_of rid d)) w w'"
proof -
  from cl obtain ls where ls: "seen_lines rid w ls" "used (5 + 2 * length ls) w w'" by (auto simp: closed_within_def)
  have r: "reachable (w_db w)" using c by (simp add: concurrent_def)
  obtain d where d: "evolves (w_db w) d" "length ls \<le> length (lines_of rid d)"
    using ls(1) that [of "w_db w"] that by (cases "ls = []") (auto simp: seen_lines_def select_lines_def)
  have "lines_of rid d = lines_of rid (w_db w)" if "status_of (w_db w) rid \<noteq> None"
    using that db_guarD(5) [OF reachable_guar [OF r d(1)]] by (auto simp: status_of_def)
  moreover have "used (5 + 2 * length (lines_of rid d)) w w'" by (rule used_mono [OF ls(2)]) (use d(2) in simp)
  ultimately show thesis using that d(1) by blast
qed

lemma concurrent_unwritten: "concurrent w \<Longrightarrow> unwritten 0 w w"
  by (simp add: concurrent_def unwritten_def used_refl)

lemma close_calls:
  assumes "concurrent w"
  shows "closed_within rid w (snd (Release rid reason w))" "closed_within rid w (snd (Commit rid w))"
  unfolding Release_def Commit_def
  by (rule triple_snd [OF transition_calls concurrent_unwritten [OF assms]], rule line_costs)+

end
