(* ===== verification/Call_Termination.thy ===== *)
theory Call_Termination
  imports Call_Bounds Admin_Contract Sample_Runs
begin

text \<open>
  Every request comes back: the bounds of \<open>Call_Bounds\<close> carried through the logic and both transports,
  together with the fact that whatever happens the transaction of a call is over when it returns.
\<close>

section \<open>No transaction is left open\<close>

definition idle_client :: "world \<Rightarrow> bool" where
  "idle_client w \<longleftrightarrow> w_tx w = None"

definition ends :: "'a prog \<Rightarrow> bool" where
  "ends m \<longleftrightarrow> triple idle_client m (\<lambda>_. idle_client) (\<lambda>_. idle_client)"

named_theorems ends_rules \<open>one rule per construct: no transaction is left open\<close>

lemma ends_silent [ends_rules]: "ends (return x)" "ends (fail err)" "ends (emit t)"
  by (simp_all add: ends_def triple_def idle_client_def return_def fail_def emit_def)

lemma next_event_tx: "next_event w = (fault, w1) \<Longrightarrow> w_tx w1 = w_tx w"
  by (cases "w_script w") (auto simp: next_event_def)

lemma ends_pool_query [ends_rules]: "ends (pool_query f)" "ends (query QPool f)"
  by (auto simp: ends_def triple_def idle_client_def query_def pool_query_def dest: next_event_tx
      split: prod.split fault.split)

lemma ends_compose [ends_rules]:
  "ends m \<Longrightarrow> (\<And>err. ends (h err)) \<Longrightarrow> (\<And>x. ends (f x)) \<Longrightarrow> ends (try_bind m h f)"
  "ends m \<Longrightarrow> (\<And>x. ends (f x)) \<Longrightarrow> ends (bindE m f)"
  "ends m \<Longrightarrow> ends (map_error g m)"
  unfolding ends_def by (blast intro: triple_try_bind triple_bindE triple_map_error)+

lemma ends_defer_span [ends_rules]: "ends m \<Longrightarrow> ends (defer_span_end m)"
  unfolding ends_def by (rule tripleI)
    (auto simp: defer_span_end_def idle_client_def split: prod.splits dest: triple_Inl triple_Inr)

lemma ends_cases [ends_rules]:
  "ends m \<Longrightarrow> ends n \<Longrightarrow> ends (if b then m else n)"
  "ends m \<Longrightarrow> (\<And>x. ends (f x)) \<Longrightarrow> ends (case r of None \<Rightarrow> m | Some x \<Rightarrow> f x)"
  "(\<And>x. ends (g x)) \<Longrightarrow> (\<And>y. ends (k y)) \<Longrightarrow> ends (case q of Inl x \<Rightarrow> g x | Inr y \<Rightarrow> k y)"
  by (simp_all split: option.split sum.split)

lemma ends_transaction [ends_rules]: "ends (bindE (map_error h pool_begin) (\<lambda>_. defer_rollback m))"
  unfolding ends_def
proof (rule triple_bindE, rule triple_map_error)
  show "triple idle_client pool_begin (\<lambda>_ _. True) (\<lambda>_. idle_client)"
    by (auto simp: triple_def pool_begin_def idle_client_def dest: next_event_tx split: prod.split fault.split)
  show "triple (\<lambda>_. True) (defer_rollback m) (\<lambda>_. idle_client) (\<lambda>_. idle_client)"
    by (simp add: triple_def defer_rollback_def tx_rollback_def idle_client_def split: prod.split sum.split)
qed

lemma repository_ends [ends_rules]:
  "ends (Reserve req)" "ends (Release rid reason)" "ends (Commit rid)" "ends (GetReservation rid)"
  "ends (ReceiveStock cmd)" "ends (AdjustOnHand cmd)" "ends (SetSafetyStock cmd)"
  unfolding Reserve_def Release_def Commit_def transition_def GetReservation_def scan_row_def
    loadReservationLines_def ReceiveStock_def AdjustOnHand_def SetSafetyStock_def run_command_def Let_def
  by (intro ends_rules)+

lemma reader_ends [ends_rules]:
  "ends (BatchATP skus)" "ends (ActiveWarehouseBalances skus)" "ends (TrackedSKUs skus)"
  "ends (ListBalances f limit offset)" "ends (SKUBalances sku)" "ends (ListMovements mf limit offset)"
  "ends (ListReservations st limit offset)"
  unfolding BatchATP_def ActiveWarehouseBalances_def TrackedSKUs_def ListBalances_def SKUBalances_def
    ListMovements_def ListReservations_def listTotal_def list_page_def pool_query_checked_def Let_def
  by (intro ends_rules)+

section \<open>Through the logic and the transports\<close>

text \<open>What a caller sees of a call that came back: its database calls were bounded and its transaction is over.\<close>

definition returned :: "nat \<Rightarrow> world \<Rightarrow> world \<Rightarrow> bool" where
  "returned n w w' \<longleftrightarrow> w_tx w' = None \<and> (\<exists>j \<le> n. w_script w' = drop j (w_script w))"

lemma returned_used: "returned n w w' \<longleftrightarrow> w_tx w' = None \<and> used n w w'"
  by (simp add: returned_def used_def)

lemma returned_trace [simp]:
  "returned n (w\<lparr>w_trace := t\<rparr>) v = returned n w v" "returned n w (v\<lparr>w_trace := t\<rparr>) = returned n w v"
  by (simp_all add: returned_used)

lemma returned_refl: "w_tx w = None \<Longrightarrow> returned n w w"
  by (simp add: returned_used used_refl)

lemma returned_prog: "costs n n m \<Longrightarrow> ends m \<Longrightarrow> w_tx w = None \<Longrightarrow> returned n w (snd (m w))"
  using triple_snd [of idle_client m idle_client w]
  by (simp add: returned_used ends_def idle_client_def costs_def split: sum.splits)

lemma telemetry_costs [cost_rules]:
  "costs 0 0 (recordSpanError ctx operation err)" "costs 0 0 (recordCheck ctx outcome)"
  "costs 0 0 (setSpanOutcome ctx outcome)"
  and telemetry_ends [ends_rules]:
  "ends (recordSpanError ctx operation err)" "ends (recordCheck ctx outcome)" "ends (setSpanOutcome ctx outcome)"
proof -
  show "costs 0 0 (recordSpanError ctx operation err)" "costs 0 0 (recordCheck ctx outcome)"
    "costs 0 0 (setSpanOutcome ctx outcome)"
    unfolding recordSpanError_def recordBoundedSpanError_def recordCheck_def setSpanOutcome_def
    by (rule costs_mono, (rule cost_rules)+, simp, simp)+
  show "ends (recordSpanError ctx operation err)" "ends (recordCheck ctx outcome)" "ends (setSpanOutcome ctx outcome)"
    unfolding recordSpanError_def recordBoundedSpanError_def recordCheck_def setSpanOutcome_def
    by (intro ends_rules)+
qed

lemma availability_returns:
  assumes "w_tx w = None"
  shows "returned 2 w (snd (BatchGetAvailability availability_repository ctx skus w))"
    "returned 3 w (snd (CheckAvailability availability_repository ctx items w))"
proof -
  show "returned 2 w (snd (BatchGetAvailability availability_repository ctx skus w))"
    unfolding BatchGetAvailability_def batch_failed_def lookup_tracked_def with_span_def startLogicSpan_def
      availability_repository_def AvailabilityReader.simps
    by (rule returned_prog [OF _ _ assms], rule costs_mono, (rule cost_rules)+, simp, simp, intro ends_rules)
  show "returned 3 w (snd (CheckAvailability availability_repository ctx items w))"
    unfolding CheckAvailability_def check_shortfall_def check_failed_def lookup_tracked_def with_span_def
      startLogicSpan_def availability_repository_def AvailabilityReader.simps Let_def case_prod_beta
    by (rule returned_prog [OF _ _ assms], rule costs_mono, (rule cost_rules)+, simp, simp, intro ends_rules)
qed

lemma length_AggregateLines: "length (AggregateLines items) \<le> length items"
proof -
  have "length (AggregateLines items) = length (first_seen (map ln_SKUID items))"
    by (metis AggregateLines_SKUIDs length_map)
  also have "\<dots> = card (set (map ln_SKUID items))" by (simp add: first_seen_def length_remdups_card_conv)
  also have "\<dots> \<le> length items" using card_length [of "map ln_SKUID items"] by simp
  finally show ?thesis .
qed

text \<open>The operations that make one call of the store among telemetry.\<close>

lemma service_lift:
  assumes run: "m (w\<lparr>w_trace := t\<rparr>) = (q, u)" "srv w = (q', u\<lparr>w_trace := t'\<rparr>)"
    and m: "\<And>t. R (w\<lparr>w_trace := t\<rparr>) (snd (m (w\<lparr>w_trace := t\<rparr>)))"
    and tr: "\<And>v s s'. R (w\<lparr>w_trace := s\<rparr>) (v\<lparr>w_trace := s'\<rparr>) = R w v"
  shows "R w (snd (srv w))"
  using m [of t] run tr [where s = t and v = u and s' = "w_trace u"] tr [where s = "w_trace w" and v = u and s' = t'] by simp

lemma store_returns:
  assumes "w_tx w = None"
  shows "returned (6 + 3 * length (rq_Items req)) w (snd (Reserve req w))" "returned 2 w (snd (GetReservation rid w))"
    "returned 4 w (snd (ReceiveStock cmd w))" "returned 4 w (snd (AdjustOnHand cmd w))"
  by (rule returned_prog [OF _ _ assms], rule Reserve_costs Get_costs command_costs, rule ends_rules)+

definition closed_returned :: "string \<Rightarrow> world \<Rightarrow> world \<Rightarrow> bool" where
  "closed_returned rid w w' \<longleftrightarrow> w_tx w' = None \<and> closed_within rid w w'"

lemma closed_trace [simp]:
  "closed_returned rid (w\<lparr>w_trace := t\<rparr>) v = closed_returned rid w v"
  "closed_returned rid w (v\<lparr>w_trace := t\<rparr>) = closed_returned rid w v"
  by (simp_all add: closed_returned_def closed_within_def seen_lines_def)

lemma close_returns:
  assumes "concurrent w"
  shows "closed_returned rid w (snd (Release rid reason w))" "closed_returned rid w (snd (Commit rid w))"
proof -
  have "idle_client w" using assms by (simp add: concurrent_def idle_client_def)
  then have "ends m \<Longrightarrow> w_tx (snd (m w)) = None" for m :: "string prog"
    using triple_snd [of idle_client m idle_client w] by (simp add: ends_def idle_client_def)
  then show "closed_returned rid w (snd (Release rid reason w))" "closed_returned rid w (snd (Commit rid w))"
    using close_calls [OF assms] by (simp_all add: closed_returned_def repository_ends)
qed

lemma service_returns:
  assumes "concurrent w"
  shows "returned (6 + 3 * length (rq_Items req)) w (snd (service_Reserve reservation_repository ctx req w))"
    "closed_returned rid w (snd (service_Release reservation_repository ctx rid reason w))"
    "closed_returned rid w (snd (service_Commit reservation_repository ctx rid w))"
    "returned 2 w (snd (service_GetReservation reservation_repository ctx rid w))"
proof -
  have store: "st_Reserve reservation_repository = Reserve" "st_Release reservation_repository = Release"
    "st_Commit reservation_repository = Commit" "st_GetReservation reservation_repository = GetReservation"
    by (simp_all add: reservation_repository_def)
  have tx: "w_tx (w\<lparr>w_trace := t\<rparr>) = None" "concurrent (w\<lparr>w_trace := t\<rparr>)" for t
    using assms by (simp_all add: concurrent_def)
  let ?agg = "req\<lparr>rq_Items := AggregateLines (rq_Items req)\<rparr>"
  have "returned (6 + 3 * length (rq_Items ?agg)) w (snd (service_Reserve reservation_repository ctx req w))"
    by (rule service_Reserve_run [of reservation_repository req w ctx], unfold store, erule (1) service_lift)
       (rule store_returns [OF tx(1)], simp)
  then show "returned (6 + 3 * length (rq_Items req)) w (snd (service_Reserve reservation_repository ctx req w))"
    using length_AggregateLines [of "rq_Items req"] by (auto simp: returned_used elim: used_mono)
  show "closed_returned rid w (snd (service_Release reservation_repository ctx rid reason w))"
    by (rule service_Release_run [of reservation_repository rid reason w ctx], unfold store, erule (1) service_lift)
       (rule close_returns [OF tx(2)], simp)
  show "closed_returned rid w (snd (service_Commit reservation_repository ctx rid w))"
    by (rule service_Commit_run [of reservation_repository rid w ctx], unfold store, erule (1) service_lift)
       (rule close_returns [OF tx(2)], simp)
  have quietly: "trace_only (if b then (let out = failureOutcome err in seq (setSpanOutcome ctx out)
      (if out = outcomeError then recordBoundedSpanError ctx opGetReservation else skip)) else skip)" for b err
    unfolding Let_def setSpanOutcome_def recordBoundedSpanError_def by (intro trace_only_rules)
  have answered: "trace_only (setSpanOutcome ctx outcomeOK)" unfolding setSpanOutcome_def by (rule trace_only_rules)
  show "returned 2 w (snd (service_GetReservation reservation_repository ctx rid w))"
    unfolding service_GetReservation_def store
    by (rule service_run [OF quietly answered], erule (1) service_lift) (rule store_returns [OF tx(1)], simp)
qed

section \<open>RPCs\<close>

lemma rpc_lift:
  assumes "\<And>err u. \<exists>t. snd (h err u) = u\<lparr>w_trace := t\<rparr>" "\<And>x u. snd (f x u) = u"
    and "\<And>t. R (snd (m w)\<lparr>w_trace := t\<rparr>) = R (snd (m w))"
    and "R (snd (m w))"
  shows "R (snd (rpc_bind m h f w))"
  using assms(1) [of _ "snd (m w)"] assms(2-4)
  by (auto simp: rpc_bind_def split: prod.split sum.split) metis

lemma error_world:
  "\<exists>t. snd (failClosed ctx rpc err u) = u\<lparr>w_trace := t\<rparr>" "\<exists>t. snd (reservationError ctx rpc err u) = u\<lparr>w_trace := t\<rparr>"
proof -
  show f: "\<exists>t. snd (failClosed ctx rpc err u) = u\<lparr>w_trace := t\<rparr>" for rpc
    by (auto simp: failClosed_def reject_def rpc_log_def intro: exI [of _ "w_trace u"])
  show "\<exists>t. snd (reservationError ctx rpc err u) = u\<lparr>w_trace := t\<rparr>"
    using f by (auto simp: reservationError_def reject_def intro: exI [of _ "w_trace u"])
qed

lemma wired_sel:
  "sv_reservations wired_server = reservation_service reservation_repository"
  "sv_availability wired_server = availability_service availability_repository"
  by (simp_all add: wired_server_def)

lemma reject_returns: "w_tx w = None \<Longrightarrow> returned n w (snd (reject st w))"
  by (simp add: reject_def returned_refl)

lemmas rpc_returns = rpc_lift [OF error_world(1), where R = "returned n w" for n w]
  rpc_lift [OF error_world(2), where R = "returned n w" for n w]
  rpc_lift [OF error_world(2), where R = "closed_returned rid w" for rid w]

lemma respond_world: "snd (respond x u) = u"
  by (simp add: respond_def)

lemma Server_Reserve_returns:
  assumes "concurrent w"
  shows "returned (6 + 3 * min (length (pq_Items p)) maxCheckItems) w (snd (Server_Reserve wired_server ctx p w))"
proof (cases "decode_reserve p")
  case (Inl st)
  with assms show ?thesis by (simp add: Server_Reserve_def reject_returns concurrent_def)
next
  case (Inr r)
  have n: "min (length (pq_Items p)) maxCheckItems = length (rq_Items r)"
    using decode_reserve_ok(5,6) [OF Inr] by simp
  show ?thesis
    unfolding Server_Reserve_def Inr sum.case n wired_sel reservation_service_def Reservations.simps
    by (rule rpc_returns(2), rule respond_world, simp, rule service_returns(1) [OF assms])
qed

lemma Server_reads_return:
  assumes "concurrent w"
  shows "returned 2 w (snd (Server_GetReservation wired_server ctx rid w))"
    "returned 2 w (snd (Server_BatchGetAvailability wired_server ctx skus w))"
    "returned 3 w (snd (Server_CheckAvailability wired_server ctx items w))"
proof -
  have tx: "w_tx w = None" using assms by (simp add: concurrent_def)
  show "returned 2 w (snd (Server_GetReservation wired_server ctx rid w))"
    unfolding Server_GetReservation_def wired_sel reservation_service_def Reservations.simps
    by (simp add: reject_returns tx) (intro impI rpc_returns(2) respond_world service_returns(4) assms; simp)
  show "returned 2 w (snd (Server_BatchGetAvailability wired_server ctx skus w))"
    unfolding Server_BatchGetAvailability_def wired_sel availability_service_def Availability.simps
    by (simp add: reject_returns tx) (intro impI rpc_returns(1) respond_world availability_returns tx; simp)
  show "returned 3 w (snd (Server_CheckAvailability wired_server ctx items w))"
    unfolding Server_CheckAvailability_def wired_sel availability_service_def Availability.simps
    by (simp add: reject_returns tx split: sum.split)
       (intro impI allI rpc_returns(1) respond_world availability_returns tx; simp)
qed

lemma Server_closes_return:
  assumes "concurrent w"
  shows "closed_returned rid w (snd (Server_Release wired_server ctx rid reason w))"
    "closed_returned rid w (snd (Server_Commit wired_server ctx rid w))"
proof -
  have "w_tx w = None" using assms by (simp add: concurrent_def)
  then have rejected: "closed_returned rid w (snd (reject st w))" for st
    using closed_early [OF concurrent_unwritten [OF assms]] by (simp add: closed_returned_def reject_def)
  show "closed_returned rid w (snd (Server_Release wired_server ctx rid reason w))"
    unfolding Server_Release_def wired_sel reservation_service_def Reservations.simps
    by (simp add: rejected)
       (intro impI rpc_returns(3) respond_world service_returns(2) assms; simp)
  show "closed_returned rid w (snd (Server_Commit wired_server ctx rid w))"
    unfolding Server_Commit_def wired_sel reservation_service_def Reservations.simps
    by (simp add: rejected)
       (intro impI rpc_returns(3) respond_world service_returns(3) assms; simp)
qed

lemma closed_bound:
  assumes "concurrent w" "closed_returned rid w w'"
  shows "\<exists>d. evolves (w_db w) d \<and> (status_of (w_db w) rid \<noteq> None \<longrightarrow> lines_of rid d = lines_of rid (w_db w)) \<and>
    returned (5 + 2 * length (lines_of rid d)) w w'"
  using assms(2) seen_bound [OF assms(1), of rid w'] unfolding closed_returned_def returned_used by metis

section \<open>HTTP\<close>

lemma admin_returns:
  assumes tx: "w_tx w = None"
  shows "returned 2 w (snd (admin_ListBalances wired_admin ctx f limit offset w))"
    "returned 1 w (snd (admin_SKUBalances wired_admin ctx sku w))"
    "returned 2 w (snd (admin_ListMovements wired_admin ctx mf limit offset w))"
    "returned 2 w (snd (admin_ListReservations wired_admin ctx st limit offset w))"
    "returned 4 w (snd (admin_ReceiveStock wired_admin ctx cmd w))"
    "returned 4 w (snd (admin_AdjustOnHand wired_admin ctx cmd w))"
proof -
  have read: "returned n w (snd (traced_read ctx operation pre m w))" if "costs n n m" "ends m"
    for n operation pre and m :: "'a prog"
    by (rule traced_read_run [of m w ctx operation pre], erule (1) service_lift)
       (rule returned_prog [OF that], simp_all add: tx)
  show "returned 2 w (snd (admin_ListBalances wired_admin ctx f limit offset w))"
    "returned 1 w (snd (admin_SKUBalances wired_admin ctx sku w))"
    "returned 2 w (snd (admin_ListMovements wired_admin ctx mf limit offset w))"
    "returned 2 w (snd (admin_ListReservations wired_admin ctx st limit offset w))"
    unfolding admin_ListBalances_def admin_SKUBalances_def admin_ListMovements_def admin_ListReservations_def
      wired_admin_sel admin_repository_def AdminReader.simps
    by (rule read, rule view_costs, rule reader_ends)+
  have command: "returned 4 w (snd (runCommand ctx operation cmd run w))" if "costs 4 4 (run cmd)" "ends (run cmd)"
    for operation run
  proof (cases "Validate cmd")
    case None
    show ?thesis
      by (rule runCommand_run [OF None, of run w ctx operation], erule (1) service_lift)
         (rule returned_prog [OF that], simp_all add: tx)
  next
    case (Some err)
    show ?thesis by (rule runCommand_invalid [OF Some, of ctx operation run w]) (simp add: returned_refl tx)
  qed
  show "returned 4 w (snd (admin_ReceiveStock wired_admin ctx cmd w))"
    "returned 4 w (snd (admin_AdjustOnHand wired_admin ctx cmd w))"
    unfolding admin_ReceiveStock_def admin_AdjustOnHand_def wired_admin_sel stock_repository_def StockCommander.simps
    by (rule command, rule command_costs, rule repository_ends)+
qed

lemma respond_with_world: "snd (respond_with hx m k w) = snd (m w)"
  by (simp add: respond_with_def split: prod.split sum.split)

lemma handler_returns:
  assumes "w_tx w = None" "g \<in> set (handlers hx (logic_of wired_admin))"
  shows "returned 4 w (snd (g c w))"
proof -
  have "returned 2 w v \<Longrightarrow> returned 4 w v" "returned 1 w v \<Longrightarrow> returned 4 w v" for v
    by (auto simp: returned_used elim: used_mono)
  note most = this(1) [OF admin_returns(1)] this(2) [OF admin_returns(2)] this(1) [OF admin_returns(3)]
    this(1) [OF admin_returns(4)] admin_returns(5,6)
  note idle = returned_refl [OF assms(1)]
  let ?lg = "logic_of wired_admin"
  have lists: "returned 4 w (snd (handle_ListBalances hx ?lg c w))" "returned 4 w (snd (handle_ListMovements hx ?lg c w))"
    "returned 4 w (snd (handle_ListReservations hx ?lg c w))"
    unfolding handle_ListBalances_def handle_ListMovements_def handle_ListReservations_def
    by (simp_all add: Let_def case_prod_beta respond_with_world most [OF assms(1)] idle split: sum.split)
  have sku: "returned 4 w (snd (handle_SKUBalances hx ?lg c w))"
    by (simp add: handle_SKUBalances_def respond_with_world most [OF assms(1)])
  have commands: "returned 4 w (snd (handle_ReceiveStock hx ?lg c w))" "returned 4 w (snd (handle_AdjustOnHand hx ?lg c w))"
    unfolding handle_ReceiveStock_def handle_AdjustOnHand_def
    by (simp_all add: respond_with_world most [OF assms(1)] idle split: sum.split option.split)
  from assms(2) lists sku commands show ?thesis unfolding handlers_def by auto
qed

section \<open>The property\<close>

text \<open>
  C30. Every request comes back. Whatever runs concurrently and whatever the driver answers, an RPC or
  a Backoffice request ends after a bounded number of database calls and leaves no transaction open: at
  most six and three per line for \<open>Reserve\<close>, of which it accepts a hundred; five and two per line of the
  reservation for \<open>Release\<close> and \<open>Commit\<close>, the lines being those at the start if the reservation was there
  then; two or three for the reads; and four for a stock command.
\<close>

theorem calls_return:
  assumes "concurrent w"
  shows "returned (6 + 3 * min (length (pq_Items req)) maxCheckItems) w (snd (Server_Reserve wired_server ctx req w)) \<and>
    (\<exists>d. evolves (w_db w) d \<and> (status_of (w_db w) rid \<noteq> None \<longrightarrow> lines_of rid d = lines_of rid (w_db w)) \<and>
      returned (5 + 2 * length (lines_of rid d)) w (snd (Server_Release wired_server ctx rid reason w))) \<and>
    (\<exists>d. evolves (w_db w) d \<and> (status_of (w_db w) rid \<noteq> None \<longrightarrow> lines_of rid d = lines_of rid (w_db w)) \<and>
      returned (5 + 2 * length (lines_of rid d)) w (snd (Server_Commit wired_server ctx rid w))) \<and>
    returned 2 w (snd (Server_GetReservation wired_server ctx rid w)) \<and>
    returned 2 w (snd (Server_BatchGetAvailability wired_server ctx skus w)) \<and>
    returned 3 w (snd (Server_CheckAvailability wired_server ctx items w)) \<and>
    (\<forall>(meth, path, h) \<in> set (RegisterRoutes hx (logic_of wired_admin) jwt require). returned 4 w (snd (h c w)))"
proof (intro conjI Server_Reserve_returns closed_bound Server_closes_return Server_reads_return assms)
  have "w_tx w = None" using assms by (simp add: concurrent_def)
  then have "returned 4 w (snd (h c w))" if "(meth, path, h) \<in> set (RegisterRoutes hx (logic_of wired_admin) jwt require)"
    for meth path h
    using that by (rule_tac registered_route [OF that])
      (auto simp: run_protected handler_returns returned_refl split: sum.split)
  then show "\<forall>(meth, path, h) \<in> set (RegisterRoutes hx (logic_of wired_admin) jwt require). returned 4 w (snd (h c w))"
    by auto
qed

text \<open>Closing the sample reservation, which has one line, takes at most seven calls.\<close>

theorem calls_return_witness:
  "returned 7 sample_reserved (snd (Server_Commit wired_server \<lparr>ctx_recording = True\<rparr> ''r1'' sample_reserved)) \<and>
   returned 9 sample_reserved (snd (Server_Reserve wired_server \<lparr>ctx_recording = True\<rparr>
     \<lparr>pq_ReservationId = ''r2'', pq_OrderId = ''o2'', pq_Items = [\<lparr>pi_SkuId = ''A'', pi_Quantity = 1\<rparr>],
      pq_DestinationRegion = '''', pq_ExpiresAt = '''', pq_RequestHash = ''''\<rparr> sample_reserved))"
proof -
  note all = calls_return [OF sample_concurrent(3)]
  from all obtain d where d: "status_of (w_db sample_reserved) ''r1'' \<noteq> None \<longrightarrow>
      lines_of ''r1'' d = lines_of ''r1'' (w_db sample_reserved)"
    "returned (5 + 2 * length (lines_of ''r1'' d)) sample_reserved
      (snd (Server_Commit wired_server \<lparr>ctx_recording = True\<rparr> ''r1'' sample_reserved))" by blast
  from d(1) have "length (lines_of ''r1'' d) = 1" using sample_reserved_run(5,6) by simp
  with d(2) all [of "\<lparr>pq_ReservationId = ''r2'', pq_OrderId = ''o2'', pq_Items = [\<lparr>pi_SkuId = ''A'', pi_Quantity = 1\<rparr>],
      pq_DestinationRegion = '''', pq_ExpiresAt = '''', pq_RequestHash = ''''\<rparr>" "\<lparr>ctx_recording = True\<rparr>"]
  show ?thesis by (simp add: maxCheckItems_def)
qed

end
