(* ===== verification/Spec2Isabelle.thy ===== *)
theory Spec2Isabelle
  imports Canonical_Hash Sample_Runs Edge_Properties Service_Properties Stock_Properties Admin_Properties
    Process_Properties Seed_Data Actor_Backfill Lock_Order Call_Termination
begin

text \<open>
  A verification development of the inventory service (\<open>cmd\<close>, \<open>config\<close>, \<open>db\<close>, \<open>internal\<close>): the service
  that owns stock balances per SKU and warehouse, answers availability questions, places, releases and
  commits reservations for orders, and lets operators receive and adjust stock.

  The program and how its parts interact.
  A request enters through gRPC (\<open>internal/grpc/v1\<close>: six RPCs of the order and catalogue services) or
  through HTTP (\<open>internal/web/v1\<close>: the Backoffice routes, behind two authentication middlewares). Both
  validate, call the logic layer (\<open>internal/logic/v1\<close>), which adds spans, counters and log events, and
  translate its errors. The logic calls the repositories (\<open>internal/core/repository\<close>), which run SQL in
  READ COMMITTED transactions with row locks against the schema of \<open>db/migrations/sql\<close>. The values they
  share are the types of \<open>internal/core/domain\<close>. All correctness rests on the transactions: there is
  no other shared state between concurrent calls.

  The model of state and time.
  \<open>Pg_Schema\<close> is the database: one association list per table, the CHECK, UNIQUE, foreign key, VARCHAR
  and BIGINT constraints as PostgreSQL checks them (a ledger text that is too long is cut when its excess
  is blanks and refused otherwise), and one function per kind of row statement, which
  yields an SQLSTATE or a result with row writes and locks. \<open>Pg_Session\<close> is one client: a \<open>world\<close> holds the
  committed state, the client's open transaction (redo log, locks, aborted flag), the locks taken so far
  in their order (a ghost, which nothing reads), the movement id
  sequence, a clock, a trace of telemetry and a script. Every database call first consumes one event of
  the script: what other transactions committed meanwhile, provided it respects the locks this one
  holds, how much time passed, and whether the call fails, with any error, or a commit's
  acknowledgement is lost. A program is a function from a world to an error or a value and a world; its
  constructs are Go's error returns and \<open>defer\<close>. A script is finite, so every program returns; no fuel is
  used anywhere. A world with an empty script is quiet: the call runs alone and the driver does not fail.

  Theories of the code, in the order of the call stack from below.
  \<open>Prelude\<close>: 64-bit ranges, Go maps, tables as association lists, the lemma collections.
  \<open>Go_Values\<close>, \<open>Go_Text\<close>: \<open>strconv.FormatInt\<close> and \<open>ParseInt\<close>, error values with \<open>errors.Is\<close>, \<open>errors.As\<close> and
  \<open>Error()\<close>. \<open>Go_Time\<close>, \<open>Go_Time_Parse\<close>: formatting and accepting RFC 3339. \<open>Sha256\<close>: the hash function,
  executable. \<open>Domain_Types\<close>: \<open>domain/inventory.go\<close> and \<open>reservation.go\<close>, with \<open>Validate\<close>,
  \<open>AggregateLines\<close> and \<open>CanonicalHash\<close>. \<open>Reservation_Repo\<close>, \<open>Stock_Repo\<close>, \<open>Availability_Repo\<close>,
  \<open>Admin_Repo\<close>: the four repositories, every function and SQL statement. \<open>Telemetry\<close>, \<open>Logic_Telemetry\<close>:
  \<open>tracing.go\<close> and \<open>metrics.go\<close>, a call to the tracer, meter or logger being a record in the trace.
  \<open>Availability_Logic\<close>, \<open>Reservation_Logic\<close>, \<open>Admin_Logic\<close>: the three logic services over any store
  (their interfaces are records of operations). \<open>Grpc_Validation\<close>, \<open>Grpc_Server\<close>: \<open>validate.go\<close>,
  \<open>server.go\<close> and \<open>reservations.go\<close>. \<open>Admin_Http\<close>: \<open>router.go\<close>. \<open>Go_Strings\<close>, \<open>Go_Duration\<close>, \<open>Go_Url\<close>: case
  folding, \<open>time.ParseDuration\<close> with its \<open>float64\<close> rounding, and percent-encoding. \<open>Config\<close>: \<open>config.go\<close> over
  the environment, and the pool of \<open>core/database.go\<close>. \<open>Process_Main\<close>: \<open>cmd/main.go\<close>, subcommands, start-up,
  probes and shutdown, as a history of timed actions over a record of what the surroundings answer.
  \<open>Seed_Data\<close>: the SQL of \<open>db/seed\<close>; \<open>Actor_Backfill\<close>: the backfill of migration 000003. A definition has the name of the Go
  function it translates; where two layers share a name the outer one is prefixed with \<open>service_\<close>,
  \<open>admin_\<close>, \<open>Server_\<close> or \<open>handle_\<close>.

  Theories of the proofs.
  \<open>Rely_Guarantee\<close>: Hoare triples for programs in a world whose other clients keep the invariant and the
  guarantee, one rule per construct and database call. \<open>Inventory_Invariant\<close>: \<open>db_inv\<close>, the invariant of the
  state (constraints, reserved stock equals what open reservations hold and what the ledger sums to), and
  \<open>db_guar\<close>, what a committed change never does. \<open>Allocation_Choice\<close>, \<open>Reservation_Safety\<close>,
  \<open>Transition_Safety\<close>, \<open>Stock_Safety\<close>: every command keeps the invariant, gives the guarantee, and its
  answer is true of the state it commits. \<open>Service_System\<close>: the service as a step relation over whole
  calls, reachable states. \<open>Atomicity\<close>: a failed call changes nothing. \<open>Quiet_Runs\<close>, \<open>Quiet_Transitions\<close>,
  \<open>Quiet_Commands\<close>: the full functional behaviour of each command that runs alone. \<open>Call_Outcomes\<close>:
  outcomes of single calls, as facts about the worlds before and after. \<open>Telemetry_Bounds\<close>: the vocabulary of telemetry.
  \<open>Canonical_Hash\<close>: order-insensitivity and injectivity of the hashed bytes. \<open>Grpc_Contract\<close>,
  \<open>Edge_Outcomes\<close>: validated requests composed with the layers below. \<open>Error_Classes\<close>, \<open>Error_Chains\<close>:
  which errors the repositories can answer and that label and status agree. \<open>Admin_Views\<close>,
  \<open>Admin_Contract\<close>: filters, pages and query texts, and the HTTP routes composed with the layers below.
  \<open>Lock_Acquisition\<close>: the locks every run of the five transactions takes, in their order, however it ends;
  \<open>Lock_Order\<close>: what that order means for transactions that wait for each other. \<open>Call_Bounds\<close>,
  \<open>Call_Termination\<close>: how many database calls an operation makes at most, and that every request returns
  with its transaction over.
  \<open>Config_Properties\<close>: what an accepted configuration guarantees, and reading a DSN back.
  \<open>Process_Lifecycle\<close>: the allowed life cycle of the process as guarded actions, and that \<open>main\<close> refines it;
  \<open>Process_Shutdown\<close>: rules that carry a bound from the signal to the return of \<open>main\<close>;
  \<open>Process_Properties\<close>: the consequences of both.
  \<open>Sample_Runs\<close>: concrete worlds, evaluated by the simplifier, for the witnesses.

  Interfaces. Each boundary at which one layer relies on another is a locale, and each is interpreted on
  the model of the code that provides it: \<open>reservation_store\<close> and \<open>availability_reader\<close> (logic over
  repository), \<open>reservations_api\<close> (transport over logic), \<open>stock_commander\<close> and \<open>admin_reader\<close> (admin logic
  over its two repositories), \<open>rely_guarantee\<close> (the proof rules, over the invariant and guarantee of the
  database) and \<open>error_class\<close> (which errors pass a boundary). \<open>reservation_repository\<close>,
  \<open>availability_repository\<close>, \<open>wired_server\<close> and \<open>wired_admin\<close> are the wiring of \<open>cmd/main.go\<close>.

  Properties. C1 to C13 are below: the invariant, the state machine and the meaning of every answer under
  any interleaving and any faults, and what each command does alone on every branch. C14 to C22 in
  \<open>Edge_Properties\<close> and C23 to C26 in \<open>Service_Properties\<close> carry this to the RPCs, with the status errors
  and the bounds on accepted requests; the counters and the vocabulary of the telemetry are stated there too.
  C30 in \<open>Call_Termination\<close>: every request returns, within a bounded number of database calls. C27 to C29 in \<open>Stock_Properties\<close> are the
  stock commands, C31 to C34 in \<open>Admin_Properties\<close> the HTTP routes, C35 and C36 in \<open>Config_Properties\<close> the
  configuration, C37 and C38 in \<open>Process_Properties\<close> the process, C39 in \<open>Seed_Data\<close> the demo stock, C40 in
  \<open>Lock_Order\<close> the absence of lock cycles among transactions.

  Bounds. Go's \<open>int64\<close> is an \<open>int\<close> whose additions wrap (\<open>wrap64\<close>); PostgreSQL's BIGINT fails with 22003
  instead. The gRPC edge accepts at most 100 lines of at most 10000 units, so no sum it accepts wraps
  (C19). A request makes at most 306 database calls to reserve, and two per line and five to release or
  commit (C30). From the signal to the return of \<open>main\<close> it takes at most
  105 seconds plus what the code sets no deadline for, the closes of the pool and the stop of the profiler (C38).

  What is a parameter because its code is not here: the collation and the \<open>timestamptz\<close> parser of the
  server (\<open>pg_server\<close>), the authentication middlewares, \<open>httpx\<close>'s page parser and the JSON decoder
  (\<open>Httpx\<close>), the sampler's decision (\<open>Context\<close>), every driver error (the script), the environment, and the
  answers of \<open>pgxpool\<close>, \<open>migratex\<close>, \<open>obsx\<close>, \<open>authmw\<close>, the listeners and the servers (\<open>platform\<close>).

  Not modelled.
  \<open>db/migrations/embed.go\<close> and \<open>db/seed/embed.go\<close>, which only declare embedded files; reading the \<open>.env\<close> file
  (\<open>godotenv\<close>), which only contributes to the environment; the attributes of the process's log records; a
  failure of the gRPC listener after the signal. Of the migrations, the indexes, which no operation
  observes. A text value with a NUL byte or invalid UTF-8, which PostgreSQL refuses when it is
  sent, reaches the model's statements like any other; the script covers the refusal, as a fault.
  Row locks are taken in the order of the source but waiting for them takes no step of its own: a wait that
  fails is a fault of the script; that such waits form no cycle, and when they could, is shown apart, in \<open>Lock_Order\<close>.
  Cancellation of a context is the fault it causes in the next database call.
\<close>

section \<open>What holds of every reachable state\<close>

text \<open>
  C1. Stock is never oversold and always accounted for. In every state the service can reach from a
  fresh deployment, under any interleaving of concurrent calls and any driver faults, the reserved
  quantity of every balance lies between 0 and the quantity on hand, equals the quantity of the open
  reservations that hold it, and both quantities equal the sums of the ledger's deltas.
\<close>

theorem stock_accounted:
  assumes "reachable d"
  shows "0 \<le> reserved_of d k \<and> reserved_of d k \<le> on_hand_of d k \<and>
    reserved_of d k = held_qty d k \<and>
    reserved_of d k = moved_reserved d k \<and> on_hand_of d k = moved_on_hand d k"
  using inv_balance_bounds [OF reachable_inv [OF assms], of k] db_invD(5,6) [OF reachable_inv [OF assms], of k]
    reachable_on_hand [OF assms, of k]
  by blast

theorem stock_accounted_witness:
  "held_qty (w_db sample_reserved) (''A'', 1) = 3 \<and> moved_reserved (w_db sample_reserved) (''A'', 1) = 3 \<and>
   moved_on_hand (w_db sample_reserved) (''A'', 1) = 10"
  using stock_accounted [OF sample_reachable(3), of "(''A'', 1)"] sample_reserved_run(3,4) by simp

text \<open>
  C2. The reservation state machine. Whatever calls commit after a state in which a reservation
  exists, the reservation stays, its order reference, request hash, expiry, creation time and lines
  do not change, and once its status is not \<open>reserved\<close> its whole row is frozen.
\<close>

theorem reservation_lifecycle:
  assumes "reachable d" and "evolves d d'" and "map_of (reservations d) i = Some r"
  shows "\<exists>r'. map_of (reservations d') i = Some r' \<and>
    external_reference r' = external_reference r \<and> request_hash r' = request_hash r \<and>
    expires_at r' = expires_at r \<and> res_created_at r' = res_created_at r \<and>
    lines_of i d' = lines_of i d \<and> (res_status r = ReservationReserved \<or> r' = r)"
  using db_guarD(4,5) [OF reachable_guar [OF assms(1,2)] assms(3)] by (auto simp: header_kept_def)

theorem reservation_lifecycle_witness:
  "\<exists>r r'. map_of (reservations (w_db sample_reserved)) ''r1'' = Some r \<and>
     map_of (reservations (w_db sample_committed)) ''r1'' = Some r' \<and>
     request_hash r' = request_hash r \<and> lines_of ''r1'' (w_db sample_committed) = [sample_allocation]"
proof -
  from sample_reserved_run(5) obtain r where r: "map_of (reservations (w_db sample_reserved)) ''r1'' = Some r"
    by (auto simp: status_of_def)
  from reservation_lifecycle [OF sample_reachable(3) sample_evolves(3) r] r sample_reserved_run(6)
  show ?thesis by auto
qed

text \<open>
  C3. The ledger is append-only and a command id is used once: the movements of an earlier state are
  a prefix of those of any later one, and no two movements of a reachable state share a command id.
\<close>

theorem ledger_append_only:
  assumes "reachable d" and "evolves d d'"
  shows "(\<exists>ms. movements d' = movements d @ ms) \<and> distinct (map mv_command_id (movements d'))"
proof
  show "\<exists>ms. movements d' = movements d @ ms" by (rule db_guarD(6) [OF reachable_guar [OF assms]])
  show "distinct (map mv_command_id (movements d'))"
    using db_invD(4) [OF reachable_inv [OF reachable_evolves [OF assms]]]
    unfolding movements_ok_def by (rule conjunct1)
qed

theorem ledger_append_only_witness:
  "(\<exists>ms. movements (w_db sample_reserved) = movements (w_db sample_stocked) @ ms) \<and>
     distinct (map mv_command_id (movements (w_db sample_reserved)))"
  by (rule ledger_append_only [OF sample_reachable(2) sample_evolves(2)])

text \<open>
  C4. One reservation per order: two reservations of a reachable state that carry the same order
  reference are the same reservation.
\<close>

theorem one_reservation_per_order:
  assumes "reachable d"
    and "map_of (reservations d) i = Some r" and "map_of (reservations d) j = Some s"
    and "external_reference r = external_reference s"
  shows "i = j"
  by (rule reservations_ok_refD [OF db_invD(2) [OF reachable_inv [OF assms(1)]] assms(2-4)])

theorem one_reservation_per_order_witness:
  "{j. map_option external_reference (map_of (reservations (w_db sample_reserved)) j) = Some ''o1''} = {''r1''}"
proof -
  have "reserve_answer sample_request sample_result (w_db sample_reserved)"
    using concurrent_run [OF sample_concurrent(2) Reserve_rule sample_reserved_run(1)] by blast
  then have "\<exists>h. matches (rq_ID sample_request) (rq_OrderID sample_request) h (w_db sample_reserved)"
    unfolding reserve_answer_def Let_def by blast
  then obtain r where "map_of (reservations (w_db sample_reserved)) (rq_ID sample_request) = Some r"
    "external_reference r = rq_OrderID sample_request"
    unfolding matches_def by blast
  then have r: "map_of (reservations (w_db sample_reserved)) ''r1'' = Some r" "external_reference r = ''o1''"
    by (simp_all add: sample_request_def)
  have "j = ''r1''" if "map_of (reservations (w_db sample_reserved)) j = Some s" "external_reference s = ''o1''" for j s
    by (rule one_reservation_per_order [OF sample_reachable(3) that(1) r(1)]) (simp add: that(2) r(2))
  then have "j = ''r1''"
    if "map_option external_reference (map_of (reservations (w_db sample_reserved)) j) = Some ''o1''" for j
    using that by (elim map_option_eq_Some [THEN iffD1, elim_format] exE conjE) blast
  moreover have "map_option external_reference (map_of (reservations (w_db sample_reserved)) ''r1'') = Some ''o1''"
    unfolding r(1) by (simp add: r(2))
  ultimately show ?thesis by blast
qed

section \<open>What each call's answer means while others run\<close>

text \<open>
  C5. What \<open>Reserve\<close> answers holds of the committed state at that moment, under any interleaving
  and faults: the reservation exists under the requested id, order and request hash; if the call
  placed it, it is open, its lines are the answered allocations, all lines of the basket are in one
  warehouse, and after the hold every balance still covers its safety stock; if the call replayed
  it, the answered allocations are the stored lines in lock order. The call keeps the invariant.
\<close>

theorem Reserve_answer_sound:
  assumes "concurrent w" and "Reserve req w = (Inr res, w')"
  shows "db_inv (w_db w') \<and> db_guar (w_db w) (w_db w') \<and> reserve_answer req res (w_db w')"
  using concurrent_run [OF assms(1) Reserve_rule assms(2)] .

theorem Reserve_answer_sound_witness:
  "db_inv (w_db sample_reserved) \<and> reserve_answer sample_request sample_result (w_db sample_reserved)"
  using Reserve_answer_sound [OF sample_concurrent(2) sample_reserved_run(1)] by blast

text \<open>
  When \<open>Release\<close> answers success the answer is \<open>released\<close>, and the reservation is released in
  the committed state or did not exist when the call began.
\<close>

theorem Release_answer_sound:
  assumes "concurrent w" and "Release rid reason w = (Inr s, w')"
  shows "db_inv (w_db w') \<and> db_guar (w_db w) (w_db w') \<and> s = ReservationReleased \<and>
    (status_of (w_db w') rid = Some ReservationReleased \<or> status_of (w_db w) rid = None)"
  using concurrent_run [OF assms(1) Release_rule assms(2)] by (simp add: transition_answer_def)

theorem Release_answer_sound_witness:
  "status_of (w_db sample_released) ''r1'' = Some ReservationReleased \<and> db_inv (w_db sample_released)"
  using Release_answer_sound [OF sample_concurrent(3) sample_closed_run(1)] sample_reserved_run(5) by auto

text \<open>
  When \<open>Commit\<close> answers success the answer is \<open>committed\<close> and the reservation is committed in
  the committed state; an unknown id is never answered with success.
\<close>

theorem Commit_answer_sound:
  assumes "concurrent w" and "Commit rid w = (Inr s, w')"
  shows "db_inv (w_db w') \<and> db_guar (w_db w) (w_db w') \<and> s = ReservationCommitted \<and>
    status_of (w_db w') rid = Some ReservationCommitted"
  using concurrent_run [OF assms(1) Commit_rule assms(2)] by (simp add: transition_answer_def)

theorem Commit_answer_sound_witness:
  "status_of (w_db sample_committed) ''r1'' = Some ReservationCommitted \<and> db_inv (w_db sample_committed)"
  using Commit_answer_sound [OF sample_concurrent(3) sample_closed_run(2)] by auto

text \<open>
  C6. Whether a stock command answers that it applied its change or that it was a replay, the ledger
  of the committed state then holds a movement with the command's id, SKU, warehouse, type, deltas,
  actor and reason. A replay finds the reason exactly as it was sent; a command that applied its change
  finds it as its VARCHAR(64) column takes it: the sent text itself up to 64 characters, and of a longer
  one, which the column takes only if blanks are all it has too many, the first 64.
\<close>

theorem stock_command_recorded:
  assumes "concurrent w"
  shows "(ReceiveStock cmd w = (Inr b, w') \<longrightarrow> db_inv (w_db w') \<and> db_guar (w_db w) (w_db w') \<and>
      recorded b cmd MovementReceive (cmd_Quantity cmd) (w_db w')) \<and>
    (AdjustOnHand cmd w = (Inr b, w') \<longrightarrow> db_inv (w_db w') \<and> db_guar (w_db w) (w_db w') \<and>
      recorded b cmd MovementAdjust (cmd_Quantity cmd) (w_db w')) \<and>
    (SetSafetyStock cmd w = (Inr b, w') \<longrightarrow> db_inv (w_db w') \<and> db_guar (w_db w) (w_db w') \<and>
      recorded b cmd MovementSetSafetyStock 0 (w_db w'))"
  using concurrent_run [OF assms ReceiveStock_rule] concurrent_run [OF assms AdjustOnHand_rule]
    concurrent_run [OF assms SetSafetyStock_rule] by blast

theorem stock_command_recorded_witness:
  "recorded True sample_receipt MovementReceive 10 (w_db sample_stocked)"
proof -
  have "cmd_Quantity sample_receipt = 10" by (simp add: sample_receipt_def)
  with stock_command_recorded [OF sample_concurrent(1), of sample_receipt True sample_stocked]
    sample_stocked_run(1) show ?thesis by simp
qed


section \<open>What each call does when it runs alone\<close>

text \<open>
  C7. Placing a reservation. In a quiet world, if some active warehouse can serve the whole basket
  and the request's values fit their columns and are unused, \<open>Reserve\<close> succeeds: it answers the
  allocations of the lowest-id such warehouse, the reservation is open with exactly these lines, the
  reserved quantities grow by them and nothing on hand moves.
\<close>

theorem Reserve_places:
  assumes "quiet w" and "db_inv (w_db w)"
    and "serving_warehouse (w_db w) (rq_Items req) = Some wh" and "admissible req wh (w_db w)"
  shows "\<exists>w'. Reserve req w = (Inr (reserve_result req wh), w') \<and> quiet w' \<and> db_inv (w_db w') \<and>
    status_of (w_db w') (rq_ID req) = Some ReservationReserved \<and>
    lines_of (rq_ID req) (w_db w') = allocations_at wh (rq_Items req) \<and>
    (\<forall>k. on_hand_of (w_db w') k = on_hand_of (w_db w) k \<and>
      reserved_of (w_db w') k = reserved_of (w_db w) k + sum_at al_Quantity (allocations_at wh (rq_Items req)) k)"
  using Reserve_done [OF assms] by metis

theorem Reserve_places_witness:
  "\<exists>w'. Reserve sample_request sample_stocked = (Inr sample_result, w') \<and>
     reserved_of (w_db w') (''A'', 1) = reserved_of (w_db sample_stocked) (''A'', 1) + 3"
proof -
  have "reserve_result sample_request 1 = sample_result \<and>
      sum_at al_Quantity (allocations_at 1 (rq_Items sample_request)) (''A'', 1) = 3"
    by code_simp
  then show ?thesis
    using Reserve_places [OF quiet_samples(2) reachable_inv [OF sample_reachable(2)] sample_servable] by auto
qed

text \<open>
  C8. Refusing a reservation. If no active warehouse can serve the basket, \<open>Reserve\<close> fails with the
  SKUs inventory does not track, or, if it tracks them all, with the shortages against the lowest-id
  active warehouse; the database is left as it was.
\<close>

theorem Reserve_refuses:
  assumes "quiet w" and "db_inv (w_db w)" and "serving_warehouse (w_db w) (rq_Items req) = None"
    and "header_fits req (w_db w)"
    and "map_of (reservations (w_db w)) (rq_ID req) = None" and "ref_ids (w_db w) (rq_OrderID req) = []"
  shows "\<exists>w'. Reserve req w = (Inl (rejection (w_db w) (rq_Items req)), w') \<and> quiet w' \<and> w_db w' = w_db w"
  using error_result [OF Reserve_rejected [OF assms(2-6)] quiet_rest [OF assms(1)]] by (metis rest_def)

theorem Reserve_refuses_witness:
  "\<exists>w'. Reserve sample_large_request sample_stocked =
       (Inl (InsufficientStockError [\<lparr>sh_SKUID = ''A'', sh_Requested = 30, sh_ATP = 10\<rparr>]), w') \<and>
     w_db w' = w_db sample_stocked"
  using Reserve_refuses [OF quiet_samples(2) reachable_inv [OF sample_reachable(2)] sample_unservable(1-4)]
  unfolding sample_unservable(5) by blast

text \<open>
  C9. Failing leaves no trace. When no other client changes the database, any command that answers
  an error, wherever and with whatever error the driver failed, has left the committed state as it
  was. The one exception is a commit whose acknowledgement is lost.
\<close>

theorem failure_leaves_no_trace:
  assumes "alone w" and "run_call c w = (Inl e, w')"
  shows "w_db w' = w_db w"
  using triple_Inl [OF run_call_error _ assms(2), of "w_db w"] assms(1) by (simp add: still_def)

theorem failure_leaves_no_trace_witness:
  "w_db (snd (run_call (CallReserve sample_request) sample_failing)) = w_db sample_stocked"
proof -
  obtain e where "fst (run_call (CallReserve sample_request) sample_failing) = Inl e"
    using sample_failing_run(2) by (cases "fst (run_call (CallReserve sample_request) sample_failing)") auto
  then have "run_call (CallReserve sample_request) sample_failing =
      (Inl e, snd (run_call (CallReserve sample_request) sample_failing))" by (simp add: prod_eq_iff)
  from failure_leaves_no_trace [OF sample_failing_run(1) this] show ?thesis by (simp add: sample_failing_def)
qed

text \<open>
  C10. Retrying a reservation. A request whose id is already known changes nothing: with the same
  request hash and order it is answered with the stored status and lines, otherwise it fails with
  the idempotency conflict.
\<close>

theorem Reserve_retry:
  assumes "quiet w" and "header_fits req (w_db w)" and "map_of (reservations (w_db w)) (rq_ID req) = Some row"
  shows "\<exists>r w'. Reserve req w = (r, w') \<and> quiet w' \<and> w_db w' = w_db w \<and>
    (if request_hash row = CanonicalHash (rq_Items req) (rq_DestinationRegion req) \<and>
        external_reference row = rq_OrderID req
     then r = Inr (stored_result (rq_ID req) row (w_db w))
     else \<exists>e. r = Inl e \<and> errors_Is e ErrIdempotencyConflict)"
proof -
  from Reserve_known_id [OF quiet_rest [OF assms(1)] assms(2)] assms(3) obtain w' where
    run: "Reserve req w = (replay_outcome (rq_ID req) (rq_OrderID req)
       (CanonicalHash (rq_Items req) (rq_DestinationRegion req)) (w_db w), w')" and w': "rest (w_db w) w'"
    by auto
  show ?thesis
    by (rule exI, rule exI, rule conjI [OF run]) (use w' assms(3) in \<open>auto simp: rest_def replay_outcome_def\<close>)
qed

theorem Reserve_retry_witness:
  "\<exists>w'. Reserve sample_request sample_reserved = (Inr (sample_result\<lparr>rr_Replayed := True\<rparr>), w') \<and>
     w_db w' = w_db sample_reserved"
proof -
  obtain row where row: "map_of (reservations (w_db sample_reserved)) (rq_ID sample_request) = Some row"
    "external_reference row = rq_OrderID sample_request"
    "request_hash row = CanonicalHash (rq_Items sample_request) (rq_DestinationRegion sample_request)"
    by (rule sample_row)
  have "res_status row = ReservationReserved"
    using sample_reserved_run(5) row(1) by (simp add: status_of_def sample_request_def)
  then have "stored_result (rq_ID sample_request) row (w_db sample_reserved) = sample_result\<lparr>rr_Replayed := True\<rparr>"
    using sample_reserved_run(6)
    by (simp add: stored_result_def sample_result_def sample_request_def select_lines_def)
  with Reserve_retry [OF sample_reserved_run(2) sample_header_fits row(1)] row(2,3) show ?thesis by auto
qed

text \<open>
  One order, one reservation id. A request for an order that another reservation already holds
  fails with the idempotency conflict and changes nothing.
\<close>

theorem Reserve_order_taken:
  assumes "quiet w" and "header_fits req (w_db w)" and "map_of (reservations (w_db w)) (rq_ID req) = None"
    and "map_of (reservations (w_db w)) i = Some row" and "external_reference row = rq_OrderID req"
  shows "\<exists>e w'. Reserve req w = (Inl e, w') \<and> errors_Is e ErrIdempotencyConflict \<and> w_db w' = w_db w"
proof -
  have "i \<in> set (ref_ids (w_db w) (rq_OrderID req))" using assms(4,5) by (simp add: in_ref_ids)
  then have "ref_ids (w_db w) (rq_OrderID req) \<noteq> []" by auto
  from Reserve_known_order [OF quiet_rest [OF assms(1)] assms(2,3) this] show ?thesis by (auto simp: rest_def)
qed

theorem Reserve_order_taken_witness:
  "\<exists>e w'. Reserve (sample_request\<lparr>rq_ID := ''r2''\<rparr>) sample_reserved = (Inl e, w') \<and>
     errors_Is e ErrIdempotencyConflict"
proof -
  obtain row where row: "map_of (reservations (w_db sample_reserved)) (rq_ID sample_request) = Some row"
    "external_reference row = rq_OrderID sample_request" by (rule sample_row)
  have fits: "header_fits (sample_request\<lparr>rq_ID := ''r2''\<rparr>) (w_db sample_reserved)"
    using sample_header_fits by (simp add: header_fits_def sample_request_def varchar_def char_length_def)
  have new: "map_of (reservations (w_db sample_reserved)) (rq_ID (sample_request\<lparr>rq_ID := ''r2''\<rparr>)) = None"
    using sample_second_id by simp
  have "external_reference row = rq_OrderID (sample_request\<lparr>rq_ID := ''r2''\<rparr>)" using row(2) by simp
  from Reserve_order_taken [OF sample_reserved_run(2) fits new row(1) this] show ?thesis by blast
qed

text \<open>
  C11. Closing an open reservation in a quiet world always succeeds, provided its ledger ids are free.
  Releasing it makes it released, every line's quantity leaves the reserved quantity and nothing on hand
  moves; committing it makes it committed, and every line's quantity leaves both quantities. Neither a
  missing balance row nor a CHECK can stop either.
\<close>

theorem open_reservation_closes:
  assumes "quiet w" and "db_inv (w_db w)" and "status_of (w_db w) rid = Some ReservationReserved"
    and "varchar 255 rid" and "varchar 64 reason"
  shows "((\<forall>a \<in> set (lines_of rid (w_db w)). close_fits (w_db w) ''rel:'' rid a) \<longrightarrow>
     (\<exists>w'. Release rid reason w = (Inr ReservationReleased, w') \<and> quiet w' \<and> db_inv (w_db w') \<and>
       status_of (w_db w') rid = Some ReservationReleased \<and>
       (\<forall>k. on_hand_of (w_db w') k = on_hand_of (w_db w) k \<and>
         reserved_of (w_db w') k = reserved_of (w_db w) k - sum_at al_Quantity (lines_of rid (w_db w)) k))) \<and>
    ((\<forall>a \<in> set (lines_of rid (w_db w)). close_fits (w_db w) ''cmt:'' rid a) \<longrightarrow>
     (\<exists>w'. Commit rid w = (Inr ReservationCommitted, w') \<and> quiet w' \<and> db_inv (w_db w') \<and>
       status_of (w_db w') rid = Some ReservationCommitted \<and>
       (\<forall>k. on_hand_of (w_db w') k = on_hand_of (w_db w) k - sum_at al_Quantity (lines_of rid (w_db w)) k \<and>
         reserved_of (w_db w') k = reserved_of (w_db w) k - sum_at al_Quantity (lines_of rid (w_db w)) k)))"
  using Release_done [OF assms(1-3) _ assms(4,5)] Commit_done [OF assms(1-3) _ assms(4)]
  by (intro conjI impI) metis+

theorem open_reservation_closes_witness:
  "(\<exists>w'. Release ''r1'' ''changed mind'' sample_reserved = (Inr ReservationReleased, w') \<and>
      reserved_of (w_db w') (''A'', 1) = 0) \<and>
   (\<exists>w'. Commit ''r1'' sample_reserved = (Inr ReservationCommitted, w') \<and>
      on_hand_of (w_db w') (''A'', 1) = 7 \<and> reserved_of (w_db w') (''A'', 1) = 0)"
proof -
  note closes = open_reservation_closes [OF sample_reserved_run(2) reachable_inv [OF sample_reachable(3)]
      sample_reserved_run(5) sample_close_fits(3,4)]
  show ?thesis
    using mp [OF conjunct1 [OF closes] sample_close_fits(1)] mp [OF conjunct2 [OF closes] sample_close_fits(2)]
      sample_reserved_run(3,4,6)
    by (auto simp: sample_allocation_def akey_def)
qed

text \<open>
  C12. Compensation is exact: reserving and then releasing leaves every quantity on hand and every
  reserved quantity where it was, for every balance.
\<close>

theorem Reserve_Release_roundtrip:
  assumes "quiet w" and "db_inv (w_db w)"
    and "serving_warehouse (w_db w) (rq_Items req) = Some wh" and "admissible req wh (w_db w)"
    and "Reserve req w = (Inr res, w1)"
    and "\<forall>a \<in> set (lines_of (rq_ID req) (w_db w1)). close_fits (w_db w1) ''rel:'' (rq_ID req) a"
    and "varchar 64 reason"
  shows "\<exists>w2. Release (rq_ID req) reason w1 = (Inr ReservationReleased, w2) \<and>
    (\<forall>k. on_hand_of (w_db w2) k = on_hand_of (w_db w) k \<and> reserved_of (w_db w2) k = reserved_of (w_db w) k)"
proof -
  from Reserve_done [OF assms(1-4)] assms(5) have r: "quiet w1" "db_inv (w_db w1)"
    "status_of (w_db w1) (rq_ID req) = Some ReservationReserved"
    "lines_of (rq_ID req) (w_db w1) = allocations_at wh (rq_Items req)"
    "\<And>k. on_hand_of (w_db w1) k = on_hand_of (w_db w) k"
    "\<And>k. reserved_of (w_db w1) k = reserved_of (w_db w) k + sum_at al_Quantity (allocations_at wh (rq_Items req)) k"
    by auto
  have "varchar 255 (rq_ID req)" using assms(4) by (simp add: admissible_def)
  from Release_done [OF r(1-3) assms(6) this assms(7)] r(4-6) show ?thesis by (metis add_diff_cancel_right')
qed

theorem Reserve_Release_roundtrip_witness:
  "\<exists>w2. Release ''r1'' ''changed mind'' sample_reserved = (Inr ReservationReleased, w2) \<and>
     reserved_of (w_db w2) (''A'', 1) = reserved_of (w_db sample_stocked) (''A'', 1)"
proof -
  have rid: "rq_ID sample_request = ''r1''" by (simp add: sample_request_def)
  from Reserve_Release_roundtrip [OF quiet_samples(2) reachable_inv [OF sample_reachable(2)] sample_servable
      sample_reserved_run(1), unfolded rid, OF sample_close_fits(1,4)] show ?thesis by blast
qed

text \<open>
  C13. The terminal states. Releasing or committing a reservation that is not open never changes
  the database. Releasing answers \<open>released\<close> for an unknown or released reservation and the invalid
  transition for a committed or expired one; committing answers \<open>committed\<close> for a committed
  reservation, not found for an unknown one and the invalid transition for a released or expired one.
\<close>

theorem closed_reservation_answers:
  assumes "quiet w" and "db_inv (w_db w)" and "status_of (w_db w) rid \<noteq> Some ReservationReserved"
  shows "\<exists>r u s v. Release rid reason w = (r, u) \<and> w_db u = w_db w \<and> Commit rid w = (s, v) \<and> w_db v = w_db w \<and>
    (case status_of (w_db w) rid of
       None \<Rightarrow> r = Inr ReservationReleased \<and> (\<exists>e. s = Inl e \<and> errors_Is e ErrReservationNotFound)
     | Some st \<Rightarrow>
         (if st = ReservationReleased
          then r = Inr ReservationReleased \<and> (\<exists>e. s = Inl e \<and> errors_Is e ErrInvalidTransition)
          else if st = ReservationCommitted
          then (\<exists>e. r = Inl e \<and> errors_Is e ErrInvalidTransition) \<and> s = Inr ReservationCommitted
          else st = ReservationExpired \<and> (\<exists>e. r = Inl e \<and> errors_Is e ErrInvalidTransition) \<and>
            (\<exists>e. s = Inl e \<and> errors_Is e ErrInvalidTransition)))"
proof -
  from transition_decided [where decide = "decide_release rid", OF assms(1) decided(1) [OF assms(2,3)]]
  obtain u where u: "Release rid reason w = (decide_release rid (current_status rid (w_db w)), u)" "w_db u = w_db w"
    unfolding Release_def by blast
  from transition_decided [where decide = "decide_commit rid", OF assms(1) decided(2) [OF assms(2,3)]]
  obtain v where v: "Commit rid w = (decide_commit rid (current_status rid (w_db w)), v)" "w_db v = w_db w"
    unfolding Commit_def by blast
  show ?thesis
    using u v known_status [OF assms(2), of rid] assms(3)
    by (cases "status_of (w_db w) rid")
       (auto simp: decide_release_def decide_commit_def current_status_def reservation_status_defs
          reservation_statuses_def)
qed

theorem closed_reservation_answers_witness:
  "(\<exists>u. Release ''r9'' '''' sample_start = (Inr ReservationReleased, u)) \<and>
   (\<exists>e v. Commit ''r9'' sample_start = (Inl e, v) \<and> errors_Is e ErrReservationNotFound)"
proof -
  have "status_of (w_db sample_start) ''r9'' = None"
    by (simp add: status_of_def sample_start_def migrated_def)
  with closed_reservation_answers [OF quiet_samples(1) reachable_inv [OF sample_reachable(1)], of "''r9''" "''''"]
  show ?thesis by auto
qed

end
